(* ===== verification/Prelude.thy ===== *)
theory Prelude
  imports Complex_Main "HOL-Library.Word" "HOL-Library.Char_ord" "HOL-Library.List_Lexorder"
    "HOL-Library.Code_Target_Nat"
begin

text \<open>
  Shared vocabulary of the development: text as the code sees it, machine integers,
  fallible results and state-passing actions, and the lemmas about them that the
  component theories use.

  Text.  A Rust \<^verbatim>\<open>String\<close> is a list of Unicode scalar values.  It is represented by a HOL
  \<^typ>\<open>string\<close>, one \<^typ>\<open>char\<close> per scalar value, which covers the scalar values U+0000 to
  U+00FF.  On that range the Unicode properties the code asks for (alphabetic, white space,
  lower case) are written out below, and \<open>utf8\<close> is the byte view the code obtains with
  \<^verbatim>\<open>as_bytes\<close> or \<^verbatim>\<open>bytes\<close>.  Scalar values from U+0100 on are outside the model.

  Integers.  An \<^verbatim>\<open>i64\<close> is an \<^typ>\<open>int\<close> with its range and its saturating operations written
  out; values that the code uses bitwise (digests, the backoff entropy, tokens) are words.
\<close>

named_theorems text_simps \<open>how the text operations compute\<close>
named_theorems act_simps \<open>how the state-passing combinators compute\<close>
named_theorems keeps_intros \<open>invariants through the state-passing combinators\<close>

section \<open>Characters and text\<close>

abbreviation scalar :: "char \<Rightarrow> nat" where
  "scalar c \<equiv> of_char c"

definition is_ascii_digit :: "char \<Rightarrow> bool" where
  "is_ascii_digit c \<longleftrightarrow> 48 \<le> scalar c \<and> scalar c \<le> 57"

definition is_ascii_alphabetic :: "char \<Rightarrow> bool" where
  "is_ascii_alphabetic c \<longleftrightarrow>
     65 \<le> scalar c \<and> scalar c \<le> 90 \<or> 97 \<le> scalar c \<and> scalar c \<le> 122"

definition is_ascii_alphanumeric :: "char \<Rightarrow> bool" where
  "is_ascii_alphanumeric c \<longleftrightarrow> is_ascii_alphabetic c \<or> is_ascii_digit c"

definition is_alphabetic :: "char \<Rightarrow> bool" where
  "is_alphabetic c \<longleftrightarrow> is_ascii_alphabetic c \<or> scalar c \<in> {170, 181, 186}
     \<or> 192 \<le> scalar c \<and> scalar c \<noteq> 215 \<and> scalar c \<noteq> 247"

definition is_whitespace :: "char \<Rightarrow> bool" where
  "is_whitespace c \<longleftrightarrow> 9 \<le> scalar c \<and> scalar c \<le> 13 \<or> scalar c \<in> {32, 133, 160}"

definition to_ascii_lower :: "char \<Rightarrow> char" where
  "to_ascii_lower c = (if 65 \<le> scalar c \<and> scalar c \<le> 90 then char_of (scalar c + 32) else c)"

definition to_lower :: "char \<Rightarrow> char" where
  "to_lower c =
     (if 65 \<le> scalar c \<and> scalar c \<le> 90 \<or> 192 \<le> scalar c \<and> scalar c \<le> 222 \<and> scalar c \<noteq> 215
      then char_of (scalar c + 32) else c)"

definition to_lowercase :: "string \<Rightarrow> string" where
  "to_lowercase s = map to_lower s"

definition to_ascii_lowercase :: "string \<Rightarrow> string" where
  "to_ascii_lowercase s = map to_ascii_lower s"

definition trim_start_by :: "(char \<Rightarrow> bool) \<Rightarrow> string \<Rightarrow> string" where
  "trim_start_by p s = dropWhile p s"

definition trim_end_by :: "(char \<Rightarrow> bool) \<Rightarrow> string \<Rightarrow> string" where
  "trim_end_by p s = rev (dropWhile p (rev s))"

definition trim :: "string \<Rightarrow> string" where
  "trim s = trim_end_by is_whitespace (trim_start_by is_whitespace s)"

definition starts_with :: "string \<Rightarrow> string \<Rightarrow> bool" where
  "starts_with s p \<longleftrightarrow> take (length p) s = p"

fun str_contains :: "string \<Rightarrow> string \<Rightarrow> bool" where
  "str_contains [] p \<longleftrightarrow> p = []"
| "str_contains (c # s) p \<longleftrightarrow> starts_with (c # s) p \<or> str_contains s p"

text \<open>The UTF-8 bytes of a text: one byte below U+0080, two bytes from there to U+00FF.\<close>

type_synonym byte = "8 word"

definition utf8_char :: "char \<Rightarrow> byte list" where
  "utf8_char c = (let n = scalar c in
     if n < 128 then [of_nat n] else [of_nat (192 + n div 64), of_nat (128 + n mod 64)])"

definition utf8 :: "string \<Rightarrow> byte list" where
  "utf8 s = concat (map utf8_char s)"

lemma utf8_Nil [simp]: "utf8 [] = []"
  and utf8_Cons [simp]: "utf8 (c # s) = utf8_char c @ utf8 s"
  by (simp_all add: utf8_def)

lemma unat_byte_of_nat [simp]: "unat (of_nat n :: byte) = n mod 256"
  by (simp add: unat_of_nat)

lemma scalar_less_256 [simp]: "scalar c < 256"
  by (metis range_nat_of_char atLeastLessThan_iff rangeI)

lemma map_unat_utf8_char:
  "map unat (utf8_char c) =
     (if scalar c < 128 then [scalar c] else [192 + scalar c div 64, 128 + scalar c mod 64])"
proof -
  have "scalar c < 256" by simp
  then show ?thesis
    by (simp add: utf8_char_def Let_def del: of_nat_add scalar_less_256)
qed

lemma utf8_char_not_Nil [simp]: "utf8_char c \<noteq> []"
  by (simp add: utf8_char_def Let_def)

text \<open>No encoding of a character is a proper prefix of another one, so the byte view of a
  text determines the text.\<close>

lemma utf8_char_append_inject:
  assumes "utf8_char c @ xs = utf8_char d @ ys"
  shows "c = d \<and> xs = ys"
proof -
  let ?n = "scalar c" and ?m = "scalar d"
  have bytes: "map unat (utf8_char c) @ map unat xs = map unat (utf8_char d) @ map unat ys"
    using arg_cong [OF assms, of "map unat"] by simp
  have bounds: "?n < 256" "?m < 256" by simp_all
  have "?n = ?m"
  proof (cases "?n < 128"; cases "?m < 128")
    assume "\<not> ?n < 128" "\<not> ?m < 128"
    then have "?n div 64 = ?m div 64" "?n mod 64 = ?m mod 64"
      using bytes by (simp_all add: map_unat_utf8_char)
    then show ?thesis by (metis div_mult_mod_eq)
  qed (use bytes bounds in \<open>auto simp: map_unat_utf8_char\<close>)
  then show ?thesis using assms by simp
qed

lemma utf8_inject [simp]: "utf8 s = utf8 t \<longleftrightarrow> s = t"
proof
  show "utf8 s = utf8 t \<Longrightarrow> s = t"
  proof (induction s arbitrary: t)
    case Nil
    then show ?case by (cases t) auto
  next
    case (Cons c s)
    then show ?case by (cases t) (auto dest: utf8_char_append_inject)
  qed
qed simp

subsection \<open>Trimming\<close>

lemma trim_end_by_Nil [simp]: "trim_end_by p [] = []"
  by (simp add: trim_end_by_def)

lemma trim_Nil [simp]: "trim [] = []"
  by (simp add: trim_def trim_start_by_def)

lemma dropWhile_rev_last:
  "xs \<noteq> [] \<Longrightarrow> \<not> p (last xs) \<Longrightarrow> rev (dropWhile p (rev xs)) = xs"
  by (cases xs rule: rev_cases) auto

lemma last_trim_end_by: "trim_end_by p s \<noteq> [] \<Longrightarrow> \<not> p (last (trim_end_by p s))"
  by (simp add: trim_end_by_def last_rev hd_dropWhile)

lemma hd_trim_end_by: "trim_end_by p s \<noteq> [] \<Longrightarrow> hd (trim_end_by p s) = hd s"
proof -
  assume ne: "trim_end_by p s \<noteq> []"
  have "trim_end_by p s @ rev (takeWhile p (rev s)) = s"
    by (metis rev_append rev_rev_ident takeWhile_dropWhile_id trim_end_by_def)
  then show ?thesis using ne by (metis hd_append2)
qed

lemma trim_not_Nil_ends:
  assumes "trim s \<noteq> []"
  shows "\<not> is_whitespace (hd (trim s)) \<and> \<not> is_whitespace (last (trim s))"
proof -
  have "dropWhile is_whitespace s \<noteq> []"
    using assms by (metis trim_def trim_end_by_Nil trim_start_by_def)
  then have "\<not> is_whitespace (hd (trim s))"
    using assms hd_trim_end_by hd_dropWhile unfolding trim_def trim_start_by_def by metis
  with assms show ?thesis
    using last_trim_end_by unfolding trim_def by blast
qed

lemma trim_idem [simp]: "trim (trim s) = trim s"
proof (cases "trim s")
  case Nil
  then show ?thesis by simp
next
  case (Cons c t)
  then have "\<not> is_whitespace c" "\<not> is_whitespace (last (trim s))"
    using trim_not_Nil_ends [of s] by auto
  then show ?thesis
    using Cons dropWhile_rev_last [of "trim s" is_whitespace]
    by (simp add: trim_def [of "c # t"] trim_start_by_def trim_end_by_def)
qed

section \<open>Machine integers\<close>

type_synonym i64 = int
type_synonym u64 = "64 word"
type_synonym u32 = "32 word"
type_synonym u16 = "16 word"

definition i64_max :: int where "i64_max = 9223372036854775807"
definition i64_min :: int where "i64_min = -9223372036854775808"
definition u64_max :: int where "u64_max = 18446744073709551615"

definition in_i64 :: "int \<Rightarrow> bool" where
  "in_i64 n \<longleftrightarrow> i64_min \<le> n \<and> n \<le> i64_max"

definition i64_saturating_add :: "i64 \<Rightarrow> i64 \<Rightarrow> i64" where
  "i64_saturating_add a b = max i64_min (min i64_max (a + b))"

lemma in_i64_saturating_add [simp]: "in_i64 (i64_saturating_add a b)"
  by (simp add: in_i64_def i64_saturating_add_def i64_min_def i64_max_def)

lemma i64_saturating_add_exact: "in_i64 (a + b) \<Longrightarrow> i64_saturating_add a b = a + b"
  by (simp add: in_i64_def i64_saturating_add_def)

text \<open>Decimal digits of a non-negative number, and of a signed one as \<^verbatim>\<open>i64::to_string\<close> prints it.\<close>

definition digit_char :: "int \<Rightarrow> char" where
  "digit_char d = char_of (48 + d)"

function show_digits :: "int \<Rightarrow> string" where
  "show_digits n =
     (if n < 10 then [digit_char n] else show_digits (n div 10) @ [digit_char (n mod 10)])"
  by pat_completeness auto
termination by (relation "measure nat") auto

declare show_digits.simps [simp del]

definition show_int :: "int \<Rightarrow> string" where
  "show_int n = (if n < 0 then CHR ''-'' # show_digits (- n) else show_digits n)"

definition digits_value :: "string \<Rightarrow> int" where
  "digits_value ds = foldl (\<lambda>acc c. 10 * acc + (of_char c - 48)) 0 ds"

definition parse_digits :: "string \<Rightarrow> int option" where
  "parse_digits ds =
     (if ds \<noteq> [] \<and> list_all is_ascii_digit ds then Some (digits_value ds) else None)"

text \<open>\<^verbatim>\<open>str::parse::<i64>\<close>: an optional sign, at least one digit, no overflow.\<close>

definition parse_i64 :: "string \<Rightarrow> i64 option" where
  "parse_i64 s =
     (case (case s of
              [] \<Rightarrow> None
            | c # ds \<Rightarrow>
                if c = CHR ''-'' then map_option uminus (parse_digits ds)
                else if c = CHR ''+'' then parse_digits ds
                else parse_digits s) of
        None \<Rightarrow> None
      | Some n \<Rightarrow> if in_i64 n then Some n else None)"

lemma digit_char_facts [simp]:
  assumes "0 \<le> d" "d < 10"
  shows "is_ascii_digit (digit_char d)" and "of_char (digit_char d) = 48 + d"
proof -
  show v: "of_char (digit_char d) = 48 + d"
    using assms by (simp add: digit_char_def)
  have "int (scalar (digit_char d)) = 48 + d"
    using v by (simp add: of_nat_of_char)
  then show "is_ascii_digit (digit_char d)"
    using assms by (simp add: is_ascii_digit_def)
qed

lemma show_digits_digits: "0 \<le> n \<Longrightarrow> show_digits n \<noteq> [] \<and> list_all is_ascii_digit (show_digits n)"
proof (induction n rule: show_digits.induct)
  case (1 n)
  then show ?case by (subst (1 2) show_digits.simps) simp
qed

lemma digits_value_show_digits [simp]: "0 \<le> n \<Longrightarrow> digits_value (show_digits n) = n"
proof (induction n rule: show_digits.induct)
  case (1 n)
  then show ?case
    by (subst show_digits.simps) (auto simp: digits_value_def)
qed

lemma parse_digits_show_digits [simp]: "0 \<le> n \<Longrightarrow> parse_digits (show_digits n) = Some n"
  by (simp add: parse_digits_def show_digits_digits)

lemma show_digits_head: "0 \<le> n \<Longrightarrow> show_digits n = c # ds \<Longrightarrow> is_ascii_digit c"
  using show_digits_digits [of n] by simp

lemma sign_not_digit [simp]: "\<not> is_ascii_digit CHR ''-''" "\<not> is_ascii_digit CHR ''+''"
  by (simp_all add: is_ascii_digit_def)

lemma parse_i64_show_int: "in_i64 n \<Longrightarrow> parse_i64 (show_int n) = Some n"
proof (cases "n < 0")
  case True
  then show "in_i64 n \<Longrightarrow> ?thesis" by (simp add: parse_i64_def show_int_def)
next
  case False
  then obtain c ds where s: "show_digits n = c # ds"
    using show_digits_digits [of n] by (cases "show_digits n") auto
  then have "c \<noteq> CHR ''-''" "c \<noteq> CHR ''+''" using False show_digits_head [of n c ds] by force+
  then show "in_i64 n \<Longrightarrow> ?thesis"
    using False s parse_digits_show_digits [of n] by (simp add: parse_i64_def show_int_def)
qed

lemma parse_i64_in_range: "parse_i64 s = Some n \<Longrightarrow> in_i64 n"
  by (auto simp: parse_i64_def split: option.splits if_splits)

section \<open>Fallible results and state-passing actions\<close>

text \<open>
  A fallible computation returns \<open>'e + 'a\<close>: \<open>Inl\<close> for an error (a returned \<^verbatim>\<open>Err\<close> or a
  panic, as the error type says), \<open>Inr\<close> for the value.  A computation on a state \<open>'s\<close> also
  returns the state it leaves, in the error case too: what was written before the error stays
  written.  \<open>andthen\<close> is the sequencing that the \<^verbatim>\<open>?\<close> operator gives.
\<close>

type_synonym ('s, 'e, 'a) act = "'s \<Rightarrow> ('e + 'a) \<times> 's"

definition ret :: "'a \<Rightarrow> ('s, 'e, 'a) act" where
  "ret x = (\<lambda>s. (Inr x, s))"

definition raise :: "'e \<Rightarrow> ('s, 'e, 'a) act" where
  "raise e = (\<lambda>s. (Inl e, s))"

definition andthen :: "('s, 'e, 'a) act \<Rightarrow> ('a \<Rightarrow> ('s, 'e, 'b) act) \<Rightarrow> ('s, 'e, 'b) act" where
  "andthen m f = (\<lambda>s. case m s of (Inl e, s') \<Rightarrow> (Inl e, s') | (Inr x, s') \<Rightarrow> f x s')"

definition reads :: "('s \<Rightarrow> 'a) \<Rightarrow> ('s, 'e, 'a) act" where
  "reads f = (\<lambda>s. (Inr (f s), s))"

definition writes :: "('s \<Rightarrow> 's) \<Rightarrow> ('s, 'e, unit) act" where
  "writes f = (\<lambda>s. (Inr (), f s))"

definition of_result :: "'e + 'a \<Rightarrow> ('s, 'e, 'a) act" where
  "of_result r = (\<lambda>s. (r, s))"

fun for_each :: "'x list \<Rightarrow> ('x \<Rightarrow> ('s, 'e, unit) act) \<Rightarrow> ('s, 'e, unit) act" where
  "for_each [] f = ret ()"
| "for_each (x # xs) f = andthen (f x) (\<lambda>_. for_each xs f)"

text \<open>\<^verbatim>\<open>let _ = m;\<close> and \<^verbatim>\<open>if let Err(e) = m { warn }\<close>: the outcome is dropped, the state is not.\<close>

definition ignore_err :: "('s, 'e, 'a) act \<Rightarrow> ('s, 'e, unit) act" where
  "ignore_err m = (\<lambda>s. (Inr (), snd (m s)))"

lemma ret_apply [simp, act_simps]: "ret x s = (Inr x, s)"
  and raise_apply [simp, act_simps]: "raise e s = (Inl e, s)"
  and reads_apply [simp, act_simps]: "reads f s = (Inr (f s), s)"
  and writes_apply [simp, act_simps]: "writes g s = (Inr (), g s)"
  and of_result_apply [simp, act_simps]: "of_result r s = (r, s)"
  and ignore_err_apply [simp, act_simps]: "ignore_err m s = (Inr (), snd (m s))"
  by (simp_all add: ret_def raise_def reads_def writes_def of_result_def ignore_err_def)

lemma andthen_apply [act_simps]:
  "andthen m f s = (case m s of (Inl e, s') \<Rightarrow> (Inl e, s') | (Inr x, s') \<Rightarrow> f x s')"
  by (simp add: andthen_def)

lemma andthen_Inr [simp]: "m s = (Inr x, s') \<Longrightarrow> andthen m f s = f x s'"
  and andthen_Inl [simp]: "m s = (Inl e, s') \<Longrightarrow> andthen m f s = (Inl e, s')"
  by (simp_all add: andthen_apply)

lemma andthen_ret [simp]: "andthen (ret x) f = f x"
  and andthen_assoc: "andthen (andthen m f) g = andthen m (\<lambda>x. andthen (f x) g)"
  by (auto simp: andthen_def ret_def fun_eq_iff split: prod.splits sum.splits)

lemma andthen_eq_Inr:
  "andthen m f s = (Inr y, s'') \<longleftrightarrow> (\<exists>x s'. m s = (Inr x, s') \<and> f x s' = (Inr y, s''))"
  by (auto simp: andthen_apply split: prod.splits sum.splits)

text \<open>An action keeps a predicate of the state when it holds again after it, errors included.\<close>

definition keeps :: "('s \<Rightarrow> bool) \<Rightarrow> ('s, 'e, 'a) act \<Rightarrow> bool" where
  "keeps P m \<longleftrightarrow> (\<forall>s. P s \<longrightarrow> P (snd (m s)))"

lemma keepsI [intro]: "(\<And>s. P s \<Longrightarrow> P (snd (m s))) \<Longrightarrow> keeps P m"
  and keepsD: "keeps P m \<Longrightarrow> P s \<Longrightarrow> P (snd (m s))"
  by (auto simp: keeps_def)

lemma keepsE: "keeps P m \<Longrightarrow> P s \<Longrightarrow> m s = (r, s') \<Longrightarrow> P s'"
  using keepsD by fastforce

lemma keeps_ret [keeps_intros]: "keeps P (ret x)"
  and keeps_raise [keeps_intros]: "keeps P (raise e)"
  and keeps_reads [keeps_intros]: "keeps P (reads f)"
  and keeps_of_result [keeps_intros]: "keeps P (of_result r)"
  by (auto simp: keeps_def)

lemma keeps_writes: "(\<And>s. P s \<Longrightarrow> P (g s)) \<Longrightarrow> keeps P (writes g)"
  by (auto simp: keeps_def)

lemma keeps_ignore_err [keeps_intros]: "keeps P m \<Longrightarrow> keeps P (ignore_err m)"
  by (auto simp: keeps_def)

lemma keeps_andthen [keeps_intros]:
  "keeps P m \<Longrightarrow> (\<And>x. keeps P (f x)) \<Longrightarrow> keeps P (andthen m f)"
  by (auto simp: keeps_def andthen_apply split: prod.splits sum.splits)

lemma keeps_for_each [keeps_intros]: "(\<And>x. keeps P (f x)) \<Longrightarrow> keeps P (for_each xs f)"
  by (induction xs) (auto intro: keeps_intros)

lemma keeps_if [keeps_intros]:
  "(b \<Longrightarrow> keeps P m) \<Longrightarrow> (\<not> b \<Longrightarrow> keeps P n) \<Longrightarrow> keeps P (if b then m else n)"
  by simp

lemma keeps_case_option [keeps_intros]:
  "keeps P m \<Longrightarrow> (\<And>x. keeps P (f x)) \<Longrightarrow> keeps P (case v of None \<Rightarrow> m | Some x \<Rightarrow> f x)"
  by (cases v) auto

text \<open>The errors an action can return on the states that satisfy a predicate.\<close>

definition fails_in :: "'e set \<Rightarrow> ('s \<Rightarrow> bool) \<Rightarrow> ('s, 'e, 'a) act \<Rightarrow> bool" where
  "fails_in E P m \<longleftrightarrow> (\<forall>s e. P s \<longrightarrow> fst (m s) = Inl e \<longrightarrow> e \<in> E)"

lemma fails_inD: "fails_in E P m \<Longrightarrow> P s \<Longrightarrow> m s = (Inl e, s') \<Longrightarrow> e \<in> E"
  by (auto simp: fails_in_def)

lemma fails_in_ret [keeps_intros]: "fails_in E P (ret x)"
  and fails_in_reads [keeps_intros]: "fails_in E P (reads f)"
  and fails_in_writes [keeps_intros]: "fails_in E P (writes g)"
  and fails_in_ignore_err [keeps_intros]: "fails_in E P (ignore_err m)"
  by (auto simp: fails_in_def)

lemma fails_in_andthen [keeps_intros]:
  "fails_in E P m \<Longrightarrow> keeps P m \<Longrightarrow> (\<And>x. fails_in E P (f x)) \<Longrightarrow> fails_in E P (andthen m f)"
  by (fastforce simp: fails_in_def keeps_def andthen_apply split: prod.splits sum.splits)

lemma fails_in_andthen_reads:
  "(\<And>s. P s \<Longrightarrow> keeps P (g (f s))) \<Longrightarrow> keeps P (andthen (reads f) g)"
  "(\<And>s. P s \<Longrightarrow> fails_in E P (g (f s))) \<Longrightarrow> fails_in E P (andthen (reads f) g)"
  by (auto simp: fails_in_def keeps_def andthen_apply)

lemma fails_in_for_each:
  "(\<And>x. fails_in E P (f x)) \<Longrightarrow> (\<And>x. keeps P (f x)) \<Longrightarrow> fails_in E P (for_each xs f)"
  by (induction xs) (simp_all only: for_each.simps fails_in_ret fails_in_andthen)

lemma fails_in_if [keeps_intros]:
  "(b \<Longrightarrow> fails_in E P m) \<Longrightarrow> (\<not> b \<Longrightarrow> fails_in E P n) \<Longrightarrow> fails_in E P (if b then m else n)"
  by simp

section \<open>Lists and association lists\<close>

text \<open>The first result of a partial function along a list: \<^verbatim>\<open>iter().find_map(f)\<close>.\<close>

fun find_map :: "('a \<Rightarrow> 'b option) \<Rightarrow> 'a list \<Rightarrow> 'b option" where
  "find_map f [] = None"
| "find_map f (x # xs) = (case f x of None \<Rightarrow> find_map f xs | Some y \<Rightarrow> Some y)"

lemma find_map_Some: "find_map f xs = Some y \<Longrightarrow> \<exists>x \<in> set xs. f x = Some y"
  by (induction xs) (auto split: option.splits)

lemma find_map_None [simp]: "find_map f xs = None \<longleftrightarrow> (\<forall>x \<in> set xs. f x = None)"
  by (induction xs) (auto split: option.splits)

text \<open>\<^verbatim>\<open>a.or(b)\<close> on options.\<close>

definition or_else :: "'a option \<Rightarrow> 'a option \<Rightarrow> 'a option" where
  "or_else a b = (case a of None \<Rightarrow> b | Some x \<Rightarrow> Some x)"

definition unwrap_or :: "'a option \<Rightarrow> 'a \<Rightarrow> 'a" where
  "unwrap_or a d = (case a of None \<Rightarrow> d | Some x \<Rightarrow> x)"

definition opt_filter :: "('a \<Rightarrow> bool) \<Rightarrow> 'a option \<Rightarrow> 'a option" where
  "opt_filter p a = (case a of None \<Rightarrow> None | Some x \<Rightarrow> if p x then Some x else None)"

lemma or_else_simps [simp]: "or_else None b = b" "or_else (Some x) b = Some x"
    "or_else a None = a"
  by (simp_all add: or_else_def split: option.splits)

lemma unwrap_or_simps [simp]: "unwrap_or None d = d" "unwrap_or (Some x) d = x"
  by (simp_all add: unwrap_or_def)

lemma opt_filter_simps [simp]: "opt_filter p None = None"
    "opt_filter p (Some x) = (if p x then Some x else None)"
  by (simp_all add: opt_filter_def)

lemma opt_filter_eq_Some [simp]: "opt_filter p a = Some x \<longleftrightarrow> a = Some x \<and> p x"
  by (cases a) auto

lemma opt_filter_eq_None: "opt_filter p a = None \<longleftrightarrow> (\<forall>x. a = Some x \<longrightarrow> \<not> p x)"
  by (cases a) auto

section \<open>Key-ordered association lists\<close>

text \<open>
  A \<^verbatim>\<open>BTreeMap\<close> and an SQLite table with its primary key are both association lists in strict
  key order; \<open>kv_insert\<close> adds or replaces the entry of a key.
\<close>

fun kv_insert :: "'k::linorder \<Rightarrow> 'v \<Rightarrow> ('k \<times> 'v) list \<Rightarrow> ('k \<times> 'v) list" where
  "kv_insert k v [] = [(k, v)]"
| "kv_insert k v ((k', v') # o') =
     (if k < k' then (k, v) # (k', v') # o'
      else if k = k' then (k, v) # o'
      else (k', v') # kv_insert k v o')"

definition kv_sorted :: "('k::linorder \<times> 'v) list \<Rightarrow> bool" where
  "kv_sorted ob \<longleftrightarrow> sorted_wrt (<) (map fst ob)"

lemma map_of_kv_insert [simp]: "map_of (kv_insert k v ob) = (map_of ob)(k \<mapsto> v)"
  by (induction ob) auto

lemma set_kv_insert_keys: "fst ` set (kv_insert k v ob) = insert k (fst ` set ob)"
  by (simp flip: dom_map_of_conv_image_fst)

lemma kv_insert_sorted: "kv_sorted ob \<Longrightarrow> kv_sorted (kv_insert k v ob)"
proof (induction ob)
  case (Cons kv ob)
  obtain k' v' where kv: "kv = (k', v')" by (cases kv)
  have above: "\<forall>x \<in> fst ` set ob. k' < x" and ob: "kv_sorted ob"
    using Cons.prems kv by (auto simp: kv_sorted_def)
  show ?case
  proof (cases "k' < k")
    case True
    then have "\<not> k < k'" "k \<noteq> k'" by auto
    then show ?thesis
      using True Cons.IH [OF ob] above set_kv_insert_keys [of k v ob] kv
      by (auto simp: kv_sorted_def simp flip: set_map)
  next
    case False
    then show ?thesis
      using above ob kv by (auto simp: kv_sorted_def)
  qed
qed (simp add: kv_sorted_def)

lemma kv_insert_same: "kv_sorted ob \<Longrightarrow> map_of ob k = Some v \<Longrightarrow> kv_insert k v ob = ob"
proof (induction ob)
  case (Cons kv ob)
  obtain k' v' where kv: "kv = (k', v')" by (cases kv)
  have above: "\<forall>x \<in> fst ` set ob. k' < x"
    using Cons.prems kv by (auto simp: kv_sorted_def)
  show ?case
  proof (cases "k = k'")
    case False
    then have "map_of ob k = Some v" using Cons.prems kv by simp
    then have "k' < k" using above by (metis fst_conv image_eqI map_of_SomeD)
    then show ?thesis
      using Cons kv False by (auto simp: kv_sorted_def)
  qed (use Cons.prems kv in simp)
qed simp

lemma map_of_fold_kv_insert:
  "map_of (fold (\<lambda>(k, v). kv_insert k v) kvs ob) = map_of ob ++ map_of (rev kvs)"
  by (induction kvs arbitrary: ob) (auto simp: map_add_assoc fun_eq_iff map_add_def split: option.splits)

lemma kv_sorted_distinct: "kv_sorted ob \<Longrightarrow> distinct (map fst ob)"
  by (simp add: kv_sorted_def strict_sorted_iff)

lemma kv_sorted_Nil [simp]: "kv_sorted []"
  by (simp add: kv_sorted_def)

lemma kv_sorted_filter: "kv_sorted ob \<Longrightarrow> kv_sorted (filter p ob)"
  by (induction ob) (auto simp: kv_sorted_def)

lemma kv_sorted_map_values: "kv_sorted (map (\<lambda>(k, v). (k, f k v)) ob) \<longleftrightarrow> kv_sorted ob"
  by (simp add: kv_sorted_def comp_def case_prod_unfold)

lemma map_of_map_values: "map_of (map (\<lambda>(k, v). (k, f k v)) ob) k = map_option (f k) (map_of ob k)"
  by (induction ob) auto

lemma set_kv_insert: "kv_sorted ob \<Longrightarrow>
    set (kv_insert k v ob) = insert (k, v) {e \<in> set ob. fst e \<noteq> k}"
proof -
  assume ob: "kv_sorted ob"
  then have "kv_sorted (kv_insert k v ob)" by (rule kv_insert_sorted)
  then have "(a, b) \<in> set (kv_insert k v ob) \<longleftrightarrow> map_of (kv_insert k v ob) a = Some b" for a b
    by (metis kv_sorted_distinct map_of_eq_Some_iff)
  moreover have "(a, b) \<in> set ob \<longleftrightarrow> map_of ob a = Some b" for a b
    using ob by (metis kv_sorted_distinct map_of_eq_Some_iff)
  ultimately show ?thesis by (auto split: if_splits)
qed


text \<open>A table whose rows all satisfy a predicate of key and value.\<close>

definition rows_ok :: "('k::linorder \<Rightarrow> 'v \<Rightarrow> bool) \<Rightarrow> ('k \<times> 'v) list \<Rightarrow> bool" where
  "rows_ok P tbl \<longleftrightarrow> kv_sorted tbl \<and> list_all (\<lambda>kv. P (fst kv) (snd kv)) tbl"

lemma rows_ok_Nil [simp]: "rows_ok P []"
  by (simp add: rows_ok_def)

lemma rows_ok_insert: "rows_ok P tbl \<Longrightarrow> P k v \<Longrightarrow> rows_ok P (kv_insert k v tbl)"
  by (auto simp: rows_ok_def kv_insert_sorted set_kv_insert list_all_iff)

lemma rows_ok_get: "rows_ok P tbl \<Longrightarrow> map_of tbl k = Some v \<Longrightarrow> P k v"
  by (force simp: rows_ok_def list_all_iff dest: map_of_SomeD)

lemma rows_ok_same: "rows_ok P tbl \<Longrightarrow> map_of tbl k = Some v \<Longrightarrow> kv_insert k v tbl = tbl"
  by (simp add: rows_ok_def kv_insert_same)

lemma rows_ok_mono: "rows_ok P tbl \<Longrightarrow> (\<And>k v. P k v \<Longrightarrow> Q k v) \<Longrightarrow> rows_ok Q tbl"
  by (auto simp: rows_ok_def list_all_iff)

lemma kv_insert_twice [simp]: "kv_insert k v (kv_insert k w ob) = kv_insert k v ob"
  by (induction ob) auto

end
