(* ===== verification/Json.thy ===== *)
theory Json
  imports Prelude
begin

text \<open>
  The \<^verbatim>\<open>serde_json::Value\<close> data model that every component exchanges: the value datatype, the
  accessors the code calls (\<^verbatim>\<open>as_str\<close>, \<^verbatim>\<open>as_i64\<close>, \<^verbatim>\<open>get\<close>, indexing), and indexed assignment
  with its panic.  Objects are the crate's default \<^verbatim>\<open>BTreeMap\<close>: association lists in key order.
  Numbers are the crate's three cases: \<^verbatim>\<open>u64\<close>, negative \<^verbatim>\<open>i64\<close>, finite \<^verbatim>\<open>f64\<close> (by its value).
\<close>

named_theorems json_simps \<open>how the accessors compute\<close>

datatype number = NPos u64 | NNeg i64 | NFloat rat

datatype json =
    JNull
  | JBool bool
  | JNum number
  | JStr string
  | JArr "json list"
  | JObj "(string \<times> json) list"

section \<open>Objects\<close>

text \<open>The \<^verbatim>\<open>json!({..})\<close> literal: its members inserted in order.\<close>

definition mk_obj :: "(string \<times> json) list \<Rightarrow> json" where
  "mk_obj kvs = JObj (fold (\<lambda>(k, v). kv_insert k v) kvs [])"

section \<open>Accessors\<close>

fun as_str :: "json \<Rightarrow> string option" where
  "as_str (JStr s) = Some s" | "as_str _ = None"

fun as_bool :: "json \<Rightarrow> bool option" where
  "as_bool (JBool b) = Some b" | "as_bool _ = None"

fun as_array :: "json \<Rightarrow> json list option" where
  "as_array (JArr xs) = Some xs" | "as_array _ = None"

fun as_object :: "json \<Rightarrow> (string \<times> json) list option" where
  "as_object (JObj ob) = Some ob" | "as_object _ = None"

fun as_i64 :: "json \<Rightarrow> i64 option" where
  "as_i64 (JNum (NPos n)) = (if uint n \<le> i64_max then Some (uint n) else None)"
| "as_i64 (JNum (NNeg n)) = Some n"
| "as_i64 _ = None"

fun as_u64 :: "json \<Rightarrow> u64 option" where
  "as_u64 (JNum (NPos n)) = Some n" | "as_u64 _ = None"

definition is_null :: "json \<Rightarrow> bool" where "is_null v \<longleftrightarrow> v = JNull"

definition is_object :: "json \<Rightarrow> bool" where "is_object v \<longleftrightarrow> as_object v \<noteq> None"

definition json_get :: "json \<Rightarrow> string \<Rightarrow> json option" where
  "json_get v k = (case v of JObj ob \<Rightarrow> map_of ob k | _ \<Rightarrow> None)"

text \<open>\<^verbatim>\<open>v[key]\<close>: \<^verbatim>\<open>Null\<close> when there is no such member or no object.\<close>

definition json_at :: "json \<Rightarrow> string \<Rightarrow> json" where
  "json_at v k = unwrap_or (json_get v k) JNull"

text \<open>\<^verbatim>\<open>v[key] = x\<close>: \<^verbatim>\<open>Null\<close> becomes an object; on any other non-object the crate panics (\<open>None\<close>).\<close>

definition json_put :: "json \<Rightarrow> string \<Rightarrow> json \<Rightarrow> json option" where
  "json_put v k x = (case v of
       JObj ob \<Rightarrow> Some (JObj (kv_insert k x ob))
     | JNull \<Rightarrow> Some (JObj [(k, x)])
     | _ \<Rightarrow> None)"

definition of_i64 :: "i64 \<Rightarrow> json" where
  "of_i64 n = JNum (if n < 0 then NNeg n else NPos (of_int n))"

definition of_opt_str :: "string option \<Rightarrow> json" where
  "of_opt_str v = (case v of None \<Rightarrow> JNull | Some s \<Rightarrow> JStr s)"

lemma json_get_JObj [simp, json_simps]: "json_get (JObj ob) k = map_of ob k"
  by (simp add: json_get_def)

lemma json_at_JObj [simp, json_simps]: "json_at (JObj ob) k = unwrap_or (map_of ob k) JNull"
  by (simp add: json_at_def)

lemma json_at_JNull [simp, json_simps]: "json_at JNull k = JNull"
  by (simp add: json_at_def json_get_def)

lemma json_get_mk_obj [json_simps]: "json_get (mk_obj kvs) k = map_of (rev kvs) k"
  by (simp add: mk_obj_def map_of_fold_kv_insert)

lemma json_at_mk_obj [json_simps]: "json_at (mk_obj kvs) k = unwrap_or (map_of (rev kvs) k) JNull"
  by (simp add: json_at_def json_get_mk_obj)

lemma is_object_simps [simp, json_simps]:
  "is_object (JObj ob)" "\<not> is_object JNull" "\<not> is_object (JBool b)" "\<not> is_object (JNum n)"
  "\<not> is_object (JStr s)" "\<not> is_object (JArr xs)"
  by (simp_all add: is_object_def)

lemma is_objectE: "is_object v \<Longrightarrow> (\<And>ob. v = JObj ob \<Longrightarrow> P) \<Longrightarrow> P"
  by (cases v) (auto simp: is_object_def)

lemma is_object_mk_obj [simp, json_simps]: "is_object (mk_obj kvs)"
  by (simp add: mk_obj_def)

lemma is_null_simps [simp, json_simps]: "is_null JNull" "is_null v \<longleftrightarrow> v = JNull"
  by (simp_all add: is_null_def)

lemma json_put_get: "json_put v k x = Some w \<Longrightarrow> json_get w k' = (if k' = k then Some x else json_get v k')"
  by (auto simp: json_put_def json_get_def split: json.splits)

lemma json_put_at: "json_put v k x = Some w \<Longrightarrow> json_at w k' = (if k' = k then x else json_at v k')"
  by (simp add: json_at_def json_put_get)

lemma json_put_object: "is_object v \<Longrightarrow> \<exists>w. json_put v k x = Some w \<and> is_object w"
  by (auto simp: json_put_def elim: is_objectE)

lemma json_put_is_object: "json_put v k x = Some w \<Longrightarrow> is_object w"
  by (auto simp: json_put_def split: json.splits)

lemma as_i64_in_range: "as_i64 v = Some n \<Longrightarrow> (\<And>m. v = JNum (NNeg m) \<Longrightarrow> in_i64 m) \<Longrightarrow> in_i64 n"
  by (cases v rule: as_i64.cases)
     (auto simp: in_i64_def i64_min_def split: if_splits intro: order_trans [OF _ uint_ge_0])

lemma as_i64_of_i64 [simp]: "in_i64 n \<Longrightarrow> as_i64 (of_i64 n) = Some n"
  by (auto simp: of_i64_def in_i64_def i64_max_def uint_word_of_int)

lemma as_str_of_opt_str [simp]: "as_str (of_opt_str v) = v"
  by (cases v) (simp_all add: of_opt_str_def)

lemma of_opt_str_simps [simp]: "of_opt_str None = JNull" "of_opt_str (Some s) = JStr s"
  by (simp_all add: of_opt_str_def)

section \<open>Well-formed values\<close>

text \<open>What serde_json guarantees of every value it holds: objects in key order, negative numbers
  in the range of \<^verbatim>\<open>i64\<close>.\<close>

fun json_wf :: "json \<Rightarrow> bool" where
  "json_wf (JNum (NNeg n)) \<longleftrightarrow> i64_min \<le> n \<and> n < 0"
| "json_wf (JArr xs) \<longleftrightarrow> list_all json_wf xs"
| "json_wf (JObj ob) \<longleftrightarrow> kv_sorted ob \<and> list_all json_wf (map snd ob)"
| "json_wf _ = True"

lemma json_wf_member: "json_wf (JObj ob) \<Longrightarrow> map_of ob k = Some v \<Longrightarrow> json_wf v"
  by (force simp: list_all_iff dest: map_of_SomeD)

lemma json_wf_at: "json_wf v \<Longrightarrow> json_wf (json_at v k)"
  by (cases v) (auto simp: json_at_def json_get_def unwrap_or_def simp del: json_wf.simps(3)
      dest: json_wf_member split: option.splits)

lemma json_wf_kv_insert:
  "json_wf (JObj ob) \<Longrightarrow> json_wf x \<Longrightarrow> json_wf (JObj (kv_insert k x ob))"
  by (auto simp: list_all_iff kv_insert_sorted set_kv_insert)

lemma json_wf_put: "json_put v k x = Some w \<Longrightarrow> json_wf v \<Longrightarrow> json_wf x \<Longrightarrow> json_wf w"
  by (auto simp: json_put_def json_wf_kv_insert kv_sorted_def simp del: json_wf.simps(3)
      split: json.splits) (simp add: kv_sorted_def)

lemma json_wf_of_i64 [simp]: "in_i64 n \<Longrightarrow> json_wf (of_i64 n)"
  by (simp add: of_i64_def in_i64_def)

lemma json_wf_of_opt_str [simp]: "json_wf (of_opt_str v)"
  by (cases v) simp_all

lemma json_wf_fold_kv_insert:
  "json_wf (JObj ob) \<Longrightarrow> list_all (\<lambda>kv. json_wf (snd kv)) kvs \<Longrightarrow>
     json_wf (JObj (fold (\<lambda>(k, v). kv_insert k v) kvs ob))"
proof (induction kvs arbitrary: ob)
  case (Cons kv kvs)
  then have "json_wf (JObj (kv_insert (fst kv) (snd kv) ob))"
    by (intro json_wf_kv_insert) (simp_all del: json_wf.simps(3))
  with Cons show ?case by (simp add: case_prod_unfold del: json_wf.simps(3))
qed simp

lemma json_wf_mk_obj: "list_all (\<lambda>kv. json_wf (snd kv)) kvs \<Longrightarrow> json_wf (mk_obj kvs)"
  unfolding mk_obj_def by (rule json_wf_fold_kv_insert) simp_all

lemma as_i64_wf: "json_wf v \<Longrightarrow> as_i64 v = Some n \<Longrightarrow> in_i64 n"
proof (cases v rule: as_i64.cases)
  case (1 m)
  assume "as_i64 v = Some n"
  then have "uint m = n" "uint m \<le> i64_max" using 1 by (auto split: if_splits)
  moreover have "0 \<le> uint m" by simp
  ultimately show ?thesis by (simp add: in_i64_def i64_min_def)
next
  case (2 m)
  assume "json_wf v" "as_i64 v = Some n"
  then show ?thesis using 2 by (simp add: in_i64_def i64_max_def)
qed simp_all

lemma json_put_same:
  "json_wf v \<Longrightarrow> json_get v k = Some x \<Longrightarrow> json_put v k x = Some v"
  by (cases v) (auto simp: json_put_def json_get_def kv_insert_same)

lemma json_put_twice: "json_put v k x = Some w \<Longrightarrow> json_wf v \<Longrightarrow> json_wf x \<Longrightarrow> json_put w k x = Some w"
  by (rule json_put_same) (auto intro: json_wf_put simp: json_put_get)

end
