(* ===== verification/Float64.thy ===== *)
theory Float64
  imports Json "HOL-Library.Log_Nat"
begin

text \<open>
  The \<^verbatim>\<open>f64\<close> arithmetic behind the timestamps of \<^verbatim>\<open>sync/src/domain.rs\<close>.  A finite double is the
  rational it denotes (the two zeros coincide); every operation computes the exact rational and
  rounds it once, to 53 significant bits, ties to even, as IEEE 754 prescribes.
\<close>

datatype f64 = Fin rat | PInf | NInf | NaN

definition pow2 :: "int \<Rightarrow> rat" where
  "pow2 e = (if 0 \<le> e then 2 ^ nat e else 1 / 2 ^ nat (- e))"

definition log2_floor :: "rat \<Rightarrow> int" where
  "log2_floor x = (case quotient_of x of (p, q) \<Rightarrow>
     let k = int (floorlog 2 (nat p)) - int (floorlog 2 (nat q)) in if pow2 k \<le> x then k else k - 1)"

definition round_half_even :: "rat \<Rightarrow> int" where
  "round_half_even x = (let f = \<lfloor>x\<rfloor>; d = x - of_int f in
     if d < 1 / 2 then f else if d > 1 / 2 then f + 1 else if even f then f else f + 1)"

definition f64_round :: "rat \<Rightarrow> f64" where
  "f64_round x =
     (if x = 0 then Fin 0
      else let e = max (log2_floor \<bar>x\<bar> - 52) (- 1074);
               y = of_int (round_half_even (\<bar>x\<bar> / pow2 e)) * pow2 e
           in if pow2 1024 \<le> y then (if x < 0 then NInf else PInf) else Fin (sgn x * y))"

text \<open>\<^verbatim>\<open>x as i64\<close>: towards zero, saturating, \<^verbatim>\<open>NaN\<close> to 0.\<close>

fun f64_as_i64 :: "f64 \<Rightarrow> i64" where
  "f64_as_i64 (Fin x) = max i64_min (min i64_max (if x < 0 then - \<lfloor>- x\<rfloor> else \<lfloor>x\<rfloor>))"
| "f64_as_i64 PInf = i64_max"
| "f64_as_i64 NInf = i64_min"
| "f64_as_i64 NaN = 0"

text \<open>\<^verbatim>\<open>Number::as_f64\<close> and \<^verbatim>\<open>str::parse::<f64>\<close>.\<close>

fun number_as_f64 :: "number \<Rightarrow> f64" where
  "number_as_f64 (NPos n) = f64_round (of_int (uint n))"
| "number_as_f64 (NNeg n) = f64_round (of_int n)"
| "number_as_f64 (NFloat x) = Fin x"

definition pow10 :: "int \<Rightarrow> rat" where
  "pow10 e = (if 0 \<le> e then 10 ^ nat e else 1 / 10 ^ nat (- e))"

definition parse_exponent :: "string \<Rightarrow> int option" where
  "parse_exponent s = (case s of
       [] \<Rightarrow> Some 0
     | c # ds \<Rightarrow>
         if to_ascii_lower c \<noteq> CHR ''e'' then None
         else (case ds of
             [] \<Rightarrow> None
           | d # es \<Rightarrow>
               if d = CHR ''-'' then map_option uminus (parse_digits es)
               else if d = CHR ''+'' then parse_digits es
               else parse_digits ds))"

definition parse_decimal :: "string \<Rightarrow> rat option" where
  "parse_decimal s =
     (let whole = takeWhile is_ascii_digit s;
          r = dropWhile is_ascii_digit s;
          dot = (r \<noteq> [] \<and> hd r = CHR ''.'');
          frac = (if dot then takeWhile is_ascii_digit (tl r) else []);
          r' = (if dot then dropWhile is_ascii_digit (tl r) else r)
      in if whole = [] \<and> frac = [] then None
         else map_option
           (\<lambda>e. of_int (digits_value (whole @ frac)) * pow10 (e - int (length frac)))
           (parse_exponent r'))"

definition f64_neg :: "f64 \<Rightarrow> f64" where
  "f64_neg x = (case x of Fin r \<Rightarrow> Fin (- r) | PInf \<Rightarrow> NInf | NInf \<Rightarrow> PInf | NaN \<Rightarrow> NaN)"

definition parse_f64_unsigned :: "string \<Rightarrow> f64 option" where
  "parse_f64_unsigned s =
     (let l = to_ascii_lowercase s in
      if l = ''inf'' \<or> l = ''infinity'' then Some PInf
      else if l = ''nan'' then Some NaN
      else map_option f64_round (parse_decimal s))"

definition parse_f64 :: "string \<Rightarrow> f64 option" where
  "parse_f64 s = (case s of
       [] \<Rightarrow> None
     | c # t \<Rightarrow>
         if c = CHR ''-'' then map_option f64_neg (parse_f64_unsigned t)
         else if c = CHR ''+'' then parse_f64_unsigned t
         else parse_f64_unsigned s)"

section \<open>Rounding\<close>

lemma pow2_pos [simp]: "0 < pow2 e"
  by (simp add: pow2_def)

lemma pow2_add: "pow2 (a + b) = pow2 a * pow2 b"
proof -
  have "pow2 e = 2 powi e" for e
    by (simp add: pow2_def power_int_def power_one_over inverse_eq_divide)
  then show ?thesis by (simp add: power_int_add)
qed

lemma pow2_mono: "a \<le> b \<Longrightarrow> pow2 a \<le> pow2 b"
proof -
  assume "a \<le> b"
  then have "pow2 b = pow2 a * 2 ^ nat (b - a)"
    using pow2_add [of a "b - a"] by (simp add: pow2_def)
  then show ?thesis by simp
qed

lemma pow2_nonneg: "0 \<le> e \<Longrightarrow> pow2 e = of_int (2 ^ nat e)"
  by (simp add: pow2_def)

lemma round_half_even_of_int [simp]: "round_half_even (of_int n) = n"
  by (simp add: round_half_even_def Let_def)

text \<open>Rounding to an integer errs by at most one half.\<close>

lemma round_half_even_error: "\<bar>of_int (round_half_even x) - x\<bar> \<le> 1 / 2"
proof -
  have f: "of_int \<lfloor>x\<rfloor> \<le> x" "x < of_int \<lfloor>x\<rfloor> + 1" by linarith+
  show ?thesis
    using f unfolding round_half_even_def Let_def abs_if by (auto; linarith)
qed

lemma log2_floor_of_int:
  assumes "0 < n"
  shows "log2_floor (of_int n) \<le> int (floorlog 2 (nat n)) - 1"
proof -
  let ?k = "floorlog 2 (nat n)"
  have "nat n < 2 ^ ?k"
    using assms floorlog_bounds [of "nat n" 2] by simp
  then have "n < 2 ^ ?k"
    using assms by (metis nat_less_iff order_less_imp_le of_nat_numeral of_nat_power)
  then have "(of_int n :: rat) < of_int (2 ^ ?k)"
    by (rule of_int_less_iff [THEN iffD2])
  then have "(of_int n :: rat) < 2 ^ ?k"
    by simp
  moreover have "floorlog 2 (nat 1) = 1"
    by (simp add: floorlog_def)
  ultimately show ?thesis
    using assms by (simp add: log2_floor_def quotient_of_int Let_def pow2_def)
qed

text \<open>Integers of at most 53 bits are doubles.\<close>

lemma f64_round_of_int:
  assumes "0 \<le> n" "n < 2 ^ 53"
  shows "f64_round (of_int n) = Fin (of_int n)"
proof (cases "n = 0")
  case False
  then have pos: "0 < n" using assms by simp
  have "nat n < 2 ^ 53" using assms by (simp add: nat_less_iff)
  then have "floorlog 2 (nat n) \<le> 53"
    by (simp add: floorlog_leI)
  then have le: "log2_floor (of_int n) \<le> 52"
    using log2_floor_of_int [OF pos] by linarith
  define e where "e = max (log2_floor (of_int n) - 52) (- 1074)"
  have e: "e \<le> 0" using le by (simp add: e_def)
  have "of_int n / pow2 e = of_int (n * 2 ^ nat (- e))"
    using e by (cases "e = 0") (simp_all add: pow2_def)
  then have "of_int (round_half_even (of_int n / pow2 e)) * pow2 e = of_int n / pow2 e * pow2 e"
    by (metis round_half_even_of_int)
  also have "\<dots> = of_int n"
    using pow2_pos [of e] by (simp add: less_imp_neq [THEN not_sym])
  finally have y: "of_int (round_half_even (of_int n / pow2 e)) * pow2 e = (of_int n :: rat)" .
  have "of_int n < pow2 1024"
  proof -
    have "(of_int n :: rat) < of_int (2 ^ 53)"
      using assms by (rule_tac of_int_less_iff [THEN iffD2])
    also have "\<dots> = pow2 53" by (simp add: pow2_def)
    also have "\<dots> \<le> pow2 1024" by (rule pow2_mono) simp
    finally show ?thesis .
  qed
  then show ?thesis
    using pos y by (simp add: f64_round_def Let_def e_def)
qed (simp add: f64_round_def)

lemma f64_as_i64_of_int [simp]: "in_i64 n \<Longrightarrow> f64_as_i64 (Fin (of_int n)) = n"
proof -
  assume "in_i64 n"
  moreover have "\<lfloor>- (of_int n :: rat)\<rfloor> = - n" by (metis floor_of_int of_int_minus)
  ultimately show ?thesis by (simp add: in_i64_def)
qed

end
