(* ===== verification/Timestamp.thy ===== *)
theory Timestamp
  imports Float64
begin

text \<open>
  \<^verbatim>\<open>timestamp_from_bb\<close> and \<^verbatim>\<open>bb_to_unix_millis\<close> of \<^verbatim>\<open>sync/src/domain.rs\<close>: which unit a BlueBubbles
  date is in, and its Unix milliseconds.  Printing the milliseconds as RFC 3339 text is the
  chrono crate's; it is the parameter \<open>fmt\<close> (\<open>None\<close> where chrono has no such date).
\<close>

definition f64_div :: "f64 \<Rightarrow> rat \<Rightarrow> f64" where
  "f64_div n d = (case n of Fin x \<Rightarrow> f64_round (x / d) | _ \<Rightarrow> n)"

definition f64_mul :: "f64 \<Rightarrow> rat \<Rightarrow> f64" where
  "f64_mul n d = (case n of Fin x \<Rightarrow> f64_round (x * d) | _ \<Rightarrow> n)"

definition f64_add :: "f64 \<Rightarrow> rat \<Rightarrow> f64" where
  "f64_add n d = (case n of Fin x \<Rightarrow> f64_round (x + d) | _ \<Rightarrow> n)"

definition bb_to_unix_millis :: "f64 \<Rightarrow> i64 option" where
  "bb_to_unix_millis n = (case n of
       Fin x \<Rightarrow>
         if x \<le> 0 then None
         else if x > 1000000000000 then Some (f64_as_i64 n)
         else if x > 10000000000 then Some (f64_as_i64 (f64_div n 1000000))
         else if x > 1000000000 then Some (f64_as_i64 (f64_mul n 1000))
         else Some (f64_as_i64 (f64_mul (f64_add n 978307200) 1000))
     | _ \<Rightarrow> None)"

definition timestamp_from_bb :: "(i64 \<Rightarrow> string option) \<Rightarrow> json option \<Rightarrow> string option" where
  "timestamp_from_bb fmt raw =
     (let from_f64 = (\<lambda>n. Option.bind (bb_to_unix_millis n) fmt) in
      case raw of
        None \<Rightarrow> None
      | Some v \<Rightarrow> (case v of
            JNum num \<Rightarrow> from_f64 (number_as_f64 num)
          | JStr s \<Rightarrow>
              if CHR ''T'' \<in> set s then Some s else Option.bind (parse_f64 s) from_f64
          | _ \<Rightarrow> None))"

lemma round_half_even_nonneg: "0 \<le> x \<Longrightarrow> 0 \<le> round_half_even x"
  by (simp add: round_half_even_def Let_def)

text \<open>The doubles that are at least zero.\<close>

fun f64_nonneg :: "f64 \<Rightarrow> bool" where
  "f64_nonneg (Fin x) \<longleftrightarrow> 0 \<le> x" | "f64_nonneg PInf = True" | "f64_nonneg _ = False"

lemma f64_nonneg_round:
  assumes "0 \<le> x"
  shows "f64_nonneg (f64_round x)"
proof -
  have "0 \<le> of_int (round_half_even (x / pow2 e)) * pow2 e" for e
    using assms round_half_even_nonneg [of "x / pow2 e"] pow2_pos [of e]
    by (auto intro!: mult_nonneg_nonneg divide_nonneg_pos less_imp_le [OF pow2_pos])
  then show ?thesis
    using assms by (simp add: f64_round_def Let_def)
qed

lemma f64_nonneg_div: "f64_nonneg n \<Longrightarrow> 0 < d \<Longrightarrow> f64_nonneg (f64_div n d)"
  and f64_nonneg_mul: "f64_nonneg n \<Longrightarrow> 0 < d \<Longrightarrow> f64_nonneg (f64_mul n d)"
  and f64_nonneg_add: "f64_nonneg n \<Longrightarrow> 0 < d \<Longrightarrow> f64_nonneg (f64_add n d)"
  by (cases n; simp add: f64_div_def f64_mul_def f64_add_def f64_nonneg_round)+

lemma f64_as_i64_nonneg: "f64_nonneg n \<Longrightarrow> 0 \<le> f64_as_i64 n"
  by (cases n) (auto simp: i64_max_def i64_min_def)

lemma f64_as_i64_in_range [simp]: "in_i64 (f64_as_i64 n)"
  by (cases n) (auto simp: in_i64_def i64_max_def i64_min_def)

lemma bb_to_unix_millis_bounds: "bb_to_unix_millis n = Some m \<Longrightarrow> 0 \<le> m \<and> in_i64 m"
proof -
  assume m: "bb_to_unix_millis n = Some m"
  then obtain x where n: "n = Fin x" and x: "f64_nonneg n"
    by (auto simp: bb_to_unix_millis_def split: f64.splits if_splits)
  have "m \<in> {f64_as_i64 n, f64_as_i64 (f64_div n 1000000), f64_as_i64 (f64_mul n 1000),
      f64_as_i64 (f64_mul (f64_add n 978307200) 1000)}"
    using m n by (auto simp: bb_to_unix_millis_def simp del: f64_as_i64.simps split: if_splits)
  then show ?thesis
    using x f64_as_i64_in_range
    by (auto intro!: f64_as_i64_nonneg f64_nonneg_div f64_nonneg_mul f64_nonneg_add
        simp del: f64_as_i64.simps)
qed

text \<open>An integral number of seconds, on either epoch, is converted without rounding error.\<close>

lemma f64_mul_exact: "0 \<le> n \<Longrightarrow> n \<le> 10000000000 \<Longrightarrow> f64_mul (Fin (of_int n)) 1000 = Fin (of_int (n * 1000))"
  using f64_round_of_int [of "n * 1000"] by (simp add: f64_mul_def)

lemma f64_add_exact:
  "0 \<le> n \<Longrightarrow> n \<le> 1000000000 \<Longrightarrow> f64_add (Fin (of_int n)) 978307200 = Fin (of_int (n + 978307200))"
  using f64_round_of_int [of "n + 978307200"] by (simp add: f64_add_def)

lemma bb_to_unix_millis_seconds:
  assumes "0 < n" "n \<le> 10000000000"
  shows "bb_to_unix_millis (Fin (of_int n)) =
    Some (if 1000000000 < n then n * 1000 else (n + 978307200) * 1000)"
proof -
  have le: "(of_int n :: rat) > 1000000000 \<longleftrightarrow> n > 1000000000"
    "\<not> (of_int n :: rat) > 10000000000" "\<not> (of_int n :: rat) > 1000000000000" "\<not> (of_int n :: rat) \<le> 0"
    using assms by linarith+
  have r: "in_i64 (n * 1000)" "in_i64 ((n + 978307200) * 1000)"
    using assms by (simp_all add: in_i64_def i64_max_def i64_min_def)
  show ?thesis
    using assms le f64_mul_exact [of n] f64_add_exact [of n] f64_mul_exact [of "n + 978307200"]
      f64_as_i64_of_int [OF r(1)] f64_as_i64_of_int [OF r(2)]
    by (simp add: bb_to_unix_millis_def del: of_int_mult of_int_add f64_as_i64.simps)
qed

end
