(* ===== verification/Domain.thy ===== *)
theory Domain
  imports Timestamp
begin

text \<open>
  \<^verbatim>\<open>sync/src/domain.rs\<close>: guids, row ids, chats and messages as the daemon knows them, their
  construction from BlueBubbles JSON, and the JSON documents the cache stores for them.
  Parameters: \<open>fmt\<close> (chrono's RFC 3339 printing of Unix milliseconds) and \<open>sha256\<close> (the sha2
  crate's digest).
\<close>

datatype domain_error =
    EmptyChatGuid
  | EmptyMessageGuid
  | NoChatGuid string
  | IdNotANumber
  | IdRequired

section \<open>Guids\<close>

datatype chat_guid = ChatGuid (chat_guid_str: string)

datatype message_guid = MessageGuid (message_guid_str: string)

definition chat_guid_parse :: "string \<Rightarrow> domain_error + chat_guid" where
  "chat_guid_parse raw =
     (let s = trim raw in if s = [] then Inl EmptyChatGuid else Inr (ChatGuid s))"

definition chat_guid_is_group :: "chat_guid \<Rightarrow> bool" where
  "chat_guid_is_group g = str_contains (chat_guid_str g) '';+;''"

definition message_guid_parse :: "string \<Rightarrow> domain_error + message_guid" where
  "message_guid_parse raw =
     (let s = trim raw in if s = [] then Inl EmptyMessageGuid else Inr (MessageGuid s))"

definition attachment_form_guid :: "chat_guid \<Rightarrow> string \<Rightarrow> string" where
  "attachment_form_guid g identifier =
     (if chat_guid_is_group g then chat_guid_str g
      else let ident = trim identifier in if ident = [] then chat_guid_str g else ident)"

section \<open>Row ids\<close>

definition json_id :: "i64 \<Rightarrow> string" where
  "json_id n = show_int n"

definition parse_json_id :: "json \<Rightarrow> domain_error + i64" where
  "parse_json_id value =
     (case as_i64 value of
        Some n \<Rightarrow> Inr n
      | None \<Rightarrow> (case as_u64 value of
          Some n \<Rightarrow> Inr (if uint n \<le> i64_max then uint n else 0)
        | None \<Rightarrow> (case as_str value of
            Some s \<Rightarrow> (case parse_i64 s of Some n \<Rightarrow> Inr n | None \<Rightarrow> Inl IdNotANumber)
          | None \<Rightarrow> Inl IdRequired)))"

text \<open>\<^verbatim>\<open>parse_json_id(v).unwrap_or(0)\<close>, which most callers use.\<close>

definition json_id_or_0 :: "json \<Rightarrow> i64" where
  "json_id_or_0 value = (case parse_json_id value of Inr n \<Rightarrow> n | Inl _ \<Rightarrow> 0)"

definition stringify_id :: "string \<Rightarrow> (string \<times> json) list \<Rightarrow> (string \<times> json) list" where
  "stringify_id key ob =
     (case map_of ob key of
        None \<Rightarrow> ob
      | Some val \<Rightarrow> (case parse_json_id val of
            Inr n \<Rightarrow> kv_insert key (JStr (json_id n)) ob
          | Inl _ \<Rightarrow> ob))"

definition stringify_row_ids :: "json \<Rightarrow> json" where
  "stringify_row_ids value =
     (case value of
        JObj ob \<Rightarrow> JObj (stringify_id ''chat_id'' (stringify_id ''id'' ob))
      | _ \<Rightarrow> value)"

fun le_bytes_u64 :: "byte list \<Rightarrow> u64" where
  "le_bytes_u64 [] = 0"
| "le_bytes_u64 (b # bs) = ucast b + 256 * le_bytes_u64 bs"

definition stable_id :: "(byte list \<Rightarrow> byte list) \<Rightarrow> string \<Rightarrow> i64" where
  "stable_id sha256 guid =
     (let digest = sha256 (utf8 guid);
          n = and (le_bytes_u64 (take 8 digest)) (of_int i64_max)
      in if n = 0 then 1 else uint n)"

section \<open>Names, handles, chats, messages\<close>

definition is_person_name :: "string \<Rightarrow> bool" where
  "is_person_name s \<longleftrightarrow> list_ex is_alphabetic s"

record handle =
  h_address :: string
  h_service :: "string option"
  h_name :: "string option"

record attachment_meta =
  a_guid :: string
  a_mime :: "string option"
  a_name :: "string option"

record chat =
  c_guid :: chat_guid
  c_identifier :: string
  c_display_name :: "string option"
  c_participants :: "handle list"
  c_last_message_at :: "string option"
  c_unread_count :: u32
  c_is_group :: bool

record message =
  m_guid :: message_guid
  m_chat :: chat_guid
  m_text :: string
  m_created_at :: string
  m_is_from_me :: bool
  m_sender :: "handle option"
  m_attachments :: "attachment_meta list"

definition person_name_of :: "string option \<Rightarrow> string option" where
  "person_name_of v = opt_filter is_person_name (map_option trim v)"

definition parse_handle :: "json option \<Rightarrow> handle option" where
  "parse_handle value =
     (case value of
        None \<Rightarrow> None
      | Some v \<Rightarrow>
          if is_null v then None
          else (case as_str (json_at v ''address'') of
              None \<Rightarrow> None
            | Some address \<Rightarrow> Some
                \<lparr> h_address = address,
                  h_service = as_str (json_at v ''service''),
                  h_name = person_name_of (or_else (as_str (json_at v ''displayName''))
                                                   (as_str (json_at v ''name''))) \<rparr>))"

definition parse_handles :: "json \<Rightarrow> handle list" where
  "parse_handles value = List.map_filter (\<lambda>v. parse_handle (Some v)) (unwrap_or (as_array value) [])"

definition chat_from_bb :: "(i64 \<Rightarrow> string option) \<Rightarrow> json \<Rightarrow> domain_error + chat" where
  "chat_from_bb fmt value =
     (case chat_guid_parse (unwrap_or (as_str (json_at value ''guid'')) []) of
        Inl e \<Rightarrow> Inl e
      | Inr guid \<Rightarrow> Inr
          \<lparr> c_guid = guid,
            c_identifier = unwrap_or (or_else (as_str (json_at value ''chatIdentifier''))
                                              (as_str (json_at value ''identifier''))) [],
            c_display_name = person_name_of (as_str (json_at value ''displayName'')),
            c_participants = parse_handles (json_at value ''participants''),
            c_last_message_at = Option.bind (json_get value ''lastMessage'')
              (\<lambda>m. timestamp_from_bb fmt (json_get m ''dateCreated'')),
            c_unread_count = ucast (unwrap_or (as_u64 (json_at value ''unreadCount'')) 0),
            c_is_group = chat_guid_is_group guid \<rparr>)"

definition chat_stub :: "chat_guid \<Rightarrow> handle option \<Rightarrow> string option \<Rightarrow> u32 \<Rightarrow> chat" where
  "chat_stub guid hnd last_message_at unread_count =
     \<lparr> c_guid = guid,
       c_identifier = unwrap_or (map_option h_address hnd) (chat_guid_str guid),
       c_display_name = Option.bind hnd h_name,
       c_participants = (case hnd of None \<Rightarrow> [] | Some h \<Rightarrow> [h]),
       c_last_message_at = last_message_at,
       c_unread_count = unread_count,
       c_is_group = chat_guid_is_group guid \<rparr>"

definition chat_stub_from_message :: "message \<Rightarrow> chat" where
  "chat_stub_from_message msg =
     chat_stub (m_chat msg) (m_sender msg)
       (opt_filter (\<lambda>s. s \<noteq> []) (Some (m_created_at msg)))
       (if m_is_from_me msg then 0 else 1)"

definition chat_title :: "chat \<Rightarrow> string" where
  "chat_title c =
     unwrap_or
       (or_else (opt_filter is_person_name (c_display_name c))
                (find_map (\<lambda>h. opt_filter is_person_name (h_name h)) (c_participants c)))
       (c_identifier c)"

definition chat_to_cache_json :: "chat \<Rightarrow> i64 \<Rightarrow> json" where
  "chat_to_cache_json c id' =
     (let name = chat_title c in
      mk_obj
        [(''id'', JStr (json_id id')),
         (''guid'', JStr (chat_guid_str (c_guid c))),
         (''name'', JStr name),
         (''contact_name'', JStr name),
         (''display_name'', of_opt_str (c_display_name c)),
         (''identifier'', JStr (c_identifier c)),
         (''participants'', JArr (map (\<lambda>h. JStr (h_address h)) (c_participants c))),
         (''last_message_at'', of_opt_str (c_last_message_at c)),
         (''unread_count'', JNum (NPos (ucast (c_unread_count c)))),
         (''is_group'', JBool (c_is_group c))])"

definition chat_guid_from_message :: "json \<Rightarrow> chat_guid option \<Rightarrow> domain_error + chat_guid" where
  "chat_guid_from_message value fallback =
     (case Option.bind (as_array (json_at value ''chats''))
             (\<lambda>a. case a of [] \<Rightarrow> None | c # _ \<Rightarrow> as_str (json_at c ''guid'')) of
        Some g \<Rightarrow> chat_guid_parse g
      | None \<Rightarrow> (case as_str (json_at value ''chatGuid'') of
          Some g \<Rightarrow> chat_guid_parse g
        | None \<Rightarrow> (case fallback of
            Some fb \<Rightarrow> Inr fb
          | None \<Rightarrow> Inl (NoChatGuid (unwrap_or (as_str (json_at value ''guid'')) ''?'')))))"

definition parse_attachment :: "json \<Rightarrow> attachment_meta option" where
  "parse_attachment a =
     (case as_str (json_at a ''guid'') of
        None \<Rightarrow> None
      | Some g \<Rightarrow> Some
          \<lparr> a_guid = g,
            a_mime = or_else (as_str (json_at a ''mime'')) (as_str (json_at a ''uti'')),
            a_name = or_else (as_str (json_at a ''transferName'')) (as_str (json_at a ''name'')) \<rparr>)"

definition message_from_bb ::
  "(i64 \<Rightarrow> string option) \<Rightarrow> json \<Rightarrow> chat_guid option \<Rightarrow> domain_error + message" where
  "message_from_bb fmt value fallback_chat =
     (case message_guid_parse (unwrap_or (as_str (json_at value ''guid'')) []) of
        Inl e \<Rightarrow> Inl e
      | Inr guid \<Rightarrow> (case chat_guid_from_message value fallback_chat of
          Inl e \<Rightarrow> Inl e
        | Inr ch \<Rightarrow> Inr
          \<lparr> m_guid = guid,
            m_chat = ch,
            m_text = unwrap_or (as_str (json_at value ''text'')) [],
            m_created_at = unwrap_or
              (or_else (timestamp_from_bb fmt (json_get value ''dateCreated''))
                       (as_str (json_at value ''created_at''))) [],
            m_is_from_me = unwrap_or
              (or_else (as_bool (json_at value ''isFromMe''))
                       (as_bool (json_at value ''is_from_me''))) False,
            m_sender = or_else (parse_handle (json_get value ''handle''))
              (map_option
                 (\<lambda>address. \<lparr> h_address = address,
                    h_service = as_str (json_at (json_at value ''handle'') ''service''),
                    h_name = None \<rparr>)
                 (as_str (json_at (json_at value ''handle'') ''address''))),
            m_attachments = List.map_filter parse_attachment
              (unwrap_or (as_array (json_at value ''attachments'')) []) \<rparr>))"

definition attachment_to_json :: "attachment_meta \<Rightarrow> json" where
  "attachment_to_json a = mk_obj
     [(''guid'', JStr (a_guid a)), (''mime'', of_opt_str (a_mime a)), (''name'', of_opt_str (a_name a))]"

definition message_to_cache_json :: "message \<Rightarrow> i64 \<Rightarrow> i64 \<Rightarrow> json" where
  "message_to_cache_json m id' chat_id =
     mk_obj
       [(''id'', JStr (json_id id')),
        (''chat_id'', JStr (json_id chat_id)),
        (''guid'', JStr (message_guid_str (m_guid m))),
        (''text'', JStr (m_text m)),
        (''created_at'', JStr (m_created_at m)),
        (''is_from_me'', JBool (m_is_from_me m)),
        (''sender'', of_opt_str (map_option h_address (m_sender m))),
        (''sender_name'', of_opt_str (Option.bind (m_sender m) h_name)),
        (''attachments'', JArr (map attachment_to_json (m_attachments m)))]"

section \<open>Facts\<close>

lemma parse_json_id_json_id [simp]: "in_i64 n \<Longrightarrow> parse_json_id (JStr (json_id n)) = Inr n"
  by (simp add: parse_json_id_def json_id_def parse_i64_show_int)

lemma json_id_or_0_json_id [simp]: "in_i64 n \<Longrightarrow> json_id_or_0 (JStr (json_id n)) = n"
  by (simp add: json_id_or_0_def)

lemma json_id_or_0_JNull [simp]: "json_id_or_0 JNull = 0"
  by (simp add: json_id_or_0_def parse_json_id_def)

lemma chat_guid_parse_cases:
  "chat_guid_parse raw = (if trim raw = [] then Inl EmptyChatGuid else Inr (ChatGuid (trim raw)))"
  by (simp add: chat_guid_parse_def Let_def)

lemma message_guid_parse_cases:
  "message_guid_parse raw =
     (if trim raw = [] then Inl EmptyMessageGuid else Inr (MessageGuid (trim raw)))"
  by (simp add: message_guid_parse_def Let_def)

lemma stable_id_bounds: "1 \<le> stable_id sha256 guid \<and> stable_id sha256 guid \<le> i64_max"
proof -
  let ?n = "and (le_bytes_u64 (take 8 (sha256 (utf8 guid)))) (of_int i64_max)"
  have "?n \<le> of_int i64_max" by (rule word_and_le1)
  then have "uint ?n \<le> i64_max"
    by (simp add: word_le_def i64_max_def)
  moreover have "?n \<noteq> 0 \<Longrightarrow> 1 \<le> uint ?n"
    using uint_ge_0 [of ?n] by (metis add.left_neutral int_one_le_iff_zero_less order_le_less unsigned_eq_0_iff)
  ultimately show ?thesis
    by (auto simp: stable_id_def Let_def i64_max_def)
qed

lemma stable_id_in_i64: "in_i64 (stable_id sha256 guid)"
  using stable_id_bounds [of sha256 guid] by (simp add: in_i64_def i64_min_def)

lemma stringify_row_ids_is_object [simp]: "is_object (stringify_row_ids v) = is_object v"
  by (cases v) (simp_all add: stringify_row_ids_def)

lemma json_at_stringify_row_ids:
  "key \<noteq> ''id'' \<Longrightarrow> key \<noteq> ''chat_id'' \<Longrightarrow> json_at (stringify_row_ids v) key = json_at v key"
  by (cases v) (auto simp: stringify_row_ids_def stringify_id_def split: option.splits sum.splits)

lemma json_wf_chat_to_cache_json [simp]: "json_wf (chat_to_cache_json c n)"
  by (simp add: chat_to_cache_json_def Let_def json_wf_mk_obj list_all_iff)

lemma json_wf_message_to_cache_json [simp]: "json_wf (message_to_cache_json m n k)"
  by (auto simp: message_to_cache_json_def attachment_to_json_def list_all_iff intro!: json_wf_mk_obj)

lemma parse_json_id_wf: "json_wf v \<Longrightarrow> parse_json_id v = Inr n \<Longrightarrow> in_i64 n"
  by (auto simp: parse_json_id_def in_i64_def [of 0] i64_max_def i64_min_def dest: as_i64_wf parse_i64_in_range
      split: option.splits if_splits elim!: as_u64.elims)

lemma json_id_or_0_wf: "json_wf v \<Longrightarrow> in_i64 (json_id_or_0 v)"
  by (auto simp: json_id_or_0_def in_i64_def [of 0] i64_max_def i64_min_def dest: parse_json_id_wf split: sum.splits)

end
