(* ===== verification/Contact_Book.thy ===== *)
theory Contact_Book
  imports Domain
begin

text \<open>
  The contact book of \<^verbatim>\<open>sync/src/domain.rs\<close>: the table from address keys to person names, how
  it is filled from BlueBubbles contacts, chats and cached chats, and how it names the handles
  of chats and messages.  The \<^verbatim>\<open>HashMap\<close> is an association list; its order never matters.
\<close>

record contact_book =
  names :: "(string \<times> string) list"

definition empty_book :: contact_book where
  "empty_book = \<lparr> names = [] \<rparr>"

section \<open>Address keys\<close>

definition address_keys :: "string \<Rightarrow> string list" where
  "address_keys raw0 =
     (let raw = trim raw0;
          digits = filter is_ascii_digit raw
      in [to_lowercase raw, digits] @
         (if length digits = 11 \<and> starts_with digits ''1''
          then [drop 1 digits, ''+'' @ digits, ''+'' @ drop 1 digits]
          else if length digits = 10 then [''1'' @ digits, ''+1'' @ digits]
          else []))"

section \<open>Operations\<close>

definition book_lookup :: "contact_book \<Rightarrow> string \<Rightarrow> string option" where
  "book_lookup book address = find_map (map_of (names book)) (address_keys address)"

text \<open>\<^verbatim>\<open>entry(key).or_insert_with(..)\<close>.\<close>

definition or_insert :: "string \<Rightarrow> string \<Rightarrow> contact_book \<Rightarrow> contact_book" where
  "or_insert key name book =
     (case map_of (names book) key of
        Some _ \<Rightarrow> book
      | None \<Rightarrow> book\<lparr>names := (key, name) # names book\<rparr>)"

definition book_record :: "string \<Rightarrow> string \<Rightarrow> contact_book \<Rightarrow> contact_book" where
  "book_record address name book =
     (if \<not> is_person_name name \<or> trim address = [] then book
      else fold (\<lambda>key. or_insert key name) (address_keys address) book)"

definition book_is_empty :: "contact_book \<Rightarrow> bool" where
  "book_is_empty book \<longleftrightarrow> names book = []"

definition contact_display_name :: "json \<Rightarrow> string" where
  "contact_display_name contact =
     (case opt_filter (\<lambda>s. s \<noteq> []) (map_option trim (as_str (json_at contact ''displayName''))) of
        Some s \<Rightarrow> s
      | None \<Rightarrow>
          let first = trim (unwrap_or (as_str (json_at contact ''firstName'')) []);
              last = trim (unwrap_or (as_str (json_at contact ''lastName'')) [])
          in trim (first @ '' '' @ last))"

definition contact_address :: "json \<Rightarrow> string option" where
  "contact_address entry =
     (case as_str entry of
        Some s \<Rightarrow> Some s
      | None \<Rightarrow> find_map
          (\<lambda>key. opt_filter (\<lambda>s. s \<noteq> []) (map_option trim (Option.bind (json_get entry key) as_str)))
          [''address'', ''phoneNumber'', ''number'', ''unformatted'', ''digits'', ''email''])"

definition record_contact :: "json \<Rightarrow> contact_book \<Rightarrow> contact_book" where
  "record_contact contact book =
     (let name = contact_display_name contact in
      if \<not> is_person_name name then book
      else fold
        (\<lambda>entry b. case contact_address entry of None \<Rightarrow> b | Some addr \<Rightarrow> book_record addr name b)
        (unwrap_or (as_array (json_at contact ''phoneNumbers'')) [] @
         unwrap_or (as_array (json_at contact ''emails'')) [])
        book)"

definition book_from_bb :: "json \<Rightarrow> contact_book" where
  "book_from_bb value =
     (case value of
        JArr arr \<Rightarrow> fold record_contact arr empty_book
      | JObj ob \<Rightarrow> fold record_contact
          (unwrap_or (Option.bind (or_else (map_of ob ''contacts'') (map_of ob ''data'')) as_array) [])
          empty_book
      | _ \<Rightarrow> empty_book)"

definition seed_from_chat :: "chat \<Rightarrow> contact_book \<Rightarrow> contact_book" where
  "seed_from_chat c book =
     (if c_is_group c then
        fold (\<lambda>h b. case h_name h of None \<Rightarrow> b | Some name \<Rightarrow> book_record (h_address h) name b)
          (c_participants c) book
      else
        let b1 = (case c_display_name c of
              None \<Rightarrow> book
            | Some name \<Rightarrow>
                fold (\<lambda>h. book_record (h_address h) name) (c_participants c)
                  (book_record (c_identifier c) name book))
        in fold (\<lambda>h b. case h_name h of
                None \<Rightarrow> b
              | Some name \<Rightarrow> book_record (c_identifier c) name (book_record (h_address h) name b))
             (c_participants c) b1)"

text \<open>The title a cached chat document gives to a one-to-one chat: the first of three members
  that is a person name.\<close>

definition cache_chat_title :: "json \<Rightarrow> string option" where
  "cache_chat_title c =
     find_map (\<lambda>key. opt_filter is_person_name (as_str (json_at c key)))
       [''contact_name'', ''display_name'', ''name'']"

definition cache_chat_is_group :: "json \<Rightarrow> bool" where
  "cache_chat_is_group c = unwrap_or (as_bool (json_at c ''is_group'')) False"

definition seed_from_cache_chat :: "json \<Rightarrow> contact_book \<Rightarrow> contact_book" where
  "seed_from_cache_chat c book =
     (if cache_chat_is_group c then book
      else let ident = unwrap_or (as_str (json_at c ''identifier'')) [] in
        case cache_chat_title c of None \<Rightarrow> book | Some name \<Rightarrow> book_record ident name book)"

definition apply_name :: "string option \<Rightarrow> string option \<Rightarrow> string option" where
  "apply_name slot from_book =
     (if opt_filter is_person_name slot \<noteq> None then slot
      else case opt_filter is_person_name from_book of
          Some name \<Rightarrow> Some name
        | None \<Rightarrow> if opt_filter (\<lambda>n. \<not> is_person_name n) slot \<noteq> None then None else slot)"

definition apply_name_to_handle :: "contact_book \<Rightarrow> handle \<Rightarrow> handle" where
  "apply_name_to_handle book h =
     h\<lparr>h_name := apply_name (h_name h) (book_lookup book (h_address h))\<rparr>"

definition chat_apply_contacts :: "contact_book \<Rightarrow> chat \<Rightarrow> chat" where
  "chat_apply_contacts book c =
     c\<lparr>c_participants := map (apply_name_to_handle book) (c_participants c),
       c_display_name := apply_name (c_display_name c) (book_lookup book (c_identifier c))\<rparr>"

definition message_apply_contacts :: "contact_book \<Rightarrow> message \<Rightarrow> message" where
  "message_apply_contacts book m = m\<lparr>m_sender := map_option (apply_name_to_handle book) (m_sender m)\<rparr>"

section \<open>Key-wise behaviour\<close>

lemma or_insert_key:
  "map_of (names (or_insert key name book)) k =
     (if k = key then Some (unwrap_or (map_of (names book) key) name) else map_of (names book) k)"
  by (auto simp: or_insert_def split: option.splits)

lemma fold_or_insert_key:
  "map_of (names (fold (\<lambda>key. or_insert key name) keys book)) k =
     (if k \<in> set keys then Some (unwrap_or (map_of (names book) k) name)
      else map_of (names book) k)"
  by (induction keys arbitrary: book) (auto simp: or_insert_key)

lemma book_record_key:
  "map_of (names (book_record address name book)) k =
     (if is_person_name name \<and> trim address \<noteq> [] \<and> k \<in> set (address_keys address)
      then Some (unwrap_or (map_of (names book) k) name)
      else map_of (names book) k)"
  by (auto simp: book_record_def fold_or_insert_key)

text \<open>Recording never changes an entry that is there: the first name wins.\<close>

lemma book_record_keeps: "map_of (names book) k = Some n \<Longrightarrow>
    map_of (names (book_record address name book)) k = Some n"
  by (simp add: book_record_key)

definition person_names_only :: "contact_book \<Rightarrow> bool" where
  "person_names_only book \<longleftrightarrow> (\<forall>(k, n) \<in> set (names book). is_person_name n)"

lemma or_insert_person_names:
  "is_person_name name \<Longrightarrow> person_names_only book \<Longrightarrow> person_names_only (or_insert key name book)"
  by (auto simp: or_insert_def person_names_only_def split: option.splits)

lemma fold_keeps_pred: "(\<And>x b. x \<in> set xs \<Longrightarrow> P b \<Longrightarrow> P (f x b)) \<Longrightarrow> P b \<Longrightarrow> P (fold f xs b)"
  by (induction xs arbitrary: b) auto

lemmas fold_person_names = fold_keeps_pred [where P = person_names_only]

lemma book_record_person_names:
  "person_names_only book \<Longrightarrow> person_names_only (book_record address name book)"
  by (auto simp: book_record_def intro!: fold_person_names or_insert_person_names)

lemma empty_book_person_names: "person_names_only empty_book"
  by (simp add: empty_book_def person_names_only_def)

lemma record_contact_person_names:
  "person_names_only book \<Longrightarrow> person_names_only (record_contact contact book)"
  by (auto simp: record_contact_def Let_def
      intro!: fold_person_names book_record_person_names split: option.splits)

lemma book_from_bb_person_names: "person_names_only (book_from_bb value)"
  by (auto simp: book_from_bb_def empty_book_person_names
      intro!: fold_person_names record_contact_person_names split: json.splits)

lemma seed_from_chat_person_names:
  "person_names_only book \<Longrightarrow> person_names_only (seed_from_chat c book)"
  by (auto simp: seed_from_chat_def Let_def
      intro!: fold_person_names book_record_person_names split: option.splits)

lemma seed_from_cache_chat_person_names:
  "person_names_only book \<Longrightarrow> person_names_only (seed_from_cache_chat c book)"
  by (auto simp: seed_from_cache_chat_def Let_def intro!: book_record_person_names split: option.splits)

lemma book_lookup_person_name:
  "person_names_only book \<Longrightarrow> book_lookup book address = Some n \<Longrightarrow> is_person_name n"
  by (auto simp: book_lookup_def person_names_only_def dest!: find_map_Some map_of_SomeD)

lemma cache_chat_title_person_name: "cache_chat_title c = Some n \<Longrightarrow> is_person_name n"
  unfolding cache_chat_title_def by (drule find_map_Some) auto

end
