(* ===== verification/Cache_Store.thy ===== *)
theory Cache_Store
  imports Contact_Book
begin

text \<open>
  The SQLite database under \<^verbatim>\<open>sync/src/cache.rs\<close>: its four tables, the statements the code
  runs on them, and the identity registry (\<^verbatim>\<open>id_for_guid\<close>).

  A table with an integer primary key is a key-ordered association list (rowid order).  A
  \<^verbatim>\<open>raw_json\<close> cell holds text printed by serde_json; it is represented by the value that text
  parses to, \<open>None\<close> for text that is no JSON.  Failures of the engine itself (I/O, a locked file)
  are not modelled.  The order of rows with equal sort keys is the one the query plans give:
  scan order for \<open>order_desc\<close>, reverse index order for \<open>order_desc_index\<close>.
\<close>

section \<open>Tables\<close>

record chat_row =
  cr_guid :: "string option"
  cr_name :: "string option"
  cr_identifier :: "string option"
  cr_service :: "string option"
  cr_last_message_at :: "string option"
  cr_unread_count :: i64
  cr_participants :: json
  cr_raw :: "json option"

record msg_row =
  mr_chat_id :: i64
  mr_guid :: "string option"
  mr_sender :: "string option"
  mr_sender_name :: "string option"
  mr_text :: "string option"
  mr_created_at :: "string option"
  mr_is_from_me :: i64
  mr_raw :: "json option"

record cache =
  chats :: "(i64 \<times> chat_row) list"
  messages :: "(i64 \<times> msg_row) list"
  sync_meta :: "(string \<times> string) list"
  identities :: "(string \<times> i64) list"

definition empty_cache :: cache where
  "empty_cache = \<lparr> chats = [], messages = [], sync_meta = [], identities = [] \<rparr>"

text \<open>What an operation can fail with: text in a \<^verbatim>\<open>raw_json\<close> cell that is no JSON, a panic of
  serde_json's indexed assignment, or a loop that never returns.\<close>

datatype cache_error = BadJson | Panic | NoReturn

section \<open>Ordering rows\<close>

datatype sql_text = SqlNull | SqlText string

instantiation sql_text :: linorder
begin

fun less_eq_sql_text :: "sql_text \<Rightarrow> sql_text \<Rightarrow> bool" where
  "less_eq_sql_text SqlNull _ = True"
| "less_eq_sql_text (SqlText _) SqlNull = False"
| "less_eq_sql_text (SqlText a) (SqlText b) = (a \<le> b)"

definition less_sql_text :: "sql_text \<Rightarrow> sql_text \<Rightarrow> bool" where
  "less_sql_text a b \<longleftrightarrow> a \<le> b \<and> \<not> b \<le> a"

instance
proof
  fix x y z :: sql_text
  show "(x < y) = (x \<le> y \<and> \<not> y \<le> x)" by (rule less_sql_text_def)
  show "x \<le> x" by (cases x) simp_all
  show "x \<le> y \<Longrightarrow> y \<le> z \<Longrightarrow> x \<le> z" by (cases x; cases y; cases z) auto
  show "x \<le> y \<Longrightarrow> y \<le> x \<Longrightarrow> x = y" by (cases x; cases y) auto
  show "x \<le> y \<or> y \<le> x" by (cases x; cases y) auto
qed

end

definition sql_of :: "string option \<Rightarrow> sql_text" where
  "sql_of v = (case v of None \<Rightarrow> SqlNull | Some s \<Rightarrow> SqlText s)"

definition order_desc :: "('r \<Rightarrow> sql_text) \<Rightarrow> 'r list \<Rightarrow> 'r list" where
  "order_desc k rows = rev (sort_key k (rev rows))"

definition order_desc_index :: "('r \<Rightarrow> sql_text) \<Rightarrow> 'r list \<Rightarrow> 'r list" where
  "order_desc_index k rows = rev (sort_key k rows)"

text \<open>\<^verbatim>\<open>LIMIT n\<close>: a negative bound is no bound.\<close>

definition sql_limit :: "i64 \<Rightarrow> 'r list \<Rightarrow> 'r list" where
  "sql_limit n rows = (if n < 0 then rows else take (nat n) rows)"

lemma sorted_desc_order_desc: "sorted_wrt (\<lambda>a b. k b \<le> k a) (order_desc k rows)"
  and sorted_desc_order_desc_index: "sorted_wrt (\<lambda>a b. k b \<le> k a) (order_desc_index k rows)"
  using sorted_sort_key [of k] by (simp_all add: order_desc_def order_desc_index_def sorted_wrt_rev sorted_map)

lemma set_order_desc [simp]: "set (order_desc k rows) = set rows"
  and set_order_desc_index [simp]: "set (order_desc_index k rows) = set rows"
  by (simp_all add: order_desc_def order_desc_index_def)

lemma length_order_desc [simp]: "length (order_desc k rows) = length rows"
  and length_order_desc_index [simp]: "length (order_desc_index k rows) = length rows"
  by (simp_all add: order_desc_def order_desc_index_def)

lemma sql_limit_all: "int (length rows) \<le> n \<or> n < 0 \<Longrightarrow> sql_limit n rows = rows"
  by (auto simp: sql_limit_def)

lemma set_sql_limit: "set (sql_limit n rows) \<subseteq> set rows"
  by (auto simp: sql_limit_def dest: in_set_takeD)

lemma length_sql_limit: "0 \<le> n \<Longrightarrow> int (length (sql_limit n rows)) \<le> n"
  by (simp add: sql_limit_def)

lemma sorted_wrt_sql_limit: "sorted_wrt P rows \<Longrightarrow> sorted_wrt P (sql_limit n rows)"
  by (simp add: sql_limit_def sorted_wrt_take)

text \<open>What a bounded answer leaves out comes after all that it holds.\<close>

lemma sql_limit_rest:
  assumes "sorted_wrt P rows" "r \<in> set rows"
  shows "r \<in> set (sql_limit n rows)
    \<or> 0 \<le> n \<and> int (length (sql_limit n rows)) = n \<and> (\<forall>t \<in> set (sql_limit n rows). P t r)"
proof (cases "n < 0 \<or> r \<in> set (take (nat n) rows)")
  case False
  then have r: "r \<in> set (drop (nat n) rows)"
    using assms(2) by (metis Un_iff append_take_drop_id set_append)
  then have "nat n < length rows" by (metis drop_eq_Nil empty_iff leI list.set(1))
  moreover have "sorted_wrt P (take (nat n) rows @ drop (nat n) rows)"
    unfolding append_take_drop_id by (rule assms(1))
  then have "\<forall>t \<in> set (take (nat n) rows). P t r" using r unfolding sorted_wrt_append by blast
  ultimately show ?thesis using False by (simp add: sql_limit_def)
qed (use assms in \<open>auto simp: sql_limit_def\<close>)

section \<open>The identity registry\<close>

definition id_of :: "cache \<Rightarrow> string \<Rightarrow> i64 option" where
  "id_of db g = map_of (identities db) g"

text \<open>\<^verbatim>\<open>INSERT OR IGNORE INTO identities\<close>: ignored when the guid or the id is taken.\<close>

definition identity_free :: "string \<Rightarrow> i64 \<Rightarrow> cache \<Rightarrow> bool" where
  "identity_free g n db \<longleftrightarrow> g \<notin> fst ` set (identities db) \<and> n \<notin> snd ` set (identities db)"

definition insert_identity :: "string \<Rightarrow> i64 \<Rightarrow> cache \<Rightarrow> cache" where
  "insert_identity g n db =
     (if identity_free g n db then db\<lparr>identities := identities db @ [(g, n)]\<rparr> else db)"

definition max_identity :: "cache \<Rightarrow> i64" where
  "max_identity db = (case map snd (identities db) of [] \<Rightarrow> 0 | n # ns \<Rightarrow> foldr max ns n)"

definition next_identity :: "cache \<Rightarrow> i64" where
  "next_identity db = max (i64_saturating_add (max_identity db) 1) 1"

text \<open>The \<^verbatim>\<open>loop\<close> of \<^verbatim>\<open>id_for_guid\<close>, a round per unit of fuel.\<close>

fun id_loop :: "nat \<Rightarrow> string \<Rightarrow> i64 \<Rightarrow> cache \<Rightarrow> (i64 \<times> cache) option" where
  "id_loop 0 g n db = None"
| "id_loop (Suc fuel) g n db =
     (if identity_free g n db then Some (n, insert_identity g n db)
      else case id_of db g of
          Some m \<Rightarrow> Some (m, db)
        | None \<Rightarrow> id_loop fuel g (next_identity db) db)"

definition id_for_guid :: "(byte list \<Rightarrow> byte list) \<Rightarrow> string \<Rightarrow> (cache, cache_error, i64) act" where
  "id_for_guid sha256 g db =
     (case id_of db g of
        Some n \<Rightarrow> (Inr n, db)
      | None \<Rightarrow> (case id_loop 2 g (stable_id sha256 g) db of
          Some (n, db') \<Rightarrow> (Inr n, db')
        | None \<Rightarrow> (Inl NoReturn, db)))"

definition guid_of_identity :: "cache \<Rightarrow> i64 \<Rightarrow> string option" where
  "guid_of_identity db n = map_option fst (List.find (\<lambda>(_, m). m = n) (identities db))"

definition guid_for_chat_id :: "i64 \<Rightarrow> cache \<Rightarrow> string option" where
  "guid_for_chat_id n db =
     (case opt_filter (\<lambda>s. s \<noteq> []) (Option.bind (map_of (chats db) n) cr_guid) of
        Some g \<Rightarrow> Some g
      | None \<Rightarrow> guid_of_identity db n)"

definition identifier_for_chat_id :: "i64 \<Rightarrow> cache \<Rightarrow> string option" where
  "identifier_for_chat_id n db = Option.bind (map_of (chats db) n) cr_identifier"

text \<open>The registry invariant: the two unique constraints of the table and the range of its ids.\<close>

definition registry_ok :: "cache \<Rightarrow> bool" where
  "registry_ok db \<longleftrightarrow> distinct (map fst (identities db)) \<and> distinct (map snd (identities db))
     \<and> (\<forall>n \<in> snd ` set (identities db). in_i64 n)"

lemma registry_ok_insert [intro]:
  "registry_ok db \<Longrightarrow> in_i64 n \<Longrightarrow> registry_ok (insert_identity g n db)"
  by (auto simp: registry_ok_def insert_identity_def identity_free_def)

lemma id_of_None: "id_of db g = None \<longleftrightarrow> g \<notin> fst ` set (identities db)"
  by (simp add: id_of_def map_of_eq_None_iff)

lemma id_of_insert:
  "id_of (insert_identity g n db) h =
     (if h = g \<and> identity_free g n db then Some n else id_of db h)"
proof (cases "identity_free g n db")
  case True
  then have "map_of (identities db) g = None"
    by (simp add: identity_free_def map_of_eq_None_iff)
  then show ?thesis
    using True by (auto simp: id_of_def insert_identity_def map_add_def split: option.split)
qed (simp add: insert_identity_def)

lemma id_of_insert_mono: "id_of db h = Some m \<Longrightarrow> id_of (insert_identity g n db) h = Some m"
  using id_of_None [of db h] by (auto simp: id_of_insert identity_free_def)

lemma le_foldr_max: "x \<in> set ns \<or> x \<le> (n :: int) \<Longrightarrow> x \<le> foldr max ns n"
  by (induction ns) auto

lemma max_identity_ge: "n \<in> snd ` set (identities db) \<Longrightarrow> n \<le> max_identity db"
proof -
  assume n: "n \<in> snd ` set (identities db)"
  then obtain m ms where ms: "map snd (identities db) = m # ms"
    by (cases "identities db") auto
  then have "n = m \<or> n \<in> set ms" using n by (metis list.set_map set_ConsD)
  then show ?thesis
    using ms le_foldr_max [of n ms m] by (auto simp: max_identity_def)
qed

lemma foldr_max_in: "foldr max ns n = (n :: int) \<or> foldr max ns n \<in> set ns"
  by (induction ns) (auto simp: max_def)

lemma max_identity_in: "identities db \<noteq> [] \<Longrightarrow> max_identity db \<in> snd ` set (identities db)"
proof -
  assume "identities db \<noteq> []"
  then obtain m ms where ms: "map snd (identities db) = m # ms"
    by (cases "identities db") auto
  then have "set (map snd (identities db)) = insert m (set ms)" by simp
  then show ?thesis
    using ms foldr_max_in [of ms m] by (auto simp: max_identity_def)
qed

lemma next_identity_in_i64 [simp]: "in_i64 (next_identity db)"
proof -
  have "in_i64 (i64_saturating_add (max_identity db) 1)" by simp
  then show ?thesis
    unfolding next_identity_def max_def by (auto simp: in_i64_def i64_max_def i64_min_def)
qed

text \<open>Below the top of the range the next candidate is above every id in use.\<close>

lemma next_identity_fresh:
  assumes "registry_ok db" "i64_max \<notin> snd ` set (identities db)"
  shows "next_identity db \<notin> snd ` set (identities db)"
proof
  assume "next_identity db \<in> snd ` set (identities db)"
  then have le: "next_identity db \<le> max_identity db" and ne: "identities db \<noteq> []"
    by (rule max_identity_ge, auto)
  have top: "max_identity db \<in> snd ` set (identities db)" using ne by (rule max_identity_in)
  have "max_identity db \<noteq> i64_max" using top assms(2) by metis
  moreover have "in_i64 (max_identity db)"
    using top assms(1) unfolding registry_ok_def by blast
  ultimately have "i64_saturating_add (max_identity db) 1 = max_identity db + 1"
    by (auto simp: i64_saturating_add_def in_i64_def i64_max_def i64_min_def)
  with le show False by (simp add: next_identity_def)
qed

lemma next_identity_stuck:
  "registry_ok db \<Longrightarrow> i64_max \<in> snd ` set (identities db) \<Longrightarrow> next_identity db = i64_max"
proof -
  assume ok: "registry_ok db" and top: "i64_max \<in> snd ` set (identities db)"
  then have "identities db \<noteq> []" by auto
  then have "max_identity db \<in> snd ` set (identities db)" by (rule max_identity_in)
  then have "max_identity db \<le> i64_max" using ok by (auto simp: registry_ok_def in_i64_def)
  then have "max_identity db = i64_max" using max_identity_ge [OF top] by simp
  then show ?thesis
    by (simp add: next_identity_def i64_saturating_add_def i64_max_def i64_min_def)
qed

lemma identity_free_iff: "identity_free g n db \<longleftrightarrow> id_of db g = None \<and> n \<notin> snd ` set (identities db)"
  by (simp add: identity_free_def id_of_None)

text \<open>A taken id at the top of the range makes every later round the same.\<close>

lemma id_loop_stuck:
  assumes "registry_ok db" "id_of db g = None" "i64_max \<in> snd ` set (identities db)"
    "n \<in> snd ` set (identities db)"
  shows "id_loop fuel g n db = None"
  using assms(4)
proof (induction fuel arbitrary: n)
  case (Suc fuel)
  then show ?case
    using assms next_identity_stuck [OF assms(1,3)] by (simp add: identity_free_iff)
qed simp

definition id_stuck :: "string \<Rightarrow> i64 \<Rightarrow> cache \<Rightarrow> bool" where
  "id_stuck g n db \<longleftrightarrow> id_of db g = None \<and> n \<in> snd ` set (identities db)
     \<and> i64_max \<in> snd ` set (identities db)"

lemma id_loop_two:
  assumes "registry_ok db"
  shows "id_loop (Suc (Suc fuel)) g n db =
    (if id_stuck g n db then None
     else case id_of db g of
        Some m \<Rightarrow> Some (m, db)
      | None \<Rightarrow>
          let m = (if n \<notin> snd ` set (identities db) then n else next_identity db)
          in Some (m, insert_identity g m db))"
proof (cases "id_of db g")
  case None
  show ?thesis
  proof (cases "n \<in> snd ` set (identities db)")
    case True
    show ?thesis
    proof (cases "i64_max \<in> snd ` set (identities db)")
      case False
      then show ?thesis
        using None True next_identity_fresh [OF assms False]
        by (simp add: identity_free_iff id_stuck_def Let_def)
    qed (use None True assms id_loop_stuck [of db g n "Suc (Suc fuel)"] in \<open>auto simp: id_stuck_def\<close>)
  qed (use None in \<open>simp add: identity_free_iff id_stuck_def Let_def\<close>)
qed (simp add: identity_free_iff id_stuck_def)

text \<open>Two rounds are enough: if they do not settle the id, no number of rounds does.\<close>

lemma id_loop_fuel: "registry_ok db \<Longrightarrow> 2 \<le> fuel \<Longrightarrow> id_loop fuel g n db = id_loop 2 g n db"
proof -
  assume ok: "registry_ok db" and "2 \<le> fuel"
  then obtain k where "fuel = 2 + k" using le_Suc_ex by blast
  then have "fuel = Suc (Suc k)" by simp
  then show ?thesis by (simp only: id_loop_two [OF ok] numeral_2_eq_2)
qed

lemma id_for_guid_hit: "id_of db g = Some n \<Longrightarrow> id_for_guid sha256 g db = (Inr n, db)"
  by (simp add: id_for_guid_def)

lemma id_for_guid_miss:
  assumes "registry_ok db" "id_of db g = None"
  shows "id_for_guid sha256 g db =
    (let c = stable_id sha256 g in
     if id_stuck g c db then (Inl NoReturn, db)
     else let m = (if c \<notin> snd ` set (identities db) then c else next_identity db)
       in (Inr m, insert_identity g m db))"
  using id_loop_two [OF assms(1), of 0 g "stable_id sha256 g"] assms(2)
  by (simp add: id_for_guid_def Let_def numeral_2_eq_2 del: id_loop.simps)

lemma id_for_guid_cases:
  assumes "registry_ok db" "id_for_guid sha256 g db = (r, db')"
  obtains (hit) n where "id_of db g = Some n" "r = Inr n" "db' = db"
  | (fresh) n where "id_of db g = None" "identity_free g n db" "in_i64 n" "r = Inr n"
      "db' = insert_identity g n db"
  | (stuck) "id_stuck g (stable_id sha256 g) db" "r = Inl NoReturn" "db' = db"
proof (cases "id_of db g")
  case None
  show ?thesis
  proof (cases "id_stuck g (stable_id sha256 g) db")
    case True
    then have "r = Inl NoReturn" "db' = db"
      using assms None by (simp_all add: id_for_guid_miss)
    then show ?thesis using stuck True by blast
  next
    case False
    define m where "m = (if stable_id sha256 g \<notin> snd ` set (identities db)
      then stable_id sha256 g else next_identity db)"
    have "identity_free g m db"
      using None False next_identity_fresh [OF assms(1)]
      by (auto simp: m_def identity_free_iff id_stuck_def)
    moreover have "in_i64 m" by (simp add: m_def stable_id_in_i64)
    moreover have "r = Inr m" "db' = insert_identity g m db"
      using assms None False by (simp_all add: id_for_guid_miss Let_def m_def)
    ultimately show ?thesis using fresh None by blast
  qed
next
  case (Some n)
  then have "r = Inr n" "db' = db" using assms by (simp_all add: id_for_guid_hit)
  then show ?thesis using hit Some by blast
qed

lemma id_for_guid_registry_ok: "keeps registry_ok (id_for_guid sha256 g)"
proof
  fix db
  assume ok: "registry_ok db"
  obtain r db' where run: "id_for_guid sha256 g db = (r, db')" by fastforce
  show "registry_ok (snd (id_for_guid sha256 g db))"
    using ok by (rule id_for_guid_cases [OF _ run]) (use ok run in auto)
qed

lemma guid_of_identity_iff:
  assumes "registry_ok db"
  shows "guid_of_identity db n = Some g \<longleftrightarrow> id_of db g = Some n"
proof -
  have d: "distinct (map fst (identities db))" "distinct (map snd (identities db))"
    using assms by (simp_all add: registry_ok_def)
  have "List.find (\<lambda>(_, m). m = n) xs = Some (g, m) \<longleftrightarrow> m = n \<and> (g, n) \<in> set xs"
    if "distinct (map snd xs)" for xs :: "(string \<times> int) list" and m
    using that by (induction xs) (force simp: image_iff)+
  then have "guid_of_identity db n = Some g \<longleftrightarrow> (g, n) \<in> set (identities db)"
    using d(2) by (auto simp: guid_of_identity_def)
  then show ?thesis
    using d(1) by (simp add: id_of_def)
qed

text \<open>While the top of the range is out of reach, allocation succeeds and stays near the ids in use.\<close>

lemma id_for_guid_room:
  assumes "registry_ok db" "\<forall>n \<in> snd ` set (identities db). n < m" "m \<le> i64_max" "stable_id sha256 g < m"
  obtains n db' where "id_for_guid sha256 g db = (Inr n, db')"
    "\<forall>n \<in> snd ` set (identities db'). n < m + 1"
proof -
  obtain r db' where run: "id_for_guid sha256 g db = (r, db')" by fastforce
  have "1 < m" using assms(4) stable_id_bounds [of sha256 g] by simp
  moreover have "max_identity db < m"
    using max_identity_in [of db] assms(2) \<open>1 < m\<close> by (cases "identities db = []") (auto simp: max_identity_def)
  ultimately have next_le: "next_identity db \<le> m"
    by (simp add: next_identity_def i64_saturating_add_def i64_min_def)
  show thesis
  proof (cases "id_of db g")
    case (Some n)
    then show thesis using that [of n db] assms(2) by (fastforce simp: id_for_guid_hit)
  next
    case None
    have "\<not> id_stuck g (stable_id sha256 g) db"
      using assms(2,3) by (fastforce simp: id_stuck_def)
    moreover define k where "k = (if stable_id sha256 g \<notin> snd ` set (identities db)
      then stable_id sha256 g else next_identity db)"
    ultimately have run: "id_for_guid sha256 g db = (Inr k, insert_identity g k db)"
      using id_for_guid_miss [OF assms(1) None, of sha256] by (simp add: Let_def)
    have "k \<le> m" using assms(4) next_le by (simp add: k_def)
    then have "\<forall>n \<in> snd ` set (identities (insert_identity g k db)). n < m + 1"
      using assms(2) by (auto simp: insert_identity_def)
    with run show thesis by (rule that)
  qed
qed

section \<open>The registry as an interface\<close>

text \<open>
  What the operations of the cache rely on: allocation returns the registered id, never
  changes an id that was given out, and ids and guids determine each other.
\<close>

locale identity_registry =
  fixes alloc :: "string \<Rightarrow> 's \<Rightarrow> ('e + i64) \<times> 's"
    and known :: "'s \<Rightarrow> string \<Rightarrow> i64 option"
    and owner :: "'s \<Rightarrow> i64 \<Rightarrow> string option"
    and inv :: "'s \<Rightarrow> bool"
  assumes alloc_known: "inv s \<Longrightarrow> alloc g s = (Inr n, s') \<Longrightarrow> known s' g = Some n"
    and alloc_mono: "inv s \<Longrightarrow> alloc g s = (r, s') \<Longrightarrow> known s h = Some m \<Longrightarrow> known s' h = Some m"
    and alloc_hit: "known s g = Some n \<Longrightarrow> alloc g s = (Inr n, s)"
    and alloc_inv: "inv s \<Longrightarrow> alloc g s = (r, s') \<Longrightarrow> inv s'"
    and owner_known: "inv s \<Longrightarrow> owner s n = Some g \<longleftrightarrow> known s g = Some n"
begin

fun alloc_all :: "string list \<Rightarrow> 's \<Rightarrow> ('e + i64 list) \<times> 's" where
  "alloc_all [] s = (Inr [], s)"
| "alloc_all (g # gs) s = (case alloc g s of
       (Inl e, s') \<Rightarrow> (Inl e, s')
     | (Inr n, s') \<Rightarrow> (case alloc_all gs s' of
           (Inl e, s'') \<Rightarrow> (Inl e, s'')
         | (Inr ns, s'') \<Rightarrow> (Inr (n # ns), s'')))"

lemma known_inject: "inv s \<Longrightarrow> known s g = Some n \<Longrightarrow> known s h = Some n \<Longrightarrow> g = h"
  by (metis option.inject owner_known)

lemma alloc_all_inv: "inv s \<Longrightarrow> alloc_all gs s = (r, s') \<Longrightarrow> inv s'"
  by (induction gs arbitrary: s r)
     (auto dest: alloc_inv split: prod.splits sum.splits)

lemma alloc_all_mono:
  "inv s \<Longrightarrow> alloc_all gs s = (r, s') \<Longrightarrow> known s h = Some m \<Longrightarrow> known s' h = Some m"
proof (induction gs arbitrary: s r)
  case (Cons g gs)
  obtain r1 s1 where run: "alloc g s = (r1, s1)" by fastforce
  have 1: "inv s1" "known s1 h = Some m"
    using Cons.prems run alloc_inv alloc_mono by blast+
  show ?case
  proof (cases r1)
    case (Inr n)
    obtain r2 s2 where run2: "alloc_all gs s1 = (r2, s2)" by fastforce
    moreover have "s2 = s'" using Cons.prems run run2 Inr by (auto split: sum.splits)
    ultimately show ?thesis using Cons.IH 1 by blast
  qed (use Cons.prems run 1 in auto)
qed simp

text \<open>Whatever the order of allocations, the ids handed out agree with the registry at the end,
  so equal guids got equal ids and distinct guids distinct ones.\<close>

lemma alloc_all_known:
  "inv s \<Longrightarrow> alloc_all gs s = (Inr ns, s') \<Longrightarrow> map (known s') gs = map Some ns"
proof (induction gs arbitrary: s ns)
  case (Cons g gs)
  obtain n s1 where run: "alloc g s = (Inr n, s1)"
    using Cons.prems by (auto split: prod.splits sum.splits)
  moreover obtain ms where run2: "alloc_all gs s1 = (Inr ms, s')" and ns: "ns = n # ms"
    using Cons.prems run by (auto split: prod.splits sum.splits)
  moreover have "inv s1" using Cons.prems run alloc_inv by blast
  moreover have "known s1 g = Some n" using Cons.prems run alloc_known by blast
  ultimately show ?case
    using Cons.IH alloc_all_mono by auto
qed simp

lemma alloc_all_injective:
  assumes "inv s" "alloc_all gs s = (Inr ns, s')"
  shows "distinct ns \<longleftrightarrow> distinct gs"
proof -
  have k: "map (known s') gs = map Some ns" using assms by (rule alloc_all_known)
  have "inv s'" using assms alloc_all_inv by blast
  have "inj_on (known s') (set gs)"
  proof (rule inj_onI)
    fix g h
    assume "g \<in> set gs" "h \<in> set gs" "known s' g = known s' h"
    moreover then obtain n where "known s' g = Some n"
      using k by (metis (no_types, lifting) imageE image_eqI list.set_map)
    ultimately show "g = h" using \<open>inv s'\<close> known_inject by metis
  qed
  then have "distinct (map (known s') gs) \<longleftrightarrow> distinct gs" by (simp add: distinct_map)
  then show ?thesis using k by (simp add: distinct_map)
qed

lemma alloc_owner: "inv s \<Longrightarrow> alloc g s = (Inr n, s') \<Longrightarrow> owner s' n = Some g"
  using alloc_inv alloc_known owner_known by blast

lemma alloc_stable:
  assumes "inv s" "alloc g s = (Inr n, s1)" "alloc_all gs s1 = (r, s2)"
  shows "alloc g s2 = (Inr n, s2)"
  using assms alloc_hit alloc_known alloc_all_mono alloc_inv by metis

end

interpretation registry: identity_registry "id_for_guid sha256" id_of guid_of_identity registry_ok
  for sha256
proof
  fix s s' :: cache and g h :: string and n m :: i64 and r
  show "registry_ok s \<Longrightarrow> id_for_guid sha256 g s = (Inr n, s') \<Longrightarrow> id_of s' g = Some n"
    by (erule id_for_guid_cases, assumption) (auto simp: id_of_insert)
  show "registry_ok s \<Longrightarrow> id_for_guid sha256 g s = (r, s') \<Longrightarrow> id_of s h = Some m \<Longrightarrow>
      id_of s' h = Some m"
    by (erule id_for_guid_cases, assumption) (auto simp: id_of_insert_mono)
  show "id_of s g = Some n \<Longrightarrow> id_for_guid sha256 g s = (Inr n, s)"
    by (rule id_for_guid_hit)
  show "registry_ok s \<Longrightarrow> id_for_guid sha256 g s = (r, s') \<Longrightarrow> registry_ok s'"
    using id_for_guid_registry_ok by (rule keepsE)
  show "registry_ok s \<Longrightarrow> guid_of_identity s n = Some g \<longleftrightarrow> id_of s g = Some n"
    by (rule guid_of_identity_iff)
qed

text \<open>A run of allocations, one guid after the other.\<close>

fun ids_for_guids :: "(byte list \<Rightarrow> byte list) \<Rightarrow> string list \<Rightarrow> (cache, cache_error, i64 list) act" where
  "ids_for_guids sha256 [] = ret []"
| "ids_for_guids sha256 (g # gs) =
     andthen (id_for_guid sha256 g) (\<lambda>n. andthen (ids_for_guids sha256 gs) (\<lambda>ns. ret (n # ns)))"

lemma ids_for_guids_alloc_all: "ids_for_guids sha256 gs db = registry.alloc_all sha256 gs db"
  by (induction gs arbitrary: db) (auto simp: andthen_apply split: prod.splits sum.splits)

end
