(* ===== verification/Cache.thy ===== *)
theory Cache
  imports Cache_Store
begin

text \<open>
  The operations of \<^verbatim>\<open>sync/src/cache.rs\<close> that write: storing chats and messages, the live path
  with its transaction, the merge of two versions of a message, and marking a chat read.  The
  invariant \<open>cache_ok\<close> says that every row is the projection of its stored document.
\<close>

section \<open>Messages\<close>

definition row_id :: "json \<Rightarrow> i64" where
  "row_id v = json_id_or_0 (json_at v ''id'')"

text \<open>\<^verbatim>\<open>load_raw_json\<close>.\<close>

definition load_raw_json :: "i64 \<Rightarrow> (cache, cache_error, json option) act" where
  "load_raw_json n db =
     (case map_of (messages db) n of
        None \<Rightarrow> (Inr None, db)
      | Some row \<Rightarrow> (case mr_raw row of
          None \<Rightarrow> (Inl BadJson, db)
        | Some v \<Rightarrow> (Inr (Some v), db)))"

text \<open>The columns that \<^verbatim>\<open>persist_message\<close> binds.\<close>

definition message_row :: "json \<Rightarrow> msg_row" where
  "message_row msg =
     \<lparr> mr_chat_id = json_id_or_0 (json_at msg ''chat_id''),
       mr_guid = as_str (json_at msg ''guid''),
       mr_sender = as_str (json_at msg ''sender''),
       mr_sender_name = as_str (json_at msg ''sender_name''),
       mr_text = as_str (json_at msg ''text''),
       mr_created_at = as_str (json_at msg ''created_at''),
       mr_is_from_me = (if unwrap_or (as_bool (json_at msg ''is_from_me'')) False then 1 else 0),
       mr_raw = Some msg \<rparr>"

definition persist_message :: "json \<Rightarrow> (cache, cache_error, unit) act" where
  "persist_message msg =
     writes (\<lambda>db. db\<lparr>messages := kv_insert (row_id msg) (message_row msg) (messages db)\<rparr>)"

text \<open>\<^verbatim>\<open>merge_message\<close>: the members of the incoming document that do not replace a stored one.\<close>

definition merge_skips :: "string \<Rightarrow> json \<Rightarrow> (string \<times> json) list \<Rightarrow> bool" where
  "merge_skips k v ob \<longleftrightarrow>
     is_null v
     \<or> k = ''chat_id'' \<and> json_id_or_0 v = 0
     \<or> k = ''created_at'' \<and> (case as_str v of None \<Rightarrow> True | Some s \<Rightarrow> s = [])
     \<or> k = ''sender_name'' \<and>
         (let incoming = unwrap_or (as_str v) [];
              existing = unwrap_or (Option.bind (map_of ob ''sender_name'') as_str) []
          in \<not> is_person_name incoming \<and> (is_person_name existing \<or> incoming = []))"

definition merge_member :: "string \<times> json \<Rightarrow> (string \<times> json) list \<Rightarrow> (string \<times> json) list" where
  "merge_member kv ob =
     (if merge_skips (fst kv) (snd kv) ob then ob else kv_insert (fst kv) (snd kv) ob)"

definition merge_message :: "json option \<Rightarrow> json \<Rightarrow> json" where
  "merge_message existing incoming =
     (let out = (case Option.bind existing as_object of None \<Rightarrow> [] | Some ob \<Rightarrow> ob) in
      case as_object incoming of
        None \<Rightarrow> incoming
      | Some ob \<Rightarrow> JObj (fold merge_member ob out))"

definition upsert_message :: "json \<Rightarrow> (cache, cache_error, unit) act" where
  "upsert_message msg =
     andthen (load_raw_json (row_id msg)) (\<lambda>existing. persist_message (merge_message existing msg))"

section \<open>Chats\<close>

text \<open>The name by which a chat document is compared, and the one its row carries.\<close>

definition contact_or_name :: "json \<Rightarrow> string option" where
  "contact_or_name c = or_else (as_str (json_at c ''contact_name'')) (as_str (json_at c ''name''))"

definition name_or_contact :: "json \<Rightarrow> string option" where
  "name_or_contact c = or_else (as_str (json_at c ''name'')) (as_str (json_at c ''contact_name''))"

definition keep_person_name :: "json \<Rightarrow> json \<Rightarrow> json option" where
  "keep_person_name existing c =
     (if is_person_name (unwrap_or (contact_or_name existing) [])
         \<and> \<not> is_person_name (unwrap_or (contact_or_name c) [])
      then Option.bind (json_put c ''name'' (json_at existing ''name'')) (\<lambda>c1.
           Option.bind (json_put c1 ''contact_name'' (json_at existing ''contact_name'')) (\<lambda>c2.
             if opt_filter is_person_name (as_str (json_at existing ''display_name'')) \<noteq> None
             then json_put c2 ''display_name'' (json_at existing ''display_name'')
             else Some c2))
      else Some c)"

text \<open>SQLite's \<^verbatim>\<open>json_set(doc, '$.unread_count', n)\<close>: only an object has members.\<close>

definition json_set_unread :: "json \<Rightarrow> i64 \<Rightarrow> json" where
  "json_set_unread c n =
     (case c of JObj ob \<Rightarrow> JObj (kv_insert ''unread_count'' (of_i64 n) ob) | _ \<Rightarrow> c)"

definition unread_of :: "json \<Rightarrow> i64" where
  "unread_of c = unwrap_or (as_i64 (json_at c ''unread_count'')) 0"

definition new_chat_row :: "json \<Rightarrow> chat_row" where
  "new_chat_row c =
     \<lparr> cr_guid = as_str (json_at c ''guid''),
       cr_name = name_or_contact c,
       cr_identifier = as_str (json_at c ''identifier''),
       cr_service = as_str (json_at c ''service''),
       cr_last_message_at = as_str (json_at c ''last_message_at''),
       cr_unread_count = unread_of c,
       cr_participants = json_at c ''participants'',
       cr_raw = Some c \<rparr>"

definition conflict_chat_row :: "json \<Rightarrow> chat_row \<Rightarrow> chat_row" where
  "conflict_chat_row c old =
     old\<lparr> cr_name := name_or_contact c,
          cr_last_message_at := as_str (json_at c ''last_message_at''),
          cr_raw := Some (json_set_unread c (cr_unread_count old)) \<rparr>"

definition store_chat :: "i64 \<Rightarrow> json \<Rightarrow> cache \<Rightarrow> cache" where
  "store_chat n c db =
     db\<lparr>chats := kv_insert n
        (case map_of (chats db) n of
           None \<Rightarrow> new_chat_row c | Some old \<Rightarrow> conflict_chat_row c old) (chats db)\<rparr>"

definition register_guid :: "json \<Rightarrow> i64 \<Rightarrow> cache \<Rightarrow> cache" where
  "register_guid c n db =
     (case opt_filter (\<lambda>s. s \<noteq> []) (as_str (json_at c ''guid'')) of
        None \<Rightarrow> db | Some g \<Rightarrow> insert_identity g n db)"

definition upsert_chat :: "json \<Rightarrow> (cache, cache_error, unit) act" where
  "upsert_chat c db =
     (let n = row_id c;
          named = (case Option.bind (map_of (chats db) n) cr_raw of
              None \<Rightarrow> Some c
            | Some existing \<Rightarrow> keep_person_name existing c)
      in case named of
           None \<Rightarrow> (Inl Panic, db)
         | Some c' \<Rightarrow> (Inr (), register_guid c' n (store_chat n c' db)))"

definition mark_read :: "i64 \<Rightarrow> (cache, cache_error, json option) act" where
  "mark_read n db =
     (case map_of (chats db) n of
        None \<Rightarrow> (Inr None, db)
      | Some row \<Rightarrow> (case cr_raw row of
          None \<Rightarrow> (Inl BadJson, db)
        | Some c \<Rightarrow> (case json_put c ''unread_count'' (of_i64 0) of
            None \<Rightarrow> (Inl Panic, db)
          | Some c' \<Rightarrow> (Inr (Some (stringify_row_ids c')),
              db\<lparr>chats := kv_insert n (row\<lparr>cr_unread_count := 0, cr_raw := Some c'\<rparr>) (chats db)\<rparr>))))"

section \<open>The live path\<close>

datatype chat_outcome = ChatUpdated json | ChatUnknown i64

record applied =
  ap_message :: json
  ap_chat :: chat_outcome
  ap_is_new :: bool

definition later_timestamp :: "string option \<Rightarrow> string option \<Rightarrow> string option" where
  "later_timestamp existing incoming =
     (case (existing, incoming) of
        (Some a, Some b) \<Rightarrow> Some (if a < b then b else a)
      | (Some a, None) \<Rightarrow> Some a
      | (None, Some b) \<Rightarrow> Some b
      | (None, None) \<Rightarrow> None)"

definition bump_unread :: "bool \<Rightarrow> bool \<Rightarrow> i64 \<Rightarrow> i64" where
  "bump_unread is_new is_from_me n =
     (if is_new \<and> \<not> is_from_me then i64_saturating_add n 1 else n)"

text \<open>The new unread count and the chat document after a live message.\<close>

definition live_chat :: "bool \<Rightarrow> json \<Rightarrow> json \<Rightarrow> (i64 \<times> json) option" where
  "live_chat is_new merged c =
     Option.bind
       (case later_timestamp (as_str (json_at c ''last_message_at''))
               (as_str (json_at merged ''created_at'')) of
          None \<Rightarrow> Some c
        | Some ts \<Rightarrow> json_put c ''last_message_at'' (JStr ts))
       (\<lambda>c1.
          let unread = bump_unread is_new
                (unwrap_or (as_bool (json_at merged ''is_from_me'')) False) (unread_of c1)
          in map_option (\<lambda>c2. (unread, c2)) (json_put c1 ''unread_count'' (of_i64 unread)))"

definition live_chat_row :: "i64 \<Rightarrow> json \<Rightarrow> chat_row \<Rightarrow> chat_row" where
  "live_chat_row unread c row =
     row\<lparr> cr_last_message_at := as_str (json_at c ''last_message_at''),
          cr_unread_count := unread,
          cr_name := name_or_contact c,
          cr_raw := Some c \<rparr>"

definition update_live_chat :: "bool \<Rightarrow> json \<Rightarrow> (cache, cache_error, chat_outcome) act" where
  "update_live_chat is_new merged db =
     (let n = json_id_or_0 (json_at merged ''chat_id'') in
      case map_of (chats db) n of
        None \<Rightarrow> (Inr (ChatUnknown n), db)
      | Some row \<Rightarrow> (case cr_raw row of
          None \<Rightarrow> (Inl BadJson, db)
        | Some c \<Rightarrow> (case live_chat is_new merged c of
            None \<Rightarrow> (Inl Panic, db)
          | Some (unread, c') \<Rightarrow> (Inr (ChatUpdated c'),
              db\<lparr>chats := kv_insert n (live_chat_row unread c' row) (chats db)\<rparr>))))"

text \<open>A transaction that is not committed is rolled back.\<close>

definition in_transaction :: "('s, 'e, 'a) act \<Rightarrow> ('s, 'e, 'a) act" where
  "in_transaction m s = (case m s of (Inl e, _) \<Rightarrow> (Inl e, s) | (Inr x, s') \<Rightarrow> (Inr x, s'))"

definition stringify_outcome :: "chat_outcome \<Rightarrow> chat_outcome" where
  "stringify_outcome out = (case out of
     ChatUpdated v \<Rightarrow> ChatUpdated (stringify_row_ids v) | ChatUnknown n \<Rightarrow> ChatUnknown n)"

definition apply_live_message :: "json \<Rightarrow> (cache, cache_error, applied) act" where
  "apply_live_message msg =
     in_transaction
       (andthen (load_raw_json (row_id msg)) (\<lambda>existing.
        let is_new = (existing = None);
            merged = merge_message existing msg
        in andthen (persist_message merged) (\<lambda>_.
           andthen (update_live_chat is_new merged) (\<lambda>out.
             ret \<lparr> ap_message = stringify_row_ids merged, ap_chat = stringify_outcome out,
                   ap_is_new = is_new \<rparr>))))"

section \<open>Chats and messages of the domain\<close>

definition upsert_domain_chat ::
  "(byte list \<Rightarrow> byte list) \<Rightarrow> chat \<Rightarrow> (cache, cache_error, i64) act" where
  "upsert_domain_chat sha256 c =
     andthen (id_for_guid sha256 (chat_guid_str (c_guid c))) (\<lambda>n.
     andthen (upsert_chat (chat_to_cache_json c n)) (\<lambda>_. ret n))"

definition upsert_domain_message ::
  "(byte list \<Rightarrow> byte list) \<Rightarrow> message \<Rightarrow> (cache, cache_error, i64) act" where
  "upsert_domain_message sha256 msg =
     andthen (id_for_guid sha256 (chat_guid_str (m_chat msg))) (\<lambda>chat_id.
     andthen (id_for_guid sha256 (message_guid_str (m_guid msg))) (\<lambda>n.
     andthen (upsert_message (message_to_cache_json msg n chat_id)) (\<lambda>_. ret n)))"

text \<open>A message without a person's name takes the title of its one-to-one chat.\<close>

definition name_from_chat :: "i64 \<Rightarrow> json \<Rightarrow> cache \<Rightarrow> json option" where
  "name_from_chat chat_id j db =
     (if is_person_name (unwrap_or (as_str (json_at j ''sender_name'')) []) then Some j
      else case Option.bind (map_of (chats db) chat_id) cr_raw of
          None \<Rightarrow> Some j
        | Some c \<Rightarrow>
            if cache_chat_is_group c then Some j
            else (case cache_chat_title c of
                None \<Rightarrow> Some j
              | Some name \<Rightarrow> json_put j ''sender_name'' (JStr name)))"

definition apply_domain_message ::
  "(byte list \<Rightarrow> byte list) \<Rightarrow> message \<Rightarrow> (cache, cache_error, applied) act" where
  "apply_domain_message sha256 msg =
     andthen (id_for_guid sha256 (chat_guid_str (m_chat msg))) (\<lambda>chat_id.
     andthen (reads (\<lambda>db. map_of (chats db) chat_id \<noteq> None)) (\<lambda>exists.
     andthen (if exists then ret ()
              else andthen
                (upsert_domain_chat sha256 ((chat_stub_from_message msg)\<lparr>c_unread_count := 0\<rparr>))
                (\<lambda>_. ret ())) (\<lambda>_.
     andthen (id_for_guid sha256 (message_guid_str (m_guid msg))) (\<lambda>n.
     andthen (reads (name_from_chat chat_id (message_to_cache_json msg n chat_id))) (\<lambda>j.
       case j of None \<Rightarrow> raise Panic | Some doc \<Rightarrow> apply_live_message doc)))))"

section \<open>The merge, key by key\<close>

lemma merge_skips_cong:
  "(k = ''sender_name'' \<Longrightarrow> map_of ob k = map_of ob' k) \<Longrightarrow> merge_skips k v ob = merge_skips k v ob'"
  by (cases "k = ''sender_name''") (simp_all add: merge_skips_def)

lemma merge_member_key:
  "map_of (merge_member (k, v) ob) k' =
     (if k' = k \<and> \<not> merge_skips k v ob then Some v else map_of ob k')"
  by (simp add: merge_member_def)

lemma map_of_fold_merge:
  "distinct (map fst kvs) \<Longrightarrow> map_of (fold merge_member kvs ob) k =
     (case map_of kvs k of
        None \<Rightarrow> map_of ob k
      | Some v \<Rightarrow> if merge_skips k v ob then map_of ob k else Some v)"
proof (induction kvs arbitrary: ob)
  case (Cons kv kvs)
  obtain k0 v0 where kv: "kv = (k0, v0)" by (cases kv)
  have rest: "map_of kvs k0 = None" "distinct (map fst kvs)"
    using Cons.prems kv by (simp_all add: map_of_eq_None_iff)
  have skips: "k \<noteq> k0 \<Longrightarrow> merge_skips k v (merge_member kv ob) = merge_skips k v ob" for v
    by (rule merge_skips_cong) (simp add: kv merge_member_key)
  show ?case
    using Cons.IH [OF rest(2), of "merge_member kv ob"] rest(1) skips
    by (cases "k = k0") (auto simp: kv merge_member_key split: option.splits)
qed simp

definition stored_members :: "json option \<Rightarrow> (string \<times> json) list" where
  "stored_members existing = (case Option.bind existing as_object of None \<Rightarrow> [] | Some ob \<Rightarrow> ob)"

lemma merge_message_get:
  assumes "json_wf (JObj ob)"
  shows "json_get (merge_message existing (JObj ob)) k =
    (case map_of ob k of
       None \<Rightarrow> map_of (stored_members existing) k
     | Some v \<Rightarrow>
         if merge_skips k v (stored_members existing) then map_of (stored_members existing) k
         else Some v)"
  using assms map_of_fold_merge [of ob "stored_members existing" k]
  by (simp add: merge_message_def stored_members_def Let_def kv_sorted_distinct)

lemma stored_members_at: "map_of (stored_members existing) k = Option.bind existing (\<lambda>v. json_get v k)"
  by (cases existing) (auto simp: stored_members_def json_get_def split: json.splits)

lemma json_wf_merge_member:
  "json_wf (JObj ob) \<Longrightarrow> json_wf (snd kv) \<Longrightarrow> json_wf (JObj (merge_member kv ob))"
  by (simp add: merge_member_def json_wf_kv_insert del: json_wf.simps(3))

lemma json_wf_fold_merge:
  "json_wf (JObj ob) \<Longrightarrow> list_all (\<lambda>kv. json_wf (snd kv)) kvs \<Longrightarrow> json_wf (JObj (fold merge_member kvs ob))"
  by (induction kvs arbitrary: ob) (simp_all add: json_wf_merge_member del: json_wf.simps(3))

lemma json_wf_merge_message:
  assumes "json_wf incoming" "\<And>v. existing = Some v \<Longrightarrow> json_wf v"
  shows "json_wf (merge_message existing incoming)"
proof (cases "as_object incoming")
  case (Some ob)
  then have inc: "incoming = JObj ob" by (cases incoming) auto
  have "json_wf (JObj (stored_members existing))"
    using assms(2) by (cases existing) (auto simp: stored_members_def split: option.splits elim: as_object.elims)
  then have "json_wf (JObj (fold merge_member ob (stored_members existing)))"
    using assms(1) by (intro json_wf_fold_merge) (simp_all add: inc list_all_iff)
  then show ?thesis
    by (simp add: merge_message_def inc stored_members_def)
qed (use assms in \<open>simp add: merge_message_def\<close>)

text \<open>The merged document is stored under the id of the incoming one.\<close>

lemma row_id_merge_message:
  assumes "json_wf incoming" "\<And>v. existing = Some v \<Longrightarrow> row_id v = row_id incoming"
  shows "row_id (merge_message existing incoming) = row_id incoming"
proof (cases "as_object incoming")
  case (Some ob)
  then have inc: "incoming = JObj ob" by (cases incoming) auto
  have get: "json_get (merge_message existing incoming) ''id'' =
      (if json_at incoming ''id'' = JNull then Option.bind existing (\<lambda>v. json_get v ''id'')
       else Some (json_at incoming ''id''))"
    using merge_message_get [of ob existing "''id''"] assms(1)
    by (auto simp: inc merge_skips_def stored_members_at unwrap_or_def split: option.splits)
  show ?thesis
    using assms(2) get
    by (cases existing) (auto simp: row_id_def json_at_def unwrap_or_def split: option.splits if_splits)
qed (simp add: merge_message_def)

lemma is_object_merge_message [simp]: "is_object (merge_message existing incoming) = is_object incoming"
  by (cases incoming) (simp_all add: merge_message_def Let_def)

lemma fold_merge_idem:
  assumes "kv_sorted kvs" "json_wf (JObj ob)"
  shows "fold merge_member kvs (fold merge_member kvs ob) = fold merge_member kvs ob"
proof -
  have d: "distinct (map fst kvs)" using assms(1) by (rule kv_sorted_distinct)
  define out where "out = fold merge_member kvs ob"
  have "merge_member kv out = out" if "kv \<in> set kvs" "kv_sorted out" for kv
  proof -
    obtain k v where kv: "kv = (k, v)" by (cases kv)
    then have v: "map_of kvs k = Some v" using that d by simp
    show ?thesis
    proof (cases "merge_skips k v ob")
      case True
      then have "map_of out k = map_of ob k" using map_of_fold_merge [OF d, of ob k] v by (simp add: out_def)
      then have "merge_skips k v out = merge_skips k v ob" by (intro merge_skips_cong)
      then show ?thesis using True by (simp add: kv merge_member_def)
    next
      case False
      then have "map_of out k = Some v" using map_of_fold_merge [OF d, of ob k] v by (simp add: out_def)
      then show ?thesis using that by (simp add: kv merge_member_def kv_insert_same)
    qed
  qed
  moreover have "kv_sorted (fold merge_member xs ob')" if "kv_sorted ob'" for xs ob'
    using that by (induction xs arbitrary: ob') (auto simp: merge_member_def kv_insert_sorted)
  ultimately have "fold merge_member xs out = out" if "set xs \<subseteq> set kvs" for xs
    using that assms(2) by (induction xs) (auto simp: out_def)
  then show ?thesis by (simp add: out_def)
qed

lemma merge_message_idem:
  assumes "json_wf incoming" "\<And>v. existing = Some v \<Longrightarrow> json_wf v"
  shows "merge_message (Some (merge_message existing incoming)) incoming = merge_message existing incoming"
proof (cases "as_object incoming")
  case (Some ob)
  then have inc: "incoming = JObj ob" by (cases incoming) auto
  have "json_wf (JObj (stored_members existing))"
    using assms(2) by (cases existing) (auto simp: stored_members_def split: option.splits elim: as_object.elims)
  then have "fold merge_member ob (fold merge_member ob (stored_members existing))
      = fold merge_member ob (stored_members existing)"
    using assms(1) by (intro fold_merge_idem) (simp_all add: inc)
  then show ?thesis by (simp add: merge_message_def inc stored_members_def)
qed (simp add: merge_message_def)

section \<open>The invariant of the tables\<close>

definition message_row_ok :: "i64 \<Rightarrow> msg_row \<Rightarrow> bool" where
  "message_row_ok n row =
     (case mr_raw row of
        None \<Rightarrow> False
      | Some v \<Rightarrow> json_wf v \<and> is_object v \<and> row_id v = n \<and> row = message_row v)"

definition chat_row_ok :: "i64 \<Rightarrow> chat_row \<Rightarrow> bool" where
  "chat_row_ok n row =
     (case cr_raw row of
        None \<Rightarrow> False
      | Some c \<Rightarrow> json_wf c \<and> is_object c \<and> row_id c = n \<and> cr_unread_count row = unread_of c
          \<and> cr_last_message_at row = as_str (json_at c ''last_message_at'')
          \<and> cr_name row = name_or_contact c)"

definition cache_ok :: "cache \<Rightarrow> bool" where
  "cache_ok db \<longleftrightarrow>
     rows_ok chat_row_ok (chats db) \<and> rows_ok message_row_ok (messages db) \<and> registry_ok db"

lemma cache_ok_empty: "cache_ok empty_cache"
  by (simp add: cache_ok_def empty_cache_def registry_ok_def)

lemma cache_ok_message:
  assumes "cache_ok db" "map_of (messages db) n = Some row"
  obtains v where "mr_raw row = Some v" "json_wf v" "is_object v" "row_id v = n" "row = message_row v"
  using rows_ok_get [of message_row_ok "messages db" n row] assms
  by (auto simp: cache_ok_def message_row_ok_def split: option.splits)

lemma cache_ok_chat:
  assumes "cache_ok db" "map_of (chats db) n = Some row"
  obtains c where "cr_raw row = Some c" "json_wf c" "is_object c" "row_id c = n"
    "cr_unread_count row = unread_of c" "cr_last_message_at row = as_str (json_at c ''last_message_at'')" "cr_name row = name_or_contact c"
  using rows_ok_get [of chat_row_ok "chats db" n row] assms
  by (auto simp: cache_ok_def chat_row_ok_def split: option.splits)

lemma cache_ok_insert_identity:
  "cache_ok db \<Longrightarrow> in_i64 n \<Longrightarrow> cache_ok (insert_identity g n db)"
  unfolding cache_ok_def using registry_ok_insert [of db n g] by (simp add: insert_identity_def)

lemma insert_identity_tables [simp]:
  "chats (insert_identity g n db) = chats db" "messages (insert_identity g n db) = messages db"
  "sync_meta (insert_identity g n db) = sync_meta db"
  by (simp_all add: insert_identity_def)

lemma registry_ok_tables [simp]:
  "registry_ok (db\<lparr>chats := t\<rparr>) = registry_ok db" "registry_ok (db\<lparr>messages := u\<rparr>) = registry_ok db"
  by (simp_all add: registry_ok_def)

lemma id_of_tables [simp]:
  "id_of (db\<lparr>chats := t\<rparr>) g = id_of db g" "id_of (db\<lparr>messages := u\<rparr>) g = id_of db g"
  by (simp_all add: id_of_def)

lemma unread_of_in_i64: "json_wf c \<Longrightarrow> in_i64 (unread_of c)"
  by (cases "as_i64 (json_at c ''unread_count'')")
     (auto simp: unread_of_def in_i64_def [of 0] i64_max_def i64_min_def intro: as_i64_wf json_wf_at)

lemma row_id_in_i64: "json_wf v \<Longrightarrow> in_i64 (row_id v)"
  by (simp add: row_id_def json_id_or_0_wf json_wf_at)

text \<open>Patching a member of an object document.\<close>

lemma json_put_objectE:
  assumes "is_object c" "json_wf c" "json_wf x"
  obtains c' where "json_put c k x = Some c'" "is_object c'" "json_wf c'"
    "\<And>k'. json_at c' k' = (if k' = k then x else json_at c k')"
  using json_put_object [OF assms(1), of k x] json_wf_put [OF _ assms(2,3)] json_put_at by metis

lemma load_raw_json_ok:
  "cache_ok db \<Longrightarrow> load_raw_json n db =
     (Inr (Option.bind (map_of (messages db) n) mr_raw), db)"
  by (cases "map_of (messages db) n") (auto simp: load_raw_json_def elim: cache_ok_message)

lemma message_row_okI: "json_wf v \<Longrightarrow> is_object v \<Longrightarrow> message_row_ok (row_id v) (message_row v)"
  by (simp add: message_row_ok_def message_row_def)

lemma cache_ok_persist: "cache_ok db \<Longrightarrow> json_wf v \<Longrightarrow> is_object v \<Longrightarrow>
    cache_ok (db\<lparr>messages := kv_insert (row_id v) (message_row v) (messages db)\<rparr>)"
  by (simp add: cache_ok_def rows_ok_insert message_row_okI)

lemma cache_ok_set_chat: "cache_ok db \<Longrightarrow> chat_row_ok n row \<Longrightarrow>
    cache_ok (db\<lparr>chats := kv_insert n row (chats db)\<rparr>)"
  by (simp add: cache_ok_def rows_ok_insert)

text \<open>What is stored at an id, as a document.\<close>

definition stored_message :: "cache \<Rightarrow> i64 \<Rightarrow> json option" where
  "stored_message db n = Option.bind (map_of (messages db) n) mr_raw"

definition stored_chat :: "cache \<Rightarrow> i64 \<Rightarrow> json option" where
  "stored_chat db n = Option.bind (map_of (chats db) n) cr_raw"

lemma stored_message_ok: "cache_ok db \<Longrightarrow> stored_message db n = Some v \<Longrightarrow> json_wf v \<and> is_object v \<and> row_id v = n"
  by (cases "map_of (messages db) n") (auto simp: stored_message_def elim: cache_ok_message)

lemma stored_chat_ok: "cache_ok db \<Longrightarrow> stored_chat db n = Some c \<Longrightarrow> json_wf c \<and> is_object c \<and> row_id c = n"
  by (cases "map_of (chats db) n") (auto simp: stored_chat_def elim: cache_ok_chat)

lemma stored_message_None: "cache_ok db \<Longrightarrow> stored_message db n = None \<longleftrightarrow> map_of (messages db) n = None"
  by (cases "map_of (messages db) n") (auto simp: stored_message_def elim: cache_ok_message)

lemma stored_chat_None: "cache_ok db \<Longrightarrow> stored_chat db n = None \<longleftrightarrow> map_of (chats db) n = None"
  by (cases "map_of (chats db) n") (auto simp: stored_chat_def elim: cache_ok_chat)

subsection \<open>Storing a message\<close>

definition merged_at :: "cache \<Rightarrow> json \<Rightarrow> json" where
  "merged_at db msg = merge_message (stored_message db (row_id msg)) msg"

definition with_message :: "json \<Rightarrow> cache \<Rightarrow> cache" where
  "with_message v db = db\<lparr>messages := kv_insert (row_id v) (message_row v) (messages db)\<rparr>"

lemma persist_message_apply: "persist_message v db = (Inr (), with_message v db)"
  by (simp add: persist_message_def with_message_def)

lemma with_message_simps [simp]:
  "chats (with_message v db) = chats db" "identities (with_message v db) = identities db"
  "sync_meta (with_message v db) = sync_meta db" "stored_chat (with_message v db) = stored_chat db"
  "map_of (messages (with_message v db)) = (map_of (messages db))(row_id v \<mapsto> message_row v)"
  "id_of (with_message v db) = id_of db"
  by (simp_all add: with_message_def stored_chat_def id_of_def fun_eq_iff)

lemma mr_raw_message_row [simp]: "mr_raw (message_row v) = Some v"
  by (simp add: message_row_def)

lemma stored_with_message [simp]:
  "stored_message (with_message v db) n = (if n = row_id v then Some v else stored_message db n)"
  by (simp add: stored_message_def)

lemma merged_at_ok:
  assumes "cache_ok db" "json_wf msg"
  shows "json_wf (merged_at db msg)" "row_id (merged_at db msg) = row_id msg"
    "is_object (merged_at db msg) = is_object msg"
  unfolding merged_at_def using assms stored_message_ok
  by (auto intro!: json_wf_merge_message row_id_merge_message)

lemma upsert_message_apply:
  assumes "cache_ok db"
  shows "upsert_message msg db = (Inr (), with_message (merged_at db msg) db)"
  using load_raw_json_ok [OF assms, of "row_id msg"]
  by (simp add: upsert_message_def persist_message_apply merged_at_def stored_message_def andthen_apply)

lemma cache_ok_with_message:
  "cache_ok db \<Longrightarrow> json_wf v \<Longrightarrow> is_object v \<Longrightarrow> cache_ok (with_message v db)"
  unfolding with_message_def by (rule cache_ok_persist)

subsection \<open>Storing a chat\<close>

lemma keep_person_name_ok:
  assumes "is_object c" "json_wf c" "json_wf existing"
  obtains c' where "keep_person_name existing c = Some c'" "is_object c'" "json_wf c'"
    "\<And>k. k \<notin> {''name'', ''contact_name'', ''display_name''} \<Longrightarrow> json_at c' k = json_at c k"
    "is_person_name (unwrap_or (contact_or_name existing) []) \<Longrightarrow>
       is_person_name (unwrap_or (contact_or_name c') [])"
    "is_person_name (unwrap_or (contact_or_name c) []) \<Longrightarrow> c' = c"
proof -
  have wf: "json_wf (json_at existing k)" for k using assms(3) by (rule json_wf_at)
  obtain c1 where c1: "json_put c ''name'' (json_at existing ''name'') = Some c1" "is_object c1" "json_wf c1"
      "\<And>k. json_at c1 k = (if k = ''name'' then json_at existing ''name'' else json_at c k)"
    by (rule json_put_objectE [OF assms(1,2) wf, of "''name''" "''name''"]) blast
  obtain c2 where c2: "json_put c1 ''contact_name'' (json_at existing ''contact_name'') = Some c2"
      "is_object c2" "json_wf c2"
      "\<And>k. json_at c2 k = (if k = ''contact_name'' then json_at existing ''contact_name'' else json_at c1 k)"
    by (rule json_put_objectE [OF c1(2,3) wf, of "''contact_name''" "''contact_name''"]) blast
  obtain c3 where c3: "json_put c2 ''display_name'' (json_at existing ''display_name'') = Some c3"
      "is_object c3" "json_wf c3"
      "\<And>k. json_at c3 k = (if k = ''display_name'' then json_at existing ''display_name'' else json_at c2 k)"
    by (rule json_put_objectE [OF c2(2,3) wf, of "''display_name''" "''display_name''"]) blast
  let ?keep = "is_person_name (unwrap_or (contact_or_name existing) [])
      \<and> \<not> is_person_name (unwrap_or (contact_or_name c) [])"
  let ?display = "opt_filter is_person_name (as_str (json_at existing ''display_name'')) \<noteq> None"
  have same: "contact_or_name c2 = contact_or_name existing" "contact_or_name c3 = contact_or_name existing"
    using c1(4) c2(4) c3(4) by (simp_all add: contact_or_name_def)
  show thesis
  proof (cases ?keep)
    case True
    show thesis
    proof (cases ?display)
      case d: True
      have "keep_person_name existing c = Some c3"
        using True d c1(1) c2(1) c3(1) by (simp add: keep_person_name_def)
      then show thesis
        by (rule that) (use True c1(4) c2(4) c3 same in simp_all)
    next
      case d: False
      have "keep_person_name existing c = Some c2"
        using True d c1(1) c2(1) by (auto simp: keep_person_name_def)
      then show thesis
        by (rule that) (use True c1(4) c2 same in simp_all)
    qed
  next
    case False
    then have "keep_person_name existing c = Some c" by (auto simp: keep_person_name_def)
    then show thesis by (rule that) (use assms False in simp_all)
  qed
qed

lemma json_at_json_set_unread:
  "is_object c \<Longrightarrow>
     json_at (json_set_unread c n) k = (if k = ''unread_count'' then of_i64 n else json_at c k)"
  by (auto simp: json_set_unread_def elim!: is_objectE)

lemma json_set_unread_ok:
  "is_object c \<Longrightarrow> json_wf c \<Longrightarrow> in_i64 n \<Longrightarrow>
     json_wf (json_set_unread c n) \<and> is_object (json_set_unread c n)"
  by (auto simp: json_set_unread_def json_wf_kv_insert simp del: json_wf.simps(3) elim!: is_objectE)

lemma chat_row_ok_new: "is_object c \<Longrightarrow> json_wf c \<Longrightarrow> chat_row_ok (row_id c) (new_chat_row c)"
  by (simp add: chat_row_ok_def new_chat_row_def)

lemma chat_row_ok_conflict:
  assumes "is_object c" "json_wf c" "row_id c = n" "chat_row_ok n old"
  shows "chat_row_ok n (conflict_chat_row c old)"
proof -
  have "in_i64 (cr_unread_count old)"
    using assms(4) unread_of_in_i64 by (auto simp: chat_row_ok_def split: option.splits)
  then show ?thesis
    using assms json_set_unread_ok
    by (simp add: chat_row_ok_def conflict_chat_row_def unread_of_def name_or_contact_def row_id_def
        json_at_json_set_unread)
qed

lemma register_guid_tables [simp]:
  "chats (register_guid c n db) = chats db" "messages (register_guid c n db) = messages db"
  "sync_meta (register_guid c n db) = sync_meta db"
  by (auto simp: register_guid_def split: option.splits)

lemma id_of_register_guid_mono: "id_of db h = Some m \<Longrightarrow> id_of (register_guid c n db) h = Some m"
  by (auto simp: register_guid_def intro: id_of_insert_mono split: option.splits)

lemma store_chat_simps [simp]:
  "messages (store_chat n c db) = messages db" "identities (store_chat n c db) = identities db"
  "sync_meta (store_chat n c db) = sync_meta db" "id_of (store_chat n c db) = id_of db"
  by (simp_all add: store_chat_def id_of_def fun_eq_iff)

lemma cache_ok_register_guid: "cache_ok db \<Longrightarrow> in_i64 n \<Longrightarrow> cache_ok (register_guid c n db)"
  by (auto simp: register_guid_def intro: cache_ok_insert_identity split: option.splits)

lemma cache_ok_store_chat:
  assumes "cache_ok db" "is_object c" "json_wf c"
  shows "cache_ok (store_chat (row_id c) c db)"
proof (cases "map_of (chats db) (row_id c)")
  case None
  then show ?thesis using assms by (simp add: store_chat_def cache_ok_set_chat chat_row_ok_new)
next
  case (Some old)
  then have "chat_row_ok (row_id c) old" using assms(1) by (auto simp: cache_ok_def dest: rows_ok_get)
  then show ?thesis
    using Some assms by (simp add: store_chat_def cache_ok_set_chat chat_row_ok_conflict)
qed

text \<open>On a sound database an object document is always stored: the effect in one equation.\<close>

lemma upsert_chat_runs:
  assumes "cache_ok db" "is_object c" "json_wf c"
  obtains c' where "upsert_chat c db = (Inr (), register_guid c' (row_id c) (store_chat (row_id c) c' db))"
    "is_object c'" "json_wf c'"
    "\<And>k. k \<notin> {''name'', ''contact_name'', ''display_name''} \<Longrightarrow> json_at c' k = json_at c k"
    "\<And>old. stored_chat db (row_id c) = Some old \<Longrightarrow>
       is_person_name (unwrap_or (contact_or_name old) []) \<Longrightarrow>
       is_person_name (unwrap_or (contact_or_name c') [])"
    "stored_chat db (row_id c) = None \<or> is_person_name (unwrap_or (contact_or_name c) []) \<Longrightarrow> c' = c"
proof (cases "stored_chat db (row_id c)")
  case None
  then show thesis using that [of c] assms by (simp add: upsert_chat_def stored_chat_def Let_def)
next
  case (Some old)
  then have "json_wf old" using stored_chat_ok assms(1) by blast
  then obtain c' where c': "keep_person_name old c = Some c'" "is_object c'" "json_wf c'"
      "\<And>k. k \<notin> {''name'', ''contact_name'', ''display_name''} \<Longrightarrow> json_at c' k = json_at c k"
      "is_person_name (unwrap_or (contact_or_name old) []) \<Longrightarrow>
         is_person_name (unwrap_or (contact_or_name c') [])"
      "is_person_name (unwrap_or (contact_or_name c) []) \<Longrightarrow> c' = c"
    using keep_person_name_ok [OF assms(2,3)] by blast
  with Some show thesis
    by (intro that [of c']) (simp_all add: upsert_chat_def stored_chat_def Let_def)
qed

lemma cache_ok_upsert_chat:
  assumes "cache_ok db" "is_object c" "json_wf c"
  shows "cache_ok (snd (upsert_chat c db)) \<and> fst (upsert_chat c db) = Inr ()"
proof -
  obtain c' where c': "upsert_chat c db = (Inr (), register_guid c' (row_id c) (store_chat (row_id c) c' db))"
      "is_object c'" "json_wf c'"
      "\<And>k. k \<notin> {''name'', ''contact_name'', ''display_name''} \<Longrightarrow> json_at c' k = json_at c k"
    by (rule upsert_chat_runs [OF assms]) blast
  then have "row_id c' = row_id c" by (simp add: row_id_def)
  then show ?thesis
    using c' assms cache_ok_store_chat [of db c']
    by (simp add: cache_ok_register_guid row_id_in_i64)
qed

subsection \<open>Marking read, and the live chat\<close>

lemma mark_read_runs:
  assumes "cache_ok db"
  obtains (none) "stored_chat db n = None" "mark_read n db = (Inr None, db)"
  | (some) c c' row where "map_of (chats db) n = Some row" "stored_chat db n = Some c"
      "json_put c ''unread_count'' (of_i64 0) = Some c'" "is_object c'" "json_wf c'"
      "\<And>k. json_at c' k = (if k = ''unread_count'' then of_i64 0 else json_at c k)"
      "mark_read n db = (Inr (Some (stringify_row_ids c')),
         db\<lparr>chats := kv_insert n (row\<lparr>cr_unread_count := 0, cr_raw := Some c'\<rparr>) (chats db)\<rparr>)"
      "chat_row_ok n (row\<lparr>cr_unread_count := 0, cr_raw := Some c'\<rparr>)"
proof (cases "map_of (chats db) n")
  case None
  then show thesis using none by (simp add: mark_read_def stored_chat_def)
next
  case (Some row)
  then obtain c where c: "cr_raw row = Some c" "json_wf c" "is_object c" "row_id c = n"
      "cr_unread_count row = unread_of c"
      "cr_last_message_at row = as_str (json_at c ''last_message_at'')" "cr_name row = name_or_contact c"
    using assms cache_ok_chat by blast
  have "in_i64 0" by (simp add: in_i64_def i64_max_def i64_min_def)
  obtain c' where c': "json_put c ''unread_count'' (of_i64 0) = Some c'" "is_object c'" "json_wf c'"
      "\<And>k. json_at c' k = (if k = ''unread_count'' then of_i64 0 else json_at c k)"
    by (rule json_put_objectE [OF c(3,2) json_wf_of_i64 [OF \<open>in_i64 0\<close>], of "''unread_count''"]) blast
  show thesis
    by (rule some [OF Some _ c'])
       (use Some c c' \<open>in_i64 0\<close> in \<open>simp_all add: mark_read_def stored_chat_def chat_row_ok_def
          unread_of_def name_or_contact_def row_id_def\<close>)
qed

lemma cache_ok_mark_read:
  assumes "cache_ok db"
  shows "cache_ok (snd (mark_read n db)) \<and> (\<exists>v. fst (mark_read n db) = Inr v)"
  using assms by (rule mark_read_runs [where n = n]) (use assms in \<open>simp_all add: cache_ok_set_chat\<close>)

lemma live_chat_ok:
  assumes "is_object c" "json_wf c"
  obtains u c' where "live_chat is_new merged c = Some (u, c')" "is_object c'" "json_wf c'"
    "u = bump_unread is_new (unwrap_or (as_bool (json_at merged ''is_from_me'')) False) (unread_of c)"
    "in_i64 u"
    "\<And>k. k \<notin> {''last_message_at'', ''unread_count''} \<Longrightarrow> json_at c' k = json_at c k"
    "json_at c' ''unread_count'' = of_i64 u"
    "as_str (json_at c' ''last_message_at'') =
       later_timestamp (as_str (json_at c ''last_message_at'')) (as_str (json_at merged ''created_at''))"
proof -
  let ?ts = "later_timestamp (as_str (json_at c ''last_message_at'')) (as_str (json_at merged ''created_at''))"
  obtain c1 where c1: "(case ?ts of None \<Rightarrow> Some c | Some ts \<Rightarrow> json_put c ''last_message_at'' (JStr ts)) = Some c1"
      "is_object c1" "json_wf c1" "\<And>k. k \<noteq> ''last_message_at'' \<Longrightarrow> json_at c1 k = json_at c k"
      "as_str (json_at c1 ''last_message_at'') = ?ts"
  proof (cases ?ts)
    case None
    then have "as_str (json_at c ''last_message_at'') = None"
      by (auto simp: later_timestamp_def split: option.splits)
    then show thesis using that [of c] None assms by simp
  next
    case (Some ts)
    obtain c' where "json_put c ''last_message_at'' (JStr ts) = Some c'" "is_object c'" "json_wf c'"
        "\<And>k. json_at c' k = (if k = ''last_message_at'' then JStr ts else json_at c k)"
      by (rule json_put_objectE [OF assms, of "JStr ts" "''last_message_at''"]) (simp, blast)
    then show thesis using that [of c'] Some by simp
  qed
  define u where "u = bump_unread is_new (unwrap_or (as_bool (json_at merged ''is_from_me'')) False) (unread_of c1)"
  have same: "unread_of c1 = unread_of c" using c1(4) by (simp add: unread_of_def)
  have u: "in_i64 u" using assms(2) by (auto simp: u_def same bump_unread_def unread_of_in_i64)
  obtain c2 where c2: "json_put c1 ''unread_count'' (of_i64 u) = Some c2" "is_object c2" "json_wf c2"
      "\<And>k. json_at c2 k = (if k = ''unread_count'' then of_i64 u else json_at c1 k)"
    by (rule json_put_objectE [OF c1(2,3) json_wf_of_i64 [OF u], of "''unread_count''"]) blast
  show thesis
    by (rule that [of u c2]) (use c1 c2 u same in \<open>simp_all add: live_chat_def Let_def u_def\<close>)
qed

subsection \<open>The live path\<close>

lemma in_transaction_keeps: "keeps P m \<Longrightarrow> keeps P (in_transaction m)"
  by (auto simp: keeps_def in_transaction_def split: prod.splits sum.splits)

text \<open>A failing transaction changes nothing.\<close>

lemma in_transaction_atomic: "in_transaction m s = (Inl e, s') \<Longrightarrow> s' = s"
  by (auto simp: in_transaction_def split: prod.splits sum.splits)

definition is_from_me_of :: "json \<Rightarrow> bool" where
  "is_from_me_of v = unwrap_or (as_bool (json_at v ''is_from_me'')) False"

definition chat_id_of :: "json \<Rightarrow> i64" where
  "chat_id_of v = json_id_or_0 (json_at v ''chat_id'')"

lemma apply_live_message_runs:
  assumes "cache_ok db" "json_wf msg"
  obtains
    (unknown) "stored_chat db (chat_id_of (merged_at db msg)) = None"
      "apply_live_message msg db =
         (Inr \<lparr> ap_message = stringify_row_ids (merged_at db msg),
                ap_chat = ChatUnknown (chat_id_of (merged_at db msg)),
                ap_is_new = (stored_message db (row_id msg) = None) \<rparr>,
          with_message (merged_at db msg) db)"
  | (known) c u c' row where
      "stored_chat db (chat_id_of (merged_at db msg)) = Some c"
      "map_of (chats db) (chat_id_of (merged_at db msg)) = Some row"
      "u = bump_unread (stored_message db (row_id msg) = None) (is_from_me_of (merged_at db msg))
             (unread_of c)"
      "in_i64 u" "is_object c'" "json_wf c'"
      "live_chat (stored_message db (row_id msg) = None) (merged_at db msg) c = Some (u, c')"
      "\<And>k. k \<notin> {''last_message_at'', ''unread_count''} \<Longrightarrow> json_at c' k = json_at c k"
      "json_at c' ''unread_count'' = of_i64 u"
      "as_str (json_at c' ''last_message_at'') =
         later_timestamp (as_str (json_at c ''last_message_at''))
           (as_str (json_at (merged_at db msg) ''created_at''))"
      "apply_live_message msg db =
         (Inr \<lparr> ap_message = stringify_row_ids (merged_at db msg),
                ap_chat = ChatUpdated (stringify_row_ids c'),
                ap_is_new = (stored_message db (row_id msg) = None) \<rparr>,
          (with_message (merged_at db msg) db)
            \<lparr>chats := kv_insert (chat_id_of (merged_at db msg)) (live_chat_row u c' row) (chats db)\<rparr>)"
proof (cases "map_of (chats db) (chat_id_of (merged_at db msg))")
  case None
  then show thesis
    using unknown load_raw_json_ok [OF assms(1), of "row_id msg"]
    by (simp add: apply_live_message_def in_transaction_def andthen_apply persist_message_apply
        update_live_chat_def merged_at_def stored_message_def stored_chat_def chat_id_of_def
        stringify_outcome_def Let_def)
next
  case (Some row)
  then obtain c where c: "cr_raw row = Some c" "json_wf c" "is_object c"
    using assms(1) cache_ok_chat by blast
  let ?new = "stored_message db (row_id msg) = None" and ?m = "merged_at db msg"
  obtain u c' where u: "live_chat ?new ?m c = Some (u, c')" "is_object c'" "json_wf c'"
      "u = bump_unread ?new (unwrap_or (as_bool (json_at ?m ''is_from_me'')) False) (unread_of c)"
      "in_i64 u"
      "\<And>k. k \<notin> {''last_message_at'', ''unread_count''} \<Longrightarrow> json_at c' k = json_at c k"
      "json_at c' ''unread_count'' = of_i64 u"
      "as_str (json_at c' ''last_message_at'') =
         later_timestamp (as_str (json_at c ''last_message_at'')) (as_str (json_at ?m ''created_at''))"
    by (rule live_chat_ok [OF c(3,2), of ?new ?m]) blast
  have stored: "stored_chat db (chat_id_of ?m) = Some c"
    using Some c(1) by (simp add: stored_chat_def)
  have run: "apply_live_message msg db =
         (Inr \<lparr> ap_message = stringify_row_ids ?m, ap_chat = ChatUpdated (stringify_row_ids c'),
                ap_is_new = ?new \<rparr>,
          (with_message ?m db)\<lparr>chats := kv_insert (chat_id_of ?m) (live_chat_row u c' row) (chats db)\<rparr>)"
    using load_raw_json_ok [OF assms(1), of "row_id msg"] Some c(1) u(1)
    by (simp add: apply_live_message_def in_transaction_def andthen_apply persist_message_apply
        update_live_chat_def merged_at_def stored_message_def chat_id_of_def
        stringify_outcome_def Let_def)
  show thesis
    by (rule known [OF stored Some _ u(5,2,3,1,6,7,8) run]) (simp_all add: u(4) is_from_me_of_def)
qed

lemma chat_row_ok_live:
  assumes "is_object c'" "json_wf c'" "row_id c' = n" "in_i64 u" "json_at c' ''unread_count'' = of_i64 u"
  shows "chat_row_ok n (live_chat_row u c' row)"
  using assms by (simp add: chat_row_ok_def live_chat_row_def unread_of_def)

lemma cache_ok_apply_live:
  assumes "cache_ok db" "json_wf msg" "is_object msg"
  shows "cache_ok (snd (apply_live_message msg db)) \<and> (\<exists>a. fst (apply_live_message msg db) = Inr a)"
proof -
  have m: "cache_ok (with_message (merged_at db msg) db)"
    using assms by (simp add: cache_ok_with_message merged_at_ok)
  show ?thesis
    using assms(1,2)
  proof (cases rule: apply_live_message_runs)
    case (known c u c' row)
    then have "row_id c' = chat_id_of (merged_at db msg)"
      using stored_chat_ok [OF assms(1)] by (simp add: row_id_def)
    with known have "chat_row_ok (chat_id_of (merged_at db msg)) (live_chat_row u c' row)"
      by (intro chat_row_ok_live)
    then show ?thesis
      using cache_ok_set_chat [OF m] by (simp add: known(11))
  qed (use m in simp)
qed

subsection \<open>The domain operations\<close>

lemma cache_ok_id_for_guid: "keeps cache_ok (id_for_guid sha256 g)"
proof
  fix db
  assume ok: "cache_ok db"
  obtain r db' where run: "id_for_guid sha256 g db = (r, db')" by fastforce
  have "registry_ok db" using ok by (simp add: cache_ok_def)
  then show "cache_ok (snd (id_for_guid sha256 g db))"
    by (rule id_for_guid_cases [OF _ run]) (use ok run in \<open>auto simp: cache_ok_insert_identity\<close>)
qed

lemma id_for_guid_tables:
  "id_for_guid sha256 g db = (r, db') \<Longrightarrow>
     chats db' = chats db \<and> messages db' = messages db \<and> sync_meta db' = sync_meta db"
proof -
  have "id_loop fuel g n db = Some (m, db2) \<Longrightarrow>
      chats db2 = chats db \<and> messages db2 = messages db \<and> sync_meta db2 = sync_meta db" for fuel n m db2
    by (induction fuel arbitrary: n) (auto split: if_splits option.splits)
  then show "id_for_guid sha256 g db = (r, db') \<Longrightarrow> ?thesis"
    by (auto simp: id_for_guid_def simp del: id_loop.simps split: option.splits)
qed

lemma id_for_guid_in_i64:
  assumes "registry_ok db" "id_for_guid sha256 g db = (Inr n, db')"
  shows "in_i64 n"
proof -
  have "id_of db' g = Some n" using assms by (rule registry.alloc_known)
  moreover have "registry_ok db'" using assms by (rule registry.alloc_inv)
  ultimately show ?thesis by (force simp: id_of_def registry_ok_def dest: map_of_SomeD)
qed

lemma is_object_chat_to_cache_json [simp]: "is_object (chat_to_cache_json c n)"
  by (simp add: chat_to_cache_json_def Let_def)

lemma cache_ok_upsert_domain_chat: "keeps cache_ok (upsert_domain_chat sha256 c)"
proof -
  have "keeps cache_ok (upsert_chat (chat_to_cache_json c n))" for n
    using cache_ok_upsert_chat by (intro keepsI) simp
  then show ?thesis
    unfolding upsert_domain_chat_def by (intro keeps_intros cache_ok_id_for_guid)
qed

lemma is_object_message_to_cache_json [simp]: "is_object (message_to_cache_json m n k)"
  by (simp add: message_to_cache_json_def)

lemma cache_ok_upsert_domain_message: "keeps cache_ok (upsert_domain_message sha256 msg)"
proof -
  have "keeps cache_ok (upsert_message (message_to_cache_json msg n m))" for n m
    by (intro keepsI) (simp add: upsert_message_apply cache_ok_with_message merged_at_ok)
  then show ?thesis
    unfolding upsert_domain_message_def by (intro keeps_intros cache_ok_id_for_guid)
qed

text \<open>Taking the chat's title only touches the sender's name.\<close>

lemma name_from_chat_cases:
  assumes "is_object j" "json_wf j"
  obtains j' where "name_from_chat chat_id j db = Some j'" "is_object j'" "json_wf j'"
    "\<And>k. k \<noteq> ''sender_name'' \<Longrightarrow> json_at j' k = json_at j k"
proof -
  note result = that
  have plain: "name_from_chat chat_id j db = Some j \<Longrightarrow> thesis"
    using result [of j] assms by simp
  have put: thesis if name: "name_from_chat chat_id j db = json_put j ''sender_name'' (JStr name)" for name
  proof -
    obtain j' where "json_put j ''sender_name'' (JStr name) = Some j'" "is_object j'" "json_wf j'"
        "\<And>k. json_at j' k = (if k = ''sender_name'' then JStr name else json_at j k)"
      by (rule json_put_objectE [OF assms, of "JStr name" "''sender_name''"]) (simp, blast)
    with name show thesis
      by (intro result [of j']) simp_all
  qed
  have "name_from_chat chat_id j db = Some j
      \<or> (\<exists>name. name_from_chat chat_id j db = json_put j ''sender_name'' (JStr name))"
    by (auto simp: name_from_chat_def split: option.splits)
  then show thesis using plain put by blast
qed

lemma cache_ok_apply_domain_message: "keeps cache_ok (apply_domain_message sha256 msg)"
proof -
  have live: "keeps cache_ok (case name_from_chat chat_id (message_to_cache_json msg n m) db of
      None \<Rightarrow> raise Panic | Some doc \<Rightarrow> apply_live_message doc)" for chat_id n m db
  proof -
    obtain j' where "name_from_chat chat_id (message_to_cache_json msg n m) db = Some j'" "json_wf j'"
      "is_object j'"
      by (rule name_from_chat_cases [of "message_to_cache_json msg n m" chat_id db]) simp_all
    then show ?thesis using cache_ok_apply_live by (auto simp: keeps_def)
  qed
  have reads: "keeps cache_ok (andthen (reads f) g)"
    if "\<And>db. keeps cache_ok (g (f db))" for f :: "cache \<Rightarrow> 'x" and g :: "'x \<Rightarrow> (cache, cache_error, 'y) act"
    using that by (auto simp: keeps_def andthen_apply)
  show ?thesis
    unfolding apply_domain_message_def
    by (intro keeps_andthen cache_ok_id_for_guid keeps_if keeps_ret cache_ok_upsert_domain_chat reads live)
qed

end
