(* ===== verification/Cache_Live.thy ===== *)
theory Cache_Live
  imports Cache
begin

text \<open>
  What the live path of the cache promises: a message counts once however often it is
  delivered, a merge never loses what the client relies on, the chat's timestamp only moves
  forward, and a failing write leaves the database as it was.
\<close>

section \<open>Replaying a delivery\<close>

lemma later_timestamp_idem [simp]: "later_timestamp (later_timestamp a b) b = later_timestamp a b"
  by (cases a; cases b) (auto simp: later_timestamp_def)

lemma json_get_of_as_str: "as_str (json_at v k) = Some s \<Longrightarrow> json_get v k = Some (JStr s)"
  by (cases "json_get v k") (auto simp: json_at_def elim: as_str.elims)

lemma json_get_of_at: "json_at v k = x \<Longrightarrow> x \<noteq> JNull \<Longrightarrow> json_get v k = Some x"
  by (cases "json_get v k") (auto simp: json_at_def)

lemma of_i64_not_null [simp]: "of_i64 n \<noteq> JNull"
  by (simp add: of_i64_def)

lemma bump_unread_old [simp]: "bump_unread False b n = n"
  by (simp add: bump_unread_def)

text \<open>A chat document that has the timestamp and the count already is left as it is.\<close>

lemma live_chat_again:
  assumes "json_wf c'" "in_i64 u" "json_at c' ''unread_count'' = of_i64 u"
    "as_str (json_at c' ''last_message_at'') = later_timestamp t (as_str (json_at m ''created_at''))"
  shows "live_chat False m c' = Some (u, c')"
proof -
  have "unread_of c' = u" using assms(2,3) by (simp add: unread_of_def)
  moreover have "json_put c' ''unread_count'' (of_i64 u) = Some c'"
    using assms(1,3) by (intro json_put_same json_get_of_at) simp_all
  moreover have "json_put c' ''last_message_at'' (JStr ts) = Some c'"
    if "later_timestamp (as_str (json_at c' ''last_message_at'')) (as_str (json_at m ''created_at'')) = Some ts"
    for ts
    using assms(1,4) that by (intro json_put_same json_get_of_as_str) simp_all
  ultimately show ?thesis
    by (auto simp: live_chat_def Let_def split: option.splits)
qed

lemma with_message_twice [simp]: "with_message m (with_message m db) = with_message m db"
  by (simp add: with_message_def)

lemma merged_at_again:
  assumes "cache_ok db" "json_wf msg"
    "stored_message db' (row_id msg) = Some (merged_at db msg)"
  shows "merged_at db' msg = merged_at db msg"
  unfolding merged_at_def [of db'] assms(3)
  using merge_message_idem [OF assms(2)] stored_message_ok [OF assms(1)]
  unfolding merged_at_def by blast

lemma stored_message_chats [simp]: "stored_message (db\<lparr>chats := t\<rparr>) = stored_message db"
  by (simp add: stored_message_def fun_eq_iff)

lemma live_chat_row_again [simp]:
  "live_chat_row u c (live_chat_row u c row) = live_chat_row u c row"
  by (simp add: live_chat_row_def)

lemma apply_live_message_replay:
  assumes "cache_ok db" "json_wf msg" "is_object msg" "apply_live_message msg db = (Inr a, db')"
  shows "apply_live_message msg db' = (Inr (a\<lparr>ap_is_new := False\<rparr>), db')"
proof -
  let ?m = "merged_at db msg"
  have ok': "cache_ok db'" using cache_ok_apply_live [OF assms(1-3)] assms(4) by simp
  have id: "row_id ?m = row_id msg" using assms(1,2) by (rule merged_at_ok)
  have stored: "stored_message db' (row_id msg) = Some ?m"
    using assms(1,2) by (rule apply_live_message_runs) (use assms(4) id in auto)
  have same: "merged_at db' msg = ?m" using assms(1,2) stored by (rule merged_at_again)
  have again: "with_message ?m db' = db'"
    using assms(1,2) by (rule apply_live_message_runs) (use assms(4) in \<open>auto simp: with_message_def\<close>)
  show ?thesis
    using assms(1,2)
  proof (cases rule: apply_live_message_runs)
    case unknown
    then have none: "stored_chat db' (chat_id_of (merged_at db' msg)) = None"
      using assms(4) same by auto
    from ok' assms(2) show ?thesis
      by (rule apply_live_message_runs) (use none unknown assms(4) same stored again in auto)
  next
    case (known c u c' row)
    have db': "db' = (with_message ?m db)\<lparr>chats := kv_insert (chat_id_of ?m) (live_chat_row u c' row) (chats db)\<rparr>"
      using known(11) assms(4) by simp
    have row': "map_of (chats db') (chat_id_of ?m) = Some (live_chat_row u c' row)"
      by (simp add: db')
    have c'': "stored_chat db' (chat_id_of (merged_at db' msg)) = Some c'"
      by (simp add: stored_chat_def row' same) (simp add: live_chat_row_def)
    have lc: "live_chat False ?m c' = Some (u, c')"
      using known(6,4,9,10) by (rule live_chat_again)
    from ok' assms(2) show ?thesis
    proof (cases rule: apply_live_message_runs)
      case again2: (known c2 u2 c2' row2)
      have "c2 = c'" "row2 = live_chat_row u c' row" using again2(1,2) c'' row' same by simp_all
      moreover then have "u2 = u" "c2' = c'" using again2(7) lc stored same by simp_all
      ultimately show ?thesis
        using again2(11) known(11) assms(4) same stored again by (auto simp: db')
    qed (use c'' in simp)
  qed
qed

section \<open>What the live path leaves alone\<close>

lemma apply_live_id_of:
  assumes "cache_ok db" "json_wf msg" "apply_live_message msg db = (Inr a, db')"
  shows "id_of db' = id_of db" "sync_meta db' = sync_meta db"
  using assms(1,2)
  by (rule apply_live_message_runs; use assms(3) in \<open>auto simp: fun_eq_iff\<close>)+

lemma apply_live_stored_chat:
  assumes "cache_ok db" "json_wf msg" "apply_live_message msg db = (Inr a, db')" "stored_chat db n = Some c"
  obtains c' where "stored_chat db' n = Some c'"
    "\<And>k. k \<notin> {''last_message_at'', ''unread_count''} \<Longrightarrow> json_at c' k = json_at c k"
  using assms(1,2)
proof (cases rule: apply_live_message_runs)
  case unknown
  then have "stored_chat db' n = stored_chat db n" using assms(3) by auto
  then show thesis using assms(4) that by auto
next
  case (known c0 u c' row)
  show thesis
  proof (cases "n = chat_id_of (merged_at db msg)")
    case True
    have "stored_chat db' n = Some c'"
      using known(11) assms(3) True by (auto simp: stored_chat_def live_chat_row_def)
    then show thesis using that known(1,8) True assms(4) by simp
  next
    case False
    then have "stored_chat db' n = stored_chat db n"
      using known(11) assms(3) by (auto simp: stored_chat_def)
    then show thesis using assms(4) that by auto
  qed
qed

lemma name_from_chat_stored:
  "name_from_chat chat_id j db =
     (if is_person_name (unwrap_or (as_str (json_at j ''sender_name'')) []) then Some j
      else case stored_chat db chat_id of
          None \<Rightarrow> Some j
        | Some c \<Rightarrow>
            if cache_chat_is_group c then Some j
            else (case cache_chat_title c of
                None \<Rightarrow> Some j
              | Some name \<Rightarrow> json_put j ''sender_name'' (JStr name)))"
  by (simp add: name_from_chat_def stored_chat_def)

lemma name_from_chat_after_live:
  assumes "cache_ok db" "json_wf msg" "apply_live_message msg db = (Inr a, db')" "stored_chat db n = Some c"
  shows "name_from_chat n j db' = name_from_chat n j db"
proof -
  obtain c' where c': "stored_chat db' n = Some c'"
      "\<And>k. k \<notin> {''last_message_at'', ''unread_count''} \<Longrightarrow> json_at c' k = json_at c k"
    by (rule apply_live_stored_chat [OF assms]) blast
  then have "cache_chat_is_group c' = cache_chat_is_group c" "cache_chat_title c' = cache_chat_title c"
    by (simp_all add: cache_chat_is_group_def cache_chat_title_def cong: option.case_cong)
  then show ?thesis by (simp add: name_from_chat_stored c'(1) assms(4))
qed

section \<open>The domain operation, step by step\<close>

lemma row_id_chat_to_cache_json [simp]: "in_i64 n \<Longrightarrow> row_id (chat_to_cache_json c n) = n"
  by (simp add: row_id_def chat_to_cache_json_def Let_def json_simps)

lemma row_id_message_to_cache_json [simp]: "in_i64 n \<Longrightarrow> row_id (message_to_cache_json m n k) = n"
  by (simp add: row_id_def message_to_cache_json_def json_simps)

lemma chat_id_of_message_to_cache_json [simp]:
  "in_i64 k \<Longrightarrow> chat_id_of (message_to_cache_json m n k) = k"
  by (simp add: chat_id_of_def message_to_cache_json_def json_simps)

lemma upsert_domain_chat_known:
  assumes "cache_ok db" "id_of db (chat_guid_str (c_guid c)) = Some n"
  obtains db' where "upsert_domain_chat sha256 c db = (Inr n, db')" "cache_ok db'"
    "map_of (chats db') n \<noteq> None" "\<And>h m. id_of db h = Some m \<Longrightarrow> id_of db' h = Some m"
    "messages db' = messages db" "identities db' = identities db"
proof -
  have n: "in_i64 n"
    using assms by (auto simp: cache_ok_def registry_ok_def id_of_def dest: map_of_SomeD)
  let ?j = "chat_to_cache_json c n"
  obtain c' where run: "upsert_chat ?j db = (Inr (), register_guid c' (row_id ?j) (store_chat (row_id ?j) c' db))"
    and same: "json_at c' ''guid'' = json_at ?j ''guid''"
    using assms(1) by (rule upsert_chat_runs [of db ?j]) simp_all
  have "as_str (json_at c' ''guid'') = Some (chat_guid_str (c_guid c))"
    by (simp add: same chat_to_cache_json_def Let_def json_simps)
  then have ids: "identities (register_guid c' n (store_chat n c' db)) = identities db"
    using assms(2) id_of_None [of db "chat_guid_str (c_guid c)"]
    by (auto simp: register_guid_def insert_identity_def identity_free_def)
  have "upsert_domain_chat sha256 c db = (Inr n, register_guid c' n (store_chat n c' db))"
    using run n id_for_guid_hit [OF assms(2)] by (simp add: upsert_domain_chat_def andthen_apply)
  moreover have "cache_ok (register_guid c' n (store_chat n c' db))"
    using cache_ok_upsert_chat [OF assms(1), of ?j] run n by simp
  moreover have "map_of (chats (store_chat n c' db)) n \<noteq> None"
    by (simp add: store_chat_def)
  ultimately show thesis
    by (intro that [of "register_guid c' n (store_chat n c' db)"]) (simp_all add: id_of_register_guid_mono ids)
qed

definition ensure_chat ::
  "(byte list \<Rightarrow> byte list) \<Rightarrow> message \<Rightarrow> i64 \<Rightarrow> (cache, cache_error, unit) act" where
  "ensure_chat sha256 msg chat_id =
     andthen (reads (\<lambda>db. map_of (chats db) chat_id \<noteq> None)) (\<lambda>exists.
       if exists then ret ()
       else andthen (upsert_domain_chat sha256 ((chat_stub_from_message msg)\<lparr>c_unread_count := 0\<rparr>))
              (\<lambda>_. ret ()))"

lemma ensure_chat_runs:
  assumes "cache_ok db" "id_of db (chat_guid_str (m_chat msg)) = Some k"
  obtains db' where "ensure_chat sha256 msg k db = (Inr (), db')" "cache_ok db'"
    "map_of (chats db') k \<noteq> None" "\<And>h m. id_of db h = Some m \<Longrightarrow> id_of db' h = Some m"
    "messages db' = messages db" "identities db' = identities db"
proof (cases "map_of (chats db) k")
  case None
  let ?stub = "(chat_stub_from_message msg)\<lparr>c_unread_count := 0\<rparr>"
  have "c_guid ?stub = m_chat msg" by (simp add: chat_stub_from_message_def chat_stub_def)
  then obtain db' where db': "upsert_domain_chat sha256 ?stub db = (Inr k, db')" "cache_ok db'"
    "map_of (chats db') k \<noteq> None" "\<And>h m. id_of db h = Some m \<Longrightarrow> id_of db' h = Some m"
    "messages db' = messages db" "identities db' = identities db"
    using upsert_domain_chat_known [OF assms(1), of ?stub k sha256] assms(2) by auto
  show thesis
    by (rule that [OF _ db'(2-6)]) (simp add: ensure_chat_def None db'(1) andthen_apply)
next
  case (Some row)
  then show thesis using that [of db] assms by (simp add: ensure_chat_def andthen_apply)
qed

text \<open>The whole handler, once its two ids are known.\<close>

definition deliver ::
  "(byte list \<Rightarrow> byte list) \<Rightarrow> message \<Rightarrow> i64 \<Rightarrow> i64 \<Rightarrow> (cache, cache_error, applied) act" where
  "deliver sha256 msg chat_id n =
     andthen (reads (name_from_chat chat_id (message_to_cache_json msg n chat_id))) (\<lambda>j.
       case j of None \<Rightarrow> raise Panic | Some doc \<Rightarrow> apply_live_message doc)"

lemma apply_domain_message_steps:
  "apply_domain_message sha256 msg =
     andthen (id_for_guid sha256 (chat_guid_str (m_chat msg))) (\<lambda>chat_id.
     andthen (ensure_chat sha256 msg chat_id) (\<lambda>_.
     andthen (id_for_guid sha256 (message_guid_str (m_guid msg))) (\<lambda>n.
     deliver sha256 msg chat_id n)))"
  by (simp add: apply_domain_message_def ensure_chat_def deliver_def andthen_assoc)

lemma deliver_runs:
  assumes "cache_ok db"
  obtains doc where "name_from_chat k (message_to_cache_json msg n k) db = Some doc" "json_wf doc" "is_object doc"
    "\<And>key. key \<noteq> ''sender_name'' \<Longrightarrow> json_at doc key = json_at (message_to_cache_json msg n k) key"
    "deliver sha256 msg k n db = apply_live_message doc db"
proof -
  obtain doc where doc: "name_from_chat k (message_to_cache_json msg n k) db = Some doc" "json_wf doc" "is_object doc"
    "\<And>key. key \<noteq> ''sender_name'' \<Longrightarrow> json_at doc key = json_at (message_to_cache_json msg n k) key"
    by (rule name_from_chat_cases [of "message_to_cache_json msg n k" k db]) simp_all
  have "deliver sha256 msg k n db = apply_live_message doc db"
    using doc(1) by (simp add: deliver_def andthen_apply)
  with doc show thesis by (intro that) simp_all
qed

lemma apply_domain_message_runs:
  assumes "cache_ok db" "apply_domain_message sha256 msg db = (Inr a, db')"
  obtains k n db3 doc where "fst (id_for_guid sha256 (chat_guid_str (m_chat msg)) db) = Inr k"
    "in_i64 k" "in_i64 n" "cache_ok db3" "json_wf doc" "is_object doc"
    "id_of db3 (chat_guid_str (m_chat msg)) = Some k" "id_of db3 (message_guid_str (m_guid msg)) = Some n"
    "stored_chat db3 k \<noteq> None" "messages db3 = messages db"
    "name_from_chat k (message_to_cache_json msg n k) db3 = Some doc"
    "\<And>key. key \<noteq> ''sender_name'' \<Longrightarrow> json_at doc key = json_at (message_to_cache_json msg n k) key"
    "apply_live_message doc db3 = (Inr a, db')"
proof -
  obtain k db1 where 1: "id_for_guid sha256 (chat_guid_str (m_chat msg)) db = (Inr k, db1)"
      and rest1: "andthen (ensure_chat sha256 msg k) (\<lambda>_.
        andthen (id_for_guid sha256 (message_guid_str (m_guid msg))) (\<lambda>n. deliver sha256 msg k n)) db1
        = (Inr a, db')"
    using assms(2) by (auto simp: apply_domain_message_steps andthen_eq_Inr)
  have reg: "registry_ok db" using assms(1) by (simp add: cache_ok_def)
  have ok1: "cache_ok db1" using cache_ok_id_for_guid assms(1) 1 by (rule keepsE)
  have known1: "id_of db1 (chat_guid_str (m_chat msg)) = Some k" using reg 1 by (rule registry.alloc_known)
  have k: "in_i64 k" using reg 1 by (rule id_for_guid_in_i64)
  obtain db2 where 2: "ensure_chat sha256 msg k db1 = (Inr (), db2)" "cache_ok db2"
      "map_of (chats db2) k \<noteq> None" "\<And>h m. id_of db1 h = Some m \<Longrightarrow> id_of db2 h = Some m"
      "messages db2 = messages db1"
    by (rule ensure_chat_runs [OF ok1 known1]) blast
  obtain n db3 where 3: "id_for_guid sha256 (message_guid_str (m_guid msg)) db2 = (Inr n, db3)"
      and rest3: "deliver sha256 msg k n db3 = (Inr a, db')"
    using rest1 2(1) by (auto simp: andthen_eq_Inr)
  have reg2: "registry_ok db2" using 2(2) by (simp add: cache_ok_def)
  have ok3: "cache_ok db3" using cache_ok_id_for_guid 2(2) 3 by (rule keepsE)
  have known3: "id_of db3 (chat_guid_str (m_chat msg)) = Some k"
    using reg2 3 2(4) [OF known1] by (rule registry.alloc_mono)
  have known3': "id_of db3 (message_guid_str (m_guid msg)) = Some n" using reg2 3 by (rule registry.alloc_known)
  have n: "in_i64 n" using reg2 3 by (rule id_for_guid_in_i64)
  have tables: "chats db3 = chats db2" "messages db3 = messages db"
    using id_for_guid_tables [OF 1] id_for_guid_tables [OF 3] 2(5) by simp_all
  have chat3: "stored_chat db3 k \<noteq> None" using 2(3) tables(1) stored_chat_None [OF ok3] by simp
  obtain doc where doc: "name_from_chat k (message_to_cache_json msg n k) db3 = Some doc" "json_wf doc" "is_object doc"
      "\<And>key. key \<noteq> ''sender_name'' \<Longrightarrow> json_at doc key = json_at (message_to_cache_json msg n k) key"
      "deliver sha256 msg k n db3 = apply_live_message doc db3"
    by (rule deliver_runs [OF ok3, of k msg n sha256]) blast
  show thesis
    by (rule that [OF _ k n ok3 doc(2,3) known3 known3' chat3 tables(2) doc(1)]) (use doc rest3 1 in simp_all)
qed

lemma apply_domain_message_replay:
  assumes "cache_ok db" "apply_domain_message sha256 msg db = (Inr a, db')"
  shows "apply_domain_message sha256 msg db' = (Inr (a\<lparr>ap_is_new := False\<rparr>), db')"
  using assms
proof (rule apply_domain_message_runs)
  fix k n db3 doc
  assume ok3: "cache_ok db3" and doc: "json_wf doc"
    "is_object doc"
    "name_from_chat k (message_to_cache_json msg n k) db3 = Some doc"
    and known: "id_of db3 (chat_guid_str (m_chat msg)) = Some k" "id_of db3 (message_guid_str (m_guid msg)) = Some n"
    and chat: "stored_chat db3 k \<noteq> None" and run: "apply_live_message doc db3 = (Inr a, db')"
  have ids: "id_of db' = id_of db3" using ok3 doc(1) run by (rule apply_live_id_of)
  obtain c where c: "stored_chat db3 k = Some c" using chat by auto
  have chat': "map_of (chats db') k \<noteq> None"
    using apply_live_stored_chat [OF ok3 doc(1) run c] by (metis bind.bind_lzero option.distinct(1) stored_chat_def)
  have "name_from_chat k (message_to_cache_json msg n k) db' = Some doc"
    using name_from_chat_after_live [OF ok3 doc(1) run c] doc(3) by simp
  then have "deliver sha256 msg k n db' = (Inr (a\<lparr>ap_is_new := False\<rparr>), db')"
    using apply_live_message_replay [OF ok3 doc(1,2) run] by (simp add: deliver_def andthen_apply)
  then show "apply_domain_message sha256 msg db' = (Inr (a\<lparr>ap_is_new := False\<rparr>), db')"
    using known ids chat'
    by (simp add: apply_domain_message_steps andthen_apply id_for_guid_hit ensure_chat_def)
qed

section \<open>No panic, no unreadable document\<close>

lemma fails_id_for_guid: "fails_in {NoReturn} cache_ok (id_for_guid sha256 g)"
  by (auto simp: fails_in_def id_for_guid_def simp del: id_loop.simps split: option.splits)

lemma fails_upsert_chat: "is_object c \<Longrightarrow> json_wf c \<Longrightarrow> fails_in {} cache_ok (upsert_chat c)"
  using cache_ok_upsert_chat by (auto simp: fails_in_def)

lemma fails_in_mono: "fails_in E P m \<Longrightarrow> E \<subseteq> F \<Longrightarrow> fails_in F P m"
  by (auto simp: fails_in_def)

lemma fails_upsert_domain_chat: "fails_in {NoReturn} cache_ok (upsert_domain_chat sha256 c)"
  unfolding upsert_domain_chat_def
  by (intro keeps_intros fails_id_for_guid cache_ok_id_for_guid fails_in_mono [OF fails_upsert_chat])
     (auto intro!: keepsI simp: cache_ok_upsert_chat)

lemma fails_apply_live: "json_wf msg \<Longrightarrow> is_object msg \<Longrightarrow> fails_in {} cache_ok (apply_live_message msg)"
  using cache_ok_apply_live by (fastforce simp: fails_in_def)

lemma fails_apply_domain_message: "fails_in {NoReturn} cache_ok (apply_domain_message sha256 msg)"
proof -
  have ensure: "fails_in {NoReturn} cache_ok (ensure_chat sha256 msg k)"
    "keeps cache_ok (ensure_chat sha256 msg k)" for k
    unfolding ensure_chat_def
    by (intro keeps_intros fails_in_andthen_reads fails_upsert_domain_chat cache_ok_upsert_domain_chat)+
  have "fails_in {NoReturn} cache_ok (deliver sha256 msg k n)" for k n
  proof (unfold fails_in_def, intro allI impI)
    fix db e
    assume ok: "cache_ok db" and e: "fst (deliver sha256 msg k n db) = Inl e"
    obtain doc where "json_wf doc" "is_object doc" "deliver sha256 msg k n db = apply_live_message doc db"
      by (rule deliver_runs [OF ok, of k msg n sha256]) blast
    then show "e \<in> {NoReturn}" using cache_ok_apply_live [OF ok, of doc] e by auto
  qed
  then show ?thesis
    unfolding apply_domain_message_steps
    by (intro keeps_intros fails_id_for_guid cache_ok_id_for_guid ensure)
qed

lemma fails_upsert_domain_message: "fails_in {NoReturn} cache_ok (upsert_domain_message sha256 msg)"
proof -
  have "fails_in {NoReturn} cache_ok (upsert_message (message_to_cache_json msg n m))"
    "keeps cache_ok (upsert_message (message_to_cache_json msg n m))" for n m
    by (auto simp: fails_in_def keeps_def upsert_message_apply cache_ok_with_message merged_at_ok)
  then show ?thesis
    unfolding upsert_domain_message_def by (intro keeps_intros fails_id_for_guid cache_ok_id_for_guid)
qed

section \<open>Delivery succeeds\<close>

definition registry_room :: "cache \<Rightarrow> bool" where
  "registry_room db \<longleftrightarrow> list_all (\<lambda>kv. snd kv < i64_max - 1) (identities db)"

lemma apply_domain_message_succeeds:
  assumes "cache_ok db" "registry_room db"
    "stable_id sha256 (chat_guid_str (m_chat msg)) < i64_max - 1"
    "stable_id sha256 (message_guid_str (m_guid msg)) < i64_max"
  obtains a db' where "apply_domain_message sha256 msg db = (Inr a, db')" "cache_ok db'"
proof -
  have reg: "registry_ok db" using assms(1) by (simp add: cache_ok_def)
  have room: "\<forall>n \<in> snd ` set (identities db). n < i64_max - 1"
    using assms(2) by (auto simp: registry_room_def list_all_iff)
  obtain k db1 where 1: "id_for_guid sha256 (chat_guid_str (m_chat msg)) db = (Inr k, db1)"
      and "\<forall>n \<in> snd ` set (identities db1). n < i64_max - 1 + 1"
    by (rule id_for_guid_room [OF reg room _ assms(3)]) simp_all
  then have room1: "\<forall>n \<in> snd ` set (identities db1). n < i64_max" by simp
  have ok1: "cache_ok db1" using cache_ok_id_for_guid assms(1) 1 by (rule keepsE)
  have known1: "id_of db1 (chat_guid_str (m_chat msg)) = Some k" using reg 1 by (rule registry.alloc_known)
  obtain db2 where 2: "ensure_chat sha256 msg k db1 = (Inr (), db2)" "cache_ok db2" "identities db2 = identities db1"
    by (rule ensure_chat_runs [OF ok1 known1, of sha256]) blast
  have reg2: "registry_ok db2" using 2(2) by (simp add: cache_ok_def)
  obtain n db3 where 3: "id_for_guid sha256 (message_guid_str (m_guid msg)) db2 = (Inr n, db3)"
    by (rule id_for_guid_room [OF reg2 _ order_refl assms(4)]) (use room1 2(3) in simp_all)
  have ok3: "cache_ok db3" using cache_ok_id_for_guid 2(2) 3 by (rule keepsE)
  obtain doc where doc: "json_wf doc" "is_object doc" "deliver sha256 msg k n db3 = apply_live_message doc db3"
    by (rule deliver_runs [OF ok3, of k msg n sha256]) blast
  obtain a db' where run: "apply_live_message doc db3 = (Inr a, db')"
    using cache_ok_apply_live [OF ok3 doc(1,2)] by (metis prod.collapse)
  have "apply_domain_message sha256 msg db = (Inr a, db')"
    by (simp add: apply_domain_message_steps andthen_apply 1 2(1) 3 doc(3) run)
  moreover have "cache_ok db'" using cache_ok_apply_live [OF ok3 doc(1,2)] run by simp
  ultimately show thesis by (rule that)
qed

end
