(* ===== verification/Cache_Query.thy ===== *)
theory Cache_Query
  imports Cache_Live
begin

text \<open>
  The reading operations of \<^verbatim>\<open>sync/src/cache.rs\<close> (\<^verbatim>\<open>list_chats\<close>, \<^verbatim>\<open>list_messages\<close>, the counts,
  the meta table, \<^verbatim>\<open>link_snapshot\<close>) and what their answers contain, in which order.
\<close>

section \<open>Operations\<close>

definition documents :: "json option list \<Rightarrow> cache_error + json list" where
  "documents raws = (case those raws of None \<Rightarrow> Inl BadJson | Some vs \<Rightarrow> Inr (map stringify_row_ids vs))"

definition list_chats :: "i64 \<Rightarrow> cache \<Rightarrow> cache_error + json list" where
  "list_chats limit db =
     documents (map cr_raw
       (sql_limit limit (order_desc (\<lambda>r. sql_of (cr_last_message_at r)) (map snd (chats db)))))"

definition created_before :: "string option \<Rightarrow> msg_row \<Rightarrow> bool" where
  "created_before before row =
     (case before of
        None \<Rightarrow> True
      | Some b \<Rightarrow> (case mr_created_at row of None \<Rightarrow> False | Some t \<Rightarrow> t < b))"

definition newest_first :: "msg_row list \<Rightarrow> msg_row list" where
  "newest_first = order_desc_index (\<lambda>r. sql_of (mr_created_at r))"

definition list_messages :: "i64 \<Rightarrow> i64 \<Rightarrow> string option \<Rightarrow> cache \<Rightarrow> cache_error + json list" where
  "list_messages chat_id limit before db =
     (let rows = filter (\<lambda>r. mr_chat_id r = chat_id \<and> created_before before r) (map snd (messages db))
      in map_sum id rev (documents (map mr_raw (sql_limit limit (newest_first rows)))))"

definition set_meta :: "string \<Rightarrow> string \<Rightarrow> cache \<Rightarrow> cache" where
  "set_meta key value db = db\<lparr>sync_meta := kv_insert key value (sync_meta db)\<rparr>"

definition get_meta :: "string \<Rightarrow> cache \<Rightarrow> string option" where
  "get_meta key db = map_of (sync_meta db) key"

definition link_snapshot :: "cache \<Rightarrow> json" where
  "link_snapshot db = mk_obj
     [(''bridge_connected'', JBool (get_meta ''bridge_connected'' db = Some ''true'')),
      (''database_ready'', JBool (get_meta ''database_ready'' db = Some ''true'')),
      (''last_error'', JStr (unwrap_or (get_meta ''last_error'' db) [])),
      (''contacts'', JStr (unwrap_or (get_meta ''contacts'' db) ''unknown''))]"

definition chat_count :: "cache \<Rightarrow> i64" where
  "chat_count db = int (length (chats db))"

definition message_count :: "cache \<Rightarrow> i64" where
  "message_count db = int (length (messages db))"

section \<open>Facts\<close>

lemma those_map_Some: "those (map Some vs) = Some vs"
  by (induction vs) simp_all

lemma documents_ok: "map f rows = map Some vs \<Longrightarrow> documents (map f rows) = Inr (map stringify_row_ids vs)"
  by (simp add: documents_def those_map_Some)

lemma map_Some_the: "list_all (\<lambda>r. f r \<noteq> None) rows \<Longrightarrow> map f rows = map Some (map (the \<circ> f) rows)"
  by (induction rows) auto

lemma cache_ok_chat_rows: "cache_ok db \<Longrightarrow> r \<in> snd ` set (chats db) \<Longrightarrow> cr_raw r \<noteq> None"
  by (force simp: cache_ok_def rows_ok_def chat_row_ok_def list_all_iff split: option.splits)

lemma cache_ok_message_rows: "cache_ok db \<Longrightarrow> r \<in> snd ` set (messages db) \<Longrightarrow>
    \<exists>v. mr_raw r = Some v \<and> r = message_row v \<and> json_wf v"
  by (force simp: cache_ok_def rows_ok_def message_row_ok_def list_all_iff split: option.splits)

lemma cache_ok_message_raw: "cache_ok db \<Longrightarrow> r \<in> snd ` set (messages db) \<Longrightarrow> mr_raw r \<noteq> None"
  using cache_ok_message_rows by fastforce

text \<open>On a sound database a listing never fails; its rows are in the order asked for.\<close>

lemma list_chats_ok:
  assumes "cache_ok db"
  shows "list_chats limit db = Inr (map (stringify_row_ids \<circ> the \<circ> cr_raw)
    (sql_limit limit (order_desc (\<lambda>r. sql_of (cr_last_message_at r)) (map snd (chats db)))))"
proof -
  let ?rows = "sql_limit limit (order_desc (\<lambda>r. sql_of (cr_last_message_at r)) (map snd (chats db)))"
  have "set ?rows \<subseteq> snd ` set (chats db)" using set_sql_limit by fastforce
  then have "map cr_raw ?rows = map Some (map (the \<circ> cr_raw) ?rows)"
    using cache_ok_chat_rows [OF assms]
    by (intro map_Some_the) (unfold list_all_iff, blast)
  from documents_ok [OF this] show ?thesis by (simp add: list_chats_def)
qed

lemma list_messages_ok:
  assumes "cache_ok db"
  shows "list_messages chat_id limit before db = Inr (rev (map (stringify_row_ids \<circ> the \<circ> mr_raw)
    (sql_limit limit (newest_first
      (filter (\<lambda>r. mr_chat_id r = chat_id \<and> created_before before r) (map snd (messages db)))))))"
proof -
  let ?rows = "sql_limit limit (newest_first
      (filter (\<lambda>r. mr_chat_id r = chat_id \<and> created_before before r) (map snd (messages db))))"
  have "set ?rows \<subseteq> snd ` set (messages db)"
    using set_sql_limit unfolding newest_first_def by fastforce
  then have "map mr_raw ?rows = map Some (map (the \<circ> mr_raw) ?rows)"
    using cache_ok_message_raw [OF assms]
    by (intro map_Some_the) (unfold list_all_iff, blast)
  from documents_ok [OF this] show ?thesis by (simp add: list_messages_def Let_def)
qed

text \<open>A bounded listing of rows in descending order, seen through the documents they carry.\<close>

lemma listing_window:
  assumes "sorted_wrt (\<lambda>r r'. key r' \<le> (key r :: sql_text)) rows"
    "\<And>r. r \<in> set rows \<Longrightarrow> dkey (doc r) = key r"
  shows "0 \<le> limit \<Longrightarrow> int (length (map doc (sql_limit limit rows))) \<le> limit"
    and "sorted_wrt (\<lambda>a b. dkey b \<le> dkey a) (map doc (sql_limit limit rows))"
    and "r \<in> set rows \<Longrightarrow> doc r \<in> set (map doc (sql_limit limit rows))
      \<or> 0 \<le> limit \<and> int (length (map doc (sql_limit limit rows))) = limit
        \<and> (\<forall>v \<in> set (map doc (sql_limit limit rows)). dkey (doc r) \<le> dkey v)"
proof -
  let ?kept = "sql_limit limit rows"
  have kept: "set ?kept \<subseteq> set rows" by (rule set_sql_limit)
  show "0 \<le> limit \<Longrightarrow> int (length (map doc ?kept)) \<le> limit"
    by (simp add: length_sql_limit)
  have "sorted_wrt (\<lambda>r r'. key r' \<le> key r) ?kept" using assms(1) by (rule sorted_wrt_sql_limit)
  then have "sorted_wrt (\<lambda>r r'. dkey (doc r') \<le> dkey (doc r)) ?kept"
  proof (rule sorted_wrt_mono_rel [rotated])
    fix r r'
    assume "r \<in> set ?kept" "r' \<in> set ?kept" "key r' \<le> key r"
    then show "dkey (doc r') \<le> dkey (doc r)"
      using assms(2) [of r] assms(2) [of r'] kept by (simp only: subsetD)
  qed
  then show "sorted_wrt (\<lambda>a b. dkey b \<le> dkey a) (map doc ?kept)" by (simp add: sorted_wrt_map)
  assume r: "r \<in> set rows"
  from sql_limit_rest [OF assms(1) r, of limit]
  show "doc r \<in> set (map doc ?kept) \<or> 0 \<le> limit \<and> int (length (map doc ?kept)) = limit
      \<and> (\<forall>v \<in> set (map doc ?kept). dkey (doc r) \<le> dkey v)"
  proof
    assume full: "0 \<le> limit \<and> int (length ?kept) = limit \<and> (\<forall>t \<in> set ?kept. key r \<le> key t)"
    have "dkey (doc r) \<le> dkey (doc t)" if "t \<in> set ?kept" for t
      using that full assms(2) [of t] assms(2) [OF r] kept by (simp only: subsetD)
    then show ?thesis using full by simp
  qed simp
qed

lemma get_set_meta [simp]: "get_meta k (set_meta k' v db) = (if k = k' then Some v else get_meta k db)"
  by (simp add: get_meta_def set_meta_def)

lemma cache_ok_set_meta [simp]: "cache_ok (set_meta k v db) = cache_ok db"
  by (simp add: cache_ok_def set_meta_def registry_ok_def)

end
