(* ===== verification/Cache_Repair.thy ===== *)
theory Cache_Repair
  imports Cache_Query
begin

text \<open>
  Opening a cache (\<^verbatim>\<open>MessageCache::open\<close> of \<^verbatim>\<open>sync/src/cache.rs\<close>): the repairs of the columns, of
  the identity registry, of chats that only messages mention and of sender names; and
  \<^verbatim>\<open>apply_contact_book\<close>, which ends with the last of them.

  SQLite's dynamic values are \<open>sql_value\<close>.  Two of its renderings stay parameters: \<open>real_text\<close>
  (the text of a floating-point value) and \<open>json_text\<close> (the text of an array or object).
\<close>

section \<open>The values of \<^verbatim>\<open>json_extract\<close>\<close>

datatype sql_value = VNull | VInt int | VReal f64 | VText string

fun extract_value :: "(json \<Rightarrow> string) \<Rightarrow> json \<Rightarrow> sql_value" where
  "extract_value json_text JNull = VNull"
| "extract_value json_text (JBool b) = VInt (if b then 1 else 0)"
| "extract_value json_text (JNum (NPos n)) =
     (if uint n \<le> i64_max then VInt (uint n) else VReal (f64_round (of_int (uint n))))"
| "extract_value json_text (JNum (NNeg n)) = VInt n"
| "extract_value json_text (JNum (NFloat x)) = VReal (Fin x)"
| "extract_value json_text (JStr s) = VText s"
| "extract_value json_text v = VText (json_text v)"

definition json_extract :: "(json \<Rightarrow> string) \<Rightarrow> json \<Rightarrow> string \<Rightarrow> sql_value" where
  "json_extract json_text doc key =
     (case json_get doc key of None \<Rightarrow> VNull | Some v \<Rightarrow> extract_value json_text v)"

text \<open>\<^verbatim>\<open>CAST(.. AS INTEGER)\<close> of a text: its longest integer prefix, clamped to 64 bits.\<close>

definition is_sql_space :: "char \<Rightarrow> bool" where
  "is_sql_space c \<longleftrightarrow> 9 \<le> scalar c \<and> scalar c \<le> 13 \<or> scalar c = 32"

definition cast_text_int :: "string \<Rightarrow> i64" where
  "cast_text_int s =
     (let digits = (\<lambda>ds. digits_value (takeWhile is_ascii_digit ds));
          n = (case dropWhile is_sql_space s of
                 [] \<Rightarrow> 0
               | c # ds \<Rightarrow>
                   if c = CHR ''-'' then - digits ds
                   else if c = CHR ''+'' then digits ds
                   else digits (c # ds))
      in max i64_min (min i64_max n))"

fun cast_int :: "sql_value \<Rightarrow> i64 option" where
  "cast_int VNull = None"
| "cast_int (VInt n) = Some n"
| "cast_int (VReal x) = Some (f64_as_i64 x)"
| "cast_int (VText s) = Some (cast_text_int s)"

text \<open>A value stored in a \<^verbatim>\<open>TEXT\<close> column.\<close>

fun text_affinity :: "(f64 \<Rightarrow> string) \<Rightarrow> sql_value \<Rightarrow> string option" where
  "text_affinity real_text VNull = None"
| "text_affinity real_text (VInt n) = Some (show_int n)"
| "text_affinity real_text (VReal x) = Some (real_text x)"
| "text_affinity real_text (VText s) = Some s"

definition equals_int :: "sql_value \<Rightarrow> int \<Rightarrow> bool" where
  "equals_int v n \<longleftrightarrow> v = VInt n \<or> v = VReal (Fin (of_int n))"

section \<open>The repairs\<close>

definition needs_projection :: "(json \<Rightarrow> string) \<Rightarrow> msg_row \<Rightarrow> json \<Rightarrow> bool" where
  "needs_projection json_text row doc \<longleftrightarrow>
     mr_chat_id row = 0 \<and> json_extract json_text doc ''chat_id'' \<noteq> VNull
     \<or> mr_created_at row = None \<and> json_extract json_text doc ''created_at'' \<noteq> VNull"

definition project_columns ::
  "(json \<Rightarrow> string) \<Rightarrow> (f64 \<Rightarrow> string) \<Rightarrow> json \<Rightarrow> msg_row \<Rightarrow> msg_row" where
  "project_columns json_text real_text doc row =
     (let from_me = json_extract json_text doc ''is_from_me'' in
      row\<lparr> mr_chat_id := unwrap_or (cast_int (json_extract json_text doc ''chat_id'')) (mr_chat_id row),
           mr_created_at := or_else
             (text_affinity real_text (json_extract json_text doc ''created_at'')) (mr_created_at row),
           mr_is_from_me :=
             (if equals_int from_me 1 then 1
              else if equals_int from_me 0 then 0
              else mr_is_from_me row) \<rparr>)"

definition repair_row ::
  "(json \<Rightarrow> string) \<Rightarrow> (f64 \<Rightarrow> string) \<Rightarrow> msg_row \<Rightarrow> msg_row option" where
  "repair_row json_text real_text row =
     (case mr_raw row of
        None \<Rightarrow> if mr_chat_id row = 0 \<or> mr_created_at row = None then None else Some row
      | Some doc \<Rightarrow> Some
          (if needs_projection json_text row doc
           then project_columns json_text real_text doc row else row))"

definition repair_message_projections ::
  "(json \<Rightarrow> string) \<Rightarrow> (f64 \<Rightarrow> string) \<Rightarrow> (cache, cache_error, unit) act" where
  "repair_message_projections json_text real_text db =
     (case those (map (\<lambda>kv. map_option (Pair (fst kv)) (repair_row json_text real_text (snd kv)))
              (messages db)) of
        None \<Rightarrow> (Inl BadJson, db)
      | Some tbl \<Rightarrow> (Inr (), db\<lparr>messages := tbl\<rparr>))"

definition insert_guid :: "i64 \<times> string option \<Rightarrow> cache \<Rightarrow> cache" where
  "insert_guid row db =
     (case opt_filter (\<lambda>g. g \<noteq> []) (snd row) of
        None \<Rightarrow> db | Some g \<Rightarrow> insert_identity g (fst row) db)"

definition rebuild_identities :: "cache \<Rightarrow> cache" where
  "rebuild_identities db =
     fold insert_guid
       (map (\<lambda>kv. (fst kv, cr_guid (snd kv))) (chats db) @
        map (\<lambda>kv. (fst kv, mr_guid (snd kv))) (messages db)) db"

text \<open>The newest row of a chat among those that satisfy a condition.\<close>

definition newest :: "(msg_row \<Rightarrow> bool) \<Rightarrow> i64 \<Rightarrow> cache \<Rightarrow> msg_row option" where
  "newest p chat_id db =
     (case newest_first (filter (\<lambda>r. mr_chat_id r = chat_id \<and> p r) (map snd (messages db))) of
        [] \<Rightarrow> None | r # _ \<Rightarrow> Some r)"

definition orphan_chat_ids :: "cache \<Rightarrow> (i64 \<times> string) list" where
  "orphan_chat_ids db =
     List.map_filter
       (\<lambda>n. if n \<noteq> 0 \<and> map_of (chats db) n = None
            then map_option (Pair n)
              (opt_filter (\<lambda>g. CHR '';'' \<in> set g) (guid_of_identity db n))
            else None)
       (sort (remdups (map (mr_chat_id \<circ> snd) (messages db))))"

definition orphan_stub :: "i64 \<Rightarrow> chat_guid \<Rightarrow> cache \<Rightarrow> chat" where
  "orphan_stub n guid db =
     (let sender = Option.bind (newest (\<lambda>r. mr_sender r \<noteq> None) n db) mr_sender;
          sender_name = Option.bind
            (newest (\<lambda>r. mr_sender_name r \<noteq> None \<and> mr_sender_name r \<noteq> Some []) n db) mr_sender_name;
          last_at = Option.bind (newest (\<lambda>r. True) n db) mr_created_at
      in chat_stub guid
           (map_option (\<lambda>address. \<lparr> h_address = address, h_service = None, h_name = sender_name \<rparr>) sender)
           last_at 0)"

definition repair_orphan_chats :: "(byte list \<Rightarrow> byte list) \<Rightarrow> (cache, cache_error, unit) act" where
  "repair_orphan_chats sha256 =
     andthen (reads (\<lambda>db. map (\<lambda>(n, g). (g, map_sum id (\<lambda>cg. orphan_stub n cg db) (chat_guid_parse g)))
                (orphan_chat_ids db)))
       (\<lambda>rows. for_each rows (\<lambda>(g, stub).
          case stub of
            Inl _ \<Rightarrow> ret ()
          | Inr c \<Rightarrow> andthen (upsert_domain_chat sha256 c) (\<lambda>_. ret ())))"

text \<open>The titles of the listed one-to-one chats, by chat id.\<close>

definition chat_titles :: "json list \<Rightarrow> i64 \<Rightarrow> string option" where
  "chat_titles cs =
     fold (\<lambda>c titles.
        if cache_chat_is_group c then titles
        else case cache_chat_title c of
            None \<Rightarrow> titles
          | Some name \<Rightarrow> titles(row_id c \<mapsto> name)) cs Map.empty"

definition repair_sender_name ::
  "(i64 \<Rightarrow> string option) \<Rightarrow> i64 \<times> msg_row \<Rightarrow> (cache, cache_error, unit) act" where
  "repair_sender_name titles kv =
     (let row = snd kv in
      if mr_is_from_me row \<noteq> 0 then ret ()
      else case titles (mr_chat_id row) of
          None \<Rightarrow> ret ()
        | Some name \<Rightarrow>
            if mr_sender_name row = Some name then ret ()
            else (case json_put (unwrap_or (mr_raw row) (JObj [])) ''sender_name'' (JStr name) of
                None \<Rightarrow> raise Panic
              | Some doc \<Rightarrow> writes (\<lambda>db. db\<lparr>messages :=
                  kv_insert (fst kv) (row\<lparr>mr_sender_name := Some name, mr_raw := Some doc\<rparr>)
                    (messages db)\<rparr>)))"

definition repair_phone_sender_names :: "(cache, cache_error, unit) act" where
  "repair_phone_sender_names =
     andthen (reads (list_chats 500)) (\<lambda>listed.
     andthen (of_result listed) (\<lambda>cs.
     andthen (reads messages) (\<lambda>rows. for_each rows (repair_sender_name (chat_titles cs)))))"

definition open_cache ::
  "(json \<Rightarrow> string) \<Rightarrow> (f64 \<Rightarrow> string) \<Rightarrow> (byte list \<Rightarrow> byte list) \<Rightarrow> (cache, cache_error, unit) act" where
  "open_cache json_text real_text sha256 =
     andthen (repair_message_projections json_text real_text) (\<lambda>_.
     andthen (writes rebuild_identities) (\<lambda>_.
     andthen (repair_orphan_chats sha256) (\<lambda>_.
     repair_phone_sender_names)))"

section \<open>Applying the contact book\<close>

definition rename_chat :: "contact_book \<Rightarrow> json \<Rightarrow> (cache, cache_error, u32) act" where
  "rename_chat book c =
     (case book_lookup book (unwrap_or (as_str (json_at c ''identifier'')) []) of
        None \<Rightarrow> ret 0
      | Some name \<Rightarrow>
          let current = unwrap_or (contact_or_name c) [] in
          if current = name then ret 0
          else if is_person_name current then ret 0
          else (case Option.bind (json_put c ''name'' (JStr name))
                       (\<lambda>c1. json_put c1 ''contact_name'' (JStr name)) of
              None \<Rightarrow> raise Panic
            | Some c' \<Rightarrow> andthen (upsert_chat c') (\<lambda>_. ret 1)))"

fun rename_chats :: "contact_book \<Rightarrow> json list \<Rightarrow> u32 \<Rightarrow> (cache, cache_error, u32) act" where
  "rename_chats book [] n = ret n"
| "rename_chats book (c # cs) n = andthen (rename_chat book c) (\<lambda>k. rename_chats book cs (n + k))"

definition apply_contact_book :: "contact_book \<Rightarrow> (cache, cache_error, u32) act" where
  "apply_contact_book book0 =
     andthen (reads (list_chats 500)) (\<lambda>listed.
     andthen (of_result listed) (\<lambda>cs.
     andthen (rename_chats (fold seed_from_cache_chat cs book0) cs 0) (\<lambda>n.
     andthen repair_phone_sender_names (\<lambda>_. ret n))))"

section \<open>The repairs keep the invariant\<close>

lemma registry_ok_fold_insert_guid:
  "registry_ok db \<Longrightarrow> list_all (\<lambda>row. in_i64 (fst row)) rows \<Longrightarrow> registry_ok (fold insert_guid rows db)"
  by (induction rows arbitrary: db) (auto simp: insert_guid_def split: option.splits)

lemma fold_insert_guid_tables:
  "chats (fold insert_guid rows db) = chats db \<and> messages (fold insert_guid rows db) = messages db"
  by (induction rows arbitrary: db) (auto simp: insert_guid_def split: option.splits)

lemma fold_insert_guid_mono: "id_of db h = Some m \<Longrightarrow> id_of (fold insert_guid rows db) h = Some m"
  by (induction rows arbitrary: db) (auto simp: insert_guid_def id_of_insert_mono split: option.splits)

lemma cache_ok_rows:
  assumes "cache_ok db"
  shows "kv \<in> set (chats db) \<Longrightarrow> chat_row_ok (fst kv) (snd kv)"
    and "kv' \<in> set (messages db) \<Longrightarrow> message_row_ok (fst kv') (snd kv')"
  using assms by (auto simp: cache_ok_def rows_ok_def list_all_iff)

lemma row_ok_in_i64: "chat_row_ok n row \<Longrightarrow> in_i64 n" "message_row_ok n mrow \<Longrightarrow> in_i64 n"
  by (auto simp: chat_row_ok_def message_row_ok_def row_id_in_i64 split: option.splits)

lemma cache_ok_rebuild_identities: "cache_ok db \<Longrightarrow> cache_ok (rebuild_identities db)"
proof -
  assume ok: "cache_ok db"
  then have "list_all (\<lambda>row. in_i64 (fst row))
      (map (\<lambda>kv. (fst kv, cr_guid (snd kv))) (chats db) @ map (\<lambda>kv. (fst kv, mr_guid (snd kv))) (messages db))"
    using cache_ok_rows row_ok_in_i64 by (fastforce simp: list_all_iff)
  then have "registry_ok (rebuild_identities db)"
    using ok unfolding rebuild_identities_def cache_ok_def by (blast intro: registry_ok_fold_insert_guid)
  then show ?thesis
    using ok fold_insert_guid_tables by (simp add: cache_ok_def rebuild_identities_def)
qed

lemma cache_ok_repair_orphan_chats:
  "keeps cache_ok (repair_orphan_chats sha256)" "fails_in {NoReturn} cache_ok (repair_orphan_chats sha256)"
proof -
  let ?step = "\<lambda>(g, stub :: domain_error + chat). case stub of Inl _ \<Rightarrow> ret ()
    | Inr c \<Rightarrow> andthen (upsert_domain_chat sha256 c) (\<lambda>_. ret ())"
  have step: "keeps cache_ok (?step x)" "fails_in {NoReturn} cache_ok (?step x)" for x :: "string \<times> (domain_error + chat)"
    by (cases x; cases "snd x"; auto intro: keeps_intros cache_ok_upsert_domain_chat fails_upsert_domain_chat)+
  show "keeps cache_ok (repair_orphan_chats sha256)"
    unfolding repair_orphan_chats_def by (intro keeps_intros step)
  show "fails_in {NoReturn} cache_ok (repair_orphan_chats sha256)"
    unfolding repair_orphan_chats_def by (intro keeps_intros fails_in_for_each step)
qed

text \<open>Renaming the sender changes one member of the document and its column.\<close>

lemma repair_sender_name_ok:
  assumes "message_row_ok (fst kv) (snd kv)"
  shows "keeps cache_ok (repair_sender_name titles kv)" "fails_in {} cache_ok (repair_sender_name titles kv)"
proof -
  obtain v where v: "mr_raw (snd kv) = Some v" "json_wf v" "is_object v" "row_id v = fst kv" "snd kv = message_row v"
    using assms by (auto simp: message_row_ok_def split: option.splits)
  have "keeps cache_ok (repair_sender_name titles kv) \<and> fails_in {} cache_ok (repair_sender_name titles kv)"
  proof (cases "mr_is_from_me (snd kv) \<noteq> 0 \<or> titles (mr_chat_id (snd kv)) = None
      \<or> mr_sender_name (snd kv) = titles (mr_chat_id (snd kv))")
    case True
    then have "repair_sender_name titles kv = ret ()"
      by (auto simp: repair_sender_name_def Let_def split: option.splits)
    then show ?thesis by (simp add: keeps_intros)
  next
    case False
    then obtain name where name: "titles (mr_chat_id (snd kv)) = Some name" by auto
    obtain doc where doc: "json_put v ''sender_name'' (JStr name) = Some doc" "is_object doc" "json_wf doc"
        "\<And>k. json_at doc k = (if k = ''sender_name'' then JStr name else json_at v k)"
      by (rule json_put_objectE [OF v(3,2), of "JStr name" "''sender_name''"]) (simp, blast)
    have "message_row_ok (fst kv) ((snd kv)\<lparr>mr_sender_name := Some name, mr_raw := Some doc\<rparr>)"
      using v doc by (simp add: message_row_ok_def message_row_def row_id_def)
    then have "keeps cache_ok (writes (\<lambda>db. db\<lparr>messages := kv_insert (fst kv)
        ((snd kv)\<lparr>mr_sender_name := Some name, mr_raw := Some doc\<rparr>) (messages db)\<rparr>))"
      by (intro keeps_writes) (simp add: cache_ok_def rows_ok_insert)
    moreover have "repair_sender_name titles kv = writes (\<lambda>db. db\<lparr>messages := kv_insert (fst kv)
        ((snd kv)\<lparr>mr_sender_name := Some name, mr_raw := Some doc\<rparr>) (messages db)\<rparr>)"
      using False name v doc by (simp add: repair_sender_name_def Let_def)
    ultimately show ?thesis by (simp add: keeps_intros)
  qed
  then show "keeps cache_ok (repair_sender_name titles kv)" "fails_in {} cache_ok (repair_sender_name titles kv)"
    by simp_all
qed

lemma for_each_ok:
  "(\<And>x. x \<in> set xs \<Longrightarrow> keeps P (f x)) \<Longrightarrow> (\<And>x. x \<in> set xs \<Longrightarrow> fails_in E P (f x)) \<Longrightarrow>
     keeps P (for_each xs f) \<and> fails_in E P (for_each xs f)"
  by (induction xs) (simp_all add: keeps_ret fails_in_ret keeps_andthen fails_in_andthen)

lemma list_chats_Inr: "cache_ok db \<Longrightarrow> \<exists>cs. list_chats n db = Inr cs"
  by (simp add: list_chats_ok)

lemma fails_in_of_result: "r = Inr x \<Longrightarrow> fails_in E P (of_result r)"
  by (simp add: fails_in_def)

lemma keeps_andthen_result:
  "r = Inr x \<Longrightarrow> andthen (of_result r) f = f x"
  by (simp add: andthen_def fun_eq_iff)

lemma repair_phone_sender_names_ok:
  "keeps cache_ok repair_phone_sender_names" "fails_in {} cache_ok repair_phone_sender_names"
proof -
  have "keeps cache_ok (andthen (of_result (list_chats 500 db)) (\<lambda>cs.
      andthen (reads messages) (\<lambda>rows. for_each rows (repair_sender_name (chat_titles cs)))))
    \<and> fails_in {} cache_ok (andthen (of_result (list_chats 500 db)) (\<lambda>cs.
      andthen (reads messages) (\<lambda>rows. for_each rows (repair_sender_name (chat_titles cs)))))"
    if ok: "cache_ok db" for db
  proof -
    obtain cs where cs: "list_chats 500 db = Inr cs" using list_chats_Inr [OF ok] by blast
    have "keeps cache_ok (for_each (messages s) (repair_sender_name (chat_titles cs)))
        \<and> fails_in {} cache_ok (for_each (messages s) (repair_sender_name (chat_titles cs)))"
      if "cache_ok s" for s
      using cache_ok_rows [OF that] by (intro for_each_ok repair_sender_name_ok) simp_all
    then show ?thesis
      unfolding keeps_andthen_result [OF cs] by (intro conjI fails_in_andthen_reads) blast+
  qed
  then have "keeps cache_ok repair_phone_sender_names \<and> fails_in {} cache_ok repair_phone_sender_names"
    unfolding repair_phone_sender_names_def by (intro conjI fails_in_andthen_reads) blast+
  then show "keeps cache_ok repair_phone_sender_names" "fails_in {} cache_ok repair_phone_sender_names"
    by blast+
qed

section \<open>Applying the contact book keeps the invariant\<close>

lemma stringify_id_wf: "json_wf (JObj ob) \<Longrightarrow> json_wf (JObj (stringify_id k ob))"
  by (auto simp: stringify_id_def json_wf_kv_insert simp del: json_wf.simps(3) split: option.splits sum.splits)

lemma json_wf_stringify_row_ids: "json_wf v \<Longrightarrow> json_wf (stringify_row_ids v)"
  by (cases v) (simp_all add: stringify_row_ids_def stringify_id_wf del: json_wf.simps(3))

lemma list_chats_docs:
  assumes "cache_ok db" "list_chats n db = Inr cs" "c \<in> set cs"
  shows "json_wf c \<and> is_object c"
proof -
  obtain r where "r \<in> snd ` set (chats db)" "c = stringify_row_ids (the (cr_raw r))"
    using assms list_chats_ok [OF assms(1), of n]
      set_sql_limit [of n "order_desc (\<lambda>r. sql_of (cr_last_message_at r)) (map snd (chats db))"] by fastforce
  then show ?thesis
    using cache_ok_rows(1) [OF assms(1)]
    by (fastforce simp: chat_row_ok_def json_wf_stringify_row_ids split: option.splits)
qed

lemma rename_chat_ok:
  assumes "json_wf c" "is_object c"
  shows "keeps cache_ok (rename_chat book c) \<and> fails_in {} cache_ok (rename_chat book c)"
proof (cases "rename_chat book c = ret 0")
  case True
  then show ?thesis by (simp only: keeps_ret fails_in_ret)
next
  case False
  then obtain name where l: "book_lookup book (unwrap_or (as_str (json_at c ''identifier'')) []) = Some name"
    by (cases "book_lookup book (unwrap_or (as_str (json_at c ''identifier'')) [])")
       (auto simp: rename_chat_def)
  have name: "rename_chat book c =
      (case Option.bind (json_put c ''name'' (JStr name)) (\<lambda>c1. json_put c1 ''contact_name'' (JStr name)) of
         None \<Rightarrow> raise Panic | Some c' \<Rightarrow> andthen (upsert_chat c') (\<lambda>_. ret 1))"
    using False by (simp add: rename_chat_def Let_def l split: if_splits)
  obtain c1 where c1: "json_put c ''name'' (JStr name) = Some c1" "is_object c1" "json_wf c1"
    by (rule json_put_objectE [OF assms(2,1), of "JStr name" "''name''"]) (simp, blast)
  obtain c2 where c2: "json_put c1 ''contact_name'' (JStr name) = Some c2" "is_object c2" "json_wf c2"
    by (rule json_put_objectE [OF c1(2,3), of "JStr name" "''contact_name''"]) (simp, blast)
  have "keeps cache_ok (upsert_chat c2)" "fails_in {} cache_ok (upsert_chat c2)"
    using cache_ok_upsert_chat c2 fails_upsert_chat by (auto simp: keeps_def)
  then have "keeps cache_ok (andthen (upsert_chat c2) (\<lambda>_. ret (1 :: u32)))
      \<and> fails_in {} cache_ok (andthen (upsert_chat c2) (\<lambda>_. ret (1 :: u32)))"
    by (intro conjI keeps_intros)
  then show ?thesis by (simp add: name c1(1) c2(1))
qed

lemma rename_chats_ok:
  "(\<And>c. c \<in> set cs \<Longrightarrow> json_wf c \<and> is_object c) \<Longrightarrow>
     keeps cache_ok (rename_chats book cs n) \<and> fails_in {} cache_ok (rename_chats book cs n)"
proof (induction cs arbitrary: n)
  case (Cons c cs)
  then have "keeps cache_ok (rename_chat book c)" "fails_in {} cache_ok (rename_chat book c)"
    using rename_chat_ok by simp_all
  then show ?case using Cons by (simp add: keeps_andthen fails_in_andthen)
qed (simp add: keeps_ret fails_in_ret)

lemma apply_contact_book_ok:
  "keeps cache_ok (apply_contact_book book) \<and> fails_in {} cache_ok (apply_contact_book book)"
proof -
  have "keeps cache_ok (andthen (of_result (list_chats 500 db)) (\<lambda>cs.
       andthen (rename_chats (fold seed_from_cache_chat cs book) cs 0) (\<lambda>n.
       andthen repair_phone_sender_names (\<lambda>_. ret n))))
    \<and> fails_in {} cache_ok (andthen (of_result (list_chats 500 db)) (\<lambda>cs.
       andthen (rename_chats (fold seed_from_cache_chat cs book) cs 0) (\<lambda>n.
       andthen repair_phone_sender_names (\<lambda>_. ret n))))"
    if ok: "cache_ok db" for db
  proof -
    obtain cs where cs: "list_chats 500 db = Inr cs" using list_chats_Inr [OF ok] by blast
    have "keeps cache_ok (rename_chats (fold seed_from_cache_chat cs book) cs 0)"
      "fails_in {} cache_ok (rename_chats (fold seed_from_cache_chat cs book) cs 0)"
      using rename_chats_ok [of cs] list_chats_docs [OF ok cs] by blast+
    then show ?thesis
      unfolding keeps_andthen_result [OF cs]
      by (intro conjI keeps_intros repair_phone_sender_names_ok)
  qed
  then show ?thesis
    unfolding apply_contact_book_def by (intro conjI fails_in_andthen_reads) blast+
qed

section \<open>Opening a cache the daemon wrote\<close>

text \<open>The documents the daemon itself stores: the three members the repair reads have the form
  that \<^verbatim>\<open>to_cache_json\<close> gives them, or are missing.\<close>

definition plain_member :: "string \<Rightarrow> json \<Rightarrow> bool" where
  "plain_member key v \<longleftrightarrow> v = JNull
     \<or> (if key = ''chat_id'' then
           (case Option.bind (as_str v) parse_i64 of None \<Rightarrow> False | Some n \<Rightarrow> v = JStr (json_id n))
         else if key = ''created_at'' then as_str v \<noteq> None
         else as_bool v \<noteq> None)"

definition plain_doc :: "json \<Rightarrow> bool" where
  "plain_doc v \<longleftrightarrow>
     list_all (\<lambda>key. plain_member key (json_at v key)) [''chat_id'', ''created_at'', ''is_from_me'']"

definition plain_cache :: "cache \<Rightarrow> bool" where
  "plain_cache db \<longleftrightarrow> list_all (\<lambda>kv. \<forall>v \<in> set_option (mr_raw (snd kv)). plain_doc v) (messages db)"

lemma takeWhile_digits: "list_all is_ascii_digit ds \<Longrightarrow> takeWhile is_ascii_digit ds = ds"
  by (simp add: list_all_iff)

lemma digit_not_sql_space: "is_ascii_digit c \<Longrightarrow> \<not> is_sql_space c"
  by (auto simp: is_ascii_digit_def is_sql_space_def)

lemma cast_text_int_show_int: "in_i64 n \<Longrightarrow> cast_text_int (show_int n) = n"
proof (cases "n < 0")
  case True
  have "\<not> is_sql_space (CHR ''-'')" by (simp add: is_sql_space_def)
  then show "in_i64 n \<Longrightarrow> ?thesis"
    using True show_digits_digits [of "- n"]
    by (simp add: cast_text_int_def show_int_def takeWhile_digits in_i64_def)
next
  case False
  then obtain c ds where s: "show_digits n = c # ds"
    using show_digits_digits [of n] by (cases "show_digits n") auto
  then have c: "is_ascii_digit c" using False show_digits_head [of n c ds] by simp
  then have "c \<noteq> CHR ''-''" "c \<noteq> CHR ''+''" by force+
  moreover have "digits_value (takeWhile is_ascii_digit (c # ds)) = n"
    using False show_digits_digits [of n] s takeWhile_digits digits_value_show_digits linorder_not_less by metis
  ultimately show "in_i64 n \<Longrightarrow> ?thesis"
    using False c digit_not_sql_space [OF c]
    by (simp add: cast_text_int_def show_int_def s in_i64_def del: takeWhile.simps)
qed

lemma json_extract_at: "json_extract jt v k = extract_value jt (json_at v k)"
  by (cases "json_get v k") (simp_all add: json_extract_def json_at_def)

lemma repair_row_plain:
  assumes "message_row_ok n row" "mr_raw row = Some v" "plain_doc v"
  shows "repair_row json_text real_text row = Some row"
proof -
  have row: "row = message_row v" using assms by (simp add: message_row_ok_def)
  have chat: "unwrap_or (cast_int (extract_value json_text (json_at v ''chat_id''))) (mr_chat_id row) = mr_chat_id row"
  proof (cases "json_at v ''chat_id''")
    case (JStr s)
    then obtain n where n: "parse_i64 s = Some n" "s = json_id n"
      using assms(3) by (auto simp: plain_doc_def plain_member_def split: option.splits)
    then have "in_i64 n" by (intro parse_i64_in_range)
    then show ?thesis
      using JStr n by (simp add: row message_row_def cast_text_int_show_int json_id_def
          json_id_or_0_def parse_json_id_def)
  qed (use assms(3) in \<open>simp_all add: plain_doc_def plain_member_def\<close>)
  have created: "or_else (text_affinity real_text (extract_value json_text (json_at v ''created_at'')))
      (mr_created_at row) = mr_created_at row"
    using assms(3) by (cases "json_at v ''created_at''") (auto simp: plain_doc_def plain_member_def row message_row_def)
  have from_me: "(if equals_int (extract_value json_text (json_at v ''is_from_me'')) 1 then 1
      else if equals_int (extract_value json_text (json_at v ''is_from_me'')) 0 then 0
      else mr_is_from_me row) = mr_is_from_me row"
    using assms(3)
    by (cases "json_at v ''is_from_me''") (auto simp: plain_doc_def plain_member_def row message_row_def equals_int_def)
  have "project_columns json_text real_text v row = row"
    unfolding project_columns_def Let_def json_extract_at chat created from_me by simp
  then show ?thesis using assms(2) by (simp add: repair_row_def)
qed

text \<open>On such a cache the first repair has nothing to do.\<close>

lemma repair_message_projections_plain:
  assumes "cache_ok db" "plain_cache db"
  shows "repair_message_projections json_text real_text db = (Inr (), db)"
proof -
  have "map (\<lambda>kv. map_option (Pair (fst kv)) (repair_row json_text real_text (snd kv))) (messages db)
      = map Some (messages db)"
  proof (rule map_cong [OF refl])
    fix kv
    assume kv: "kv \<in> set (messages db)"
    then have ok: "message_row_ok (fst kv) (snd kv)" using cache_ok_rows [OF assms(1)] by blast
    then obtain v where v: "mr_raw (snd kv) = Some v"
      by (auto simp: message_row_ok_def split: option.splits)
    then have "plain_doc v" using assms(2) kv by (auto simp: plain_cache_def list_all_iff)
    then show "map_option (Pair (fst kv)) (repair_row json_text real_text (snd kv)) = Some kv"
      using repair_row_plain [OF ok v] by simp
  qed
  then have "those (map (\<lambda>kv. map_option (Pair (fst kv)) (repair_row json_text real_text (snd kv)))
      (messages db)) = Some (messages db)"
    by (simp only: those_map_Some)
  then show ?thesis by (simp add: repair_message_projections_def)
qed

lemma open_cache_ok:
  assumes "cache_ok db" "plain_cache db" "open_cache json_text real_text sha256 db = (r, db')"
  shows "cache_ok db' \<and> (r = Inr () \<or> r = Inl NoReturn)"
proof -
  let ?rest = "andthen (writes rebuild_identities) (\<lambda>_.
    andthen (repair_orphan_chats sha256) (\<lambda>_. repair_phone_sender_names))"
  have run: "?rest db = (r, db')"
    using assms(3) by (simp add: open_cache_def andthen_apply
        repair_message_projections_plain [OF assms(1,2)])
  have k: "keeps cache_ok ?rest"
    by (intro keeps_intros keeps_writes cache_ok_rebuild_identities cache_ok_repair_orphan_chats
        repair_phone_sender_names_ok)
  have f: "fails_in {NoReturn} cache_ok ?rest"
    by (intro keeps_intros keeps_writes cache_ok_rebuild_identities cache_ok_repair_orphan_chats
        fails_in_mono [OF repair_phone_sender_names_ok(2)]) simp_all
  have "r = Inl e \<Longrightarrow> e = NoReturn" for e
    using fails_inD [OF f assms(1), of e db'] run by simp
  then show ?thesis using keepsE [OF k assms(1) run] by (cases r) auto
qed

text \<open>The daemon's own messages keep the cache plain.\<close>

lemma plain_doc_cong:
  "(\<And>k. k \<noteq> ''sender_name'' \<Longrightarrow> json_at v k = json_at w k) \<Longrightarrow> plain_doc v = plain_doc w"
  by (simp add: plain_doc_def)

lemma plain_message_to_cache_json: "in_i64 k \<Longrightarrow> plain_doc (message_to_cache_json m n k)"
  by (simp add: plain_doc_def plain_member_def message_to_cache_json_def json_simps json_id_def
      parse_i64_show_int)

lemma merge_message_at:
  assumes "json_wf msg" "is_object msg"
  shows "json_at (merge_message existing msg) k = json_at msg k
    \<or> json_at (merge_message existing msg) k = (case existing of None \<Rightarrow> JNull | Some v \<Rightarrow> json_at v k)"
proof -
  obtain ob where "msg = JObj ob" using assms(2) by (rule is_objectE)
  then show ?thesis
    using merge_message_get [of ob existing k] assms(1)
    by (auto simp: json_at_def stored_members_at split: option.splits)
qed

lemma plain_merge:
  assumes "json_wf msg" "is_object msg" "plain_doc msg" "\<And>v. existing = Some v \<Longrightarrow> plain_doc v"
  shows "plain_doc (merge_message existing msg)"
proof -
  have "plain_member k (json_at (merge_message existing msg) k)"
    if k: "k \<in> {''chat_id'', ''created_at'', ''is_from_me''}" for k
    using merge_message_at [OF assms(1,2), of existing k]
  proof
    assume "json_at (merge_message existing msg) k = json_at msg k"
    then show ?thesis using assms(3) k by (auto simp: plain_doc_def)
  next
    assume "json_at (merge_message existing msg) k = (case existing of None \<Rightarrow> JNull | Some v \<Rightarrow> json_at v k)"
    then show ?thesis
      using assms(4) k by (cases existing) (auto simp: plain_doc_def plain_member_def [of _ JNull])
  qed
  then show ?thesis by (simp add: plain_doc_def)
qed

lemma plain_with_message:
  assumes "cache_ok db" "plain_cache db" "plain_doc v"
  shows "plain_cache (with_message v db)"
proof -
  have "kv_sorted (messages db)" using assms(1) by (simp add: cache_ok_def rows_ok_def)
  then show ?thesis
    using assms(2,3) by (auto simp: plain_cache_def with_message_def list_all_iff set_kv_insert)
qed

lemma plain_stored: "plain_cache db \<Longrightarrow> stored_message db n = Some v \<Longrightarrow> plain_doc v"
  by (cases "map_of (messages db) n")
     (force simp: stored_message_def plain_cache_def list_all_iff dest: map_of_SomeD)+

lemma apply_live_messages:
  assumes "cache_ok db" "json_wf msg" "apply_live_message msg db = (Inr a, db')"
  shows "messages db' = messages (with_message (merged_at db msg) db)"
  using assms(1,2) by (rule apply_live_message_runs) (use assms(3) in auto)

lemma plain_cache_messages: "messages db' = messages db \<Longrightarrow> plain_cache db' = plain_cache db"
  by (simp add: plain_cache_def)

lemma plain_apply_domain_message:
  assumes "cache_ok db" "plain_cache db" "apply_domain_message sha256 msg db = (Inr a, db')"
  shows "plain_cache db'"
  using assms(1,3)
proof (rule apply_domain_message_runs)
  fix k n db3 doc
  assume k: "in_i64 k" and ok3: "cache_ok db3" and doc: "json_wf doc" "is_object doc"
    "\<And>key. key \<noteq> ''sender_name'' \<Longrightarrow> json_at doc key = json_at (message_to_cache_json msg n k) key"
    and m: "messages db3 = messages db" and run: "apply_live_message doc db3 = (Inr a, db')"
  have p3: "plain_cache db3" using assms(2) m plain_cache_messages by blast
  have "plain_doc doc"
    using plain_doc_cong [of doc "message_to_cache_json msg n k"] doc(3) plain_message_to_cache_json [OF k]
    by blast
  then have "plain_doc (merged_at db3 doc)"
    unfolding merged_at_def using plain_merge [OF doc(1,2)] plain_stored [OF p3] by blast
  then have "plain_cache (with_message (merged_at db3 doc) db3)"
    using ok3 p3 by (intro plain_with_message)
  then show "plain_cache db'"
    using apply_live_messages [OF ok3 doc(1) run] plain_cache_messages by blast
qed

end
