(* ===== verification/Cache_Contract.thy ===== *)
theory Cache_Contract
  imports Cache_Repair
begin

text \<open>
  What the cache of \<^verbatim>\<open>sync/src/cache.rs\<close> promises to the client that fills it and to the socket
  that reads it: stable and distinct row ids, a message counted once, merges that lose nothing,
  timestamps that only move forward, listings in order, repairs that leave a sound database
  sound.  The concrete messages at the end of each part show that the hypotheses can hold.
\<close>

section \<open>A concrete delivery\<close>

definition demo_sha256 :: "byte list \<Rightarrow> byte list" where
  "demo_sha256 bs = [of_nat (length bs), 0, 0, 0, 0, 0, 0, 0]"

definition demo_message :: message where
  "demo_message =
     \<lparr> m_guid = MessageGuid ''first'', m_chat = ChatGuid ''iMessage;-;+1'', m_text = ''hi'',
       m_created_at = ''2023-11-14T22:13:20.000Z'', m_is_from_me = False,
       m_sender = Some \<lparr> h_address = ''+1'', h_service = None, h_name = Some ''Ann'' \<rparr>,
       m_attachments = [] \<rparr>"

definition demo_chat_doc :: json where
  "demo_chat_doc = JObj [(''guid'', JStr ''iMessage;-;+1''), (''id'', JStr ''7''),
     (''name'', JStr ''Ann''), (''unread_count'', JNum (NPos 2))]"

definition demo_message_doc :: json where
  "demo_message_doc = JObj [(''chat_id'', JStr ''7''), (''created_at'', JStr ''2024''),
     (''id'', JStr ''9''), (''sender_name'', JStr ''Ann'')]"

lemma demo_docs [simp]:
  "json_wf demo_chat_doc" "is_object demo_chat_doc" "json_wf demo_message_doc" "is_object demo_message_doc"
  by (simp_all add: demo_chat_doc_def demo_message_doc_def kv_sorted_def)

lemma demo_stable_id:
  "stable_id demo_sha256 (chat_guid_str (m_chat demo_message)) < i64_max - 1"
  "stable_id demo_sha256 (message_guid_str (m_guid demo_message)) < i64_max"
  by code_simp+

definition demo_db :: cache where
  "demo_db = snd (upsert_chat demo_chat_doc empty_cache)"

lemma demo_db_ok: "cache_ok demo_db"
  using cache_ok_upsert_chat [OF cache_ok_empty, of demo_chat_doc] by (simp add: demo_db_def)

lemma demo_db_facts:
  "row_id demo_chat_doc = 7" "row_id demo_message_doc = 9"
  "stored_chat demo_db 7 = Some demo_chat_doc" "stored_message demo_db 9 = None"
  "merged_at demo_db demo_message_doc = demo_message_doc"
  by code_simp+

lemma demo_live:
  obtains a db' where "apply_live_message demo_message_doc demo_db = (Inr a, db')"
  using cache_ok_apply_live [OF demo_db_ok, of demo_message_doc] by (metis demo_docs(3,4) prod.collapse)

section \<open>Row ids\<close>

text \<open>the id handed out for a guid is an \<^verbatim>\<open>i64\<close>, belongs to that guid in the registry, is
  handed out again for it, and the registry's unique constraints keep holding.\<close>

theorem id_for_guid_invertible:
  assumes "registry_ok db" "id_for_guid sha256 g db = (Inr n, db')"
  shows "guid_of_identity db' n = Some g \<and> id_for_guid sha256 g db' = (Inr n, db')
    \<and> in_i64 n \<and> registry_ok db'"
  using assms registry.alloc_owner registry.alloc_hit registry.alloc_known registry.alloc_inv
    id_for_guid_in_i64 by metis

theorem id_for_guid_invertible_witness:
  "\<exists>n db'. id_for_guid demo_sha256 ''g'' empty_cache = (Inr n, db') \<and> guid_of_identity db' n = Some ''g''"
proof -
  have "id_for_guid demo_sha256 ''g'' empty_cache = (Inr 1, empty_cache\<lparr>identities := [(''g'', 1)]\<rparr>)"
    by code_simp
  moreover have "registry_ok empty_cache" using cache_ok_empty by (simp add: cache_ok_def)
  ultimately show ?thesis using id_for_guid_invertible by blast
qed

text \<open>C8: over any run of allocations the ids handed out are distinct exactly when the guids are,
  also when their hashes collide.\<close>

theorem ids_distinct_iff_guids_distinct:
  assumes "registry_ok db" "ids_for_guids sha256 gs db = (Inr ns, db')"
  shows "distinct ns \<longleftrightarrow> distinct gs"
  using registry.alloc_all_injective assms unfolding ids_for_guids_alloc_all by blast

theorem ids_distinct_iff_guids_distinct_witness:
  "\<exists>ns db'. ids_for_guids demo_sha256 [''a'', ''b'', ''c''] empty_cache = (Inr ns, db') \<and> distinct ns"
proof -
  have "fst (ids_for_guids demo_sha256 [''a'', ''b'', ''c''] empty_cache) = Inr [1, 2, 3]"
    by code_simp
  then obtain db' where "ids_for_guids demo_sha256 [''a'', ''b'', ''c''] empty_cache = (Inr [1, 2, 3], db')"
    by (metis prod.collapse)
  moreover have "registry_ok empty_cache" using cache_ok_empty by (simp add: cache_ok_def)
  ultimately show ?thesis using ids_distinct_iff_guids_distinct by force
qed

text \<open>C11: the allocation loop returns unless the guid is new, its hash is taken and the largest
  \<^verbatim>\<open>i64\<close> is taken too; in that case no number of rounds lets it return.\<close>

theorem id_for_guid_returns_iff:
  assumes "registry_ok db"
  shows "((\<exists>n. fst (id_for_guid sha256 g db) = Inr n) \<longleftrightarrow> \<not> id_stuck g (stable_id sha256 g) db)
    \<and> (id_stuck g (stable_id sha256 g) db \<longrightarrow> id_loop fuel g (stable_id sha256 g) db = None)"
proof -
  have "id_loop fuel g (stable_id sha256 g) db = None" if "id_stuck g (stable_id sha256 g) db"
    using that id_loop_stuck [OF assms] by (simp add: id_stuck_def)
  moreover have "(\<exists>n. fst (id_for_guid sha256 g db) = Inr n) \<longleftrightarrow> \<not> id_stuck g (stable_id sha256 g) db"
  proof (cases "id_of db g")
    case (Some n)
    then show ?thesis by (simp add: id_for_guid_hit id_stuck_def)
  next
    case None
    then show ?thesis by (simp add: id_for_guid_miss [OF assms] Let_def)
  qed
  ultimately show ?thesis by blast
qed

theorem id_for_guid_returns_iff_witness:
  "\<not> (\<exists>n. fst (id_for_guid demo_sha256 ''b''
     (empty_cache\<lparr>identities := [(''a'', 1), (''z'', i64_max)]\<rparr>)) = Inr n)"
proof -
  let ?db = "empty_cache\<lparr>identities := [(''a'', 1), (''z'', i64_max)]\<rparr>"
  have "registry_ok ?db" by (simp add: registry_ok_def i64_max_def in_i64_def i64_min_def)
  moreover have "id_stuck ''b'' (stable_id demo_sha256 ''b'') ?db" by code_simp
  ultimately show ?thesis using id_for_guid_returns_iff by blast
qed

section \<open>Deliveries\<close>

text \<open>C4: delivering a message again changes nothing: the second delivery is answered like the
  first, except that it is not new, and leaves the database exactly as it was.\<close>

theorem delivery_is_idempotent:
  assumes "cache_ok db" "apply_domain_message sha256 msg db = (Inr a, db')"
  shows "apply_domain_message sha256 msg db' = (Inr (a\<lparr>ap_is_new := False\<rparr>), db')"
  using assms by (rule apply_domain_message_replay)

theorem delivery_is_idempotent_witness:
  "\<exists>a db'. apply_domain_message demo_sha256 demo_message empty_cache = (Inr a, db')
     \<and> apply_domain_message demo_sha256 demo_message db' = (Inr (a\<lparr>ap_is_new := False\<rparr>), db')"
proof -
  have "registry_room empty_cache" by (simp add: registry_room_def empty_cache_def)
  then obtain a db' where "apply_domain_message demo_sha256 demo_message empty_cache = (Inr a, db')"
    using apply_domain_message_succeeds [OF cache_ok_empty _ demo_stable_id] by blast
  with cache_ok_empty show ?thesis using delivery_is_idempotent by blast
qed

text \<open>C3: a live message adds one to the unread count of its chat when it is new and not ours,
  and nothing otherwise (saturating at the largest \<^verbatim>\<open>i64\<close>); it is new when no message has its
  id; no other chat row changes.\<close>

theorem live_message_counts_once:
  assumes "cache_ok db" "json_wf msg" "is_object msg" "apply_live_message msg db = (Inr a, db')"
    "map_of (chats db) (chat_id_of (merged_at db msg)) = Some row"
  shows "(\<exists>row'. map_of (chats db') (chat_id_of (merged_at db msg)) = Some row'
        \<and> cr_unread_count row' =
            (if ap_is_new a \<and> \<not> is_from_me_of (merged_at db msg)
             then i64_saturating_add (cr_unread_count row) 1 else cr_unread_count row))
    \<and> (ap_is_new a \<longleftrightarrow> map_of (messages db) (row_id msg) = None)
    \<and> (\<forall>n. n \<noteq> chat_id_of (merged_at db msg) \<longrightarrow> map_of (chats db') n = map_of (chats db) n)"
  using assms(1,2)
proof (cases rule: apply_live_message_runs)
  case unknown
  then show ?thesis using assms stored_chat_None by fastforce
next
  case (known c u c' row2)
  have "row2 = row" "cr_unread_count row = unread_of c"
    using known(1,2) assms(1,5) by (auto simp: stored_chat_def elim!: cache_ok_chat)
  then show ?thesis
    using known(11,3) assms(4) stored_message_None [OF assms(1)]
    by (auto simp: live_chat_row_def bump_unread_def)
qed

theorem live_message_counts_once_witness:
  "\<exists>a db' row'. apply_live_message demo_message_doc demo_db = (Inr a, db')
     \<and> map_of (chats db') 7 = Some row' \<and> cr_unread_count row' = 3"
proof -
  obtain a db' where run: "apply_live_message demo_message_doc demo_db = (Inr a, db')" by (rule demo_live)
  obtain row where row: "map_of (chats demo_db) 7 = Some row" "cr_raw row = Some demo_chat_doc"
    using demo_db_facts(3) by (auto simp: stored_chat_def bind_eq_Some_conv)
  have k: "chat_id_of (merged_at demo_db demo_message_doc) = 7"
    "\<not> is_from_me_of (merged_at demo_db demo_message_doc)"
    unfolding demo_db_facts(5) by code_simp+
  have "cr_unread_count row = unread_of demo_chat_doc"
    using cache_ok_chat [OF demo_db_ok row(1)] row(2) by fastforce
  moreover have "unread_of demo_chat_doc = 2" by code_simp
  moreover have "map_of (messages demo_db) (row_id demo_message_doc) = None"
    using demo_db_facts stored_message_None [OF demo_db_ok] by simp
  ultimately show ?thesis
    using live_message_counts_once [OF demo_db_ok demo_docs(3,4) run] row(1) run k
    by (auto simp: i64_saturating_add_def i64_max_def i64_min_def)
qed

text \<open>a failing live message leaves the database as it was, whatever state it was in.\<close>

theorem live_message_is_atomic:
  assumes "apply_live_message msg db = (Inl e, db')"
  shows "db' = db"
  using assms unfolding apply_live_message_def by (rule in_transaction_atomic)

theorem live_message_is_atomic_witness:
  "snd (apply_live_message (JObj [(''chat_id'', JStr ''7'')])
      (empty_cache\<lparr>chats := [(7, (new_chat_row JNull)\<lparr>cr_raw := None\<rparr>)]\<rparr>)) =
   empty_cache\<lparr>chats := [(7, (new_chat_row JNull)\<lparr>cr_raw := None\<rparr>)]\<rparr>"
proof -
  let ?db = "empty_cache\<lparr>chats := [(7, (new_chat_row JNull)\<lparr>cr_raw := None\<rparr>)]\<rparr>"
  have "fst (apply_live_message (JObj [(''chat_id'', JStr ''7'')]) ?db) = Inl BadJson"
    by code_simp
  then show ?thesis using live_message_is_atomic by (metis prod.collapse)
qed

subsection \<open>The columns of a chat row that only its first insert binds\<close>

definition bound_columns :: "chat_row \<Rightarrow> string option \<times> string option \<times> string option \<times> json" where
  "bound_columns row = (cr_guid row, cr_identifier row, cr_service row, cr_participants row)"

definition stub_columns :: "message \<Rightarrow> string option \<times> string option \<times> string option \<times> json" where
  "stub_columns msg =
     (Some (chat_guid_str (m_chat msg)),
      Some (unwrap_or (map_option h_address (m_sender msg)) (chat_guid_str (m_chat msg))), None,
      JArr (case m_sender msg of None \<Rightarrow> [] | Some h \<Rightarrow> [JStr (h_address h)]))"

lemma bound_columns_live: "bound_columns (live_chat_row u c row) = bound_columns row"
  by (simp add: bound_columns_def live_chat_row_def)

lemma id_for_guid_same_chats: "cache_ok db \<Longrightarrow> id_for_guid sha256 g db = (r, db') \<Longrightarrow> chats db' = chats db"
  by (auto simp: cache_ok_def elim!: id_for_guid_cases)

lemma id_of_after_id_for_guid:
  "cache_ok db \<Longrightarrow> id_for_guid sha256 g db = (r, db') \<Longrightarrow> id_of db h = Some m \<Longrightarrow> id_of db' h = Some m"
  by (auto simp: cache_ok_def id_of_insert_mono elim!: id_for_guid_cases)

lemma ensure_chat_columns:
  assumes "cache_ok db" "id_of db (chat_guid_str (m_chat msg)) = Some k" "ensure_chat sha256 msg k db = (r, db')"
  shows "map_option bound_columns (map_of (chats db') x) =
    (if x = k \<and> map_of (chats db) k = None then Some (stub_columns msg)
     else map_option bound_columns (map_of (chats db) x))"
proof (cases "map_of (chats db) k")
  case None
  let ?stub = "(chat_stub_from_message msg)\<lparr>c_unread_count := 0\<rparr>"
  have k: "in_i64 k" using assms(1,2) by (auto simp: cache_ok_def registry_ok_def id_of_def dest: map_of_SomeD)
  have guid: "c_guid ?stub = m_chat msg" by (simp add: chat_stub_from_message_def chat_stub_def)
  have "chats db' = kv_insert k (new_chat_row (chat_to_cache_json ?stub k)) (chats db)"
    using assms(3) None k id_for_guid_hit [OF assms(2), of sha256]
    by (auto simp: ensure_chat_def andthen_apply upsert_domain_chat_def guid upsert_chat_def Let_def store_chat_def
        register_guid_def split: option.splits)
  moreover have "bound_columns (new_chat_row (chat_to_cache_json ?stub k)) = stub_columns msg"
    by (simp add: bound_columns_def stub_columns_def new_chat_row_def chat_to_cache_json_def chat_stub_from_message_def
        chat_stub_def Let_def json_simps split: option.splits)
  ultimately show ?thesis using None by simp
qed (use assms(3) in \<open>simp add: ensure_chat_def andthen_apply\<close>)

lemma deliver_columns:
  assumes "cache_ok db" "deliver sha256 msg k n db = (r, db')"
  shows "map_option bound_columns (map_of (chats db') x) = map_option bound_columns (map_of (chats db) x)
    \<and> id_of db' = id_of db"
proof -
  obtain doc where doc: "json_wf doc" "deliver sha256 msg k n db = apply_live_message doc db"
    by (rule deliver_runs [OF assms(1), of k msg n sha256]) blast
  then have run: "apply_live_message doc db = (r, db')" using assms(2) by simp
  from assms(1) doc(1) show ?thesis
  proof (cases rule: apply_live_message_runs)
    case unknown
    then show ?thesis using run apply_live_id_of [OF assms(1) doc(1)] by (auto simp: with_message_def)
  next
    case (known c u c' row)
    then show ?thesis using run apply_live_id_of [OF assms(1) doc(1)] by (auto simp: bound_columns_live with_message_def)
  qed
qed

lemma delivery_columns:
  assumes "cache_ok db" "apply_domain_message sha256 msg db = (r, db')"
  shows "map_option bound_columns (map_of (chats db') x) = map_option bound_columns (map_of (chats db) x)
    \<or> map_of (chats db) x = None \<and> id_of db' (chat_guid_str (m_chat msg)) = Some x
        \<and> map_option bound_columns (map_of (chats db') x) = Some (stub_columns msg)"
proof -
  obtain r1 db1 where 1: "id_for_guid sha256 (chat_guid_str (m_chat msg)) db = (r1, db1)" by fastforce
  note chats1 = id_for_guid_same_chats [OF assms(1) 1]
  show ?thesis
  proof (cases r1)
    case Inl
    then show ?thesis using assms(2) 1 chats1 by (simp add: apply_domain_message_steps andthen_apply)
  next
    case (Inr k)
    have ok1: "cache_ok db1" using cache_ok_id_for_guid assms(1) 1 by (rule keepsE)
    have known1: "id_of db1 (chat_guid_str (m_chat msg)) = Some k"
      using registry.alloc_known [of db sha256] assms(1) 1 Inr unfolding cache_ok_def by blast
    obtain db2 where 2: "ensure_chat sha256 msg k db1 = (Inr (), db2)" "cache_ok db2"
        "\<And>h m. id_of db1 h = Some m \<Longrightarrow> id_of db2 h = Some m"
      by (rule ensure_chat_runs [OF ok1 known1]) blast
    obtain r3 db3 where 3: "id_for_guid sha256 (message_guid_str (m_guid msg)) db2 = (r3, db3)" by fastforce
    note ok3 = keepsE [OF cache_ok_id_for_guid 2(2) 3] and known3 = id_of_after_id_for_guid [OF 2(2) 3 2(3) [OF known1]]
    have "map_option bound_columns (map_of (chats db') x) = map_option bound_columns (map_of (chats db3) x)
        \<and> id_of db' (chat_guid_str (m_chat msg)) = Some k"
      using assms(2) 1 2(1) 3 Inr known3 deliver_columns [OF ok3]
      by (cases r3) (auto simp: apply_domain_message_steps andthen_apply split: prod.splits)
    then show ?thesis
      using ensure_chat_columns [OF ok1 known1 2(1), of x] chats1 id_for_guid_same_chats [OF 2(2) 3] by auto
  qed
qed

lemma delivery_keeps_columns:
  assumes "cache_ok db" "apply_domain_message sha256 msg db = (r, db')" "map_of (chats db) n = Some row"
  shows "\<exists>row'. map_of (chats db') n = Some row' \<and> bound_columns row' = bound_columns row"
  using delivery_columns [OF assms(1,2), of n] assms(3) by auto

lemma delivery_binds_columns:
  assumes "cache_ok db" "apply_domain_message sha256 msg db = (r, db')"
    and "map_of (chats db) n = None \<and> map_of (chats db') n = Some row"
  shows "id_of db' (chat_guid_str (m_chat msg)) = Some n \<and> bound_columns row = stub_columns msg"
  using delivery_columns [OF assms(1,2), of n] assms(3) by auto

text \<open>C1: a delivery keeps the database sound: the row of every message is the projection of its document, the unread
  count, time and name of every chat row are those of its document, and the ids and guids are registered one to
  one.  No chat row is lost, and the columns that only the first insert binds keep their values; a chat row that is
  new is the one of the message's guid, and has the guid, and the address of its sender as identifier and
  participant.  On a sound database a delivery never meets unreadable JSON and never panics, and while ids remain below
  the top of the range it succeeds.\<close>

theorem delivery_is_safe:
  assumes "cache_ok db" "apply_domain_message sha256 msg db = (r, db')"
  shows "cache_ok db' \<and> (\<forall>e. r = Inl e \<longrightarrow> e = NoReturn)
    \<and> (registry_room db \<and> stable_id sha256 (chat_guid_str (m_chat msg)) < i64_max - 1
         \<and> stable_id sha256 (message_guid_str (m_guid msg)) < i64_max \<longrightarrow> (\<exists>a. r = Inr a))
    \<and> (\<forall>n row. map_of (chats db) n = Some row \<longrightarrow> (\<exists>row'. map_of (chats db') n = Some row'
         \<and> cr_guid row' = cr_guid row \<and> cr_identifier row' = cr_identifier row \<and> cr_service row' = cr_service row
         \<and> cr_participants row' = cr_participants row))
    \<and> (\<forall>n row'. map_of (chats db) n = None \<and> map_of (chats db') n = Some row' \<longrightarrow>
         id_of db' (chat_guid_str (m_chat msg)) = Some n \<and> cr_guid row' = Some (chat_guid_str (m_chat msg))
         \<and> cr_identifier row' = Some (unwrap_or (map_option h_address (m_sender msg)) (chat_guid_str (m_chat msg)))
         \<and> cr_service row' = None
         \<and> cr_participants row' = JArr (case m_sender msg of None \<Rightarrow> [] | Some h \<Rightarrow> [JStr (h_address h)]))"
proof (intro conjI allI impI)
  show "cache_ok db'" using cache_ok_apply_domain_message assms by (rule keepsE)
  show "e = NoReturn" if "r = Inl e" for e
    using fails_inD [OF fails_apply_domain_message assms(1)] assms(2) that by blast
  show "\<exists>a. r = Inr a" if "registry_room db \<and> stable_id sha256 (chat_guid_str (m_chat msg)) < i64_max - 1
         \<and> stable_id sha256 (message_guid_str (m_guid msg)) < i64_max"
    using apply_domain_message_succeeds [OF assms(1)] assms(2) that by (metis prod.inject)
next
  fix n row
  assume "map_of (chats db) n = Some row"
  from delivery_keeps_columns [OF assms this] show "\<exists>row'. map_of (chats db') n = Some row'
      \<and> cr_guid row' = cr_guid row \<and> cr_identifier row' = cr_identifier row \<and> cr_service row' = cr_service row
      \<and> cr_participants row' = cr_participants row"
    by (simp add: bound_columns_def)
qed (use delivery_binds_columns [OF assms] in \<open>simp_all add: bound_columns_def stub_columns_def\<close>)

theorem delivery_is_safe_witness:
  "\<exists>a db' n row. apply_domain_message demo_sha256 demo_message empty_cache = (Inr a, db') \<and> cache_ok db'
     \<and> map_of (chats db') n = Some row \<and> cr_guid row = Some (chat_guid_str (m_chat demo_message))"
proof -
  have "registry_room empty_cache" by (simp add: registry_room_def empty_cache_def)
  then obtain a db' where run: "apply_domain_message demo_sha256 demo_message empty_cache = (Inr a, db')" "cache_ok db'"
    using delivery_is_safe [OF cache_ok_empty, of demo_sha256 demo_message] demo_stable_id by (metis prod.collapse)
  have "chats (snd (apply_domain_message demo_sha256 demo_message empty_cache)) \<noteq> []" by code_simp
  then obtain n row where "(n, row) \<in> set (chats db')" using run(1) by (cases "chats db'") auto
  then obtain row where "map_of (chats db') n = Some row" using weak_map_of_SomeI by metis
  then show ?thesis using delivery_is_safe [OF cache_ok_empty run(1)] run by (auto simp: empty_cache_def)
qed

text \<open>the timestamp of the chat of a live message never moves back, and is never before the
  message.\<close>

theorem live_message_timestamp_monotone:
  assumes "cache_ok db" "json_wf msg" "is_object msg" "apply_live_message msg db = (Inr a, db')"
    "map_of (chats db) (chat_id_of (merged_at db msg)) = Some row"
    "map_of (chats db') (chat_id_of (merged_at db msg)) = Some row'"
  shows "sql_of (cr_last_message_at row) \<le> sql_of (cr_last_message_at row')
    \<and> sql_of (as_str (json_at (merged_at db msg) ''created_at'')) \<le> sql_of (cr_last_message_at row')"
  using assms(1,2)
proof (cases rule: apply_live_message_runs)
  case unknown
  then show ?thesis using assms stored_chat_None by fastforce
next
  case (known c u c' row2)
  have "cr_last_message_at row = as_str (json_at c ''last_message_at'')"
    using known(1) assms(1,5) by (auto simp: stored_chat_def elim!: cache_ok_chat)
  moreover have "cr_last_message_at row' = as_str (json_at c' ''last_message_at'')"
    using known(11) assms(4,6) by (auto simp: live_chat_row_def)
  ultimately show ?thesis
    using known(10) by (auto simp: later_timestamp_def sql_of_def split: option.splits)
qed

theorem live_message_timestamp_monotone_witness:
  "\<exists>a db' row'. apply_live_message demo_message_doc demo_db = (Inr a, db')
     \<and> map_of (chats db') 7 = Some row' \<and> SqlText ''2024'' \<le> sql_of (cr_last_message_at row')"
proof -
  obtain a db' where run: "apply_live_message demo_message_doc demo_db = (Inr a, db')" by (rule demo_live)
  obtain row where row: "map_of (chats demo_db) 7 = Some row"
    using demo_db_facts(3) by (auto simp: stored_chat_def bind_eq_Some_conv)
  obtain c' where c': "stored_chat db' 7 = Some c'"
    by (rule apply_live_stored_chat [OF demo_db_ok demo_docs(3) run demo_db_facts(3)]) blast
  then obtain row' where row': "map_of (chats db') 7 = Some row'"
    by (auto simp: stored_chat_def bind_eq_Some_conv)
  have k: "chat_id_of (merged_at demo_db demo_message_doc) = 7"
    "as_str (json_at (merged_at demo_db demo_message_doc) ''created_at'') = Some ''2024''"
    unfolding demo_db_facts(5) by code_simp+
  have "sql_of (Some ''2024'') \<le> sql_of (cr_last_message_at row')"
    using live_message_timestamp_monotone [OF demo_db_ok demo_docs(3,4) run] row row' k by simp
  then show ?thesis using run row' by (auto simp: sql_of_def)
qed

section \<open>Merging two versions of a message\<close>

text \<open>the loop over the incoming members computes the merge member by member: a stored member
  is replaced exactly when the incoming one is present and not skipped.\<close>

theorem merge_message_by_member:
  assumes "json_wf (JObj ob)"
  shows "json_get (merge_message existing (JObj ob)) k =
    (let stored = Option.bind existing (\<lambda>v. json_get v k) in
     case map_of ob k of
       None \<Rightarrow> stored
     | Some v \<Rightarrow> if merge_skips k v (stored_members existing) then stored else Some v)"
  using merge_message_get [OF assms] by (simp add: stored_members_at Let_def split: option.split)

theorem merge_message_by_member_witness:
  "json_get (merge_message (Some demo_message_doc) (JObj [(''chat_id'', JStr ''0'')])) ''chat_id''
     = Some (JStr ''7'')"
proof -
  have "json_wf (JObj [(''chat_id'', JStr ''0'')])" by (simp add: kv_sorted_def)
  moreover have "merge_skips ''chat_id'' (JStr ''0'') (stored_members (Some demo_message_doc))"
    by code_simp
  ultimately show ?thesis
    using merge_message_by_member [of "[(''chat_id'', JStr ''0'')]" "Some demo_message_doc" "''chat_id''"]
    by (simp add: demo_message_doc_def)
qed

definition person_sender :: "json \<Rightarrow> bool" where
  "person_sender v = is_person_name (unwrap_or (as_str (json_at v ''sender_name'')) [])"

text \<open>C5: a merge never loses what was stored: no member disappears, a known chat stays known, a
  timestamp stays, and a person's name is only replaced by a person's name.\<close>

theorem merge_message_loses_nothing:
  assumes "json_wf msg" "is_object msg" "is_object stored"
  shows "(json_get stored k \<noteq> None \<longrightarrow> json_get (merge_message (Some stored) msg) k \<noteq> None)
    \<and> (chat_id_of stored \<noteq> 0 \<longrightarrow> chat_id_of (merge_message (Some stored) msg) \<noteq> 0)
    \<and> (as_str (json_at stored ''created_at'') \<notin> {None, Some []} \<longrightarrow>
         as_str (json_at (merge_message (Some stored) msg) ''created_at'') \<notin> {None, Some []})
    \<and> (person_sender stored \<longrightarrow> person_sender (merge_message (Some stored) msg))"
proof -
  obtain ob where msg: "msg = JObj ob" using assms(2) by (rule is_objectE)
  obtain ob0 where st: "stored = JObj ob0" using assms(3) by (rule is_objectE)
  have bind: "Option.bind (map_of ob0 ''sender_name'') as_str = as_str (unwrap_or (map_of ob0 ''sender_name'') JNull)"
    by (cases "map_of ob0 ''sender_name''") simp_all
  have members: "stored_members (Some stored) = ob0" by (simp add: stored_members_def st)
  have get: "json_get (merge_message (Some stored) msg) key = (case map_of ob key of
      None \<Rightarrow> map_of ob0 key
    | Some v \<Rightarrow> if merge_skips key v ob0 then map_of ob0 key else Some v)" for key
    using merge_message_get [of ob "Some stored" key] assms(1) unfolding msg members by simp
  show ?thesis
    by (intro conjI)
       (auto simp: get [unfolded st] st bind chat_id_of_def json_at_def person_sender_def merge_skips_def Let_def
         split: option.splits)
qed

theorem merge_message_loses_nothing_witness:
  "person_sender (merge_message (Some demo_message_doc)
     (JObj [(''id'', JStr ''9''), (''sender_name'', JStr ''+1555'')]))"
proof -
  let ?m = "JObj [(''id'', JStr ''9''), (''sender_name'', JStr ''+1555'')]"
  have "json_wf ?m" by (simp add: kv_sorted_def)
  moreover have "person_sender demo_message_doc" by code_simp
  ultimately show ?thesis
    using merge_message_loses_nothing [of ?m demo_message_doc] by simp
qed

section \<open>Chats\<close>

text \<open>storing a known chat again keeps its local unread count (in the column and in the
  document) and never replaces a person's name by a bare address; nothing fails, and no other
  chat row changes.\<close>

theorem upsert_chat_keeps_local_state:
  assumes "cache_ok db" "is_object c" "json_wf c" "stored_chat db (row_id c) = Some doc"
  shows "\<exists>doc' db'. upsert_chat c db = (Inr (), db') \<and> stored_chat db' (row_id c) = Some doc'
    \<and> unread_of doc' = unread_of doc
    \<and> map_option cr_unread_count (map_of (chats db') (row_id c)) = Some (unread_of doc)
    \<and> (is_person_name (unwrap_or (contact_or_name doc) []) \<longrightarrow>
         is_person_name (unwrap_or (contact_or_name doc') []))
    \<and> (\<forall>n. n \<noteq> row_id c \<longrightarrow> map_of (chats db') n = map_of (chats db) n)"
proof -
  obtain old where row: "map_of (chats db) (row_id c) = Some old" "cr_raw old = Some doc"
    using assms(4) by (auto simp: stored_chat_def bind_eq_Some_conv)
  then have old: "json_wf doc" "cr_unread_count old = unread_of doc"
    using cache_ok_chat [OF assms(1) row(1)] by auto
  obtain c' where c': "upsert_chat c db = (Inr (), register_guid c' (row_id c) (store_chat (row_id c) c' db))"
    "is_object c'" "is_person_name (unwrap_or (contact_or_name doc) []) \<Longrightarrow>
       is_person_name (unwrap_or (contact_or_name c') [])"
    by (rule upsert_chat_runs [OF assms(1-3)]) (use assms(4) in blast)
  have name: "contact_or_name (json_set_unread c' n) = contact_or_name c'" for n
    using c'(2) by (simp add: contact_or_name_def json_at_json_set_unread)
  have unread: "unread_of (json_set_unread c' (unread_of doc)) = unread_of doc"
    using c'(2) old(1) unread_of_in_i64 by (simp add: unread_of_def json_at_json_set_unread)
  have row': "map_of (chats (store_chat (row_id c) c' db)) (row_id c) = Some (conflict_chat_row c' old)"
    using row by (simp add: store_chat_def)
  have raw': "cr_raw (conflict_chat_row c' old) = Some (json_set_unread c' (unread_of doc))"
    by (simp add: conflict_chat_row_def old(2))
  have others: "n \<noteq> row_id c \<Longrightarrow> map_of (chats (store_chat (row_id c) c' db)) n = map_of (chats db) n" for n
    by (simp add: store_chat_def)
  show ?thesis
    by (rule exI [of _ "json_set_unread c' (unread_of doc)"],
        rule exI [of _ "register_guid c' (row_id c) (store_chat (row_id c) c' db)"])
       (use c' in \<open>simp add: stored_chat_def row' raw' name unread others,
          simp add: conflict_chat_row_def old(2)\<close>)
qed

theorem upsert_chat_keeps_local_state_witness:
  "\<exists>doc' db'. upsert_chat (JObj [(''id'', JStr ''7''), (''name'', JStr ''+1''), (''unread_count'', JNum (NPos 0))])
       demo_db = (Inr (), db') \<and> stored_chat db' 7 = Some doc' \<and> unread_of doc' = 2
     \<and> is_person_name (unwrap_or (contact_or_name doc') [])"
proof -
  let ?c = "JObj [(''id'', JStr ''7''), (''name'', JStr ''+1''), (''unread_count'', JNum (NPos 0))]"
  have "is_object ?c" "json_wf ?c" by (simp_all add: kv_sorted_def)
  moreover have "row_id ?c = 7" "unread_of demo_chat_doc = 2"
    "is_person_name (unwrap_or (contact_or_name demo_chat_doc) [])" by code_simp+
  ultimately show ?thesis
    using upsert_chat_keeps_local_state [OF demo_db_ok, of ?c demo_chat_doc] demo_db_facts(3) by auto
qed

text \<open>marking a chat read sets its count to zero in the column and in the document, changes
  no other member and no other row, and answers with that document; an unknown chat is answered
  with nothing and changes nothing.\<close>

theorem mark_read_zeroes:
  assumes "cache_ok db"
  shows "case stored_chat db n of
      None \<Rightarrow> mark_read n db = (Inr None, db)
    | Some doc \<Rightarrow> (\<exists>doc' db'. mark_read n db = (Inr (Some (stringify_row_ids doc')), db')
        \<and> stored_chat db' n = Some doc' \<and> unread_of doc' = 0
        \<and> map_option cr_unread_count (map_of (chats db') n) = Some 0
        \<and> (\<forall>k. k \<noteq> ''unread_count'' \<longrightarrow> json_at doc' k = json_at doc k)
        \<and> (\<forall>m. m \<noteq> n \<longrightarrow> map_of (chats db') m = map_of (chats db) m))"
  using assms
proof (cases rule: mark_read_runs [where n = n])
  case (some c c' row)
  have "in_i64 0" by (simp add: in_i64_def i64_max_def i64_min_def)
  then have "unread_of c' = 0" using some(6) by (simp add: unread_of_def)
  then show ?thesis
    unfolding some(2) option.case
    by (intro exI [of _ c'] exI [of _ "snd (mark_read n db)"]) (simp add: some(1,6,7) stored_chat_def)
qed simp

theorem mark_read_zeroes_witness:
  "\<exists>doc' db'. mark_read 7 demo_db = (Inr (Some (stringify_row_ids doc')), db') \<and> unread_of doc' = 0"
  using mark_read_zeroes [OF demo_db_ok, of 7] demo_db_facts(3) by auto

section \<open>Listings\<close>

definition doc_created :: "json \<Rightarrow> sql_text" where
  "doc_created v = sql_of (as_str (json_at v ''created_at''))"

definition matches :: "i64 \<Rightarrow> string option \<Rightarrow> json \<Rightarrow> bool" where
  "matches chat_id before v \<longleftrightarrow> chat_id_of v = chat_id
     \<and> (case before of None \<Rightarrow> True | Some b \<Rightarrow>
          (case as_str (json_at v ''created_at'') of None \<Rightarrow> False | Some t \<Rightarrow> t < b))"

lemma doc_created_stringify [simp]: "doc_created (stringify_row_ids v) = doc_created v"
  by (simp add: doc_created_def json_at_stringify_row_ids)

lemma stored_message_rows:
  assumes "cache_ok db"
  shows "r \<in> snd ` set (messages db) \<longleftrightarrow> (\<exists>n d. stored_message db n = Some d \<and> r = message_row d)"
proof
  assume "r \<in> snd ` set (messages db)"
  then obtain n where n: "(n, r) \<in> set (messages db)" by auto
  have "distinct (map fst (messages db))"
    using assms by (simp add: cache_ok_def rows_ok_def kv_sorted_distinct)
  then have "map_of (messages db) n = Some r" using n by simp
  then obtain v where "mr_raw r = Some v" "r = message_row v" using assms cache_ok_message by blast
  then show "\<exists>n d. stored_message db n = Some d \<and> r = message_row d"
    using \<open>map_of (messages db) n = Some r\<close>
    by (intro exI [of _ n] exI [of _ v]) (simp add: stored_message_def)
next
  assume "\<exists>n d. stored_message db n = Some d \<and> r = message_row d"
  then obtain n d where d: "stored_message db n = Some d" "r = message_row d" by blast
  then obtain row where row: "map_of (messages db) n = Some row" "mr_raw row = Some d"
    by (auto simp: stored_message_def bind_eq_Some_conv)
  obtain v where "mr_raw row = Some v" "row = message_row v" using assms row(1) by (rule cache_ok_message)
  then have "row = message_row d" using row(2) by simp
  then show "r \<in> snd ` set (messages db)" using row(1) d(2) by (force dest: map_of_SomeD)
qed

lemma message_row_columns:
  "mr_chat_id (message_row d) = chat_id_of d"
  "sql_of (mr_created_at (message_row d)) = doc_created d"
  "created_before before (message_row d) \<and> chat_id_of d = chat_id \<longleftrightarrow> matches chat_id before d"
proof -
  have c: "mr_created_at (message_row d) = as_str (json_at d ''created_at'')"
    "mr_chat_id (message_row d) = chat_id_of d"
    by (simp_all add: message_row_def chat_id_of_def)
  show "mr_chat_id (message_row d) = chat_id_of d"
    "sql_of (mr_created_at (message_row d)) = doc_created d"
    by (simp_all add: c doc_created_def)
  show "created_before before (message_row d) \<and> chat_id_of d = chat_id \<longleftrightarrow> matches chat_id before d"
    unfolding created_before_def matches_def c by blast
qed

text \<open>The rows a listing ranges over are the columns of the documents that match.\<close>

lemma listed_message_rows:
  assumes "cache_ok db"
  shows "(mr_chat_id r = chat_id \<and> created_before before r) \<and> r \<in> snd ` set (messages db)
    \<longleftrightarrow> (\<exists>n d. stored_message db n = Some d \<and> r = message_row d \<and> matches chat_id before d)"
proof -
  have "mr_chat_id (message_row d) = chat_id \<and> created_before before (message_row d)
      \<longleftrightarrow> matches chat_id before d" for d
    using message_row_columns(1) [of d] message_row_columns(3) [of before d chat_id] by auto
  then show ?thesis unfolding stored_message_rows [OF assms] by blast
qed

lemma stored_chat_rows:
  assumes "cache_ok db" "r \<in> snd ` set (chats db)"
  shows "\<exists>n d. stored_chat db n = Some d \<and> cr_raw r = Some d
    \<and> cr_last_message_at r = as_str (json_at d ''last_message_at'')"
proof -
  obtain n where n: "(n, r) \<in> set (chats db)" using assms(2) by auto
  have "distinct (map fst (chats db))"
    using assms(1) by (simp add: cache_ok_def rows_ok_def kv_sorted_distinct)
  then have get: "map_of (chats db) n = Some r" using n by simp
  then obtain d where "cr_raw r = Some d" "cr_last_message_at r = as_str (json_at d ''last_message_at'')"
    using assms(1) cache_ok_chat by metis
  with get show ?thesis by (intro exI [of _ n] exI [of _ d]) (simp add: stored_chat_def)
qed

text \<open>\<^verbatim>\<open>list_messages\<close> never fails on a sound database; it returns at most \<^verbatim>\<open>limit\<close> messages
  (all of them for a negative one), every one of the asked chat and before the bound, oldest
  first; and a matching message that is left out is no newer than any that is returned.\<close>

theorem list_messages_window:
  assumes "cache_ok db"
  shows "\<exists>vs. list_messages chat_id limit before db = Inr vs
    \<and> (0 \<le> limit \<longrightarrow> int (length vs) \<le> limit)
    \<and> sorted_wrt (\<lambda>a b. doc_created a \<le> doc_created b) vs
    \<and> (\<forall>v \<in> set vs. \<exists>n d. stored_message db n = Some d \<and> v = stringify_row_ids d \<and> matches chat_id before d)
    \<and> (\<forall>n d. stored_message db n = Some d \<and> matches chat_id before d \<longrightarrow>
         stringify_row_ids d \<in> set vs
         \<or> 0 \<le> limit \<and> int (length vs) = limit \<and> (\<forall>v \<in> set vs. doc_created d \<le> doc_created v))"
proof -
  let ?rows = "newest_first
    (filter (\<lambda>r. mr_chat_id r = chat_id \<and> created_before before r) (map snd (messages db)))"
  let ?doc = "stringify_row_ids \<circ> the \<circ> mr_raw"
  let ?vs = "rev (map ?doc (sql_limit limit ?rows))"
  have rows: "r \<in> set ?rows \<longleftrightarrow> (\<exists>n d. stored_message db n = Some d \<and> r = message_row d \<and> matches chat_id before d)"
    for r using listed_message_rows [OF assms] by (simp add: newest_first_def conj_commute)
  have sorted: "sorted_wrt (\<lambda>r r'. sql_of (mr_created_at r') \<le> sql_of (mr_created_at r)) ?rows"
    unfolding newest_first_def by (rule sorted_desc_order_desc_index)
  have key: "doc_created (?doc r) = sql_of (mr_created_at r)" if "r \<in> set ?rows" for r
    using that unfolding rows by (auto simp: message_row_columns)
  note window = listing_window [where doc = ?doc and dkey = doc_created and limit = limit, OF sorted key]
  have all: "\<exists>n d. stored_message db n = Some d \<and> v = stringify_row_ids d \<and> matches chat_id before d"
    if v: "v \<in> set ?vs" for v
  proof -
    obtain r where r: "r \<in> set ?rows" "v = ?doc r" using v set_sql_limit by fastforce
    then obtain n d where "stored_message db n = Some d" "r = message_row d" "matches chat_id before d"
      unfolding rows by blast
    then show ?thesis using r(2) by (intro exI [of _ n] exI [of _ d]) simp
  qed
  have rest: "stringify_row_ids d \<in> set ?vs
      \<or> 0 \<le> limit \<and> int (length ?vs) = limit \<and> (\<forall>v \<in> set ?vs. doc_created d \<le> doc_created v)"
    if d: "stored_message db n = Some d" "matches chat_id before d" for n d
  proof -
    have "message_row d \<in> set ?rows" unfolding rows using d by blast
    from window(3) [OF _ this] show ?thesis by simp
  qed
  show ?thesis
  proof (intro exI [of _ ?vs] conjI ballI allI impI)
    show "list_messages chat_id limit before db = Inr ?vs" by (rule list_messages_ok [OF assms])
    show "0 \<le> limit \<Longrightarrow> int (length ?vs) \<le> limit" using window(1) by simp
    show "sorted_wrt (\<lambda>a b. doc_created a \<le> doc_created b) ?vs"
      using window(2) by (simp add: sorted_wrt_rev)
  qed (use rest all in blast)+
qed

theorem list_messages_window_witness:
  "\<exists>vs. list_messages 7 (- 1) None (with_message demo_message_doc demo_db) = Inr vs
     \<and> stringify_row_ids demo_message_doc \<in> set vs"
proof -
  let ?db = "with_message demo_message_doc demo_db"
  have ok: "cache_ok ?db" using demo_db_ok by (simp add: cache_ok_with_message)
  have stored: "stored_message ?db 9 = Some demo_message_doc" by (simp add: demo_db_facts)
  have "matches 7 None demo_message_doc" by code_simp
  with stored show ?thesis
    using list_messages_window [OF ok, of 7 "- 1" None] by (elim exE conjE) (intro exI conjI, assumption, force)
qed

definition doc_last :: "json \<Rightarrow> sql_text" where
  "doc_last v = sql_of (as_str (json_at v ''last_message_at''))"

text \<open>\<^verbatim>\<open>list_chats\<close> never fails on a sound database; it returns at most \<^verbatim>\<open>limit\<close> chats, each
  one stored, most recent first; and a stored chat that is left out is no more recent than any
  that is returned.\<close>

theorem list_chats_window:
  assumes "cache_ok db"
  shows "\<exists>cs. list_chats limit db = Inr cs
    \<and> (0 \<le> limit \<longrightarrow> int (length cs) \<le> limit)
    \<and> sorted_wrt (\<lambda>a b. doc_last b \<le> doc_last a) cs
    \<and> (\<forall>c \<in> set cs. \<exists>n d. stored_chat db n = Some d \<and> c = stringify_row_ids d)
    \<and> (\<forall>n d. stored_chat db n = Some d \<longrightarrow>
         stringify_row_ids d \<in> set cs
         \<or> 0 \<le> limit \<and> int (length cs) = limit \<and> (\<forall>c \<in> set cs. doc_last d \<le> doc_last c))"
proof -
  let ?rows = "order_desc (\<lambda>r. sql_of (cr_last_message_at r)) (map snd (chats db))"
  let ?doc = "stringify_row_ids \<circ> the \<circ> cr_raw"
  let ?cs = "map ?doc (sql_limit limit ?rows)"
  have sorted: "sorted_wrt (\<lambda>r r'. sql_of (cr_last_message_at r') \<le> sql_of (cr_last_message_at r)) ?rows"
    by (rule sorted_desc_order_desc)
  have row: "\<exists>n d. stored_chat db n = Some d \<and> cr_raw r = Some d \<and> sql_of (cr_last_message_at r) = doc_last d"
    if "r \<in> set ?rows" for r
    using stored_chat_rows [OF assms] that by (simp add: doc_last_def) metis
  have key: "doc_last (?doc r) = sql_of (cr_last_message_at r)" if "r \<in> set ?rows" for r
    using row [OF that] by (auto simp: doc_last_def json_at_stringify_row_ids)
  note window = listing_window [where doc = ?doc and dkey = doc_last and limit = limit, OF sorted key]
  have all: "\<exists>n d. stored_chat db n = Some d \<and> c = stringify_row_ids d" if c: "c \<in> set ?cs" for c
  proof -
    obtain r where r: "r \<in> set ?rows" "c = ?doc r" using c set_sql_limit by fastforce
    obtain n d where "stored_chat db n = Some d" "cr_raw r = Some d" using row [OF r(1)] by blast
    then show ?thesis using r(2) by (intro exI [of _ n] exI [of _ d]) simp
  qed
  have rest: "stringify_row_ids d \<in> set ?cs
      \<or> 0 \<le> limit \<and> int (length ?cs) = limit \<and> (\<forall>c \<in> set ?cs. doc_last d \<le> doc_last c)"
    if d: "stored_chat db n = Some d" for n d
  proof -
    obtain r where "r \<in> set ?rows" "cr_raw r = Some d"
      using d by (force simp: stored_chat_def bind_eq_Some_conv dest: map_of_SomeD)
    then show ?thesis using window(3) [of r] by (simp add: doc_last_def json_at_stringify_row_ids)
  qed
  show ?thesis
  proof (intro exI [of _ ?cs] conjI ballI allI impI)
    show "list_chats limit db = Inr ?cs" by (rule list_chats_ok [OF assms])
    show "0 \<le> limit \<Longrightarrow> int (length ?cs) \<le> limit" using window(1) by simp
    show "sorted_wrt (\<lambda>a b. doc_last b \<le> doc_last a) ?cs" using window(2) by simp
  qed (use rest all in blast)+
qed

theorem list_chats_window_witness:
  "\<exists>cs. list_chats 1 demo_db = Inr cs \<and> length cs \<le> 1"
  using list_chats_window [OF demo_db_ok, of 1] by auto

section \<open>Repairs\<close>

text \<open>opening a sound cache of the daemon's own documents leaves a sound cache, without panic
  or unreadable JSON; and delivering a message keeps it such a cache, so it can be opened again.\<close>

theorem open_after_delivery_is_safe:
  assumes "cache_ok db" "plain_cache db" "apply_domain_message sha256 msg db = (Inr a, db1)"
    "open_cache json_text real_text sha256 db1 = (r, db2)"
  shows "cache_ok db1 \<and> plain_cache db1 \<and> cache_ok db2 \<and> (r = Inr () \<or> r = Inl NoReturn)"
proof -
  have 1: "cache_ok db1" using cache_ok_apply_domain_message assms(1,3) by (rule keepsE)
  moreover have 2: "plain_cache db1" using assms(1-3) by (rule plain_apply_domain_message)
  ultimately show ?thesis using open_cache_ok [OF 1 2 assms(4)] by blast
qed

theorem open_after_delivery_is_safe_witness:
  "\<exists>a db1. apply_domain_message demo_sha256 demo_message empty_cache = (Inr a, db1)
     \<and> cache_ok (snd (open_cache (\<lambda>_. []) (\<lambda>_. []) demo_sha256 db1))"
proof -
  have "registry_room empty_cache" "plain_cache empty_cache"
    by (simp_all add: registry_room_def plain_cache_def empty_cache_def)
  moreover then obtain a db1 where "apply_domain_message demo_sha256 demo_message empty_cache = (Inr a, db1)"
    using apply_domain_message_succeeds [OF cache_ok_empty _ demo_stable_id] by blast
  ultimately show ?thesis
    using open_after_delivery_is_safe [OF cache_ok_empty, of demo_sha256 demo_message a db1 "\<lambda>_. []" "\<lambda>_. []"]
    by (metis prod.collapse)
qed

text \<open>applying a contact book to a sound cache always succeeds and leaves it sound.\<close>

theorem apply_contact_book_is_safe:
  assumes "cache_ok db"
  shows "\<exists>n db'. apply_contact_book book db = (Inr n, db') \<and> cache_ok db'"
proof -
  obtain r db' where run: "apply_contact_book book db = (r, db')" by fastforce
  have k: "keeps cache_ok (apply_contact_book book)" "fails_in {} cache_ok (apply_contact_book book)"
    using apply_contact_book_ok by blast+
  have "cache_ok db'" using k(1) assms run by (rule keepsE)
  moreover have "r \<noteq> Inl e" for e using fails_inD [OF k(2) assms, of e db'] run by auto
  ultimately show ?thesis using run by (cases r) auto
qed

theorem apply_contact_book_is_safe_witness:
  "\<exists>n db'. apply_contact_book (book_record ''+1'' ''Ann'' empty_book) demo_db = (Inr n, db')"
  using apply_contact_book_is_safe [OF demo_db_ok] by blast

end
