(* ===== verification/Config.thy ===== *)
theory Config
  imports Domain
begin

text \<open>
  \<^verbatim>\<open>sync/src/config.rs\<close> and the URL handling around it: server URLs and their coercion from
  what a user types (\<^verbatim>\<open>coerce_server_url\<close> of \<^verbatim>\<open>sync/src/link/mod.rs\<close>), and the public URL of the
  webhook (\<^verbatim>\<open>hook_url\<close> of \<^verbatim>\<open>sync/src/webhook.rs\<close>).  The url crate is a parameter: the record
  \<open>url_lib\<close> of the functions the code calls on a parsed URL.
\<close>

record 'u url_lib =
  url_parse :: "string \<Rightarrow> 'u option"
  url_scheme :: "'u \<Rightarrow> string"
  url_host_str :: "'u \<Rightarrow> string option"
  url_as_str :: "'u \<Rightarrow> string"
  url_port :: "'u \<Rightarrow> u16 option"
  url_set_port :: "u16 \<Rightarrow> 'u \<Rightarrow> 'u"
  url_join :: "'u \<Rightarrow> string \<Rightarrow> 'u option"
  url_set_path :: "string \<Rightarrow> 'u \<Rightarrow> 'u"
  url_clear_query :: "'u \<Rightarrow> 'u"
  url_append_pair :: "string \<Rightarrow> string \<Rightarrow> 'u \<Rightarrow> 'u"

text \<open>The messages of \<^verbatim>\<open>anyhow\<close> errors are kept as text.\<close>

type_synonym message_text = string

section \<open>Server URLs\<close>

datatype 'u server_url = ServerUrl 'u

definition is_http :: "string \<Rightarrow> bool" where
  "is_http scheme \<longleftrightarrow> scheme = ''http'' \<or> scheme = ''https''"

definition server_url_parse :: "'u url_lib \<Rightarrow> string \<Rightarrow> message_text + 'u server_url" where
  "server_url_parse lib raw =
     (case url_parse lib (trim raw) of
        None \<Rightarrow> Inl ''server_url''
      | Some u \<Rightarrow>
          if \<not> is_http (url_scheme lib u)
          then Inl (''server_url must be http or https, not '' @ url_scheme lib u)
          else if url_host_str lib u = None then Inl ''server_url needs a host''
          else Inr (ServerUrl u))"

definition server_url_str :: "'u url_lib \<Rightarrow> 'u server_url \<Rightarrow> string" where
  "server_url_str lib s = (case s of ServerUrl u \<Rightarrow> trim_end_by (\<lambda>c. c = CHR ''/'') (url_as_str lib u))"

definition server_url_join :: "'u url_lib \<Rightarrow> 'u server_url \<Rightarrow> string \<Rightarrow> message_text + 'u" where
  "server_url_join lib s path =
     (case s of ServerUrl u \<Rightarrow>
        (case url_join lib u (trim_start_by (\<lambda>c. c = CHR ''/'') path) of
           None \<Rightarrow> Inl ''join server path'' | Some v \<Rightarrow> Inr v))"

definition BB_PORT :: u16 where "BB_PORT = 1234"

definition coerce_server_url :: "'u url_lib \<Rightarrow> string \<Rightarrow> message_text + 'u server_url" where
  "coerce_server_url lib raw0 =
     (let raw = trim raw0 in
      if raw = [] then Inl ''server_url is empty''
      else
        let added_scheme = \<not> str_contains raw ''://'';
            with_scheme = (if added_scheme then ''http://'' @ raw else raw)
        in case url_parse lib with_scheme of
            None \<Rightarrow> Inl ''server_url''
          | Some u \<Rightarrow>
              let u' = (if url_port lib u = None \<and> (added_scheme \<or> url_scheme lib u = ''http'')
                        then url_set_port lib BB_PORT u else u)
              in server_url_parse lib (url_as_str lib u'))"

section \<open>The webhook URL\<close>

definition DEFAULT_PORT :: u16 where "DEFAULT_PORT = 18792"

definition HOOK_PATH :: string where "HOOK_PATH = ''/imsg/hook''"

definition hook_url :: "'u url_lib \<Rightarrow> string \<Rightarrow> string \<Rightarrow> message_text + string" where
  "hook_url lib serve_origin token =
     (let origin = trim_end_by (\<lambda>c. c = CHR ''/'') (trim serve_origin) in
      if origin = [] then Inl ''serve URL is empty''
      else case url_parse lib origin of
          None \<Rightarrow> Inl ''serve URL''
        | Some u \<Rightarrow>
            if \<not> is_http (url_scheme lib u)
            then Inl (''serve URL must be http or https, not '' @ url_scheme lib u)
            else Inr (url_as_str lib
              (url_append_pair lib ''token'' token
                (url_clear_query lib
                  (url_set_path lib (trim_start_by (\<lambda>c. c = CHR ''/'') HOOK_PATH) u)))))"

section \<open>Facts\<close>

lemma server_url_parse_ok:
  "server_url_parse lib raw = Inr (ServerUrl u) \<longleftrightarrow>
     url_parse lib (trim raw) = Some u \<and> is_http (url_scheme lib u) \<and> url_host_str lib u \<noteq> None"
  by (auto simp: server_url_parse_def split: option.splits)

lemma server_url_parse_trim [simp]: "server_url_parse lib (trim raw) = server_url_parse lib raw"
  by (simp add: server_url_parse_def)

text \<open>Only http and https URLs with a host come out of the coercion.\<close>

lemma coerce_server_url_http:
  assumes "coerce_server_url lib raw = Inr (ServerUrl u)"
  shows "is_http (url_scheme lib u) \<and> url_host_str lib u \<noteq> None"
proof -
  obtain raw' where "server_url_parse lib raw' = Inr (ServerUrl u)"
    using assms by (auto simp: coerce_server_url_def Let_def split: if_splits option.splits)
  then show ?thesis by (simp add: server_url_parse_ok)
qed

end
