(* ===== verification/Webhook.thy ===== *)
theory Webhook
  imports Config
begin

text \<open>
  The webhook endpoint of \<^verbatim>\<open>sync/src/webhook.rs\<close>: what it reads from a delivery, the token
  comparison, the rate limit and the handler with its status codes.  axum's routing and
  extractors are outside; a request is what they hand to \<^verbatim>\<open>handle_hook\<close>, its body as a length
  together with what serde_json makes of it.  Instants are nanoseconds.
\<close>

section \<open>Reading a delivery\<close>

record hook_event =
  he_kind :: string
  he_message_guid :: "string option"

definition as_guid :: "json option \<Rightarrow> string option" where
  "as_guid v = opt_filter (\<lambda>s. s \<noteq> []) (map_option trim (Option.bind v as_str))"

definition extract_guid :: "json \<Rightarrow> string option" where
  "extract_guid body =
     (let data = unwrap_or (json_get body ''data'') body in
      or_else (or_else
        (as_guid (json_get data ''guid''))
        (as_guid (Option.bind (json_get data ''message'') (\<lambda>m. json_get m ''guid''))))
        (case Option.bind (json_get data ''messages'') as_array of
           Some (m # _) \<Rightarrow> as_guid (json_get m ''guid'')
         | _ \<Rightarrow> None))"

definition event_kind :: "json \<Rightarrow> string" where
  "event_kind body = trim (unwrap_or (Option.bind (json_get body ''type'') as_str) [])"

section \<open>The token\<close>

definition token_matches :: "string \<Rightarrow> string \<Rightarrow> bool" where
  "token_matches got want =
     (let a = utf8 got; b = utf8 want in
      if length a \<noteq> length b then False
      else fold (\<lambda>(x, y) acc. or acc (xor x y)) (zip a b) 0 = 0)"

section \<open>The rate limit\<close>

type_synonym instant = int

definition RATE_WINDOW :: int where "RATE_WINDOW = 10 * 1000000000"
definition RATE_MAX :: nat where "RATE_MAX = 40"
definition MAX_BODY :: nat where "MAX_BODY = 64 * 1024"

text \<open>The start of the current window and the requests let through in it.\<close>

type_synonym hits = "instant \<times> nat"

definition duration_since :: "instant \<Rightarrow> instant \<Rightarrow> int" where
  "duration_since now t = max 0 (now - t)"

definition rate_ok :: "instant \<Rightarrow> hits \<Rightarrow> bool \<times> hits" where
  "rate_ok now g =
     (if duration_since now (fst g) > RATE_WINDOW then (True, (now, 1))
      else if snd g \<ge> RATE_MAX then (False, g)
      else (True, (fst g, snd g + 1)))"

section \<open>The handler\<close>

datatype hook_status =
    NO_CONTENT | BAD_REQUEST | UNAUTHORIZED | METHOD_NOT_ALLOWED | PAYLOAD_TOO_LARGE
  | UNSUPPORTED_MEDIA_TYPE | TOO_MANY_REQUESTS | SERVICE_UNAVAILABLE

record hook_request =
  hr_is_post :: bool
  hr_token :: "string option"
  hr_content_type :: "string option"
  hr_len :: nat
  hr_json :: "json option"

text \<open>The queue is the channel to the session: at most \<open>hk_cap\<close> events, or no receiver.\<close>

record hook_state =
  hk_token :: string
  hk_hits :: hits
  hk_queue :: "hook_event list"
  hk_cap :: nat
  hk_open :: bool

definition try_send :: "hook_event \<Rightarrow> hook_state \<Rightarrow> bool \<times> hook_state" where
  "try_send ev s =
     (if hk_open s \<and> length (hk_queue s) < hk_cap s
      then (True, s\<lparr>hk_queue := hk_queue s @ [ev]\<rparr>) else (False, s))"

definition accept_hook :: "hook_request \<Rightarrow> hook_state \<Rightarrow> hook_status \<times> hook_state" where
  "accept_hook req s =
     (if hr_len req > MAX_BODY then (PAYLOAD_TOO_LARGE, s)
      else if \<not> str_contains (to_ascii_lowercase (unwrap_or (hr_content_type req) [])) ''json''
              \<and> hr_len req \<noteq> 0
      then (UNSUPPORTED_MEDIA_TYPE, s)
      else (case hr_json req of
          None \<Rightarrow> (BAD_REQUEST, s)
        | Some parsed \<Rightarrow>
            let kind = event_kind parsed in
            if kind = [] then (NO_CONTENT, s)
            else
              let guid = (if kind = ''new-message'' \<or> kind = ''updated-message''
                          then extract_guid parsed else None)
              in (case try_send \<lparr> he_kind = kind, he_message_guid = guid \<rparr> s of
                  (True, s') \<Rightarrow> (NO_CONTENT, s')
                | (False, s') \<Rightarrow> (SERVICE_UNAVAILABLE, s'))))"

definition handle_hook :: "instant \<Rightarrow> hook_request \<Rightarrow> hook_state \<Rightarrow> hook_status \<times> hook_state" where
  "handle_hook now req s =
     (if \<not> hr_is_post req then (METHOD_NOT_ALLOWED, s)
      else if \<not> token_matches (unwrap_or (hr_token req) []) (hk_token s) then (UNAUTHORIZED, s)
      else (case rate_ok now (hk_hits s) of
          (False, g) \<Rightarrow> (TOO_MANY_REQUESTS, s\<lparr>hk_hits := g\<rparr>)
        | (True, g) \<Rightarrow> accept_hook req (s\<lparr>hk_hits := g\<rparr>)))"

text \<open>\<^verbatim>\<open>guess_serve_origin\<close>: the DNS name in the answer of \<^verbatim>\<open>tailscale status --json\<close>, when the
  command ran and its output is JSON.\<close>

definition guess_serve_origin :: "json option \<Rightarrow> string option" where
  "guess_serve_origin tailscale =
     (case Option.bind tailscale (\<lambda>v.
           Option.bind (json_get v ''Self'') (\<lambda>s. Option.bind (json_get s ''DNSName'') as_str)) of
        None \<Rightarrow> None
      | Some raw \<Rightarrow>
          let dns = trim_end_by (\<lambda>c. c = CHR ''.'') (trim raw) in
          if dns = [] then None else Some (''https://'' @ dns))"

section \<open>Facts\<close>

lemma or_xor_zero: "or acc (xor x y) = (0 :: 'a::len word) \<longleftrightarrow> acc = 0 \<and> x = y"
proof
  assume z: "or acc (xor x y) = 0"
  have b: "\<not> bit acc n \<and> (bit x n \<longleftrightarrow> bit y n)" if "n < LENGTH('a)" for n
    using arg_cong [OF z, of "\<lambda>w. bit w n"] that by (auto simp: bit_or_iff bit_xor_iff)
  show "acc = 0 \<and> x = y"
    using b by (auto intro!: bit_word_eqI)
qed simp

lemma fold_or_zero:
  "fold (\<lambda>(x, y) acc. or acc (xor x y)) xys acc = (0 :: 'a::len word)
     \<longleftrightarrow> acc = 0 \<and> list_all (\<lambda>(x, y). x = y) xys"
proof (induction xys arbitrary: acc)
  case (Cons xy xys)
  obtain x y where xy: "xy = (x, y)" by (cases xy)
  show ?case using Cons.IH [of "or acc (xor x y)"] xy or_xor_zero [of acc x y] by auto
qed simp

lemma list_all_zip_eq: "length xs = length ys \<Longrightarrow> list_all (\<lambda>(x, y). x = y) (zip xs ys) \<longleftrightarrow> xs = ys"
  by (induction xs ys rule: list_induct2) auto

text \<open>The constant-time comparison accepts exactly the configured token.\<close>

lemma token_matches_eq: "token_matches got want \<longleftrightarrow> got = want"
proof (cases "length (utf8 got) = length (utf8 want)")
  case True
  then show ?thesis
    by (simp add: token_matches_def Let_def fold_or_zero list_all_zip_eq)
next
  case False
  then show ?thesis by (auto simp: token_matches_def Let_def)
qed

text \<open>A run of deliveries, each with the instant it is handled at.\<close>

fun serve_hooks :: "(instant \<times> hook_request) list \<Rightarrow> hook_state \<Rightarrow> hook_status list \<times> hook_state" where
  "serve_hooks [] s = ([], s)"
| "serve_hooks ((t, req) # reqs) s =
     (let (st, s1) = handle_hook t req s; (sts, s2) = serve_hooks reqs s1 in (st # sts, s2))"

lemma rate_ok_in_window:
  "t \<le> fst g + RATE_WINDOW \<Longrightarrow>
     rate_ok t g = (if snd g \<ge> RATE_MAX then (False, g) else (True, (fst g, snd g + 1)))"
proof -
  assume "t \<le> fst g + RATE_WINDOW"
  then have "\<not> RATE_WINDOW < duration_since t (fst g)" by (auto simp: duration_since_def RATE_WINDOW_def)
  then show ?thesis by (simp add: rate_ok_def)
qed

lemma accept_hook_frame:
  "accept_hook req s = (st, s') \<Longrightarrow> hk_hits s' = hk_hits s \<and> hk_cap s' = hk_cap s
     \<and> length (hk_queue s') \<le> Suc (length (hk_queue s))
     \<and> (length (hk_queue s) \<le> hk_cap s \<longrightarrow> length (hk_queue s') \<le> hk_cap s)"
  by (auto simp: accept_hook_def try_send_def Let_def split: if_splits option.splits prod.splits bool.splits)

lemma handle_hook_window:
  assumes "handle_hook t req s = (st, s')" "t \<le> fst (hk_hits s) + RATE_WINDOW" "snd (hk_hits s) \<le> RATE_MAX"
  shows "fst (hk_hits s') = fst (hk_hits s) \<and> snd (hk_hits s') \<le> RATE_MAX \<and> hk_cap s' = hk_cap s
    \<and> length (hk_queue s') + snd (hk_hits s) \<le> length (hk_queue s) + snd (hk_hits s')
    \<and> (length (hk_queue s) \<le> hk_cap s \<longrightarrow> length (hk_queue s') \<le> hk_cap s)"
proof (cases "hr_is_post req \<and> token_matches (unwrap_or (hr_token req) []) (hk_token s) \<and> snd (hk_hits s) < RATE_MAX")
  case True
  let ?s = "s\<lparr>hk_hits := (fst (hk_hits s), snd (hk_hits s) + 1)\<rparr>"
  have "accept_hook req ?s = (st, s')"
    using assms True by (simp add: handle_hook_def rate_ok_in_window)
  from accept_hook_frame [OF this] True show ?thesis by auto
next
  case False
  then show ?thesis
    using assms by (auto simp: handle_hook_def rate_ok_in_window split: if_splits)
qed


end
