(* ===== verification/Seen_Window.thy ===== *)
theory Seen_Window
  imports Domain
begin

text \<open>
  The two bounded windows of recently seen items in \<^verbatim>\<open>sync/src/bb.rs\<close>: \<^verbatim>\<open>remember_message\<close> (by
  guid, an edited message counts as new) and \<^verbatim>\<open>dedupe_guid\<close>; and the contract they share.  A
  \<^verbatim>\<open>VecDeque\<close> is a list, its front first.
\<close>

section \<open>The code\<close>

definition SEEN_CAP :: nat where "SEEN_CAP = 2000"

text \<open>\<^verbatim>\<open>while seen.len() > 2000 { seen.pop_front(); }\<close>\<close>

function trim_seen :: "'m list \<Rightarrow> 'm list" where
  "trim_seen seen = (if SEEN_CAP < length seen then trim_seen (tl seen) else seen)"
  by pat_completeness auto
termination by (relation "measure length") auto

declare trim_seen.simps [simp del]

fun position :: "('m \<Rightarrow> bool) \<Rightarrow> 'm list \<Rightarrow> nat option" where
  "position p [] = None"
| "position p (m # ms) = (if p m then Some 0 else map_option Suc (position p ms))"

definition remove_at :: "nat \<Rightarrow> 'm list \<Rightarrow> 'm list" where
  "remove_at n ms = take n ms @ drop (Suc n) ms"

definition remember_message :: "message \<Rightarrow> message list \<Rightarrow> bool \<times> message list" where
  "remember_message msg seen =
     (case position (\<lambda>old. m_guid old = m_guid msg) seen of
        None \<Rightarrow> (True, trim_seen (seen @ [msg]))
      | Some n \<Rightarrow>
          if seen ! n = msg then (False, seen)
          else (True, trim_seen (remove_at n seen @ [msg])))"

definition dedupe_guid :: "message_guid \<Rightarrow> message_guid list \<Rightarrow> bool \<times> message_guid list" where
  "dedupe_guid guid seen =
     (if list_ex (\<lambda>g. g = guid) seen then (False, seen) else (True, trim_seen (seen @ [guid])))"

section \<open>The contract\<close>

definition newest_of :: "nat \<Rightarrow> 'm list \<Rightarrow> 'm list" where
  "newest_of n ms = drop (length ms - n) ms"

lemma trim_seen_newest: "trim_seen ms = newest_of SEEN_CAP ms"
proof (induction ms rule: trim_seen.induct)
  case (1 ms)
  show ?case
  proof (cases "SEEN_CAP < length ms")
    case True
    then obtain m ms' where ms: "ms = m # ms'" by (cases ms) auto
    have "length ms - SEEN_CAP = Suc (length ms' - SEEN_CAP)" using True by (simp add: ms)
    then show ?thesis
      using True 1 by (subst trim_seen.simps) (simp add: ms newest_of_def)
  next
    case False
    then show ?thesis by (subst trim_seen.simps) (simp add: newest_of_def)
  qed
qed

lemma length_newest_of [simp]: "length (newest_of n ms) = min n (length ms)"
  by (simp add: newest_of_def)

lemma set_newest_of: "set (newest_of n ms) \<subseteq> set ms"
  by (simp add: newest_of_def set_drop_subset)

lemma distinct_newest_of: "distinct (map f ms) \<Longrightarrow> distinct (map f (newest_of n ms))"
  by (simp add: newest_of_def drop_map [symmetric])

lemma newest_of_all: "length ms \<le> n \<Longrightarrow> newest_of n ms = ms"
  by (simp add: newest_of_def)

lemma last_newest_of: "0 < n \<Longrightarrow> m \<in> set (newest_of n (ms @ [m]))"
  by (simp add: newest_of_def)

lemma filter_fresh: "f m \<notin> f ` set q \<Longrightarrow> filter (\<lambda>x. f x \<noteq> f m) q = q"
  by (induction q) auto

lemma newest_of_mono: "a \<le> b \<Longrightarrow> set (newest_of a ms) \<subseteq> set (newest_of b ms)"
  by (simp add: newest_of_def set_drop_subset_set_drop)

lemma newest_of_Suc_diff: "x \<in> set (newest_of (a - Suc n) ms) \<Longrightarrow> x \<in> set (newest_of (a - n) ms)"
  by (rule subsetD [OF newest_of_mono [OF diff_le_mono2]]) simp_all

lemma newest_of_newest: "a \<le> b \<Longrightarrow> newest_of a (newest_of b ms) = newest_of a ms"
  by (cases "length ms \<le> b") (simp_all add: newest_of_def)

lemma newest_of_Suc_snoc: "newest_of (Suc a) (ms @ [m]) = newest_of a ms @ [m]"
  by (simp add: newest_of_def)

lemma newest_of_filter:
  assumes "x \<in> set (newest_of n ms)" "P x"
  shows "x \<in> set (newest_of n (filter P ms))"
proof -
  let ?old = "filter P (take (length ms - n) ms)" and ?new = "filter P (newest_of n ms)"
  have split: "filter P ms = ?old @ ?new"
    unfolding newest_of_def filter_append [symmetric] by simp
  have "length ?new \<le> n" using length_filter_le [of P "newest_of n ms"] by simp
  then have "set ?new \<subseteq> set (newest_of n (filter P ms))" unfolding split by (simp add: newest_of_def)
  then show ?thesis using assms by auto
qed

text \<open>
  Observing an item answers whether it is new.  A known one leaves the window as it is; a new one
  replaces the entry of its identity and becomes the youngest of at most \<open>cap\<close> entries.
\<close>

locale seen_window =
  fixes observe :: "'m \<Rightarrow> 'm list \<Rightarrow> bool \<times> 'm list"
    and ident :: "'m \<Rightarrow> 'g"
    and cap :: nat
  assumes cap_pos: "0 < cap"
    and observe_known: "distinct (map ident q) \<Longrightarrow> m \<in> set q \<Longrightarrow> observe m q = (False, q)"
    and observe_new: "distinct (map ident q) \<Longrightarrow> m \<notin> set q \<Longrightarrow>
      observe m q = (True, newest_of cap (filter (\<lambda>x. ident x \<noteq> ident m) q @ [m]))"
begin

definition window :: "'m list \<Rightarrow> bool" where
  "window q \<longleftrightarrow> distinct (map ident q) \<and> length q \<le> cap"

fun observe_all :: "'m list \<Rightarrow> 'm list \<Rightarrow> 'm list \<times> 'm list" where
  "observe_all [] q = ([], q)"
| "observe_all (m # ms) q =
     (let (new, q1) = observe m q; (out, q2) = observe_all ms q1
      in (if new then m # out else out, q2))"

lemma distinct_pushed:
  "distinct (map ident q) \<Longrightarrow> distinct (map ident (filter (\<lambda>x. ident x \<noteq> ident m) q @ [m]))"
  by (auto simp: distinct_map_filter)

lemma observe_window: "window q \<Longrightarrow> observe m q = (b, q') \<Longrightarrow> window q'"
  by (cases "m \<in> set q")
     (auto simp: window_def observe_known observe_new intro!: distinct_newest_of distinct_pushed
       simp del: map_append)

lemma observe_twice: "window q \<Longrightarrow> observe m q = (b, q') \<Longrightarrow> observe m q' = (False, q')"
proof -
  assume q: "window q" and run: "observe m q = (b, q')"
  then have "m \<in> set q'"
    using last_newest_of [OF cap_pos] by (cases "m \<in> set q") (auto simp: window_def observe_known observe_new)
  moreover have "window q'" using q run by (rule observe_window)
  ultimately show ?thesis by (simp add: window_def observe_known)
qed

lemma observe_all_window: "window q \<Longrightarrow> observe_all ms q = (out, q') \<Longrightarrow> window q'"
  by (induction ms arbitrary: q out) (auto simp: Let_def dest: observe_window split: prod.splits)

lemma observe_all_subset: "observe_all ms q = (out, q') \<Longrightarrow> set out \<subseteq> set ms"
  by (induction ms arbitrary: q out) (fastforce simp: Let_def split: prod.splits if_splits)+

lemma observe_all_known: "window q \<Longrightarrow> set ms \<subseteq> set q \<Longrightarrow> observe_all ms q = ([], q)"
  by (induction ms) (auto simp: window_def observe_known)

text \<open>An item among the newest stays while a batch of others passes by, each of which takes one place.\<close>

lemma observe_recent:
  assumes "window q" "n < cap" "observe m q = (b, q')" "x \<in> set (newest_of (cap - Suc n) q)" "ident x \<noteq> ident m"
  shows "x \<in> set (newest_of (cap - n) q')"
proof (cases "m \<in> set q")
  case True
  then show ?thesis
    using assms by (auto simp: window_def observe_known newest_of_Suc_diff)
next
  case False
  have "x \<in> set (newest_of (cap - Suc n) (filter (\<lambda>x. ident x \<noteq> ident m) q))"
    using assms(4,5) by (rule newest_of_filter)
  then have "x \<in> set (newest_of (Suc (cap - Suc n)) (filter (\<lambda>x. ident x \<noteq> ident m) q @ [m]))"
    by (simp add: newest_of_Suc_snoc)
  then show ?thesis
    using assms(1-3) False by (auto simp: window_def observe_new newest_of_newest Suc_diff_Suc)
qed

lemma observe_itself: "window q \<Longrightarrow> observe m q = (b, q') \<Longrightarrow> n < cap \<Longrightarrow>
    (m \<in> set q \<longrightarrow> m \<in> set (newest_of (cap - Suc n) q)) \<Longrightarrow> m \<in> set (newest_of (cap - n) q')"
proof (cases "m \<in> set q")
  case True
  assume "window q" "observe m q = (b, q')" "m \<in> set q \<longrightarrow> m \<in> set (newest_of (cap - Suc n) q)"
  then show ?thesis using True by (auto simp: window_def observe_known newest_of_Suc_diff)
next
  case False
  assume "window q" "observe m q = (b, q')" "n < cap"
  then show ?thesis
    using False last_newest_of [of "cap - n"] by (auto simp: window_def observe_new newest_of_newest)
qed

lemma observe_all_recent:
  "window q \<Longrightarrow> length ms \<le> cap \<Longrightarrow> observe_all ms q = (out, q') \<Longrightarrow> x \<in> set (newest_of (cap - length ms) q) \<Longrightarrow>
     ident x \<notin> ident ` set ms \<Longrightarrow> x \<in> set q'"
proof (induction ms arbitrary: q out)
  case Nil
  then show ?case using set_newest_of by fastforce
next
  case (Cons m ms)
  obtain b q1 where 1: "observe m q = (b, q1)" by fastforce
  obtain out1 where 2: "observe_all ms q1 = (out1, q')"
    using Cons.prems(3) 1 by (auto simp: Let_def split: prod.splits)
  have "x \<in> set (newest_of (cap - length ms) q1)"
    using Cons.prems 1 by (intro observe_recent [of q "length ms" m b]) auto
  then show ?case using Cons.IH [OF observe_window [OF Cons.prems(1) 1] _ 2] Cons.prems by simp
qed

text \<open>A batch reports what the window did not have, however full it is, as long as what it had of the batch is not the
  next to be dropped; and the window has the whole batch then.\<close>

lemma observe_all_reports:
  "window q \<Longrightarrow> length ms \<le> cap \<Longrightarrow> distinct (map ident ms) \<Longrightarrow>
     (\<forall>m\<in>set ms. m \<in> set q \<longrightarrow> m \<in> set (newest_of (cap - length ms) q)) \<Longrightarrow> observe_all ms q = (out, q') \<Longrightarrow>
     out = filter (\<lambda>m. m \<notin> set q) ms \<and> set ms \<subseteq> set q'"
proof (induction ms arbitrary: q out)
  case (Cons m ms)
  obtain b q1 where 1: "observe m q = (b, q1)" by fastforce
  obtain out1 where 2: "observe_all ms q1 = (out1, q')"
    using Cons.prems(5) 1 by (auto simp: Let_def split: prod.splits)
  have w: "window q1" using Cons.prems(1) 1 by (rule observe_window)
  have n: "length ms < cap" using Cons.prems(2) by simp
  have other: "ident x \<noteq> ident m" if "x \<in> set ms" for x
    using Cons.prems(3) that by (auto simp: image_iff)
  have stays: "x \<in> set (newest_of (cap - length ms) q1)" if "x \<in> set ms" "x \<in> set q" for x
    using observe_recent [OF Cons.prems(1) n 1 _ other] Cons.prems(4) that by auto
  have new: "set q1 \<subseteq> insert m (set q)" "b \<longleftrightarrow> m \<notin> set q"
    using 1 Cons.prems(1) set_newest_of [of cap] by (cases "m \<in> set q"; fastforce simp: window_def observe_known observe_new)+
  have same: "x \<in> set q1 \<longleftrightarrow> x \<in> set q" if "x \<in> set ms" for x
    using stays [OF that] set_newest_of new(1) other [OF that] by fastforce
  have "out1 = filter (\<lambda>m. m \<notin> set q1) ms \<and> set ms \<subseteq> set q'"
    using stays same Cons.prems(2,3) by (intro Cons.IH [OF w _ _ _ 2]) auto
  moreover have "filter (\<lambda>m. m \<notin> set q1) ms = filter (\<lambda>m. m \<notin> set q) ms" using same by (intro filter_cong) auto
  moreover have "m \<in> set q'"
    using observe_itself [OF Cons.prems(1) 1 n] Cons.prems(3,4) n by (intro observe_all_recent [OF w _ 2]) auto
  moreover have "out = (if b then m # out1 else out1)" using Cons.prems(5) 1 2 by (simp add: Let_def)
  ultimately show ?case using new(2) by simp
qed simp

end

section \<open>The code meets the contract\<close>

lemma position_Some: "position p ms = Some n \<Longrightarrow> n < length ms \<and> p (ms ! n) \<and> (\<forall>i < n. \<not> p (ms ! i))"
proof (induction ms arbitrary: n)
  case (Cons m ms)
  then show ?case by (auto split: if_splits simp: nth_Cons less_Suc_eq_0_disj split: nat.splits)
qed simp

lemma position_None: "position p ms = None \<longleftrightarrow> (\<forall>m \<in> set ms. \<not> p m)"
  by (induction ms) auto

lemma filter_remove_at:
  assumes "distinct (map f ms)" "n < length ms"
  shows "filter (\<lambda>x. f x \<noteq> f (ms ! n)) ms = remove_at n ms"
proof -
  have split: "ms = take n ms @ ms ! n # drop (Suc n) ms"
    using assms(2) by (simp add: id_take_nth_drop)
  have "distinct (map f (take n ms @ ms ! n # drop (Suc n) ms))" using assms(1) split by simp
  then have "f (ms ! n) \<notin> f ` set (take n ms)" "f (ms ! n) \<notin> f ` set (drop (Suc n) ms)"
    by auto
  then have "filter (\<lambda>x. f x \<noteq> f (ms ! n)) (take n ms @ ms ! n # drop (Suc n) ms) = take n ms @ drop (Suc n) ms"
    by (simp add: filter_fresh del: set_take_subset)
  then show ?thesis using split by (simp add: remove_at_def)
qed

interpretation recent: seen_window remember_message m_guid SEEN_CAP
proof
  show "0 < SEEN_CAP" by (simp add: SEEN_CAP_def)
next
  fix q :: "message list" and m :: message
  assume d: "distinct (map m_guid q)"
  let ?pos = "position (\<lambda>old. m_guid old = m_guid m) q"
  show "remember_message m q = (False, q)" if known: "m \<in> set q"
  proof -
    obtain n where n: "?pos = Some n"
      using known position_None [of "\<lambda>old. m_guid old = m_guid m" q] by (cases ?pos) auto
    have "n < length q" "m_guid (q ! n) = m_guid m" using position_Some [OF n] by simp_all
    then have "q ! n = m"
      using inj_onD [of m_guid "set q" "q ! n" m] d known by (simp add: distinct_map)
    then show ?thesis using n by (simp add: remember_message_def)
  qed
  show "remember_message m q = (True, newest_of SEEN_CAP (filter (\<lambda>x. m_guid x \<noteq> m_guid m) q @ [m]))"
    if new: "m \<notin> set q"
  proof (cases ?pos)
    case None
    then have "filter (\<lambda>x. m_guid x \<noteq> m_guid m) q = q"
      using position_None [of _ q] by (intro filter_fresh) auto
    then show ?thesis using None by (simp add: remember_message_def trim_seen_newest)
  next
    case (Some n)
    then have n: "n < length q" "m_guid (q ! n) = m_guid m" using position_Some [OF Some] by simp_all
    then have "q ! n \<noteq> m" using new nth_mem by metis
    then show ?thesis
      using Some filter_remove_at [OF d n(1)] n(2) by (simp add: remember_message_def trim_seen_newest)
  qed
qed

interpretation hooked: seen_window dedupe_guid id SEEN_CAP
proof
  show "0 < SEEN_CAP" by (simp add: SEEN_CAP_def)
next
  fix q :: "message_guid list" and m :: message_guid
  show "dedupe_guid m q = (False, q)" if "m \<in> set q"
    using that by (auto simp: dedupe_guid_def list_ex_iff)
  show "dedupe_guid m q = (True, newest_of SEEN_CAP (filter (\<lambda>x. id x \<noteq> id m) q @ [m]))" if "m \<notin> set q"
  proof -
    have "filter (\<lambda>x. id x \<noteq> id m) q = q" using that by (auto intro!: filter_True)
    then show ?thesis using that by (auto simp: dedupe_guid_def list_ex_iff trim_seen_newest)
  qed
qed

end
