(* ===== verification/Bb.thy ===== *)
theory Bb
  imports Config Contact_Book Seen_Window
begin

text \<open>
  The BlueBubbles client of \<^verbatim>\<open>sync/src/bb.rs\<close> and the handle of \<^verbatim>\<open>sync/src/uplink.rs\<close>: the
  requests it makes, how it reads the answers, the errors it maps them to, and the polling loop.

  The HTTP stack (reqwest, the server, serde_json's parser) is the parameter \<open>net\<close>: it takes a
  request and the outside world \<open>'w\<close>, and answers an outcome and the world after it.  A response
  carries its body both as text and as what parsing that text gives.  Further parameters: the
  url crate (\<open>lib\<close>), chrono (\<open>fmt\<close>), the current time as text (\<open>now\<close>), fresh temporary ids
  (\<open>temp\<close>), and the file a path names (\<open>image_file\<close>).
\<close>

section \<open>Errors\<close>

datatype bb_error = LinkDown | Timeout string | Upstream string | Transport string

definition bb_error_code :: "bb_error \<Rightarrow> string" where
  "bb_error_code e = (case e of
     LinkDown \<Rightarrow> ''link_down'' | Timeout _ \<Rightarrow> ''timeout''
   | Upstream _ \<Rightarrow> ''upstream'' | Transport _ \<Rightarrow> ''error'')"

definition bb_error_text :: "bb_error \<Rightarrow> string" where
  "bb_error_text e = (case e of
     LinkDown \<Rightarrow> ''mac link is down'' | Timeout what \<Rightarrow> ''timed out awaiting '' @ what
   | Upstream m \<Rightarrow> m | Transport m \<Rightarrow> m)"

definition domain_error_text :: "domain_error \<Rightarrow> string" where
  "domain_error_text e = (case e of
     EmptyChatGuid \<Rightarrow> ''empty chat guid'' | EmptyMessageGuid \<Rightarrow> ''empty message guid''
   | NoChatGuid g \<Rightarrow> ''message '' @ g @ '' has no chat guid''
   | IdNotANumber \<Rightarrow> ''id'' | IdRequired \<Rightarrow> ''id required'')"

definition upstream :: "domain_error + 'a \<Rightarrow> bb_error + 'a" where
  "upstream r = (case r of Inl e \<Rightarrow> Inl (Upstream (domain_error_text e)) | Inr x \<Rightarrow> Inr x)"

section \<open>Requests and responses\<close>

datatype http_method = GET | POST | DELETE

datatype http_body = NoBody | JsonBody json | FormBody "(string \<times> string) list" "byte list"

record 'u bb_request =
  rq_method :: http_method
  rq_url :: 'u
  rq_body :: http_body

datatype net_failure = FailTimeout | FailConnect | FailOther string

record http_response =
  rs_status :: int
  rs_reason :: string
  rs_text :: "net_failure + string"
  rs_json :: "string + json"

datatype net_outcome = NetFailed net_failure | NetAnswered http_response

type_synonym ('u, 'w) net = "'u bb_request \<Rightarrow> 'w \<Rightarrow> net_outcome \<times> 'w"

definition transport :: "net_failure \<Rightarrow> bb_error" where
  "transport e = (case e of
     FailTimeout \<Rightarrow> Timeout ''bluebubbles'' | FailConnect \<Rightarrow> LinkDown | FailOther m \<Rightarrow> Transport m)"

definition is_success :: "int \<Rightarrow> bool" where
  "is_success status \<longleftrightarrow> 200 \<le> status \<and> status < 300"

definition read_json :: "http_response \<Rightarrow> bb_error + json" where
  "read_json res =
     (case rs_text res of
        Inl e \<Rightarrow> Inl (transport e)
      | Inr body \<Rightarrow>
          if rs_status res = 401 \<or> rs_status res = 403 then Inl (Upstream ''unauthorized'')
          else if \<not> is_success (rs_status res)
          then Inl (Upstream (''http '' @ show_int (rs_status res) @ '' '' @ rs_reason res @ '': '' @ body))
          else (case rs_json res of Inl m \<Rightarrow> Inl (Upstream m) | Inr v \<Rightarrow> Inr v))"

definition envelope_data :: "json \<Rightarrow> bb_error + json" where
  "envelope_data body =
     (let failed = (case json_get body ''error'' of
            None \<Rightarrow> None
          | Some err \<Rightarrow>
              if is_null err then None
              else Some (unwrap_or
                (or_else (or_else (as_str (json_at err ''error'')) (as_str err))
                         (as_str (json_at body ''message''))) ''upstream error''))
      in case failed of
          Some m \<Rightarrow> Inl (Upstream m)
        | None \<Rightarrow> (case as_i64 (json_at body ''status'') of
            Some status \<Rightarrow>
              if status \<noteq> 200
              then Inl (Upstream (unwrap_or (as_str (json_at body ''message'')) ''upstream error''))
              else Inr (unwrap_or (json_get body ''data'') JNull)
          | None \<Rightarrow> Inr (unwrap_or (json_get body ''data'') JNull)))"

section \<open>Path encoding\<close>

definition unreserved :: "nat \<Rightarrow> bool" where
  "unreserved b \<longleftrightarrow> 65 \<le> b \<and> b \<le> 90 \<or> 97 \<le> b \<and> b \<le> 122 \<or> 48 \<le> b \<and> b \<le> 57
     \<or> b \<in> {45, 95, 46, 126}"

definition hex_digit :: "nat \<Rightarrow> char" where
  "hex_digit n = char_of (if n < 10 then 48 + n else 55 + n)"

definition encode_byte :: "byte \<Rightarrow> string" where
  "encode_byte b =
     (if unreserved (unat b) then [char_of (unat b)]
      else [CHR ''%'', hex_digit (unat b div 16), hex_digit (unat b mod 16)])"

definition path_encode :: "string \<Rightarrow> string" where
  "path_encode s = concat (map encode_byte (utf8 s))"

section \<open>The client\<close>

record 'u bb_client =
  bb_server :: "'u server_url"
  bb_password :: string
  bb_contacts :: contact_book

text \<open>An operation works on the client's contact book and the outside world.\<close>

record ('u, 'w) bb_state =
  bs_client :: "'u bb_client"
  bs_world :: 'w

type_synonym ('u, 'w, 'a) bb_op = "(('u, 'w) bb_state, bb_error, 'a) act"

definition authed :: "'u url_lib \<Rightarrow> string \<Rightarrow> 'u bb_client \<Rightarrow> bb_error + 'u" where
  "authed lib path c =
     (case server_url_join lib (bb_server c) path of
        Inl m \<Rightarrow> Inl (Transport m)
      | Inr u \<Rightarrow> Inr (url_append_pair lib ''password'' (bb_password c) u))"

definition exchange :: "('u, 'w) net \<Rightarrow> 'u bb_request \<Rightarrow> ('u, 'w, json) bb_op" where
  "exchange net req s =
     (case net req (bs_world s) of
        (NetFailed e, w) \<Rightarrow> (Inl (transport e), s\<lparr>bs_world := w\<rparr>)
      | (NetAnswered res, w) \<Rightarrow> (read_json res, s\<lparr>bs_world := w\<rparr>))"

definition bb_call ::
  "'u url_lib \<Rightarrow> ('u, 'w) net \<Rightarrow> http_method \<Rightarrow> string \<Rightarrow> http_body \<Rightarrow> ('u, 'w, json) bb_op" where
  "bb_call lib net m path body =
     andthen (reads (\<lambda>s. authed lib path (bs_client s))) (\<lambda>url.
     andthen (of_result url) (\<lambda>u.
     exchange net \<lparr> rq_method = m, rq_url = u, rq_body = body \<rparr>))"

definition bb_get :: "'u url_lib \<Rightarrow> ('u, 'w) net \<Rightarrow> string \<Rightarrow> ('u, 'w, json) bb_op" where
  "bb_get lib net path = bb_call lib net GET path NoBody"

definition bb_post :: "'u url_lib \<Rightarrow> ('u, 'w) net \<Rightarrow> string \<Rightarrow> json \<Rightarrow> ('u, 'w, json) bb_op" where
  "bb_post lib net path body = bb_call lib net POST path (JsonBody body)"

definition bb_delete :: "'u url_lib \<Rightarrow> ('u, 'w) net \<Rightarrow> string \<Rightarrow> ('u, 'w, json) bb_op" where
  "bb_delete lib net path = bb_call lib net DELETE path NoBody"

definition bb_data :: "('u, 'w, json) bb_op \<Rightarrow> ('u, 'w, json) bb_op" where
  "bb_data m = andthen m (\<lambda>body. of_result (envelope_data body))"

definition ping :: "'u url_lib \<Rightarrow> ('u, 'w) net \<Rightarrow> ('u, 'w, unit) bb_op" where
  "ping lib net =
     andthen (bb_get lib net ''api/v1/ping'') (\<lambda>body.
     andthen (of_result (envelope_data body)) (\<lambda>data.
       if as_str data = Some ''pong'' \<or> as_str (json_at data ''message'') = Some ''pong''
          \<or> as_i64 (json_at body ''status'') = Some 200
       then ret () else raise (Upstream ''ping failed'')))"

text \<open>\<^verbatim>\<open>collect::<Result<Vec<_>>>()\<close>: the first failure, or all the values.\<close>

fun collect_results :: "('e + 'a) list \<Rightarrow> 'e + 'a list" where
  "collect_results [] = Inr []"
| "collect_results (Inl e # rs) = Inl e"
| "collect_results (Inr x # rs) = map_sum id ((#) x) (collect_results rs)"

definition array_or_empty :: "json \<Rightarrow> json list" where
  "array_or_empty v = unwrap_or (as_array v) []"

definition of_u32 :: "u32 \<Rightarrow> json" where
  "of_u32 n = JNum (NPos (ucast n))"

definition show_u32 :: "u32 \<Rightarrow> string" where
  "show_u32 n = show_int (uint n)"

definition query_chats ::
  "'u url_lib \<Rightarrow> ('u, 'w) net \<Rightarrow> (i64 \<Rightarrow> string option) \<Rightarrow> u32 \<Rightarrow> ('u, 'w, chat list) bb_op" where
  "query_chats lib net fmt limit =
     andthen (bb_data (bb_post lib net ''api/v1/chat/query''
       (mk_obj [(''limit'', of_u32 limit), (''offset'', JNum (NPos 0)),
          (''with'', JArr [JStr ''lastMessage'', JStr ''participants''])]))) (\<lambda>data.
     of_result (upstream (collect_results (map (chat_from_bb fmt) (array_or_empty data)))))"

definition query_contacts :: "'u url_lib \<Rightarrow> ('u, 'w) net \<Rightarrow> ('u, 'w, contact_book) bb_op" where
  "query_contacts lib net =
     andthen (bb_data (bb_get lib net ''api/v1/contact'')) (\<lambda>data.
     let book = book_from_bb data in
     andthen (writes (\<lambda>s. s\<lparr>bs_client := (bs_client s)\<lparr>bb_contacts := book\<rparr>\<rparr>)) (\<lambda>_. ret book))"

definition replace_contacts :: "contact_book \<Rightarrow> ('u, 'w, unit) bb_op" where
  "replace_contacts book = writes (\<lambda>s. s\<lparr>bs_client := (bs_client s)\<lparr>bb_contacts := book\<rparr>\<rparr>)"

definition chat_messages ::
  "'u url_lib \<Rightarrow> ('u, 'w) net \<Rightarrow> (i64 \<Rightarrow> string option) \<Rightarrow> chat_guid \<Rightarrow> u32 \<Rightarrow>
     ('u, 'w, message list) bb_op" where
  "chat_messages lib net fmt g limit =
     andthen (bb_data (bb_get lib net
       (''api/v1/chat/'' @ path_encode (chat_guid_str g) @ ''/message?limit='' @ show_u32 limit @
        ''&offset=0&sort=DESC&with=attachments,attributedBody''))) (\<lambda>data.
     of_result (upstream (collect_results
       (map (\<lambda>v. message_from_bb fmt v (Some g)) (array_or_empty data)))))"

definition message_by_guid ::
  "'u url_lib \<Rightarrow> ('u, 'w) net \<Rightarrow> (i64 \<Rightarrow> string option) \<Rightarrow> string \<Rightarrow> ('u, 'w, message option) bb_op" where
  "message_by_guid lib net fmt guid s =
     (case bb_get lib net (''api/v1/message/'' @ path_encode (trim guid) @
             ''?with=chats,attachments,attributedBody'') s of
        (Inl (Upstream m), s') \<Rightarrow>
          if starts_with m ''http 404'' then (Inr None, s') else (Inl (Upstream m), s')
      | (Inl e, s') \<Rightarrow> (Inl e, s')
      | (Inr body, s') \<Rightarrow>
          (case envelope_data body of
             Inl e \<Rightarrow> (Inl e, s')
           | Inr data \<Rightarrow>
               if is_null data then (Inr None, s')
               else (map_sum id Some (upstream (message_from_bb fmt data None)), s')))"

definition recent_messages ::
  "'u url_lib \<Rightarrow> ('u, 'w) net \<Rightarrow> (i64 \<Rightarrow> string option) \<Rightarrow> u32 \<Rightarrow> ('u, 'w, message list) bb_op" where
  "recent_messages lib net fmt limit =
     andthen (bb_data (bb_post lib net ''api/v1/message/query''
       (mk_obj [(''limit'', of_u32 limit), (''offset'', JNum (NPos 0)), (''sort'', JStr ''DESC''),
          (''with'', JArr [JStr ''chats'', JStr ''attachments'', JStr ''attributedBody''])]))) (\<lambda>data.
     ret (List.map_filter
       (\<lambda>v. case message_from_bb fmt v None of Inl _ \<Rightarrow> None | Inr m \<Rightarrow> Some m) (array_or_empty data)))"

section \<open>Webhooks and read receipts\<close>

definition webhook_list :: "'u url_lib \<Rightarrow> ('u, 'w) net \<Rightarrow> ('u, 'w, json list) bb_op" where
  "webhook_list lib net =
     andthen (bb_data (bb_get lib net ''api/v1/webhook'')) (\<lambda>data. ret (array_or_empty data))"

definition webhook_create :: "'u url_lib \<Rightarrow> ('u, 'w) net \<Rightarrow> string \<Rightarrow> ('u, 'w, unit) bb_op" where
  "webhook_create lib net url =
     andthen (bb_post lib net ''api/v1/webhook''
       (mk_obj [(''url'', JStr url),
          (''events'', JArr [JStr ''new-message'', JStr ''updated-message''])])) (\<lambda>_. ret ())"

text \<open>\<^verbatim>\<open>Err(BbError::Upstream(_)) => Ok(())\<close>: a refusal of the server does not matter.\<close>

definition upstream_ok :: "('s, bb_error, json) act \<Rightarrow> ('s, bb_error, unit) act" where
  "upstream_ok m s =
     (case m s of
        (Inr _, s') \<Rightarrow> (Inr (), s')
      | (Inl (Upstream _), s') \<Rightarrow> (Inr (), s')
      | (Inl e, s') \<Rightarrow> (Inl e, s'))"

definition webhook_delete :: "'u url_lib \<Rightarrow> ('u, 'w) net \<Rightarrow> string \<Rightarrow> ('u, 'w, unit) bb_op" where
  "webhook_delete lib net i =
     upstream_ok (bb_delete lib net (''api/v1/webhook/'' @ path_encode (trim i)))"

definition bb_mark_read :: "'u url_lib \<Rightarrow> ('u, 'w) net \<Rightarrow> chat_guid \<Rightarrow> ('u, 'w, unit) bb_op" where
  "bb_mark_read lib net g =
     upstream_ok (bb_post lib net
       (''api/v1/chat/'' @ path_encode (chat_guid_str g) @ ''/read'') (mk_obj []))"

text \<open>The id under which a listed webhook of ours is deleted.\<close>

definition our_webhook :: "json \<Rightarrow> string option" where
  "our_webhook row =
     (if \<not> str_contains (unwrap_or (Option.bind (json_get row ''url'') as_str) []) HOOK_PATH then None
      else or_else (Option.bind (json_get row ''guid'') as_str) (Option.bind (json_get row ''id'') as_str))"

text \<open>\<^verbatim>\<open>unwrap_or_default\<close>.\<close>

definition or_empty :: "('s, 'e, 'a list) act \<Rightarrow> ('s, 'e, 'a list) act" where
  "or_empty m s = (case m s of (Inl _, s') \<Rightarrow> (Inr [], s') | (Inr xs, s') \<Rightarrow> (Inr xs, s'))"

definition webhook_clear_ours :: "'u url_lib \<Rightarrow> ('u, 'w) net \<Rightarrow> ('u, 'w, unit) bb_op" where
  "webhook_clear_ours lib net =
     andthen (or_empty (webhook_list lib net)) (\<lambda>listed.
     for_each listed (\<lambda>row.
       case our_webhook row of
         None \<Rightarrow> ret () | Some i \<Rightarrow> ignore_err (webhook_delete lib net i)))"

definition webhook_replace :: "'u url_lib \<Rightarrow> ('u, 'w) net \<Rightarrow> string \<Rightarrow> ('u, 'w, unit) bb_op" where
  "webhook_replace lib net url =
     andthen (webhook_clear_ours lib net) (\<lambda>_. webhook_create lib net url)"

section \<open>Sending\<close>

definition send_payload :: "json \<Rightarrow> json" where
  "send_payload data =
     (if opt_filter (\<lambda>s. s \<noteq> []) (Option.bind (json_get data ''guid'') as_str) \<noteq> None then data
      else case json_get data ''message'' of
          Some inner \<Rightarrow> inner
        | None \<Rightarrow> (case as_array data of Some (first # _) \<Rightarrow> first | _ \<Rightarrow> data))"

definition temp_attachment :: "string \<Rightarrow> string \<Rightarrow> attachment_meta" where
  "temp_attachment temp name = \<lparr> a_guid = temp, a_mime = None, a_name = Some name \<rparr>"

definition message_from_send_response ::
  "(i64 \<Rightarrow> string option) \<Rightarrow> string \<Rightarrow> json \<Rightarrow> chat_guid \<Rightarrow> string \<Rightarrow> string \<Rightarrow> string option \<Rightarrow>
     bb_error + message" where
  "message_from_send_response fmt now data g text temp attachment =
     (case message_from_bb fmt (send_payload data) (Some g) of
        Inr msg \<Rightarrow> Inr msg
      | Inl _ \<Rightarrow> (case upstream (message_guid_parse temp) of
          Inl e \<Rightarrow> Inl e
        | Inr guid \<Rightarrow> Inr
            \<lparr> m_guid = guid, m_chat = g, m_text = text, m_created_at = now, m_is_from_me = True,
              m_sender = None,
              m_attachments = (case attachment of None \<Rightarrow> [] | Some name \<Rightarrow> [temp_attachment temp name]) \<rparr>))"

definition send_text ::
  "'u url_lib \<Rightarrow> ('u, 'w) net \<Rightarrow> (i64 \<Rightarrow> string option) \<Rightarrow> string \<Rightarrow> string \<Rightarrow> chat_guid \<Rightarrow> string \<Rightarrow>
     ('u, 'w, message) bb_op" where
  "send_text lib net fmt now temp g text =
     andthen (bb_data (bb_post lib net ''api/v1/message/text''
       (mk_obj [(''chatGuid'', JStr (chat_guid_str g)), (''tempGuid'', JStr temp),
          (''message'', JStr text)]))) (\<lambda>data.
     of_result (message_from_send_response fmt now data g text temp None))"

text \<open>What a canonical path names: \<^verbatim>\<open>canonicalize\<close>, \<^verbatim>\<open>metadata\<close>, \<^verbatim>\<open>extension\<close>, \<^verbatim>\<open>read\<close>.\<close>

record path_info =
  pi_is_file :: bool
  pi_len :: "string + int"
  pi_extension :: "string option"
  pi_file_name :: "string option"
  pi_bytes :: "string + byte list"

definition IMAGE_EXTENSIONS :: "string list" where
  "IMAGE_EXTENSIONS = [''jpg'', ''jpeg'', ''png'', ''gif'', ''webp'', ''heic'', ''heif'', ''bmp'']"

definition readable_image_path :: "(string \<Rightarrow> string + path_info) \<Rightarrow> string \<Rightarrow> bb_error + path_info" where
  "readable_image_path image_file path =
     (case image_file path of
        Inl m \<Rightarrow> Inl (Upstream m)
      | Inr p \<Rightarrow>
          if \<not> pi_is_file p then Inl (Upstream ''not a file'')
          else (case pi_len p of
              Inl m \<Rightarrow> Inl (Upstream m)
            | Inr len \<Rightarrow>
                if len > 25 * 1024 * 1024 then Inl (Upstream ''image larger than 25 MB'')
                else if to_ascii_lowercase (unwrap_or (pi_extension p) []) \<in> set IMAGE_EXTENSIONS
                then Inr p
                else Inl (Upstream ''not an image'')))"

definition send_attachment ::
  "'u url_lib \<Rightarrow> ('u, 'w) net \<Rightarrow> (i64 \<Rightarrow> string option) \<Rightarrow> (string \<Rightarrow> string + path_info) \<Rightarrow>
     string \<Rightarrow> string \<Rightarrow> chat_guid \<Rightarrow> string \<Rightarrow> string \<Rightarrow> ('u, 'w, message) bb_op" where
  "send_attachment lib net fmt image_file now temp g identifier path =
     andthen (of_result (readable_image_path image_file path)) (\<lambda>p.
     let name = unwrap_or (pi_file_name p) ''photo.jpg'' in
     andthen (of_result (map_sum Upstream id (pi_bytes p))) (\<lambda>bytes.
     andthen (reads (\<lambda>s. authed lib ''api/v1/message/attachment'' (bs_client s))) (\<lambda>url.
     andthen (of_result url) (\<lambda>u.
     andthen (bb_data (exchange net
       \<lparr> rq_method = POST, rq_url = url_append_pair lib ''chatGuid'' (chat_guid_str g) u,
         rq_body = FormBody
           [(''chatGuid'', attachment_form_guid g identifier), (''tempGuid'', temp), (''name'', name)]
           bytes \<rparr>)) (\<lambda>data.
     andthen (of_result (message_from_send_response fmt now data g [] temp (Some name))) (\<lambda>msg.
     ret (if m_attachments msg = [] then msg\<lparr>m_attachments := [temp_attachment temp name]\<rparr>
          else msg)))))))"

section \<open>Polling\<close>

text \<open>
  One round of \<^verbatim>\<open>poll_loop\<close> hands the new messages, oldest first, to the channel.  The receiver
  takes \<open>room\<close> more of them and is dropped then; the third component tells that it was.
\<close>

fun poll_batch :: "nat \<Rightarrow> message list \<Rightarrow> message list \<Rightarrow> message list \<times> message list \<times> bool" where
  "poll_batch room [] seen = ([], seen, False)"
| "poll_batch room (m # ms) seen =
     (case remember_message m seen of
        (False, seen') \<Rightarrow> poll_batch room ms seen'
      | (True, seen') \<Rightarrow>
          (case room of
             0 \<Rightarrow> ([], seen', True)
           | Suc room' \<Rightarrow> (let (out, rest) = poll_batch room' ms seen' in (m # out, rest))))"

datatype poll_outcome = PollRunning "message list" | PollClosed | PollFailed bb_error

text \<open>The loop over the answers of the successive calls of \<^verbatim>\<open>recent_messages\<close>.\<close>

fun poll_loop ::
  "nat \<Rightarrow> (bb_error + message list) list \<Rightarrow> message list \<Rightarrow> message list \<times> poll_outcome" where
  "poll_loop room [] seen = ([], PollRunning seen)"
| "poll_loop room (Inl e # rounds) seen = ([], PollFailed e)"
| "poll_loop room (Inr msgs # rounds) seen =
     (case poll_batch room (rev msgs) seen of
        (out, seen', True) \<Rightarrow> (out, PollClosed)
      | (out, seen', False) \<Rightarrow>
          (let (out', r) = poll_loop (room - length out) rounds seen' in (out @ out', r)))"

section \<open>The handle that is up or down\<close>

record ('u, 'w) uplink =
  ul_client :: "'u bb_client option"
  ul_world :: 'w

text \<open>Run an operation on the attached client, or answer what is due without one.\<close>

definition on_client ::
  "bb_error + 'a \<Rightarrow> ('u, 'w, 'a) bb_op \<Rightarrow> (('u, 'w) uplink, bb_error, 'a) act" where
  "on_client down m s =
     (case ul_client s of
        None \<Rightarrow> (down, s)
      | Some c \<Rightarrow>
          (case m \<lparr> bs_client = c, bs_world = ul_world s \<rparr> of
             (r, s') \<Rightarrow> (r, s\<lparr>ul_client := Some (bs_client s'), ul_world := bs_world s'\<rparr>)))"

definition attach :: "'u bb_client \<Rightarrow> ('u, 'w) uplink \<Rightarrow> ('u, 'w) uplink" where
  "attach c s = s\<lparr>ul_client := Some c\<rparr>"

definition detach :: "('u, 'w) uplink \<Rightarrow> ('u, 'w) uplink" where
  "detach s = s\<lparr>ul_client := None\<rparr>"

definition is_up :: "('u, 'w) uplink \<Rightarrow> bool" where
  "is_up s \<longleftrightarrow> ul_client s \<noteq> None"

definition uplink_mark_read ::
  "'u url_lib \<Rightarrow> ('u, 'w) net \<Rightarrow> chat_guid \<Rightarrow> (('u, 'w) uplink, bb_error, unit) act" where
  "uplink_mark_read lib net g = on_client (Inr ()) (bb_mark_read lib net g)"

definition uplink_send_text ::
  "'u url_lib \<Rightarrow> ('u, 'w) net \<Rightarrow> (i64 \<Rightarrow> string option) \<Rightarrow> string \<Rightarrow> string \<Rightarrow> chat_guid \<Rightarrow> string \<Rightarrow>
     (('u, 'w) uplink, bb_error, message) act" where
  "uplink_send_text lib net fmt now temp g text =
     on_client (Inl LinkDown) (send_text lib net fmt now temp g text)"

definition uplink_send_attachment ::
  "'u url_lib \<Rightarrow> ('u, 'w) net \<Rightarrow> (i64 \<Rightarrow> string option) \<Rightarrow> (string \<Rightarrow> string + path_info) \<Rightarrow>
     string \<Rightarrow> string \<Rightarrow> chat_guid \<Rightarrow> string \<Rightarrow> string \<Rightarrow> (('u, 'w) uplink, bb_error, message) act" where
  "uplink_send_attachment lib net fmt image_file now temp g identifier path =
     on_client (Inl LinkDown) (send_attachment lib net fmt image_file now temp g identifier path)"

definition uplink_contact_book ::
  "'u url_lib \<Rightarrow> ('u, 'w) net \<Rightarrow> (('u, 'w) uplink, bb_error, contact_book) act" where
  "uplink_contact_book lib net = on_client (Inl LinkDown) (query_contacts lib net)"

definition uplink_webhook_replace ::
  "'u url_lib \<Rightarrow> ('u, 'w) net \<Rightarrow> string \<Rightarrow> (('u, 'w) uplink, bb_error, unit) act" where
  "uplink_webhook_replace lib net url = on_client (Inl LinkDown) (webhook_replace lib net url)"

definition uplink_webhook_clear_ours ::
  "'u url_lib \<Rightarrow> ('u, 'w) net \<Rightarrow> (('u, 'w) uplink, bb_error, unit) act" where
  "uplink_webhook_clear_ours lib net = on_client (Inr ()) (webhook_clear_ours lib net)"

section \<open>Path encoding, decoded\<close>

text \<open>The standard decoding of percent escapes, as the server applies it.\<close>

definition hex_value :: "char \<Rightarrow> nat" where
  "hex_value c = (if is_ascii_digit c then scalar c - 48 else scalar c - 55)"

fun percent_decode :: "string \<Rightarrow> byte list" where
  "percent_decode [] = []"
| "percent_decode (c # s) =
     (if c = CHR ''%'' then
        (case s of
           h # l # rest \<Rightarrow> of_nat (16 * hex_value h + hex_value l) # percent_decode rest
         | _ \<Rightarrow> of_nat (scalar c) # percent_decode s)
      else of_nat (scalar c) # percent_decode s)"

lemma hex_value_digit: "n < 16 \<Longrightarrow> hex_value (hex_digit n) = n"
  by (auto simp: hex_value_def hex_digit_def is_ascii_digit_def)

lemma unreserved_char: "unreserved n \<Longrightarrow> n < 256 \<and> char_of n \<noteq> CHR ''%''"
proof -
  assume n: "unreserved n"
  then have "n < 256" "n \<noteq> 37" by (auto simp: unreserved_def)
  moreover have "scalar (char_of n) = n mod 256" "scalar CHR ''%'' = 37" by simp_all
  ultimately show ?thesis by (metis mod_less)
qed

lemma percent_decode_encode_byte: "percent_decode (encode_byte b @ s) = b # percent_decode s"
proof -
  have lt: "unat b < 256" using unsigned_less [of b] by simp
  have "16 * (unat b div 16) + unat b mod 16 = unat b" by simp
  then show ?thesis
    using lt unreserved_char [of "unat b"] hex_value_digit [of "unat b div 16"] hex_value_digit [of "unat b mod 16"]
    by (auto simp: encode_byte_def simp flip: of_nat_add of_nat_mult)
qed

lemma percent_decode_concat: "percent_decode (concat (map encode_byte bs)) = bs"
  by (induction bs) (simp_all add: percent_decode_encode_byte)

lemma encode_byte_chars:
  "c \<in> set (encode_byte b) \<Longrightarrow> c = CHR ''%'' \<or> unreserved (scalar c)"
proof -
  have "unat b < 256" using unsigned_less [of b] by simp
  then have "unat b div 16 < 16" by (simp add: less_mult_imp_div_less)
  moreover have "n < 16 \<Longrightarrow> unreserved (scalar (hex_digit n))" for n
    by (auto simp: hex_digit_def unreserved_def)
  moreover have "unat b mod 16 < 16" by simp
  ultimately show "c \<in> set (encode_byte b) \<Longrightarrow> ?thesis"
    using \<open>unat b < 256\<close> by (auto simp: encode_byte_def split: if_splits)
qed

section \<open>Polling, as the window's contract gives it\<close>

lemma poll_batch_observe:
  "recent.observe_all ms seen = (out, seen') \<Longrightarrow> length out \<le> room \<Longrightarrow>
     poll_batch room ms seen = (out, seen', False)"
proof (induction ms arbitrary: room seen out)
  case (Cons m ms)
  obtain b q where o: "remember_message m seen = (b, q)" by fastforce
  obtain out1 where rest: "recent.observe_all ms q = (out1, seen')"
    and out: "out = (if b then m # out1 else out1)"
    using Cons.prems(1) o by (auto simp: Let_def split: prod.splits)
  show ?case
  proof (cases b)
    case True
    then obtain room' where "room = Suc room'" using Cons.prems(2) out by (cases room) auto
    then show ?thesis using Cons True o rest out by simp
  next
    case False
    then show ?thesis using Cons o rest out by simp
  qed
qed simp

end
