(* ===== verification/Proto.thy ===== *)
theory Proto
  imports Json
begin

text \<open>
  \<^verbatim>\<open>proto/src/lib.rs\<close> and \<^verbatim>\<open>proto/src/event.rs\<close>: the envelope both sockets speak, its JSON form
  (the derived serde representation, tag \<^verbatim>\<open>type\<close>), the bridge's method allow-list and the typed
  view of bridge events.  The text layer below the JSON value is serde_json's; so is the
  positional array form that the derived decoder would accept besides the object form, which
  nothing here sends.
\<close>

record error_body =
  e_code :: string
  e_message :: string

datatype envelope =
    Req string string json
  | Res string bool "json option" "error_body option"
  | Event string json
  | Ping
  | Pong

definition PROTOCOL_VERSION :: string where
  "PROTOCOL_VERSION = ''imsg-bridge/v1''"

definition ALLOWED_METHODS :: "string list" where
  "ALLOWED_METHODS =
     [''status'', ''chats.list'', ''messages.history'', ''messages.after'', ''messages.search'',
      ''watch.ack'', ''attachments.fetch'', ''handles.check'']"

definition method_allowed :: "string \<Rightarrow> bool" where
  "method_allowed m \<longleftrightarrow> m \<in> set ALLOWED_METHODS"

section \<open>The JSON form\<close>

definition error_body_to_json :: "error_body \<Rightarrow> json" where
  "error_body_to_json e = mk_obj [(''code'', JStr (e_code e)), (''message'', JStr (e_message e))]"

fun envelope_to_json :: "envelope \<Rightarrow> json" where
  "envelope_to_json (Req i m p) =
     mk_obj [(''type'', JStr ''req''), (''id'', JStr i), (''method'', JStr m), (''params'', p)]"
| "envelope_to_json (Res i b r e) =
     mk_obj ([(''type'', JStr ''res''), (''id'', JStr i), (''ok'', JBool b)]
       @ (case r of None \<Rightarrow> [] | Some v \<Rightarrow> [(''result'', v)])
       @ (case e of None \<Rightarrow> [] | Some x \<Rightarrow> [(''error'', error_body_to_json x)]))"
| "envelope_to_json (Event t p) =
     mk_obj [(''type'', JStr ''event''), (''topic'', JStr t), (''payload'', p)]"
| "envelope_to_json Ping = mk_obj [(''type'', JStr ''ping'')]"
| "envelope_to_json Pong = mk_obj [(''type'', JStr ''pong'')]"

definition str_field :: "json \<Rightarrow> string \<Rightarrow> string option" where
  "str_field v k = Option.bind (json_get v k) as_str"

definition error_body_of_json :: "json \<Rightarrow> error_body option" where
  "error_body_of_json v =
     (case (str_field v ''code'', str_field v ''message'') of
        (Some c, Some m) \<Rightarrow> Some \<lparr> e_code = c, e_message = m \<rparr>
      | _ \<Rightarrow> None)"

text \<open>An optional member: absent and \<^verbatim>\<open>null\<close> are both no value; \<open>None\<close> is a decoding error.\<close>

definition opt_field :: "json \<Rightarrow> string \<Rightarrow> (json \<Rightarrow> 'a option) \<Rightarrow> 'a option option" where
  "opt_field v k f =
     (case json_get v k of
        None \<Rightarrow> Some None
      | Some x \<Rightarrow> if is_null x then Some None else map_option Some (f x))"

definition envelope_of_json :: "json \<Rightarrow> envelope option" where
  "envelope_of_json v =
     (case str_field v ''type'' of
        None \<Rightarrow> None
      | Some ty \<Rightarrow>
          if ty = ''req'' then
            (case (str_field v ''id'', str_field v ''method'') of
               (Some i, Some m) \<Rightarrow> Some (Req i m (unwrap_or (json_get v ''params'') JNull))
             | _ \<Rightarrow> None)
          else if ty = ''res'' then
            (case (str_field v ''id'', Option.bind (json_get v ''ok'') as_bool,
                   opt_field v ''result'' Some, opt_field v ''error'' error_body_of_json) of
               (Some i, Some b, Some r, Some e) \<Rightarrow> Some (Res i b r e)
             | _ \<Rightarrow> None)
          else if ty = ''event'' then
            (case (str_field v ''topic'', json_get v ''payload'') of
               (Some t, Some p) \<Rightarrow> Some (Event t p)
             | _ \<Rightarrow> None)
          else if ty = ''ping'' then Some Ping
          else if ty = ''pong'' then Some Pong
          else None)"

section \<open>Bridge events\<close>

datatype contacts_state = Unknown | Unavailable | Prompting | Granted

definition contacts_state_label :: "contacts_state \<Rightarrow> string" where
  "contacts_state_label c = (case c of
     Unknown \<Rightarrow> ''unknown'' | Unavailable \<Rightarrow> ''unavailable''
   | Prompting \<Rightarrow> ''prompting'' | Granted \<Rightarrow> ''granted'')"

definition contacts_state_of_label :: "string \<Rightarrow> contacts_state option" where
  "contacts_state_of_label s =
     (if s = ''unknown'' then Some Unknown
      else if s = ''unavailable'' then Some Unavailable
      else if s = ''prompting'' then Some Prompting
      else if s = ''granted'' then Some Granted
      else None)"

text \<open>The derived decoder of the enum: its label, or an object with the label as its only key.\<close>

fun contacts_state_of_json :: "json \<Rightarrow> contacts_state option" where
  "contacts_state_of_json (JStr s) = contacts_state_of_label s"
| "contacts_state_of_json (JObj [(s, JNull)]) = contacts_state_of_label s"
| "contacts_state_of_json _ = None"

definition contacts_state_from_payload :: "json \<Rightarrow> contacts_state" where
  "contacts_state_from_payload payload =
     unwrap_or (contacts_state_of_json (unwrap_or (json_get payload ''state'') payload)) Unknown"

datatype bridge_event =
    BMessage json
  | BDbGeneration string
  | BContacts contacts_state
  | BUnknown string

fun bridge_event_from_envelope :: "envelope \<Rightarrow> bridge_event option" where
  "bridge_event_from_envelope (Event topic payload) = Some
     (if topic = ''message'' then BMessage payload
      else if topic = ''db.generation'' then
        BDbGeneration (unwrap_or (Option.bind (json_get payload ''generation'') as_str) [])
      else if topic = ''contacts'' then BContacts (contacts_state_from_payload payload)
      else BUnknown topic)"
| "bridge_event_from_envelope _ = None"

section \<open>Facts\<close>

lemma str_field_mk_obj [json_simps]:
  "str_field (mk_obj kvs) k = Option.bind (map_of (rev kvs) k) as_str"
  by (simp add: str_field_def json_get_mk_obj)

lemma opt_field_mk_obj [json_simps]:
  "opt_field (mk_obj kvs) k f =
     (case map_of (rev kvs) k of
        None \<Rightarrow> Some None
      | Some x \<Rightarrow> if is_null x then Some None else map_option Some (f x))"
  by (simp add: opt_field_def json_get_mk_obj)

lemma error_body_roundtrip [simp]: "error_body_of_json (error_body_to_json e) = Some e"
  by (simp add: error_body_of_json_def error_body_to_json_def json_simps)

lemma error_body_to_json_not_null [simp]: "error_body_to_json e \<noteq> JNull"
  by (simp add: error_body_to_json_def mk_obj_def)

lemma contacts_state_label_roundtrip [simp]:
  "contacts_state_of_label (contacts_state_label c) = Some c"
  by (cases c) (simp_all add: contacts_state_label_def contacts_state_of_label_def)

lemma envelope_of_json_type:
  "envelope_of_json v = Some e \<Longrightarrow> is_object v"
  by (cases v) (auto simp: envelope_of_json_def str_field_def json_get_def)

end
