(* ===== verification/Sync_Contract.thy ===== *)
theory Sync_Contract
  imports Webhook Bb Proto Timestamp Cache_Contract
begin

text \<open>
  What the parts around the cache promise: the envelope codec, the contact book, dates, the
  BlueBubbles client and its polling, and the webhook endpoint.
\<close>

section \<open>The envelope\<close>

text \<open>An explicit \<^verbatim>\<open>null\<close> result is read back as no result.\<close>

fun envelope_norm :: "envelope \<Rightarrow> envelope" where
  "envelope_norm (Res i b (Some JNull) e) = Res i b None e"
| "envelope_norm env = env"

text \<open>C40: decoding the JSON form of an envelope gives the envelope back, whatever its kind, its
  params and its error body; only an explicit \<^verbatim>\<open>null\<close> result comes back as no result.\<close>

theorem envelope_roundtrip: "envelope_of_json (envelope_to_json env) = Some (envelope_norm env)"
proof (cases env)
  case (Res i b r e)
  show ?thesis
  proof (cases "r = Some JNull")
    case True
    then show ?thesis using Res by (cases e) (simp_all add: envelope_of_json_def json_simps)
  next
    case False
    then have "envelope_norm env = env"
      using Res by (cases env rule: envelope_norm.cases) auto
    then show ?thesis
      using Res False by (cases r; cases e) (simp_all add: envelope_of_json_def json_simps)
  qed
qed (simp_all add: envelope_of_json_def json_simps)

section \<open>The contact book\<close>

text \<open>recording a person name for an address makes it known under every address that shares
  one of its keys (a phone number with or without country code, an e-mail in any case): the name
  is the recorded one where the book had none.  Entries that exist never change, and lookups of
  unrelated addresses are not affected.\<close>

theorem record_then_lookup:
  assumes "is_person_name name" "trim a \<noteq> []"
  shows "(set (address_keys a) \<inter> set (address_keys b) \<noteq> {} \<longrightarrow>
            book_lookup (book_record a name book) b \<noteq> None
            \<and> (book_lookup book b = None \<longrightarrow> book_lookup (book_record a name book) b = Some name))
       \<and> (\<forall>k n. map_of (names book) k = Some n \<longrightarrow>
            map_of (names (book_record a name book)) k = Some n)
       \<and> (set (address_keys a) \<inter> set (address_keys b) = {} \<longrightarrow>
            book_lookup (book_record a name book) b = book_lookup book b)"
proof -
  let ?m = "map_of (names book)" and ?m' = "map_of (names (book_record a name book))"
  have m': "?m' k = (if k \<in> set (address_keys a) then Some (unwrap_or (?m k) name) else ?m k)" for k
    using assms by (simp add: book_record_key)
  have shared: "find_map ?m' ks \<noteq> None \<and> (find_map ?m ks = None \<longrightarrow> find_map ?m' ks = Some name)"
    if "set (address_keys a) \<inter> set ks \<noteq> {}" for ks
  proof -
    have "find_map ?m' ks \<noteq> None" using that by (auto simp: m')
    moreover have "find_map ?m ks = None \<Longrightarrow> find_map ?m' ks \<in> {None, Some name}"
      by (induction ks) (auto simp: m' simp del: find_map_None split: option.splits)
    ultimately show ?thesis by (cases "find_map ?m' ks") (auto simp del: find_map_None)
  qed
  have apart: "find_map ?m' ks = find_map ?m ks" if "set (address_keys a) \<inter> set ks = {}" for ks
    using that by (induction ks) (auto simp: m' split: option.splits)
  show ?thesis using shared apart by (simp add: book_lookup_def m')
qed

theorem record_then_lookup_witness:
  "is_person_name ''Ann Lee''
   \<and> book_lookup (book_record ''+1 (555) 123-4567'' ''Ann Lee'' empty_book) ''5551234567'' = Some ''Ann Lee''"
proof -
  have p: "is_person_name ''Ann Lee''" "trim ''+1 (555) 123-4567'' \<noteq> []" by code_simp+
  have "set (address_keys ''+1 (555) 123-4567'') \<inter> set (address_keys ''5551234567'') \<noteq> {}" by code_simp
  moreover have "book_lookup empty_book ''5551234567'' = None" by code_simp
  ultimately show ?thesis using record_then_lookup [OF p, of "''5551234567''" empty_book] p(1) by blast
qed

section \<open>Dates\<close>

text \<open>every date that is converted is a non-negative number of milliseconds in the range of
  \<^verbatim>\<open>i64\<close>, and a whole number of seconds up to ten thousand million is converted exactly: as Unix
  seconds above a thousand million, as seconds since 2001 below.\<close>

theorem dates_in_range_and_exact:
  "(\<forall>m. bb_to_unix_millis n = Some m \<longrightarrow> 0 \<le> m \<and> in_i64 m)
   \<and> (0 < secs \<and> secs \<le> 10000000000 \<longrightarrow> bb_to_unix_millis (Fin (of_int secs)) =
        Some (if 1000000000 < secs then secs * 1000 else (secs + 978307200) * 1000))"
  using bb_to_unix_millis_bounds bb_to_unix_millis_seconds by blast

theorem dates_in_range_and_exact_witness:
  "bb_to_unix_millis (Fin (of_int 700000000)) = Some 1678307200000"
  using dates_in_range_and_exact [of PInf 700000000] by simp

section \<open>The BlueBubbles client\<close>

text \<open>an encoded path segment contains only unreserved characters and percent signs, so neither
  a slash nor a query can be smuggled in by a guid, and percent decoding gives back its bytes.\<close>

theorem path_encode_safe:
  "percent_decode (path_encode s) = utf8 s
   \<and> (\<forall>c \<in> set (path_encode s). c = CHR ''%'' \<or> unreserved (scalar c))"
  using encode_byte_chars by (auto simp: path_encode_def percent_decode_concat)

theorem path_encode_safe_witness: "percent_decode (path_encode ''a/b'') = utf8 ''a/b''"
  using path_encode_safe [of "''a/b''"] by simp



text \<open>while no client is attached, every operation through the handle leaves it unchanged and
  makes no request: those that need the Mac answer \<^verbatim>\<open>LinkDown\<close>, marking read and clearing
  webhooks succeed without doing anything.\<close>

theorem detached_uplink:
  assumes "\<not> is_up s"
  shows "uplink_send_text lib net fmt now temp g text s = (Inl LinkDown, s)
       \<and> uplink_send_attachment lib net fmt image_file now temp g identifier path s = (Inl LinkDown, s)
       \<and> uplink_contact_book lib net s = (Inl LinkDown, s)
       \<and> uplink_webhook_replace lib net url s = (Inl LinkDown, s)
       \<and> uplink_mark_read lib net g s = (Inr (), s)
       \<and> uplink_webhook_clear_ours lib net s = (Inr (), s)"
  using assms
  by (simp add: is_up_def on_client_def uplink_send_text_def uplink_send_attachment_def
      uplink_contact_book_def uplink_webhook_replace_def uplink_mark_read_def uplink_webhook_clear_ours_def)

theorem detached_uplink_witness:
  "\<forall>lib net fmt now temp g t s. uplink_send_text lib net fmt now temp g t (detach s) = (Inl LinkDown, detach s)"
proof (intro allI)
  fix lib net fmt now temp g t and s :: "('a, 'b) uplink"
  have "\<not> is_up (detach s)" by (simp add: is_up_def detach_def)
  from detached_uplink [OF this]
  show "uplink_send_text lib net fmt now temp g t (detach s) = (Inl LinkDown, detach s)" by blast
qed

section \<open>The webhook endpoint\<close>

text \<open>C17: a request that is not a POST carrying the configured token is refused with 405 or 401 and
  changes nothing, not even the rate limit; an event is queued only by an authorised request whose
  body is at most 64 KiB of JSON naming a kind, it is the only one, it goes to the end of a
  queue with room, and the answer is 204.\<close>

theorem hook_guards_queue:
  assumes "handle_hook now req s = (st, s')"
  shows "(\<not> (hr_is_post req \<and> unwrap_or (hr_token req) [] = hk_token s) \<longrightarrow>
            s' = s \<and> st \<in> {METHOD_NOT_ALLOWED, UNAUTHORIZED})
       \<and> (hk_queue s' \<noteq> hk_queue s \<longrightarrow>
            st = NO_CONTENT \<and> hr_len req \<le> MAX_BODY \<and> length (hk_queue s) < hk_cap s
            \<and> (\<exists>body ev. hr_json req = Some body \<and> hk_queue s' = hk_queue s @ [ev]
                  \<and> he_kind ev = event_kind body \<and> event_kind body \<noteq> []
                  \<and> he_message_guid ev \<in> {None, extract_guid body}))"
  using assms
  by (auto simp: handle_hook_def accept_hook_def try_send_def token_matches_eq Let_def
      split: if_splits option.splits prod.splits bool.splits)

definition demo_hook :: "nat \<Rightarrow> hook_state" where
  "demo_hook n = \<lparr> hk_token = ''s3cret'', hk_hits = (0, n), hk_queue = [], hk_cap = 4, hk_open = True \<rparr>"

definition demo_hook_body :: json where
  "demo_hook_body = mk_obj [(''type'', JStr ''new-message''),
     (''data'', mk_obj [(''guid'', JStr '' G-1 '')])]"

definition demo_delivery :: "string \<Rightarrow> hook_request" where
  "demo_delivery token = \<lparr> hr_is_post = True, hr_token = Some token,
     hr_content_type = Some ''application/json'', hr_len = 60, hr_json = Some demo_hook_body \<rparr>"

lemma demo_hook_queued:
  "handle_hook 5 (demo_delivery ''s3cret'') (demo_hook 0) =
     (NO_CONTENT, (demo_hook 1)\<lparr>hk_queue := [\<lparr> he_kind = ''new-message'', he_message_guid = Some ''G-1'' \<rparr>]\<rparr>)"
  by code_simp

theorem hook_guards_queue_witness:
  "hk_queue (snd (handle_hook 5 (demo_delivery ''s3cret'') (demo_hook 0))) \<noteq> []
   \<and> handle_hook 5 (demo_delivery ''guess'') (demo_hook 0) = (UNAUTHORIZED, demo_hook 0)
   \<and> event_kind demo_hook_body \<noteq> []"
proof -
  have "handle_hook 5 (demo_delivery ''guess'') (demo_hook 0) = (UNAUTHORIZED, demo_hook 0)" by code_simp
  then show ?thesis
    using hook_guards_queue [OF demo_hook_queued] demo_hook_queued
    by (simp add: demo_hook_def demo_delivery_def)
qed

text \<open>however many deliveries arrive within ten seconds of the start of a rate window, at most
  forty of them are let through in it and hence queued, and the queue never outgrows its
  capacity.\<close>

theorem hook_rate_limited:
  assumes "serve_hooks reqs s = (sts, s')" "\<forall>(t, req) \<in> set reqs. t \<le> fst (hk_hits s) + RATE_WINDOW"
    and "snd (hk_hits s) \<le> RATE_MAX" "length (hk_queue s) \<le> hk_cap s"
  shows "length (hk_queue s') \<le> length (hk_queue s) + (RATE_MAX - snd (hk_hits s))
       \<and> length (hk_queue s') \<le> hk_cap s"
proof -
  have "fst (hk_hits s') = fst (hk_hits s) \<and> snd (hk_hits s') \<le> RATE_MAX
      \<and> length (hk_queue s') + snd (hk_hits s) \<le> length (hk_queue s) + snd (hk_hits s')
      \<and> length (hk_queue s') \<le> hk_cap s"
    using assms
  proof (induction reqs arbitrary: s sts)
    case (Cons tr reqs)
    obtain t req where tr: "tr = (t, req)" by (cases tr)
    obtain st s1 where 1: "handle_hook t req s = (st, s1)" by (cases "handle_hook t req s")
    obtain sts1 where rest: "serve_hooks reqs s1 = (sts1, s')"
      using Cons.prems(1) tr 1 by (auto simp: Let_def split: prod.splits)
    have t: "t \<le> fst (hk_hits s) + RATE_WINDOW" using Cons.prems(2) tr by auto
    note w = handle_hook_window [OF 1 t Cons.prems(3)]
    have "\<forall>(t, req) \<in> set reqs. t \<le> fst (hk_hits s1) + RATE_WINDOW"
      using Cons.prems(2) w by auto
    from Cons.IH [OF rest this] w Cons.prems(4) show ?case by auto
  qed simp
  then show ?thesis by linarith
qed

theorem hook_rate_limited_witness:
  "length (hk_queue (snd (serve_hooks [(5, demo_delivery ''s3cret''), (6, demo_delivery ''s3cret'')] (demo_hook 39)))) \<le> 1"
  using hook_rate_limited [of "[(5, demo_delivery ''s3cret''), (6, demo_delivery ''s3cret'')]" "demo_hook 39"]
  by (cases "serve_hooks [(5, demo_delivery ''s3cret''), (6, demo_delivery ''s3cret'')] (demo_hook 39)")
     (simp add: demo_hook_def RATE_WINDOW_def RATE_MAX_def)

end
