(* ===== verification/Store.thy ===== *)
theory Store
  imports Config
begin

text \<open>
  The settings store of \<^verbatim>\<open>sync/src/link/store.rs\<close> and \<^verbatim>\<open>sync/src/link/secret.rs\<close>, with the types
  of \<^verbatim>\<open>sync/src/link/mod.rs\<close> it works on.  The state is what the store context points at: the
  config file, the two entries of the keyring, whether the config file can be written, and the
  default paths.  TOML's text layer is outside: a config file is absent, unreadable, not TOML of
  the expected shape, or the \<open>file_in\<close> that parsing it gives.
\<close>

section \<open>Secrets\<close>

datatype password = Password string

fun password_str :: "password \<Rightarrow> string" where
  "password_str (Password s) = s"

definition password_new :: "string \<Rightarrow> message_text + password" where
  "password_new raw = (if trim raw = [] then Inl ''password is empty'' else Inr (Password raw))"

text \<open>A keyring entry: absent, present, or one that the keyring refuses to read and to write.\<close>

datatype key_cell = NoEntry | Entry string | Locked

fun load_keyring_named :: "key_cell \<Rightarrow> message_text + password option" where
  "load_keyring_named NoEntry = Inr None"
| "load_keyring_named (Entry raw) =
     (if trim raw = [] then Inr None else map_sum id Some (password_new raw))"
| "load_keyring_named Locked = Inl ''keyring load''"

fun store_keyring_named :: "password \<Rightarrow> key_cell \<Rightarrow> message_text + key_cell" where
  "store_keyring_named p Locked = Inl ''keyring store''"
| "store_keyring_named p _ = Inr (Entry (password_str p))"

section \<open>The config file\<close>

record file_in =
  fi_server_url :: "string option"
  fi_password :: "string option"
  fi_cache_path :: "string option"
  fi_socket_path :: "string option"
  fi_prefetch_chats :: "u32 option"
  fi_prefetch_messages :: "u32 option"
  fi_webhook_enabled :: bool
  fi_webhook_port :: "u16 option"
  fi_webhook_serve_url :: "string option"

record public_file =
  pf_server_url :: string
  pf_cache_path :: "string option"
  pf_socket_path :: "string option"
  pf_prefetch_chats :: "u32 option"
  pf_prefetch_messages :: "u32 option"
  pf_webhook_enabled :: bool
  pf_webhook_port :: "u16 option"
  pf_webhook_serve_url :: "string option"

definition public_file_from_in :: "file_in \<Rightarrow> public_file" where
  "public_file_from_in f =
     \<lparr> pf_server_url = unwrap_or (fi_server_url f) [],
       pf_cache_path = fi_cache_path f, pf_socket_path = fi_socket_path f,
       pf_prefetch_chats = fi_prefetch_chats f, pf_prefetch_messages = fi_prefetch_messages f,
       pf_webhook_enabled = fi_webhook_enabled f, pf_webhook_port = fi_webhook_port f,
       pf_webhook_serve_url = fi_webhook_serve_url f \<rparr>"

definition empty_public_file :: public_file where
  "empty_public_file =
     \<lparr> pf_server_url = [], pf_cache_path = None, pf_socket_path = None, pf_prefetch_chats = None,
       pf_prefetch_messages = None, pf_webhook_enabled = False, pf_webhook_port = None,
       pf_webhook_serve_url = None \<rparr>"

text \<open>What reading a written file gives: the two derived serde forms put one after the other.
  Members that are skipped when printed are the ones that default when read.\<close>

definition read_back :: "public_file \<Rightarrow> file_in" where
  "read_back p =
     \<lparr> fi_server_url = Some (pf_server_url p), fi_password = None,
       fi_cache_path = pf_cache_path p, fi_socket_path = pf_socket_path p,
       fi_prefetch_chats = pf_prefetch_chats p, fi_prefetch_messages = pf_prefetch_messages p,
       fi_webhook_enabled = pf_webhook_enabled p, fi_webhook_port = pf_webhook_port p,
       fi_webhook_serve_url = pf_webhook_serve_url p \<rparr>"

datatype config_cell = NoFile | Unreadable | Unparsable | File file_in

record store_ctx =
  sc_config :: config_cell
  sc_password :: key_cell
  sc_webhook :: key_cell
  sc_write_error :: "message_text option"
  sc_cache_path :: string
  sc_socket_path :: string

type_synonym 'a store_op = "(store_ctx, message_text, 'a) act"

text \<open>The file when it exists.\<close>

definition read_config :: "file_in option store_op" where
  "read_config s =
     ((case sc_config s of
         NoFile \<Rightarrow> Inr None
       | Unreadable \<Rightarrow> Inl ''read sync config''
       | Unparsable \<Rightarrow> Inl ''parse sync config''
       | File f \<Rightarrow> Inr (Some f)), s)"

definition write_public :: "public_file \<Rightarrow> unit store_op" where
  "write_public p s =
     (case sc_write_error s of
        Some m \<Rightarrow> (Inl m, s)
      | None \<Rightarrow> (Inr (), s\<lparr>sc_config := File (read_back p)\<rparr>))"

definition secret_load :: "password option store_op" where
  "secret_load s = (load_keyring_named (sc_password s), s)"

definition secret_store :: "password \<Rightarrow> unit store_op" where
  "secret_store p s =
     (case store_keyring_named p (sc_password s) of
        Inl m \<Rightarrow> (Inl m, s) | Inr c \<Rightarrow> (Inr (), s\<lparr>sc_password := c\<rparr>))"

definition secret_load_webhook :: "password option store_op" where
  "secret_load_webhook s = (load_keyring_named (sc_webhook s), s)"

definition secret_store_webhook :: "password \<Rightarrow> unit store_op" where
  "secret_store_webhook p s =
     (case store_keyring_named p (sc_webhook s) of
        Inl m \<Rightarrow> (Inl m, s) | Inr c \<Rightarrow> (Inr (), s\<lparr>sc_webhook := c\<rparr>))"

section \<open>The types of the link\<close>

record 'u public_config =
  pc_server :: "'u server_url"
  pc_cache_path :: string
  pc_socket_path :: string
  pc_prefetch_chats :: u32
  pc_prefetch_messages :: u32
  pc_webhook_enabled :: bool
  pc_webhook_port :: u16
  pc_webhook_serve_url :: string

record 'u credentials =
  cr_public :: "'u public_config"
  cr_secret :: password

datatype 'u provision = Empty | Ready "'u credentials"

datatype session_state = Unconfigured | Connecting | Live | Down

record public_view =
  pv_server_url :: "string option"
  pv_password_set :: bool
  pv_session :: session_state
  pv_webhook_enabled :: bool
  pv_webhook_port :: u16
  pv_webhook_serve_url :: string
  pv_webhook_listening :: bool
  pv_webhook_registered :: bool
  pv_webhook_token_set :: bool

datatype password_update = Keep | Set password

record 'u settings_draft =
  sd_server :: "'u server_url"
  sd_password :: password_update

record webhook_draft =
  wd_enabled :: bool
  wd_port :: u16
  wd_serve_url :: string

definition nonblank :: "string option \<Rightarrow> string option" where
  "nonblank v = opt_filter (\<lambda>s. s \<noteq> []) (map_option trim v)"

definition settings_draft_from_input ::
  "'u url_lib \<Rightarrow> string \<Rightarrow> string option \<Rightarrow> message_text + 'u settings_draft" where
  "settings_draft_from_input lib url password =
     (case coerce_server_url lib url of
        Inl m \<Rightarrow> Inl m
      | Inr server \<Rightarrow>
          (case nonblank password of
             None \<Rightarrow> Inr \<lparr> sd_server = server, sd_password = Keep \<rparr>
           | Some raw \<Rightarrow>
               map_sum id (\<lambda>p. \<lparr> sd_server = server, sd_password = Set p \<rparr>) (password_new raw)))"

section \<open>Operations\<close>

definition public_from_file :: "store_ctx \<Rightarrow> 'u server_url \<Rightarrow> file_in \<Rightarrow> 'u public_config" where
  "public_from_file ctx server f =
     \<lparr> pc_server = server,
       pc_cache_path = unwrap_or (fi_cache_path f) (sc_cache_path ctx),
       pc_socket_path = unwrap_or (fi_socket_path f) (sc_socket_path ctx),
       pc_prefetch_chats = unwrap_or (fi_prefetch_chats f) 40,
       pc_prefetch_messages = unwrap_or (fi_prefetch_messages f) 100,
       pc_webhook_enabled = fi_webhook_enabled f,
       pc_webhook_port = unwrap_or (fi_webhook_port f) DEFAULT_PORT,
       pc_webhook_serve_url = unwrap_or (fi_webhook_serve_url f) [] \<rparr>"

text \<open>A password written in the file moves to the keyring.\<close>

definition migrate_password :: "file_in \<Rightarrow> unit store_op" where
  "migrate_password f =
     (case nonblank (fi_password f) of
        None \<Rightarrow> ret ()
      | Some raw \<Rightarrow>
          andthen (of_result (password_new raw)) (\<lambda>p.
          andthen (secret_store p) (\<lambda>_.
          write_public (public_file_from_in f))))"

definition provision_from_file :: "'u url_lib \<Rightarrow> file_in \<Rightarrow> 'u provision store_op" where
  "provision_from_file lib f =
     (case nonblank (fi_server_url f) of
        None \<Rightarrow> ret Empty
      | Some raw_url \<Rightarrow>
          (case server_url_parse lib raw_url of
             Inl _ \<Rightarrow> ret Empty
           | Inr server \<Rightarrow>
               andthen secret_load (\<lambda>loaded.
                 case loaded of
                   None \<Rightarrow> ret Empty
                 | Some secret \<Rightarrow>
                     reads (\<lambda>ctx. Ready \<lparr> cr_public = public_from_file ctx server f, cr_secret = secret \<rparr>))))"

definition load :: "'u url_lib \<Rightarrow> 'u provision store_op" where
  "load lib =
     andthen read_config (\<lambda>found.
       case found of
         None \<Rightarrow> ret Empty
       | Some f \<Rightarrow> andthen (migrate_password f) (\<lambda>_. provision_from_file lib f))"

definition view_from_provision :: "'u url_lib \<Rightarrow> 'u provision \<Rightarrow> public_view" where
  "view_from_provision lib provision = (case provision of
       Empty \<Rightarrow>
         \<lparr> pv_server_url = None, pv_password_set = False, pv_session = Unconfigured,
           pv_webhook_enabled = False, pv_webhook_port = DEFAULT_PORT, pv_webhook_serve_url = [],
           pv_webhook_listening = False, pv_webhook_registered = False, pv_webhook_token_set = False \<rparr>
     | Ready creds \<Rightarrow>
         \<lparr> pv_server_url = Some (server_url_str lib (pc_server (cr_public creds))),
           pv_password_set = True, pv_session = Down,
           pv_webhook_enabled = pc_webhook_enabled (cr_public creds),
           pv_webhook_port = pc_webhook_port (cr_public creds),
           pv_webhook_serve_url = pc_webhook_serve_url (cr_public creds),
           pv_webhook_listening = False, pv_webhook_registered = False, pv_webhook_token_set = False \<rparr>)"

text \<open>The file both commits start from.\<close>

definition current_public :: "public_file store_op" where
  "current_public =
     andthen read_config (\<lambda>found. ret (case found of
       None \<Rightarrow> empty_public_file | Some f \<Rightarrow> public_file_from_in f))"

definition commit_password :: "password_update \<Rightarrow> unit store_op" where
  "commit_password u = (case u of
       Keep \<Rightarrow> andthen secret_load (\<lambda>loaded.
         if loaded = None then raise ''password is not set; provide a password'' else ret ())
     | Set p \<Rightarrow> secret_store p)"

definition commit :: "'u url_lib \<Rightarrow> 'u settings_draft \<Rightarrow> public_view store_op" where
  "commit lib draft =
     andthen (commit_password (sd_password draft)) (\<lambda>_.
     andthen current_public (\<lambda>public.
     andthen (write_public (public\<lparr>pf_server_url := server_url_str lib (sd_server draft)\<rparr>)) (\<lambda>_.
     andthen (load lib) (\<lambda>p.
     ret (view_from_provision lib p)))))"

definition password_set :: "bool store_op" where
  "password_set = andthen secret_load (\<lambda>v. ret (v \<noteq> None))"

definition peek_server_url :: "'u url_lib \<Rightarrow> 'u server_url option store_op" where
  "peek_server_url lib =
     andthen read_config (\<lambda>found.
       case Option.bind found (\<lambda>f. nonblank (fi_server_url f)) of
         None \<Rightarrow> ret None
       | Some raw \<Rightarrow> of_result (map_sum id Some (server_url_parse lib raw)))"

record webhook_snap =
  ws_enabled :: bool
  ws_port :: u16
  ws_serve_url :: string

text \<open>The derived \<^verbatim>\<open>Default\<close>, whose port is zero.\<close>

definition default_webhook_snap :: webhook_snap where
  "default_webhook_snap = \<lparr> ws_enabled = False, ws_port = 0, ws_serve_url = [] \<rparr>"

definition peek_webhook :: "webhook_snap store_op" where
  "peek_webhook =
     andthen read_config (\<lambda>found. ret (case found of
         None \<Rightarrow> \<lparr> ws_enabled = False, ws_port = DEFAULT_PORT, ws_serve_url = [] \<rparr>
       | Some f \<Rightarrow> \<lparr> ws_enabled = fi_webhook_enabled f,
                     ws_port = unwrap_or (fi_webhook_port f) DEFAULT_PORT,
                     ws_serve_url = unwrap_or (fi_webhook_serve_url f) [] \<rparr>))"

definition webhook_token_set :: "bool store_op" where
  "webhook_token_set = andthen secret_load_webhook (\<lambda>v. ret (v \<noteq> None))"

text \<open>\<open>fresh\<close> is what \<^verbatim>\<open>generate_token\<close> answers.\<close>

definition ensure_webhook_token :: "string \<Rightarrow> password store_op" where
  "ensure_webhook_token fresh =
     andthen secret_load_webhook (\<lambda>existing.
       case existing of
         Some p \<Rightarrow> ret p
       | None \<Rightarrow>
           andthen (of_result (password_new fresh)) (\<lambda>token.
           andthen (secret_store_webhook token) (\<lambda>_. ret token)))"

definition commit_webhook :: "'u url_lib \<Rightarrow> string \<Rightarrow> webhook_draft \<Rightarrow> public_view store_op" where
  "commit_webhook lib fresh draft =
     (if wd_port draft = 0 then raise ''webhook port must be non-zero''
      else
        andthen current_public (\<lambda>public.
        let serve = trim (wd_serve_url draft) in
        andthen (if wd_enabled draft then andthen (ensure_webhook_token fresh) (\<lambda>_. ret ()) else ret ()) (\<lambda>_.
        andthen (write_public (public\<lparr>
          pf_webhook_enabled := wd_enabled draft, pf_webhook_port := Some (wd_port draft),
          pf_webhook_serve_url := if serve = [] then None else Some serve\<rparr>)) (\<lambda>_.
        andthen (load lib) (\<lambda>p.
        ret (view_from_provision lib p))))))"

definition rotate_webhook_token :: "string \<Rightarrow> unit store_op" where
  "rotate_webhook_token fresh =
     andthen (of_result (password_new fresh)) (\<lambda>token. secret_store_webhook token)"

text \<open>\<open>tailscale\<close> is what the tailscale command answers.\<close>

definition webhook_copy_url :: "'u url_lib \<Rightarrow> string option \<Rightarrow> string \<Rightarrow> string store_op" where
  "webhook_copy_url lib serve_origin fresh =
     andthen peek_webhook (\<lambda>snap.
     let origin = (if trim (ws_serve_url snap) = []
           then unwrap_or serve_origin (''http://127.0.0.1:'' @ show_int (uint (ws_port snap)))
           else ws_serve_url snap) in
     andthen (ensure_webhook_token fresh) (\<lambda>token.
     of_result (hook_url lib origin (password_str token))))"

section \<open>The contract of a secret slot\<close>

text \<open>
  The password and the webhook token live in two entries of the same keyring, behind the same
  two operations: what is stored is loaded back, a load changes nothing, a failed store changes
  nothing.  On top of them, making sure that a secret is there.
\<close>

locale secret_slot =
  fixes slot_load :: "('s, 'e, 'p option) act"
    and slot_store :: "'p \<Rightarrow> ('s, 'e, unit) act"
    and valid :: "'p \<Rightarrow> bool"
  assumes load_pure: "snd (slot_load s) = s"
    and load_valid: "slot_load s = (Inr (Some p), s') \<Longrightarrow> valid p"
    and store_load: "valid p \<Longrightarrow> slot_store p s = (Inr (), s') \<Longrightarrow> slot_load s' = (Inr (Some p), s')"
    and store_failed: "slot_store p s = (Inl e, s') \<Longrightarrow> s' = s"
begin

definition ensure :: "'e + 'p \<Rightarrow> ('s, 'e, 'p) act" where
  "ensure fresh =
     andthen slot_load (\<lambda>existing.
       case existing of
         Some p \<Rightarrow> ret p
       | None \<Rightarrow> andthen (of_result fresh) (\<lambda>t. andthen (slot_store t) (\<lambda>_. ret t)))"

lemma load_state: "slot_load s = (r, s') \<Longrightarrow> s' = s"
  using load_pure [of s] by simp

text \<open>Once ensured, the secret stays the same, whatever is offered as a fresh one.\<close>

lemma ensure_loads:
  assumes "\<And>t. fresh = Inr t \<Longrightarrow> valid t" "ensure fresh s = (Inr p, s')"
  shows "slot_load s' = (Inr (Some p), s') \<and> valid p"
proof (cases "slot_load s")
  case (Pair r s1)
  have s1: "s1 = s" using load_state [OF Pair] .
  show ?thesis
    using assms Pair s1 store_load load_valid [of s p s]
    by (auto simp: ensure_def andthen_apply split: sum.splits option.splits prod.splits)
qed

lemma ensure_again:
  assumes "\<And>t. fresh = Inr t \<Longrightarrow> valid t" "ensure fresh s = (Inr p, s')"
  shows "ensure fresh' s' = (Inr p, s')"
  using ensure_loads [OF assms] by (simp add: ensure_def)

lemma ensure_failed: "ensure fresh s = (Inl e, s') \<Longrightarrow> s' = s"
  by (cases "slot_load s")
     (auto simp: ensure_def andthen_apply dest: load_state store_failed
       split: sum.splits option.splits prod.splits)

end

definition password_ok :: "password \<Rightarrow> bool" where
  "password_ok p \<longleftrightarrow> trim (password_str p) \<noteq> []"

lemma password_new_ok: "password_new raw = Inr p \<Longrightarrow> password_ok p"
  by (auto simp: password_new_def password_ok_def split: if_splits)

lemma load_keyring_named_ok: "load_keyring_named c = Inr (Some p) \<Longrightarrow> password_ok p"
  by (cases c) (auto simp: password_new_def password_ok_def split: if_splits)

lemma store_keyring_named_load:
  "password_ok p \<Longrightarrow> store_keyring_named p c = Inr c' \<Longrightarrow> load_keyring_named c' = Inr (Some p)"
  by (cases c; cases p) (auto simp: password_new_def password_ok_def)

interpretation password_slot: secret_slot secret_load secret_store password_ok
  by unfold_locales
     (auto simp: secret_load_def secret_store_def dest: load_keyring_named_ok
       intro: store_keyring_named_load split: sum.splits)

interpretation webhook_slot: secret_slot secret_load_webhook secret_store_webhook password_ok
  by unfold_locales
     (auto simp: secret_load_webhook_def secret_store_webhook_def dest: load_keyring_named_ok
       intro: store_keyring_named_load split: sum.splits)

lemma ensure_webhook_token_slot:
  "ensure_webhook_token fresh = webhook_slot.ensure (password_new fresh)"
  by (simp add: ensure_webhook_token_def webhook_slot.ensure_def cong: option.case_cong)

section \<open>How the operations run\<close>

lemma read_config_runs [simp]: "snd (read_config s) = s"
  by (simp add: read_config_def)

lemma read_config_File [simp]: "sc_config s = File f \<Longrightarrow> read_config s = (Inr (Some f), s)"
  by (simp add: read_config_def)

lemma write_public_runs:
  "write_public p s = (Inr (), s') \<longleftrightarrow> sc_write_error s = None \<and> s' = s\<lparr>sc_config := File (read_back p)\<rparr>"
  by (auto simp: write_public_def split: option.splits)

lemma secret_store_runs:
  "secret_store p s = (Inr (), s') \<longleftrightarrow>
     sc_password s \<noteq> Locked \<and> s' = s\<lparr>sc_password := Entry (password_str p)\<rparr>"
  by (cases "sc_password s") (auto simp: secret_store_def)

lemma read_back_no_password [simp]: "fi_password (read_back p) = None"
  by (simp add: read_back_def)

lemma nonblank_None [simp]: "nonblank None = None"
  by (simp add: nonblank_def)

lemma nonblank_password: "nonblank v = Some raw \<Longrightarrow> password_new raw = Inr (Password raw)"
  by (auto simp: nonblank_def password_new_def)

lemma migrate_password_None: "nonblank (fi_password f) = None \<Longrightarrow> migrate_password f s = (Inr (), s)"
  by (simp add: migrate_password_def)

lemma migrate_password_runs:
  "migrate_password f s = (Inr (), s') \<longleftrightarrow>
     (case nonblank (fi_password f) of
        None \<Rightarrow> s' = s
      | Some raw \<Rightarrow> sc_password s \<noteq> Locked \<and> sc_write_error s = None
          \<and> s' = s\<lparr>sc_password := Entry raw, sc_config := File (read_back (public_file_from_in f))\<rparr>)"
  by (auto simp: migrate_password_def andthen_eq_Inr secret_store_runs write_public_runs nonblank_password
      split: option.splits)

lemma provision_from_file_pure: "snd (provision_from_file lib f s) = s"
  by (auto simp: provision_from_file_def andthen_apply secret_load_def split: option.splits sum.splits)

lemma provision_from_file_state: "provision_from_file lib f s = (r, s') \<Longrightarrow> s' = s"
  using provision_from_file_pure [of lib f s] by simp

lemma load_File:
  "sc_config s = File f \<Longrightarrow> nonblank (fi_password f) = None \<Longrightarrow> load lib s = provision_from_file lib f s"
  by (simp add: load_def migrate_password_None)

text \<open>What a file decides besides its password, and what a provision made from it depends on.\<close>

lemma provision_from_file_cong:
  fixes lib :: "'u url_lib"
  assumes "nonblank (fi_server_url f) = nonblank (fi_server_url g)"
    and "sc_password s = sc_password t" "sc_cache_path s = sc_cache_path t" "sc_socket_path s = sc_socket_path t"
    and "\<And>server :: 'u server_url. public_from_file s server f = public_from_file t server g"
  shows "fst (provision_from_file lib f s) = fst (provision_from_file lib g t)"
  using assms
  by (auto simp: provision_from_file_def andthen_apply secret_load_def split: option.splits sum.splits)

lemma provision_from_file_unlocked:
  "sc_password s \<noteq> Locked \<Longrightarrow> \<exists>p. provision_from_file lib f s = (Inr p, s)"
  by (cases "sc_password s")
     (auto simp: provision_from_file_def andthen_apply secret_load_def password_new_def
       split: option.splits sum.splits)

lemma load_runs:
  assumes "load lib s = (Inr p, s')"
  shows "(sc_config s = NoFile \<and> p = Empty \<and> s' = s)
    \<or> (\<exists>f. sc_config s = File f \<and> nonblank (fi_password f) = None \<and> s' = s
         \<and> provision_from_file lib f s = (Inr p, s))
    \<or> (\<exists>f raw. sc_config s = File f \<and> nonblank (fi_password f) = Some raw
         \<and> s' = s\<lparr>sc_password := Entry raw, sc_config := File (read_back (public_file_from_in f))\<rparr>
         \<and> provision_from_file lib f s' = (Inr p, s'))"
proof (cases "sc_config s")
  case (File f)
  then have 1: "andthen (migrate_password f) (\<lambda>_. provision_from_file lib f) s = (Inr p, s')"
    using assms by (simp add: load_def)
  then obtain s1 where m: "migrate_password f s = (Inr (), s1)" and run: "provision_from_file lib f s1 = (Inr p, s')"
    by (auto simp: andthen_eq_Inr)
  have "s' = s1" using provision_from_file_state [OF run] .
  then show ?thesis
    using File m run by (auto simp: migrate_password_runs split: option.splits)
qed (use assms in \<open>auto simp: load_def read_config_def andthen_apply\<close>)

text \<open>Loading again what a load left gives the same.\<close>

lemma load_loaded: "load lib s = (Inr p, s') \<Longrightarrow> load lib s' = (Inr p, s')"
proof -
  assume l: "load lib s = (Inr p, s')"
  from load_runs [OF l] show ?thesis
  proof (elim disjE exE conjE)
    fix f raw
    assume s': "s' = s\<lparr>sc_password := Entry raw, sc_config := File (read_back (public_file_from_in f))\<rparr>"
      and run: "provision_from_file lib f s' = (Inr p, s')"
    let ?g = "read_back (public_file_from_in f)"
    have url: "nonblank (fi_server_url ?g) = nonblank (fi_server_url f)"
      by (cases "fi_server_url f") (simp_all add: read_back_def public_file_from_in_def nonblank_def trim_def
          trim_start_by_def trim_end_by_def)
    have "fst (provision_from_file lib ?g s') = fst (provision_from_file lib f s')"
      using url
      by (intro provision_from_file_cong) (simp_all add: public_from_file_def read_back_def public_file_from_in_def)
    then have "provision_from_file lib ?g s' = (Inr p, s')"
      using run provision_from_file_pure [of lib ?g s'] by (cases "provision_from_file lib ?g s'") simp
    then show ?thesis using s' by (simp add: load_File)
  qed (use l in auto)
qed

lemma current_public_runs:
  "current_public s = (Inr p, s') \<longleftrightarrow> s' = s \<and>
     (sc_config s = NoFile \<and> p = empty_public_file \<or> (\<exists>f. sc_config s = File f \<and> p = public_file_from_in f))"
  by (auto simp: current_public_def andthen_apply read_config_def split: config_cell.splits)

lemma commit_password_runs:
  "commit_password u s = (Inr (), s') \<longleftrightarrow>
     (case u of
        Keep \<Rightarrow> s' = s \<and> (\<exists>p. load_keyring_named (sc_password s) = Inr (Some p))
      | Set p \<Rightarrow> sc_password s \<noteq> Locked \<and> s' = s\<lparr>sc_password := Entry (password_str p)\<rparr>)"
  by (auto simp: commit_password_def secret_store_runs andthen_apply secret_load_def
      split: password_update.splits sum.splits if_splits)

lemma commit_password_unlocked: "commit_password u s = (Inr (), s') \<Longrightarrow> sc_password s \<noteq> Locked \<and> sc_password s' \<noteq> Locked"
  by (auto simp: commit_password_runs split: password_update.splits)

text \<open>The end of both commits: the file is written and read again.\<close>

lemma written_then_loaded:
  assumes "sc_password s \<noteq> Locked" "sc_write_error s = None"
  shows "\<exists>p. andthen (write_public pub) (\<lambda>_. andthen (load lib) (\<lambda>p. ret (view_from_provision lib p))) s
      = (Inr (view_from_provision lib p), s\<lparr>sc_config := File (read_back pub)\<rparr>)"
proof -
  let ?s = "s\<lparr>sc_config := File (read_back pub)\<rparr>"
  obtain p where "provision_from_file lib (read_back pub) ?s = (Inr p, ?s)"
    using provision_from_file_unlocked [of ?s lib "read_back pub"] assms(1) by auto
  then have "load lib ?s = (Inr p, ?s)" by (simp add: load_File)
  moreover have "write_public pub s = (Inr (), ?s)" using assms(2) by (simp add: write_public_runs)
  ultimately have "andthen (write_public pub) (\<lambda>_. andthen (load lib) (\<lambda>p. ret (view_from_provision lib p))) s
      = (Inr (view_from_provision lib p), ?s)" by simp
  then show ?thesis by blast
qed

lemma write_and_load_runs:
  assumes "sc_password s \<noteq> Locked"
  shows "(\<exists>v. andthen (write_public pub) (\<lambda>_. andthen (load lib) (\<lambda>p. ret (view_from_provision lib p))) s
      = (Inr v, s')) \<longleftrightarrow> sc_write_error s = None \<and> s' = s\<lparr>sc_config := File (read_back pub)\<rparr>"
  (is "?l \<longleftrightarrow> ?r")
proof
  assume l: ?l
  then have "sc_write_error s = None" by (auto simp: andthen_eq_Inr write_public_runs)
  then show ?r using written_then_loaded [OF assms, of pub lib] l by auto
qed (use written_then_loaded [OF assms, of pub lib] in auto)

lemma commit_password_frame:
  "commit_password u s = (Inr (), s') \<Longrightarrow> sc_write_error s' = sc_write_error s \<and> sc_config s' = sc_config s
     \<and> sc_webhook s' = sc_webhook s \<and> sc_password s' \<noteq> Locked"
  by (auto simp: commit_password_runs split: password_update.splits)

lemma commit_runs:
  "(\<exists>v. commit lib d s = (Inr v, s')) \<longleftrightarrow>
     (\<exists>s1 pub. commit_password (sd_password d) s = (Inr (), s1) \<and> current_public s1 = (Inr pub, s1)
        \<and> sc_write_error s = None
        \<and> s' = s1\<lparr>sc_config := File (read_back (pub\<lparr>pf_server_url := server_url_str lib (sd_server d)\<rparr>))\<rparr>)"
proof -
  let ?tail = "\<lambda>pub. andthen (write_public (pub\<lparr>pf_server_url := server_url_str lib (sd_server d)\<rparr>))
       (\<lambda>_. andthen (load lib) (\<lambda>p. ret (view_from_provision lib p)))"
  have "(\<exists>v. commit lib d s = (Inr v, s')) \<longleftrightarrow>
      (\<exists>s1 pub. commit_password (sd_password d) s = (Inr (), s1) \<and> current_public s1 = (Inr pub, s1)
         \<and> (\<exists>v. ?tail pub s1 = (Inr v, s')))"
    by (fastforce simp: commit_def andthen_eq_Inr current_public_runs)
  also have "\<dots> \<longleftrightarrow> (\<exists>s1 pub. commit_password (sd_password d) s = (Inr (), s1)
        \<and> current_public s1 = (Inr pub, s1) \<and> sc_write_error s = None
        \<and> s' = s1\<lparr>sc_config := File (read_back (pub\<lparr>pf_server_url := server_url_str lib (sd_server d)\<rparr>))\<rparr>)"
    by (intro ex_cong1 conj_cong refl) (simp add: write_and_load_runs commit_password_frame)
  finally show ?thesis .
qed

lemma commit_failed:
  assumes "commit lib d s = (Inl e, s')"
  shows "sc_config s' = sc_config s \<and> sc_webhook s' = sc_webhook s \<and> (sd_password d = Keep \<longrightarrow> s' = s)"
proof -
  obtain r s1 where 1: "commit_password (sd_password d) s = (r, s1)" by (cases "commit_password (sd_password d) s")
  have frame: "sc_config s1 = sc_config s \<and> sc_webhook s1 = sc_webhook s \<and> (sd_password d = Keep \<longrightarrow> s1 = s)"
    using 1 by (auto simp: commit_password_def secret_store_def secret_load_def andthen_apply
        split: password_update.splits sum.splits if_splits)
  have "s' = s1"
  proof (cases r)
    case (Inl m)
    then show ?thesis using assms 1 by (simp add: commit_def)
  next
    case (Inr u)
    obtain c s2 where 2: "current_public s1 = (c, s2)" by (cases "current_public s1")
    have s2: "s2 = s1" using 2 by (auto simp: current_public_def andthen_apply read_config_def
          split: config_cell.splits)
    show ?thesis
    proof (cases c)
      case (Inl m)
      then show ?thesis using assms 1 2 s2 Inr by (simp add: commit_def)
    next
      case (Inr pub)
      let ?pub = "pub\<lparr>pf_server_url := server_url_str lib (sd_server d)\<rparr>"
      have tail: "andthen (write_public ?pub) (\<lambda>_. andthen (load lib) (\<lambda>p. ret (view_from_provision lib p))) s1
          = (Inl e, s')"
        using assms 1 2 s2 Inr \<open>r = Inr u\<close> by (simp add: commit_def)
      have "sc_write_error s1 \<noteq> None"
        using tail written_then_loaded [of s1 ?pub lib] commit_password_unlocked [of "sd_password d" s s1] 1
          \<open>r = Inr u\<close> by (cases "sc_write_error s1") auto
      then show ?thesis using tail by (auto simp: write_public_def andthen_apply)
    qed
  qed
  then show ?thesis using frame by simp
qed

definition token_step :: "string \<Rightarrow> bool \<Rightarrow> unit store_op" where
  "token_step fresh enabled =
     (if enabled then andthen (ensure_webhook_token fresh) (\<lambda>_. ret ()) else ret ())"

lemma ensure_webhook_token_runs:
  "ensure_webhook_token fresh s = (Inr p, s') \<longleftrightarrow>
     load_keyring_named (sc_webhook s) = Inr (Some p) \<and> s' = s
     \<or> load_keyring_named (sc_webhook s) = Inr None \<and> password_new fresh = Inr p
        \<and> s' = s\<lparr>sc_webhook := Entry (password_str p)\<rparr>"
  by (cases "sc_webhook s")
     (auto simp: ensure_webhook_token_def andthen_apply secret_load_webhook_def secret_store_webhook_def
       password_new_def)

lemma token_step_runs:
  "token_step fresh enabled s = (Inr (), s') \<longleftrightarrow>
     (if enabled then \<exists>p. ensure_webhook_token fresh s = (Inr p, s') else s' = s)"
  by (auto simp: token_step_def andthen_eq_Inr)

lemma token_step_frame:
  "token_step fresh enabled s = (Inr (), s') \<Longrightarrow> sc_write_error s' = sc_write_error s
     \<and> sc_config s' = sc_config s \<and> sc_password s' = sc_password s"
  by (auto simp: token_step_runs ensure_webhook_token_runs split: if_splits)

definition webhook_settings :: "webhook_draft \<Rightarrow> public_file \<Rightarrow> public_file" where
  "webhook_settings w pub = pub\<lparr>
     pf_webhook_enabled := wd_enabled w, pf_webhook_port := Some (wd_port w),
     pf_webhook_serve_url := if trim (wd_serve_url w) = [] then None else Some (trim (wd_serve_url w))\<rparr>"

lemma webhook_settings_url:
  "webhook_settings w (pub\<lparr>pf_server_url := u\<rparr>) = (webhook_settings w pub)\<lparr>pf_server_url := u\<rparr>"
  by (rule public_file.equality) (simp_all add: webhook_settings_def)

lemma commit_webhook_runs:
  assumes "sc_password s \<noteq> Locked"
  shows "(\<exists>v. commit_webhook lib fresh w s = (Inr v, s')) \<longleftrightarrow>
     wd_port w \<noteq> 0 \<and> (\<exists>s1 pub. current_public s = (Inr pub, s) \<and> token_step fresh (wd_enabled w) s = (Inr (), s1)
        \<and> sc_write_error s = None \<and> s' = s1\<lparr>sc_config := File (read_back (webhook_settings w pub))\<rparr>)"
proof (cases "wd_port w = 0")
  case False
  let ?tail = "\<lambda>pub. andthen (write_public (webhook_settings w pub))
       (\<lambda>_. andthen (load lib) (\<lambda>p. ret (view_from_provision lib p)))"
  have "(\<exists>v. commit_webhook lib fresh w s = (Inr v, s')) \<longleftrightarrow>
      (\<exists>s1 pub. current_public s = (Inr pub, s) \<and> token_step fresh (wd_enabled w) s = (Inr (), s1)
         \<and> (\<exists>v. ?tail pub s1 = (Inr v, s')))"
    using False
    by (fastforce simp: commit_webhook_def andthen_eq_Inr [of current_public] andthen_eq_Inr [of "token_step _ _"]
        current_public_runs Let_def token_step_def [symmetric] webhook_settings_def [symmetric])
  also have "\<dots> \<longleftrightarrow> (\<exists>s1 pub. current_public s = (Inr pub, s) \<and> token_step fresh (wd_enabled w) s = (Inr (), s1)
        \<and> sc_write_error s = None \<and> s' = s1\<lparr>sc_config := File (read_back (webhook_settings w pub))\<rparr>)"
    using assms
    by (intro ex_cong1 conj_cong refl)
       (subst write_and_load_runs; simp add: token_step_frame)
  finally show ?thesis using False by simp
qed (simp add: commit_webhook_def)

end
