(* ===== verification/Store_Contract.thy ===== *)
theory Store_Contract
  imports Store
begin

text \<open>
  What the settings store promises to its clients.  For the concrete instances, a small url
  library on texts: URLs are the http ones, written as they are.
\<close>

definition demo_lib :: "string url_lib" where
  "demo_lib =
     \<lparr> url_parse = (\<lambda>s. if starts_with s ''http://'' \<and> length s > 7 then Some s else None),
       url_scheme = (\<lambda>u. ''http''), url_host_str = (\<lambda>u. Some (drop 7 u)), url_as_str = (\<lambda>u. u),
       url_port = (\<lambda>u. None), url_set_port = (\<lambda>p u. u @ '':'' @ show_int (uint p)),
       url_join = (\<lambda>u path. Some (u @ ''/'' @ path)), url_set_path = (\<lambda>path u. u @ ''/'' @ path),
       url_clear_query = (\<lambda>u. u), url_append_pair = (\<lambda>k v u. u @ ''?'' @ k @ ''='' @ v) \<rparr>"

definition demo_file :: "string option \<Rightarrow> file_in" where
  "demo_file password =
     \<lparr> fi_server_url = Some ''http://mac:1234'', fi_password = password, fi_cache_path = None,
       fi_socket_path = None, fi_prefetch_chats = Some 20, fi_prefetch_messages = None,
       fi_webhook_enabled = False, fi_webhook_port = None, fi_webhook_serve_url = None \<rparr>"

definition demo_store :: "config_cell \<Rightarrow> key_cell \<Rightarrow> store_ctx" where
  "demo_store config key =
     \<lparr> sc_config = config, sc_password = key, sc_webhook = NoEntry, sc_write_error = None,
       sc_cache_path = ''cache.db'', sc_socket_path = ''imsg.sock'' \<rparr>"

definition demo_creds :: "string \<Rightarrow> string credentials" where
  "demo_creds secret =
     \<lparr> cr_public = \<lparr> pc_server = ServerUrl ''http://mac:1234'', pc_cache_path = ''cache.db'',
         pc_socket_path = ''imsg.sock'', pc_prefetch_chats = 20, pc_prefetch_messages = 100,
         pc_webhook_enabled = False, pc_webhook_port = DEFAULT_PORT, pc_webhook_serve_url = [] \<rparr>,
       cr_secret = Password secret \<rparr>"

lemma demo_load:
  "load demo_lib (demo_store (File (demo_file (Some '' hunter2 ''))) NoEntry) =
     (Inr (Ready (demo_creds ''hunter2'')), demo_store (File (demo_file None)) (Entry ''hunter2''))"
  "load demo_lib (demo_store (File (demo_file None)) (Entry ''hunter2'')) =
     (Inr (Ready (demo_creds ''hunter2'')), demo_store (File (demo_file None)) (Entry ''hunter2''))"
  by code_simp+

text \<open>C33: a successful load leaves no password in the config file (one that was written there has
  moved to the keyring, trimmed, and is the secret of the provision), touches neither the webhook
  token nor the other settings, and a second load changes nothing and gives the same provision.\<close>

theorem load_migrates_password:
  assumes "load lib s = (Inr p, s')"
  shows "(\<forall>f. sc_config s' = File f \<longrightarrow> nonblank (fi_password f) = None)
       \<and> (\<forall>f raw. sc_config s = File f \<and> nonblank (fi_password f) = Some raw \<longrightarrow>
            sc_password s' = Entry raw \<and> (\<forall>creds. p = Ready creds \<longrightarrow> cr_secret creds = Password raw))
       \<and> sc_webhook s' = sc_webhook s
       \<and> (\<forall>f. sc_config s = File f \<longrightarrow> (\<exists>f'. sc_config s' = File f' \<and> public_file_from_in f' = public_file_from_in f))
       \<and> load lib s' = (Inr p, s')"
  using load_runs [OF assms]
proof (elim disjE exE conjE)
  fix f raw
  assume f: "sc_config s = File f" and raw: "nonblank (fi_password f) = Some raw"
    and s': "s' = s\<lparr>sc_password := Entry raw, sc_config := File (read_back (public_file_from_in f))\<rparr>"
    and run: "provision_from_file lib f s' = (Inr p, s')"
  have secret: "cr_secret creds = Password raw" if "p = Ready creds" for creds
    using run that nonblank_password [OF raw] s' raw
    by (auto simp: provision_from_file_def andthen_apply secret_load_def nonblank_def
        split: option.splits sum.splits if_splits)
  show ?thesis
    using f raw s' load_loaded [OF assms] secret by (auto simp: read_back_def public_file_from_in_def)
qed (use assms in auto)

theorem load_migrates_password_witness:
  "sc_config (snd (load demo_lib (demo_store (File (demo_file (Some '' hunter2 ''))) NoEntry))) = File (demo_file None)
   \<and> sc_password (snd (load demo_lib (demo_store (File (demo_file (Some '' hunter2 ''))) NoEntry))) = Entry ''hunter2''"
proof -
  have "nonblank (fi_password (demo_file (Some '' hunter2 ''))) = Some ''hunter2''" by code_simp
  moreover have "sc_config (demo_store (File (demo_file (Some '' hunter2 ''))) NoEntry) = File (demo_file (Some '' hunter2 ''))"
    by (simp add: demo_store_def)
  ultimately have "sc_password (demo_store (File (demo_file None)) (Entry ''hunter2'')) = Entry ''hunter2''"
    using load_migrates_password [OF demo_load(1)] by blast
  then show ?thesis unfolding demo_load(1) by (simp add: demo_store_def)
qed

text \<open>C34: a successful commit of the connection settings writes exactly the server URL: every other
  setting of the file, the webhook token and, when the password is kept, the secret are as they
  were; a new password is the one in the keyring; the answered view is that of the settings
  just written.  A commit that fails leaves the file and the token alone, and everything when
  the password is kept.\<close>

theorem commit_contract:
  "(commit lib d s = (Inr v, s') \<longrightarrow>
      (\<exists>pub. current_public s = (Inr pub, s)
         \<and> sc_config s' = File (read_back (pub\<lparr>pf_server_url := server_url_str lib (sd_server d)\<rparr>)))
      \<and> sc_webhook s' = sc_webhook s
      \<and> (case sd_password d of
            Keep \<Rightarrow> sc_password s' = sc_password s \<and> sc_password s \<noteq> NoEntry
          | Set p \<Rightarrow> sc_password s' = Entry (password_str p))
      \<and> (\<exists>p. load lib s' = (Inr p, s') \<and> v = view_from_provision lib p))
   \<and> (commit lib d s = (Inl e, s') \<longrightarrow>
      sc_config s' = sc_config s \<and> sc_webhook s' = sc_webhook s \<and> (sd_password d = Keep \<longrightarrow> s' = s))"
proof (intro conjI impI)
  assume ok: "commit lib d s = (Inr v, s')"
  then obtain s1 pub where 1: "commit_password (sd_password d) s = (Inr (), s1)"
    and 2: "current_public s1 = (Inr pub, s1)"
    and s': "s' = s1\<lparr>sc_config := File (read_back (pub\<lparr>pf_server_url := server_url_str lib (sd_server d)\<rparr>))\<rparr>"
    using commit_runs [of lib d s s'] by blast
  note frame = commit_password_frame [OF 1]
  have "current_public s = (Inr pub, s)" using 2 frame by (simp add: current_public_runs)
  then show "\<exists>pub. current_public s = (Inr pub, s)
      \<and> sc_config s' = File (read_back (pub\<lparr>pf_server_url := server_url_str lib (sd_server d)\<rparr>))"
    using s' by auto
  show "sc_webhook s' = sc_webhook s" using s' frame by simp
  show "case sd_password d of Keep \<Rightarrow> sc_password s' = sc_password s \<and> sc_password s \<noteq> NoEntry
      | Set p \<Rightarrow> sc_password s' = Entry (password_str p)"
    using 1 s' by (auto simp: commit_password_runs split: password_update.splits)
  obtain p s2 where "load lib s2 = (Inr p, s')" and v: "v = view_from_provision lib p"
    using ok by (auto simp: commit_def andthen_eq_Inr)
  then show "\<exists>p. load lib s' = (Inr p, s') \<and> v = view_from_provision lib p"
    using v load_loaded by blast
next
  assume "commit lib d s = (Inl e, s')"
  then show "sc_config s' = sc_config s" "sc_webhook s' = sc_webhook s" "sd_password d = Keep \<Longrightarrow> s' = s"
    using commit_failed by blast+
qed

definition demo_draft :: "string settings_draft" where
  "demo_draft = \<lparr> sd_server = ServerUrl ''http://mac2:1234/'', sd_password = Keep \<rparr>"

definition demo_webhook :: webhook_draft where
  "demo_webhook = \<lparr> wd_enabled = True, wd_port = 9000, wd_serve_url = '' http://pc '' \<rparr>"

definition demo_committed :: file_in where
  "demo_committed = (demo_file None)\<lparr>fi_server_url := Some ''http://mac2:1234''\<rparr>"

lemma demo_commit:
  "snd (commit demo_lib demo_draft (demo_store (File (demo_file None)) (Entry ''hunter2''))) =
     demo_store (File demo_committed) (Entry ''hunter2'')"
  "pv_server_url (projr (fst (commit demo_lib demo_draft (demo_store (File (demo_file None)) (Entry ''hunter2''))))) =
     Some ''http://mac2:1234''"
  "isl (fst (commit demo_lib demo_draft (demo_store (File (demo_file None)) (Entry ''hunter2'')))) = False"
  by code_simp+

theorem commit_contract_witness:
  "\<exists>pub. current_public (demo_store (File (demo_file None)) (Entry ''hunter2'')) = (Inr pub, demo_store (File (demo_file None)) (Entry ''hunter2''))
     \<and> File demo_committed = File (read_back (pub\<lparr>pf_server_url := ''http://mac2:1234''\<rparr>))"
proof -
  let ?s = "demo_store (File (demo_file None)) (Entry ''hunter2'')"
  obtain v where run: "commit demo_lib demo_draft ?s = (Inr v, demo_store (File demo_committed) (Entry ''hunter2''))"
    using demo_commit by (cases "commit demo_lib demo_draft ?s"; cases "fst (commit demo_lib demo_draft ?s)") auto
  have url: "server_url_str demo_lib (sd_server demo_draft) = ''http://mac2:1234''" by code_simp
  have cfg: "sc_config (demo_store (File demo_committed) (Entry ''hunter2'')) = File demo_committed"
    by (simp add: demo_store_def)
  show ?thesis
    using commit_contract [of demo_lib demo_draft ?s v "demo_store (File demo_committed) (Entry ''hunter2'')" undefined]
      run url cfg by auto
qed

text \<open>the two commits do not interfere: committing connection settings and then webhook settings
  leaves the store exactly as the other order does, and whenever the first order succeeds so does
  the second.\<close>

theorem commits_commute:
  assumes "commit lib d s = (Inr v, s1)" "commit_webhook lib fresh w s1 = (Inr v', s2)"
  shows "\<exists>u u' t. commit_webhook lib fresh w s = (Inr u, t) \<and> commit lib d t = (Inr u', s2)"
proof -
  obtain k pub where c: "commit_password (sd_password d) s = (Inr (), k)" "current_public k = (Inr pub, k)"
    "sc_write_error s = None"
    and s1: "s1 = k\<lparr>sc_config := File (read_back (pub\<lparr>pf_server_url := server_url_str lib (sd_server d)\<rparr>))\<rparr>"
    using assms(1) commit_runs [of lib d s s1] by blast
  note frame = commit_password_frame [OF c(1)]
  have "sc_password s1 \<noteq> Locked" using s1 frame by simp
  then obtain k2 pub2 where w: "wd_port w \<noteq> 0" "current_public s1 = (Inr pub2, s1)"
    "token_step fresh (wd_enabled w) s1 = (Inr (), k2)"
    and s2: "s2 = k2\<lparr>sc_config := File (read_back (webhook_settings w pub2))\<rparr>"
    using assms(2) commit_webhook_runs [of s1 lib fresh w s2] by blast
  have pub2: "pub2 = pub\<lparr>pf_server_url := server_url_str lib (sd_server d)\<rparr>"
    using w(2) s1 by (simp add: current_public_runs public_file_from_in_def read_back_def)
  have tok: "token_step fresh (wd_enabled w) s = (Inr (), s\<lparr>sc_webhook := sc_webhook k2\<rparr>)"
    using w(3) s1 frame
    by (auto simp: token_step_runs ensure_webhook_token_runs split: if_splits)
  have pub: "current_public s = (Inr pub, s)" using c(2) frame by (simp add: current_public_runs)
  let ?t = "s\<lparr>sc_webhook := sc_webhook k2, sc_config := File (read_back (webhook_settings w pub))\<rparr>"
  have "sc_password s \<noteq> Locked" using c(1) commit_password_unlocked by blast
  then obtain u where 1: "commit_webhook lib fresh w s = (Inr u, ?t)"
    using commit_webhook_runs [of s lib fresh w ?t] w(1) pub tok c(3) by auto
  let ?k = "k\<lparr>sc_webhook := sc_webhook k2, sc_config := File (read_back (webhook_settings w pub))\<rparr>"
  have "commit_password (sd_password d) ?t = (Inr (), ?k)"
    using c(1) by (auto simp: commit_password_runs split: password_update.splits)
  moreover have "current_public ?k = (Inr (webhook_settings w pub), ?k)"
    by (simp add: current_public_runs public_file_from_in_def read_back_def)
  moreover have "s2 = ?k\<lparr>sc_config := File (read_back ((webhook_settings w pub)\<lparr>pf_server_url := server_url_str lib (sd_server d)\<rparr>))\<rparr>"
    using s2 s1 pub2 w(3)
    by (auto simp: webhook_settings_url token_step_runs ensure_webhook_token_runs split: if_splits)
  ultimately have "\<exists>u'. commit lib d ?t = (Inr u', s2)"
    using commit_runs [of lib d ?t s2] c(3) by auto
  then show ?thesis using 1 by blast
qed

theorem commits_commute_witness:
  "\<exists>u u' t. commit_webhook demo_lib ''tok'' demo_webhook (demo_store (File (demo_file None)) (Entry ''hunter2'')) = (Inr u, t)
     \<and> commit demo_lib demo_draft t = (Inr u', snd (commit_webhook demo_lib ''tok'' demo_webhook
          (demo_store (File demo_committed) (Entry ''hunter2''))))"
proof -
  let ?s = "demo_store (File (demo_file None)) (Entry ''hunter2'')"
  let ?s1 = "demo_store (File demo_committed) (Entry ''hunter2'')"
  obtain v where 1: "commit demo_lib demo_draft ?s = (Inr v, ?s1)"
    using demo_commit by (cases "commit demo_lib demo_draft ?s"; cases "fst (commit demo_lib demo_draft ?s)") auto
  have "isl (fst (commit_webhook demo_lib ''tok'' demo_webhook ?s1)) = False" by code_simp
  then obtain v' where 2: "commit_webhook demo_lib ''tok'' demo_webhook ?s1 =
      (Inr v', snd (commit_webhook demo_lib ''tok'' demo_webhook ?s1))"
    by (cases "commit_webhook demo_lib ''tok'' demo_webhook ?s1";
        cases "fst (commit_webhook demo_lib ''tok'' demo_webhook ?s1)") auto
  show ?thesis using commits_commute [OF 1 2] by blast
qed

text \<open>A stored token is what every later use gets.\<close>

lemma ensured_iff: "(\<forall>x. ensure_webhook_token x s = (Inr p, s)) \<longleftrightarrow> load_keyring_named (sc_webhook s) = Inr (Some p)"
proof
  assume "\<forall>x. ensure_webhook_token x s = (Inr p, s)"
  then have "ensure_webhook_token [] s = (Inr p, s)" by blast
  moreover have "trim [] = []" by code_simp
  then have "password_new [] \<noteq> Inr p" by (simp add: password_new_def)
  ultimately show "load_keyring_named (sc_webhook s) = Inr (Some p)" by (auto simp: ensure_webhook_token_runs)
qed (simp add: ensure_webhook_token_runs)

lemma ensured:
  assumes "ensure_webhook_token fresh s = (Inr p, s')"
  shows "load_keyring_named (sc_webhook s') = Inr (Some p)" "password_ok p"
    "load_keyring_named (sc_webhook s) = Inr (if load_keyring_named (sc_webhook s) = Inr None then None else Some p)"
    "load_keyring_named (sc_webhook s) = Inr None \<Longrightarrow> p = Password fresh"
proof -
  have v: "\<And>t. password_new fresh = Inr t \<Longrightarrow> password_ok t" by (rule password_new_ok)
  note slot = assms [unfolded ensure_webhook_token_slot]
  show "load_keyring_named (sc_webhook s') = Inr (Some p)" "password_ok p"
    using webhook_slot.ensure_loads [OF v slot] by (simp_all add: secret_load_webhook_def)
  show "load_keyring_named (sc_webhook s) = Inr (if load_keyring_named (sc_webhook s) = Inr None then None else Some p)"
    using assms by (auto simp: ensure_webhook_token_runs)
  show "p = Password fresh" if "load_keyring_named (sc_webhook s) = Inr None"
    using assms that by (auto simp: ensure_webhook_token_runs password_new_def split: if_splits)
qed

lemma commit_webhook_token:
  assumes "commit_webhook lib fresh w s = (Inr v, s')"
  shows "if wd_enabled w then \<exists>p s1. ensure_webhook_token fresh s = (Inr p, s1) \<and> sc_webhook s' = sc_webhook s1
     else sc_webhook s' = sc_webhook s"
proof -
  obtain pub s1 s2 q where "token_step fresh (wd_enabled w) s = (Inr (), s1)"
      "write_public (webhook_settings w pub) s1 = (Inr (), s2)" "load lib s2 = (Inr q, s')"
    using assms by (fastforce simp: commit_webhook_def andthen_eq_Inr current_public_runs Let_def token_step_def [symmetric]
        webhook_settings_def [symmetric] split: if_splits)
  moreover from this have "sc_webhook s' = sc_webhook s2" using load_runs [of lib s2 q s'] by auto
  ultimately show ?thesis by (auto simp: token_step_runs write_public_runs)
qed

lemma copied_url:
  assumes "webhook_copy_url lib origin fresh s = (Inr url, s')"
  shows "\<exists>p out. ensure_webhook_token fresh s = (Inr p, s') \<and> hook_url lib out (password_str p) = Inr url
     \<and> (\<forall>x. webhook_copy_url lib origin x s' = (Inr url, s'))"
proof -
  obtain snap p where snap: "peek_webhook s = (Inr snap, s)" and p: "ensure_webhook_token fresh s = (Inr p, s')"
      and url: "hook_url lib (if trim (ws_serve_url snap) = []
           then unwrap_or origin (''http://127.0.0.1:'' @ show_int (uint (ws_port snap)))
           else ws_serve_url snap) (password_str p) = Inr url"
    using assms by (auto simp: webhook_copy_url_def andthen_eq_Inr Let_def peek_webhook_def read_config_def)
  have "sc_config s' = sc_config s" using p by (auto simp: ensure_webhook_token_runs)
  then have "peek_webhook s' = (Inr snap, s')" using snap
    by (cases "sc_config s") (auto simp: peek_webhook_def andthen_apply read_config_def ret_def)
  moreover have "ensure_webhook_token x s' = (Inr p, s')" for x
    using ensured(1) [OF p] by (simp add: ensure_webhook_token_runs)
  ultimately have "webhook_copy_url lib origin x s' = (Inr url, s')" for x
    using url by (simp add: webhook_copy_url_def andthen_apply of_result_def)
  then show ?thesis using p url by blast
qed

text \<open>C35: the webhook's token.  Enabling the webhook in the settings makes sure of one, the old one when there was
  one and the fresh one otherwise, and every later call of \<^verbatim>\<open>ensure_webhook_token\<close> (the copied URL makes one, and
  \<open>live_webhook\<close> when the endpoint starts) gets that one and changes nothing; settings that do not enable
  the webhook leave the token as it was.  A copied URL carries the stored token, a new one when there was
  none, and copying again gives the same URL.  Rotating replaces the token by the fresh one for every later call, and leaves
  the file and the password alone.\<close>

theorem webhook_token_contract:
  fixes s :: store_ctx
  defines "every_use \<equiv> \<lambda>s' p. \<forall>x. ensure_webhook_token x s' = (Inr p, s')"
    and "old_or \<equiv> \<lambda>fresh p. case load_keyring_named (sc_webhook s) of
           Inr (Some q) \<Rightarrow> p = q | Inr None \<Rightarrow> p = Password fresh | Inl _ \<Rightarrow> False"
  shows "(commit_webhook lib fresh w s = (Inr v, s') \<longrightarrow> wd_enabled w \<longrightarrow>
            (\<exists>p. password_ok p \<and> every_use s' p \<and> old_or fresh p))
       \<and> (commit_webhook lib fresh w s = (Inr v, s') \<longrightarrow> \<not> wd_enabled w \<longrightarrow> sc_webhook s' = sc_webhook s)
       \<and> (webhook_copy_url lib origin fresh s = (Inr url, s') \<longrightarrow>
            (\<exists>p out. every_use s' p \<and> old_or fresh p \<and> hook_url lib out (password_str p) = Inr url)
            \<and> (\<forall>x. webhook_copy_url lib origin x s' = (Inr url, s')))
       \<and> (rotate_webhook_token fresh s = (Inr (), s') \<longrightarrow>
            every_use s' (Password fresh) \<and> s' = s\<lparr>sc_webhook := sc_webhook s'\<rparr>)"
proof (intro conjI impI)
  have old_or: "old_or fresh p" if "ensure_webhook_token fresh s = (Inr p, s1)" for p s1
    using ensured(3,4) [OF that] by (auto simp: assms(2) split: sum.splits option.splits if_splits)
  {
    assume "commit_webhook lib fresh w s = (Inr v, s')" "wd_enabled w"
    then obtain p s1 where "ensure_webhook_token fresh s = (Inr p, s1)" "sc_webhook s' = sc_webhook s1"
      using commit_webhook_token by force
    then show "\<exists>p. password_ok p \<and> every_use s' p \<and> old_or fresh p"
      using ensured old_or unfolding assms(1) ensured_iff by metis
  next
    assume "commit_webhook lib fresh w s = (Inr v, s')" "\<not> wd_enabled w"
    then show "sc_webhook s' = sc_webhook s" using commit_webhook_token by force
  next
    assume "webhook_copy_url lib origin fresh s = (Inr url, s')"
    then obtain p out where "ensure_webhook_token fresh s = (Inr p, s')" "hook_url lib out (password_str p) = Inr url"
        "\<forall>x. webhook_copy_url lib origin x s' = (Inr url, s')" using copied_url by blast
    then show "\<exists>p out. every_use s' p \<and> old_or fresh p \<and> hook_url lib out (password_str p) = Inr url"
        "\<forall>x. webhook_copy_url lib origin x s' = (Inr url, s')"
      using ensured(1) old_or unfolding assms(1) ensured_iff by blast+
  next
    assume run: "rotate_webhook_token fresh s = (Inr (), s')"
    then have p: "password_new fresh = Inr (Password fresh)"
      and st: "secret_store_webhook (Password fresh) s = (Inr (), s')"
      by (auto simp: rotate_webhook_token_def andthen_eq_Inr password_new_def split: if_splits)
    have "secret_load_webhook s' = (Inr (Some (Password fresh)), s')"
      by (rule webhook_slot.store_load [OF password_new_ok [OF p] st])
    then show "every_use s' (Password fresh)" unfolding assms(1) ensured_iff by (simp add: secret_load_webhook_def)
    show "s' = s\<lparr>sc_webhook := sc_webhook s'\<rparr>" using st by (auto simp: secret_store_webhook_def split: sum.splits)
  }
qed

theorem webhook_token_contract_witness:
  "\<exists>v s'. commit_webhook demo_lib ''tok'' demo_webhook (demo_store (File (demo_file None)) (Entry ''hunter2'')) = (Inr v, s')
     \<and> (\<forall>x. ensure_webhook_token x s' = (Inr (Password ''tok''), s'))"
proof -
  let ?run = "commit_webhook demo_lib ''tok'' demo_webhook (demo_store (File (demo_file None)) (Entry ''hunter2''))"
  obtain r s' where run: "?run = (r, s')" by fastforce
  have "case fst ?run of Inr _ \<Rightarrow> True | Inl _ \<Rightarrow> False" by code_simp
  then obtain v where ran: "?run = (Inr v, s')" using run by (cases r) auto
  have "wd_enabled demo_webhook" by (simp add: demo_webhook_def)
  from webhook_token_contract [THEN conjunct1, THEN mp, OF ran, THEN mp, OF this] ran
  show ?thesis by (auto simp: demo_store_def)
qed

text \<open>a password still written in the config file is lost by a commit of the webhook settings: the
  file is rewritten without it and it does not reach the keyring, so a link that loading would
  have made ready is unconfigured afterwards.\<close>

theorem webhook_commit_drops_password:
  assumes "sc_config s = File f" "nonblank (fi_password f) = Some raw" "sc_password s = NoEntry"
    and "commit_webhook lib fresh w s = (Inr v, s')"
  shows "load lib s' = (Inr Empty, s')"
proof -
  obtain k pub where "token_step fresh (wd_enabled w) s = (Inr (), k)"
    and s': "s' = k\<lparr>sc_config := File (read_back (webhook_settings w pub))\<rparr>"
    using assms commit_webhook_runs [of s lib fresh w s'] by auto
  then have "sc_password s' = NoEntry"
    using assms(3) token_step_frame by simp
  then show ?thesis
    using s' by (auto simp: load_File provision_from_file_def secret_load_def andthen_apply split: option.splits sum.splits)
qed

theorem webhook_commit_drops_password_witness:
  "(\<exists>c s1. load demo_lib (demo_store (File (demo_file (Some ''hunter2''))) NoEntry) = (Inr (Ready c), s1))
   \<and> (\<exists>v s'. commit_webhook demo_lib ''tok'' demo_webhook (demo_store (File (demo_file (Some ''hunter2''))) NoEntry) = (Inr v, s')
        \<and> load demo_lib s' = (Inr Empty, s'))"
proof -
  let ?s = "demo_store (File (demo_file (Some ''hunter2''))) NoEntry"
  have "load demo_lib ?s = (Inr (Ready (demo_creds ''hunter2'')), demo_store (File (demo_file None)) (Entry ''hunter2''))"
    by code_simp
  moreover have "isl (fst (commit_webhook demo_lib ''tok'' demo_webhook ?s)) = False" by code_simp
  then obtain v s' where 2: "commit_webhook demo_lib ''tok'' demo_webhook ?s = (Inr v, s')"
    by (cases "commit_webhook demo_lib ''tok'' demo_webhook ?s"; cases "fst (commit_webhook demo_lib ''tok'' demo_webhook ?s)") auto
  moreover have "nonblank (fi_password (demo_file (Some ''hunter2''))) = Some ''hunter2''" by code_simp
  ultimately show ?thesis
    using webhook_commit_drops_password [OF _ _ _ 2] by (auto simp: demo_store_def)
qed

end
