(* ===== verification/Link.thy ===== *)
theory Link
  imports Store Bb Proto Cache_Query
begin

text \<open>
  The link of \<^verbatim>\<open>sync/src/link/mod.rs\<close>: the provision in memory beside the store, the uplink
  handle, the generation that every reconnect bumps, and the flags of the webhook; the public
  view of all this, and the \<^verbatim>\<open>sync.link\<close> event.  \<open>origin\<close> is what \<^verbatim>\<open>guess_serve_origin\<close> answers.
\<close>

record ('u, 'w) link =
  ln_store :: store_ctx
  ln_cache_path :: string
  ln_socket_path :: string
  ln_provision :: "'u provision"
  ln_uplink :: "('u, 'w) uplink"
  ln_generation :: u64
  ln_wake :: u64
  ln_connecting :: bool
  ln_webhook_listening :: bool
  ln_webhook_registered :: bool

type_synonym ('u, 'w, 'a) link_op = "(('u, 'w) link, message_text, 'a) act"

definition on_store :: "'a store_op \<Rightarrow> ('u, 'w, 'a) link_op" where
  "on_store m l = (case m (ln_store l) of (r, st) \<Rightarrow> (r, l\<lparr>ln_store := st\<rparr>))"

text \<open>\<^verbatim>\<open>unwrap_or\<close> of a result.\<close>

definition ok_or :: "'e + 'a \<Rightarrow> 'a \<Rightarrow> 'a" where
  "ok_or r d = (case r of Inl _ \<Rightarrow> d | Inr x \<Rightarrow> x)"

definition boot_with :: "'u url_lib \<Rightarrow> store_ctx \<Rightarrow> 'w \<Rightarrow> ('u, 'w) link" where
  "boot_with lib ctx w =
     (case load lib ctx of (r, st) \<Rightarrow>
        let provision = ok_or r Empty in
        \<lparr> ln_store = st,
          ln_cache_path = (case provision of
             Ready creds \<Rightarrow> pc_cache_path (cr_public creds) | Empty \<Rightarrow> sc_cache_path ctx),
          ln_socket_path = (case provision of
             Ready creds \<Rightarrow> pc_socket_path (cr_public creds) | Empty \<Rightarrow> sc_socket_path ctx),
          ln_provision = provision, ln_uplink = \<lparr> ul_client = None, ul_world = w \<rparr>,
          ln_generation = 0, ln_wake = 0, ln_connecting = False,
          ln_webhook_listening = False, ln_webhook_registered = False \<rparr>)"

section \<open>The view\<close>

definition fill_webhook :: "string option \<Rightarrow> ('u, 'w) link \<Rightarrow> public_view \<Rightarrow> public_view" where
  "fill_webhook origin l view =
     (let snap = ok_or (fst (peek_webhook (ln_store l))) default_webhook_snap in
      view\<lparr> pv_webhook_enabled := ws_enabled snap,
            pv_webhook_port := ws_port snap,
            pv_webhook_serve_url :=
              if ws_serve_url snap = [] then unwrap_or origin [] else ws_serve_url snap,
            pv_webhook_listening := ln_webhook_listening l,
            pv_webhook_registered := ln_webhook_registered l,
            pv_webhook_token_set := ok_or (fst (webhook_token_set (ln_store l))) False \<rparr>)"

definition link_view :: "'u url_lib \<Rightarrow> string option \<Rightarrow> ('u, 'w) link \<Rightarrow> public_view" where
  "link_view lib origin l = fill_webhook origin l (case ln_provision l of
       Empty \<Rightarrow>
         \<lparr> pv_server_url = map_option (server_url_str lib)
             (ok_or (fst (peek_server_url lib (ln_store l))) None),
           pv_password_set = ok_or (fst (password_set (ln_store l))) False,
           pv_session = Unconfigured,
           pv_webhook_enabled = False, pv_webhook_port = DEFAULT_PORT, pv_webhook_serve_url = [],
           pv_webhook_listening = False, pv_webhook_registered = False, pv_webhook_token_set = False \<rparr>
     | Ready creds \<Rightarrow>
         \<lparr> pv_server_url = Some (server_url_str lib (pc_server (cr_public creds))),
           pv_password_set = True,
           pv_session = (if is_up (ln_uplink l) then Live
                         else if ln_connecting l then Connecting else Down),
           pv_webhook_enabled = pc_webhook_enabled (cr_public creds),
           pv_webhook_port = pc_webhook_port (cr_public creds),
           pv_webhook_serve_url = pc_webhook_serve_url (cr_public creds),
           pv_webhook_listening = False, pv_webhook_registered = False, pv_webhook_token_set = False \<rparr>)"

definition session_label :: "session_state \<Rightarrow> string" where
  "session_label s = (case s of
     Unconfigured \<Rightarrow> ''unconfigured'' | Connecting \<Rightarrow> ''connecting'' | Live \<Rightarrow> ''live'' | Down \<Rightarrow> ''down'')"

definition status_members :: "public_view \<Rightarrow> (string \<times> json) list" where
  "status_members v =
     [(''server_url'', of_opt_str (pv_server_url v)),
      (''password_set'', JBool (pv_password_set v)),
      (''session'', JStr (session_label (pv_session v))),
      (''webhook_enabled'', JBool (pv_webhook_enabled v)),
      (''webhook_port'', JNum (NPos (ucast (pv_webhook_port v)))),
      (''webhook_serve_url'', JStr (pv_webhook_serve_url v)),
      (''webhook_listening'', JBool (pv_webhook_listening v)),
      (''webhook_registered'', JBool (pv_webhook_registered v)),
      (''webhook_token_set'', JBool (pv_webhook_token_set v))]"

definition to_status_fields :: "public_view \<Rightarrow> json" where
  "to_status_fields v = mk_obj (status_members v)"

text \<open>\<^verbatim>\<open>obj.insert\<close> for every member of another object, on objects.\<close>

definition insert_members :: "(string \<times> json) list \<Rightarrow> json \<Rightarrow> json" where
  "insert_members kvs v =
     (case v of JObj ob \<Rightarrow> JObj (fold (\<lambda>(k, x). kv_insert k x) kvs ob) | _ \<Rightarrow> v)"

definition merge_view :: "public_view \<Rightarrow> json \<Rightarrow> json" where
  "merge_view view snap =
     insert_members (unwrap_or (as_object (to_status_fields view)) []) snap"

section \<open>Operations\<close>

definition reconnect_from_store :: "'u url_lib \<Rightarrow> string option \<Rightarrow> ('u, 'w, public_view) link_op" where
  "reconnect_from_store lib origin =
     andthen (on_store (load lib)) (\<lambda>provision.
     andthen (writes (\<lambda>l. l\<lparr>ln_connecting := provision \<noteq> Empty, ln_provision := provision\<rparr>)) (\<lambda>_.
     andthen (writes (\<lambda>l. let gen = ln_generation l + 1 in l\<lparr>ln_generation := gen, ln_wake := gen\<rparr>)) (\<lambda>_.
     reads (link_view lib origin))))"

definition link_apply :: "'u url_lib \<Rightarrow> string option \<Rightarrow> 'u settings_draft \<Rightarrow> ('u, 'w, public_view) link_op" where
  "link_apply lib origin draft =
     andthen (on_store (commit lib draft)) (\<lambda>_. reconnect_from_store lib origin)"

definition link_reconnect :: "'u url_lib \<Rightarrow> string option \<Rightarrow> ('u, 'w, public_view) link_op" where
  "link_reconnect lib origin = reconnect_from_store lib origin"

definition set_connecting :: "bool \<Rightarrow> ('u, 'w) link \<Rightarrow> ('u, 'w) link" where
  "set_connecting value l = l\<lparr>ln_connecting := value\<rparr>"

definition set_webhook_listening :: "bool \<Rightarrow> ('u, 'w) link \<Rightarrow> ('u, 'w) link" where
  "set_webhook_listening value l =
     (let l1 = l\<lparr>ln_webhook_listening := value\<rparr> in
      if \<not> value then l1\<lparr>ln_webhook_registered := False\<rparr> else l1)"

definition set_webhook_registered :: "bool \<Rightarrow> ('u, 'w) link \<Rightarrow> ('u, 'w) link" where
  "set_webhook_registered value l = l\<lparr>ln_webhook_registered := value\<rparr>"

definition apply_webhook ::
  "'u url_lib \<Rightarrow> string option \<Rightarrow> string \<Rightarrow> webhook_draft \<Rightarrow> ('u, 'w, public_view) link_op" where
  "apply_webhook lib origin fresh draft =
     andthen (on_store (commit_webhook lib fresh draft)) (\<lambda>_.
     andthen (on_store peek_webhook) (\<lambda>snap.
     andthen (writes (\<lambda>l. if ws_enabled snap then l
          else l\<lparr>ln_webhook_listening := False, ln_webhook_registered := False\<rparr>)) (\<lambda>_.
     reconnect_from_store lib origin)))"

definition link_rotate_webhook_token ::
  "'u url_lib \<Rightarrow> string option \<Rightarrow> string \<Rightarrow> ('u, 'w, public_view) link_op" where
  "link_rotate_webhook_token lib origin fresh =
     andthen (on_store (rotate_webhook_token fresh)) (\<lambda>_.
     andthen (writes (set_webhook_registered False)) (\<lambda>_.
     reads (link_view lib origin)))"

definition link_webhook_copy_url ::
  "'u url_lib \<Rightarrow> string option \<Rightarrow> string \<Rightarrow> ('u, 'w, string) link_op" where
  "link_webhook_copy_url lib origin fresh = on_store (webhook_copy_url lib origin fresh)"

section \<open>The daemon's shared state\<close>

text \<open>The link, the cache and the events sent so far on the broadcast channel, oldest first.\<close>

record ('u, 'w) daemon =
  dm_link :: "('u, 'w) link"
  dm_cache :: cache
  dm_events :: "envelope list"

definition send_event :: "envelope \<Rightarrow> ('u, 'w) daemon \<Rightarrow> ('u, 'w) daemon" where
  "send_event ev d = d\<lparr>dm_events := dm_events d @ [ev]\<rparr>"

definition sync_link_event :: "public_view \<Rightarrow> cache \<Rightarrow> envelope" where
  "sync_link_event view db = Event ''sync.link'' (merge_view view (link_snapshot db))"

definition emit_sync_link :: "public_view \<Rightarrow> ('u, 'w) daemon \<Rightarrow> ('u, 'w) daemon" where
  "emit_sync_link view d = send_event (sync_link_event view (dm_cache d)) d"

definition set_disconnected :: "cache \<Rightarrow> cache" where
  "set_disconnected db = set_meta ''database_ready'' ''false'' (set_meta ''bridge_connected'' ''false'' db)"

end
