(* ===== verification/Session.thy ===== *)
theory Session
  imports Link Webhook Cache_Live Cache_Repair
begin

text \<open>
  The session of \<^verbatim>\<open>sync/src/client.rs\<close>: connecting, prefetching, the two live loops, the retry
  backoff and the generations.  It runs on the daemon's shared state; what the code's tasks do
  beside it between two rounds of a loop appears as \<open>Meanwhile\<close> steps of the schedule.  The
  arms of \<^verbatim>\<open>select!\<close> are the constructors of \<open>loop_event\<close>.
\<close>

section \<open>The environment\<close>

text \<open>The parameters of the model in one record: the url crate, the network, chrono, SHA-256, the
  file system below an image path, the answer of tailscale, and the text of a cache failure.\<close>

record ('u, 'w) env =
  ev_lib :: "'u url_lib"
  ev_net :: "('u, 'w) net"
  ev_fmt :: "i64 \<Rightarrow> string option"
  ev_sha256 :: "byte list \<Rightarrow> byte list"
  ev_image_file :: "string \<Rightarrow> string + path_info"
  ev_origin :: "string option"
  ev_cache_text :: "cache_error \<Rightarrow> string"

datatype failure = Uplink bb_error | CacheFailure cache_error | Failed message_text

definition failure_text :: "('u, 'w) env \<Rightarrow> failure \<Rightarrow> string" where
  "failure_text E e = (case e of
     Uplink b \<Rightarrow> bb_error_text b | CacheFailure c \<Rightarrow> ev_cache_text E c | Failed m \<Rightarrow> m)"

type_synonym ('u, 'w, 'a) daemon_op = "(('u, 'w) daemon, failure, 'a) act"

definition on_cache :: "(cache, cache_error, 'a) act \<Rightarrow> ('u, 'w, 'a) daemon_op" where
  "on_cache m d = (case m (dm_cache d) of
     (r, db) \<Rightarrow> (map_sum CacheFailure id r, d\<lparr>dm_cache := db\<rparr>))"

definition on_link :: "('u, 'w, 'a) link_op \<Rightarrow> ('u, 'w, 'a) daemon_op" where
  "on_link m d = (case m (dm_link d) of (r, l) \<Rightarrow> (map_sum Failed id r, d\<lparr>dm_link := l\<rparr>))"

definition on_uplink :: "(('u, 'w) uplink, bb_error, 'a) act \<Rightarrow> ('u, 'w, 'a) daemon_op" where
  "on_uplink m d = (case m (ln_uplink (dm_link d)) of
     (r, u) \<Rightarrow> (map_sum Uplink id r, d\<lparr>dm_link := (dm_link d)\<lparr>ln_uplink := u\<rparr>\<rparr>))"

text \<open>The session's client is the attached one: it is attached before it is used, and only the
  end of the session detaches it.\<close>

definition on_bb :: "('u, 'w, 'a) bb_op \<Rightarrow> ('u, 'w, 'a) daemon_op" where
  "on_bb m = on_uplink (on_client (Inl LinkDown) m)"

definition change_link :: "(('u, 'w) link \<Rightarrow> ('u, 'w) link) \<Rightarrow> ('u, 'w) daemon \<Rightarrow> ('u, 'w) daemon" where
  "change_link f d = d\<lparr>dm_link := f (dm_link d)\<rparr>"

definition change_uplink :: "(('u, 'w) uplink \<Rightarrow> ('u, 'w) uplink) \<Rightarrow> ('u, 'w) daemon \<Rightarrow> ('u, 'w) daemon" where
  "change_uplink f = change_link (\<lambda>l. l\<lparr>ln_uplink := f (ln_uplink l)\<rparr>)"

definition change_cache :: "(cache \<Rightarrow> cache) \<Rightarrow> ('u, 'w) daemon \<Rightarrow> ('u, 'w) daemon" where
  "change_cache f d = d\<lparr>dm_cache := f (dm_cache d)\<rparr>"

text \<open>\<^verbatim>\<open>emit_sync_link(events, cache, &link.view().await)\<close>.\<close>

definition emit_view :: "('u, 'w) env \<Rightarrow> ('u, 'w) daemon \<Rightarrow> ('u, 'w) daemon" where
  "emit_view E d = emit_sync_link (link_view (ev_lib E) (ev_origin E) (dm_link d)) d"

section \<open>The retry backoff\<close>

text \<open>Durations are nanoseconds.\<close>

definition RETRY_MIN :: nat where "RETRY_MIN = 250000000"
definition RETRY_MAX :: nat where "RETRY_MAX = 30000000000"

record retry_backoff =
  rb_failures :: u32
  rb_entropy :: u64

definition record_session :: "nat \<Rightarrow> retry_backoff \<Rightarrow> retry_backoff" where
  "record_session duration r = (if duration \<ge> RETRY_MAX then r\<lparr>rb_failures := 0\<rparr> else r)"

definition retry_base :: "u32 \<Rightarrow> nat" where
  "retry_base failures = min (RETRY_MIN * 2 ^ min (unat failures) 7) RETRY_MAX"

definition next_entropy :: "u64 \<Rightarrow> u64" where
  "next_entropy e0 =
     (let e1 = xor e0 (push_bit 13 e0);
          e2 = xor e1 (drop_bit 7 e1)
      in xor e2 (push_bit 17 e2))"

definition u32_saturating_inc :: "u32 \<Rightarrow> u32" where
  "u32_saturating_inc n = (if n = - 1 then n else n + 1)"

definition next_delay :: "retry_backoff \<Rightarrow> nat \<times> retry_backoff" where
  "next_delay r =
     (let base = retry_base (rb_failures r);
          entropy = next_entropy (rb_entropy r);
          jitter = base div 4 * unat (entropy mod 5) div 4
      in (min (base + jitter) RETRY_MAX,
          \<lparr> rb_failures = u32_saturating_inc (rb_failures r), rb_entropy = entropy \<rparr>))"

section \<open>Names and prefetch\<close>

definition set_link_state :: "bool \<Rightarrow> bool \<Rightarrow> string \<Rightarrow> cache \<Rightarrow> cache" where
  "set_link_state bridge_connected database_ready last_error db =
     (let flag = (\<lambda>b. if b then ''true'' else ''false'') in
      set_meta ''last_error'' last_error
        (set_meta ''database_ready'' (flag database_ready)
          (set_meta ''bridge_connected'' (flag bridge_connected) db)))"

text \<open>\<^verbatim>\<open>match .. { Ok(x) => x, Err(_) => d }\<close>.\<close>

definition or_default :: "'a \<Rightarrow> ('s, 'e, 'a) act \<Rightarrow> ('s, 'e, 'a) act" where
  "or_default d m s = (case m s of (r, s') \<Rightarrow> (Inr (ok_or r d), s'))"

definition bind_names ::
  "('u, 'w) env \<Rightarrow> chat list \<Rightarrow> ('u, 'w, contact_book \<times> chat list) daemon_op" where
  "bind_names E cs =
     andthen (or_default empty_book (on_bb (query_contacts (ev_lib E) (ev_net E)))) (\<lambda>book0.
     andthen (reads (\<lambda>d. ok_or (list_chats 500 (dm_cache d)) [])) (\<lambda>cached.
     let book = fold seed_from_cache_chat cached (fold seed_from_chat cs book0) in
     andthen (on_bb (replace_contacts book)) (\<lambda>_.
     andthen (writes (change_cache (set_meta ''contacts''
       (if book_is_empty book then ''unavailable'' else ''granted'')))) (\<lambda>_.
     ret (book, map (chat_apply_contacts book) cs)))))"

definition prefetch_chat ::
  "('u, 'w) env \<Rightarrow> 'u public_config \<Rightarrow> contact_book \<Rightarrow> chat \<Rightarrow> ('u, 'w, unit) daemon_op" where
  "prefetch_chat E public book c =
     andthen (on_cache (upsert_domain_chat (ev_sha256 E) c)) (\<lambda>_.
     andthen (on_bb (chat_messages (ev_lib E) (ev_net E) (ev_fmt E) (c_guid c)
       (pc_prefetch_messages public))) (\<lambda>msgs.
     for_each msgs (\<lambda>msg.
       andthen (on_cache (upsert_domain_message (ev_sha256 E) (message_apply_contacts book msg)))
         (\<lambda>_. ret ()))))"

definition prefetch_cache :: "('u, 'w) env \<Rightarrow> 'u public_config \<Rightarrow> ('u, 'w, unit) daemon_op" where
  "prefetch_cache E public =
     andthen (on_bb (query_chats (ev_lib E) (ev_net E) (ev_fmt E) (pc_prefetch_chats public))) (\<lambda>cs.
     andthen (bind_names E cs) (\<lambda>(book, named).
     andthen (for_each named (prefetch_chat E public book)) (\<lambda>_.
     andthen (on_cache (apply_contact_book book)) (\<lambda>_. ret ()))))"

section \<open>Live messages\<close>

definition outcome_chat :: "chat_outcome \<Rightarrow> json option" where
  "outcome_chat out = (case out of ChatUpdated v \<Rightarrow> Some v | ChatUnknown _ \<Rightarrow> None)"

definition sync_message_event :: "applied \<Rightarrow> envelope" where
  "sync_message_event a = Event ''sync.message'' (mk_obj
     [(''message'', ap_message a),
      (''chat'', unwrap_or (outcome_chat (ap_chat a)) JNull),
      (''is_new'', JBool (ap_is_new a))])"

definition sync_chats_event :: "string \<Rightarrow> json list \<Rightarrow> envelope" where
  "sync_chats_event reason cs =
     Event ''sync.chats'' (mk_obj [(''reason'', JStr reason), (''chats'', JArr cs)])"

fun upsert_all ::
  "('u, 'w) env \<Rightarrow> chat list \<Rightarrow> json list \<Rightarrow> ('u, 'w, json list) daemon_op" where
  "upsert_all E [] acc = ret acc"
| "upsert_all E (c # cs) acc =
     andthen (on_cache (upsert_domain_chat (ev_sha256 E) c)) (\<lambda>n.
     upsert_all E cs (acc @ [chat_to_cache_json c n]))"

definition reload_chats :: "('u, 'w) env \<Rightarrow> 'u public_config \<Rightarrow> string \<Rightarrow> ('u, 'w, unit) daemon_op" where
  "reload_chats E public reason =
     andthen (on_bb (query_chats (ev_lib E) (ev_net E) (ev_fmt E) (pc_prefetch_chats public))) (\<lambda>cs.
     andthen (bind_names E cs) (\<lambda>(book, named).
     andthen (upsert_all E named []) (\<lambda>listed.
     andthen (ignore_err (on_cache (apply_contact_book book))) (\<lambda>_.
     writes (send_event (sync_chats_event reason listed))))))"

text \<open>\<^verbatim>\<open>bb.contact_book()\<close>.\<close>

definition client_book :: "('u, 'w) daemon \<Rightarrow> contact_book" where
  "client_book d = (case ul_client (ln_uplink (dm_link d)) of
     None \<Rightarrow> empty_book | Some c \<Rightarrow> bb_contacts c)"

definition is_unknown :: "chat_outcome \<Rightarrow> bool" where
  "is_unknown out = (case out of ChatUpdated _ \<Rightarrow> False | ChatUnknown _ \<Rightarrow> True)"

definition apply_live :: "('u, 'w) env \<Rightarrow> 'u public_config \<Rightarrow> message \<Rightarrow> ('u, 'w, unit) daemon_op" where
  "apply_live E public msg =
     andthen (reads client_book) (\<lambda>book.
     andthen (on_cache (apply_domain_message (ev_sha256 E) (message_apply_contacts book msg))) (\<lambda>a.
     andthen (writes (send_event (sync_message_event a))) (\<lambda>_.
     if is_unknown (ap_chat a) then ignore_err (reload_chats E public ''unknown_chat'') else ret ())))"

definition doorbell :: "('u, 'w) env \<Rightarrow> 'u public_config \<Rightarrow> hook_event \<Rightarrow> ('u, 'w, unit) daemon_op" where
  "doorbell E public ev =
     (case he_message_guid ev of
        None \<Rightarrow> ret ()
      | Some guid \<Rightarrow>
          andthen (on_bb (message_by_guid (ev_lib E) (ev_net E) (ev_fmt E) guid)) (\<lambda>found.
          case found of Some msg \<Rightarrow> apply_live E public msg | None \<Rightarrow> ret ()))"

section \<open>The live loops\<close>

text \<open>
  What a round of a live loop waits for.  \<open>Meanwhile f\<close> is what other tasks do to the shared
  state before the next round; a change of the generation among it is seen by the check at the
  head of the loop, which answers as the \<^verbatim>\<open>wait_new_gen\<close> arm does.
\<close>

datatype ('u, 'w) loop_event =
    PumpEnds "failure + unit"
  | Arrives message
  | NoMoreMessages
  | Tick
  | Meanwhile "('u, 'w) daemon \<Rightarrow> ('u, 'w) daemon"
  | ServerEnds "failure + unit"
  | Rings hook_event
  | NoMoreHooks

text \<open>How a loop stands after a schedule: still waiting, or returned.\<close>

datatype live_outcome = Waiting | Returned "failure + unit"

definition retry_prefetch ::
  "('u, 'w) env \<Rightarrow> 'u public_config \<Rightarrow> bool \<Rightarrow> ('u, 'w) daemon \<Rightarrow> bool \<times> ('u, 'w) daemon" where
  "retry_prefetch E public prefetch_ok d =
     (if prefetch_ok then (True, d)
      else case prefetch_cache E public d of
          (Inr _, d') \<Rightarrow> (True, d')
        | (Inl _, d') \<Rightarrow> (False, d'))"

fun live_poll ::
  "('u, 'w) env \<Rightarrow> 'u public_config \<Rightarrow> u64 \<Rightarrow> ('u, 'w) loop_event list \<Rightarrow> bool \<Rightarrow>
     ('u, 'w) daemon \<Rightarrow> live_outcome \<times> ('u, 'w) daemon" where
  "live_poll E public gen evs prefetch_ok d =
     (if ln_wake (dm_link d) \<noteq> gen then (Returned (Inr ()), d)
      else case evs of
          [] \<Rightarrow> (Waiting, d)
        | ev # evs' \<Rightarrow>
            (case ev of
               PumpEnds r \<Rightarrow> (Returned r, d)
             | Arrives msg \<Rightarrow>
                 (case apply_live E public msg d of
                    (Inl e, d') \<Rightarrow> (Returned (Inl e), d')
                  | (Inr _, d') \<Rightarrow> live_poll E public gen evs' prefetch_ok d')
             | NoMoreMessages \<Rightarrow> (Returned (Inr ()), d)
             | Tick \<Rightarrow>
                 (case retry_prefetch E public prefetch_ok d of
                    (prefetch_ok', d') \<Rightarrow> live_poll E public gen evs' prefetch_ok' d')
             | Meanwhile f \<Rightarrow> live_poll E public gen evs' prefetch_ok (f d)
             | _ \<Rightarrow> live_poll E public gen evs' prefetch_ok d))"

text \<open>\<open>bound\<close> is the outcome of \<^verbatim>\<open>bind_local\<close>: an error text, or a listener.\<close>

fun webhook_loop ::
  "('u, 'w) env \<Rightarrow> 'u public_config \<Rightarrow> u64 \<Rightarrow> ('u, 'w) loop_event list \<Rightarrow> bool \<Rightarrow>
     ('u, 'w) daemon \<Rightarrow> live_outcome \<times> ('u, 'w) daemon" where
  "webhook_loop E public gen evs prefetch_ok d =
     (let leave = (\<lambda>r d. (Returned r, change_link (set_webhook_listening False) d)) in
      if ln_wake (dm_link d) \<noteq> gen then leave (Inr ()) d
      else case evs of
          [] \<Rightarrow> (Waiting, d)
        | ev # evs' \<Rightarrow>
            (case ev of
               ServerEnds r \<Rightarrow> leave r d
             | PumpEnds r \<Rightarrow> leave r d
             | Arrives msg \<Rightarrow>
                 (case apply_live E public msg d of
                    (Inl e, d') \<Rightarrow> (Returned (Inl e), d')
                  | (Inr _, d') \<Rightarrow> webhook_loop E public gen evs' prefetch_ok d')
             | NoMoreMessages \<Rightarrow> leave (Inr ()) d
             | Rings hook \<Rightarrow>
                 webhook_loop E public gen evs' prefetch_ok (snd (doorbell E public hook d))
             | NoMoreHooks \<Rightarrow> leave (Inr ()) d
             | Tick \<Rightarrow>
                 (case retry_prefetch E public prefetch_ok d of
                    (prefetch_ok', d') \<Rightarrow> webhook_loop E public gen evs' prefetch_ok' d')
             | Meanwhile f \<Rightarrow> webhook_loop E public gen evs' prefetch_ok (f d)))"

definition live_webhook ::
  "('u, 'w) env \<Rightarrow> 'u public_config \<Rightarrow> u64 \<Rightarrow> string \<Rightarrow> string + unit \<Rightarrow> ('u, 'w) loop_event list \<Rightarrow>
     bool \<Rightarrow> ('u, 'w) daemon \<Rightarrow> live_outcome \<times> ('u, 'w) daemon" where
  "live_webhook E public gen fresh bound evs prefetch_ok d =
     (case on_link (on_store (ensure_webhook_token fresh)) d of
        (Inl e, d1) \<Rightarrow> (Returned (Inl e), d1)
      | (Inr token, d1) \<Rightarrow>
          (case bound of
             Inl m \<Rightarrow>
               live_poll E public gen evs prefetch_ok
                 (emit_view E
                   (change_cache (set_link_state True True (''webhook bind failed: '' @ m))
                     (change_link (set_webhook_listening False) d1)))
           | Inr _ \<Rightarrow>
               webhook_loop E public gen evs prefetch_ok
                 (emit_view E (change_link (set_webhook_listening True) d1))))"

section \<open>A connection\<close>

text \<open>What the outside decides about one connection attempt.\<close>

record ('u, 'w) attempt =
  at_fresh :: string
  at_bound :: "string + unit"
  at_events :: "('u, 'w) loop_event list"
  at_duration :: nat

text \<open>\<^verbatim>\<open>BlueBubbles::connect\<close>: a new client that answers a ping.\<close>

definition new_client :: "'u credentials \<Rightarrow> 'u bb_client" where
  "new_client creds =
     \<lparr> bb_server = pc_server (cr_public creds), bb_password = password_str (cr_secret creds),
       bb_contacts = empty_book \<rparr>"

definition bb_connect :: "('u, 'w) env \<Rightarrow> 'u credentials \<Rightarrow> ('u, 'w, 'u bb_client) daemon_op" where
  "bb_connect E creds =
     on_uplink (\<lambda>u.
       case ping (ev_lib E) (ev_net E) \<lparr> bs_client = new_client creds, bs_world = ul_world u \<rparr> of
         (r, s) \<Rightarrow> (map_sum id (\<lambda>_. bs_client s) r, u\<lparr>ul_world := bs_world s\<rparr>))"

definition run_live ::
  "('u, 'w) env \<Rightarrow> 'u public_config \<Rightarrow> u64 \<Rightarrow> ('u, 'w) attempt \<Rightarrow> bool \<Rightarrow> ('u, 'w) daemon \<Rightarrow>
     live_outcome \<times> ('u, 'w) daemon" where
  "run_live E public gen a prefetch_ok d =
     (if pc_webhook_enabled public
      then live_webhook E public gen (at_fresh a) (at_bound a) (at_events a) prefetch_ok d
      else
        live_poll E public gen (at_events a) prefetch_ok
          (change_link (set_webhook_listening False)
            (snd (on_uplink (uplink_webhook_clear_ours (ev_lib E) (ev_net E)) d))))"

definition connect_and_sync_inner ::
  "('u, 'w) env \<Rightarrow> 'u credentials \<Rightarrow> u64 \<Rightarrow> ('u, 'w) attempt \<Rightarrow> retry_backoff \<Rightarrow> ('u, 'w) daemon \<Rightarrow>
     live_outcome \<times> retry_backoff \<times> ('u, 'w) daemon" where
  "connect_and_sync_inner E creds gen a retry d =
     (if ln_wake (dm_link d) \<noteq> gen then (Returned (Inr ()), retry, d)
      else case bb_connect E creds d of
          (Inl e, d1) \<Rightarrow> (Returned (Inl e), retry, d1)
        | (Inr c, d1) \<Rightarrow>
            (let public = cr_public creds;
                 d2 = emit_view E (change_cache (set_link_state True True [])
                        (change_link (set_connecting False) (change_uplink (attach c) d1)));
                 (prefetched, d3) = prefetch_cache E public d2;
                 (out, d4) = run_live E public gen a (case prefetched of Inl _ \<Rightarrow> False | Inr _ \<Rightarrow> True) d3
             in (out, case out of Waiting \<Rightarrow> retry | Returned _ \<Rightarrow> record_session (at_duration a) retry, d4)))"

definition last_error :: "('u, 'w) env \<Rightarrow> failure + unit \<Rightarrow> string" where
  "last_error E result = (case result of Inr _ \<Rightarrow> [] | Inl e \<Rightarrow> failure_text E e)"

text \<open>What follows the \<^verbatim>\<open>select!\<close>.  A schedule that leaves the loop waiting is cut off by a new
  generation, as the other arm of the \<^verbatim>\<open>select!\<close> does.\<close>

definition end_session :: "('u, 'w) env \<Rightarrow> failure + unit \<Rightarrow> ('u, 'w) daemon \<Rightarrow> ('u, 'w) daemon" where
  "end_session E result d =
     emit_view E
       (change_cache (set_link_state False False (last_error E result))
         (change_uplink detach (change_link (set_webhook_listening False) d)))"

definition connect_and_sync ::
  "('u, 'w) env \<Rightarrow> 'u credentials \<Rightarrow> u64 \<Rightarrow> ('u, 'w) attempt \<Rightarrow> retry_backoff \<Rightarrow> ('u, 'w) daemon \<Rightarrow>
     (failure + unit) \<times> retry_backoff \<times> ('u, 'w) daemon" where
  "connect_and_sync E creds gen a retry d =
     (case connect_and_sync_inner E creds gen a retry d of
        (out, retry', d') \<Rightarrow>
          (let result = (case out of Waiting \<Rightarrow> Inr () | Returned r \<Rightarrow> r)
           in (result, retry', end_session E result d')))"

text \<open>\<^verbatim>\<open>run_generation\<close>: one attempt after the other until the generation is no longer its own.  An
  attempt comes with what the other tasks do while its delay passes.  The delays are collected.\<close>

fun run_generation ::
  "('u, 'w) env \<Rightarrow> 'u credentials \<Rightarrow> u64 \<Rightarrow>
     (('u, 'w) attempt \<times> (('u, 'w) daemon \<Rightarrow> ('u, 'w) daemon)) list \<Rightarrow> retry_backoff \<Rightarrow>
     ('u, 'w) daemon \<Rightarrow> nat list \<times> ('u, 'w) daemon" where
  "run_generation E creds gen [] retry d = ([], d)"
| "run_generation E creds gen ((a, sleeping) # rest) retry d =
     (if ln_wake (dm_link d) \<noteq> gen then ([], d)
      else
        case connect_and_sync E creds gen a retry (emit_view E (change_link (set_connecting True) d)) of
          (result, retry1, d1) \<Rightarrow>
            if ln_wake (dm_link d1) \<noteq> gen then ([], d1)
            else
              (let d2 = emit_view E (change_link (set_connecting False) d1);
                   (delay, retry2) = next_delay retry1;
                   (delays, d3) = run_generation E creds gen rest retry2 (sleeping d2)
               in (delay # delays, d3)))"

end
