(* ===== verification/Cache_Rows.thy ===== *)
theory Cache_Rows
  imports Cache_Live Cache_Repair
begin

text \<open>
  What every writing operation of the cache keeps besides its soundness: a stored message stays stored, and
  the documents stay those the daemon itself writes, so that the database can be opened again.
\<close>

text \<open>A cache the daemon wrote, with the messages of some ids in it.\<close>

definition holds :: "i64 set \<Rightarrow> cache \<Rightarrow> bool" where
  "holds ids db \<longleftrightarrow> cache_ok db \<and> plain_cache db \<and> ids \<subseteq> dom (map_of (messages db))"

lemma holds_cache_ok: "holds ids db \<Longrightarrow> cache_ok db"
  by (simp add: holds_def)

lemma holds_mono: "holds ids db \<Longrightarrow> ids' \<subseteq> ids \<Longrightarrow> holds ids' db"
  by (auto simp: holds_def)

lemma holds_insert: "holds ids db \<Longrightarrow> map_of (messages db) n \<noteq> None \<Longrightarrow> holds (insert n ids) db"
  by (auto simp: holds_def)

lemma holds_same_messages:
  "holds ids db \<Longrightarrow> cache_ok db' \<Longrightarrow> messages db' = messages db \<Longrightarrow> holds ids db'"
  by (simp add: holds_def plain_cache_def)

lemma keeps_holds:
  "keeps cache_ok m \<Longrightarrow> (\<And>db. messages (snd (m db)) = messages db) \<Longrightarrow> keeps (holds ids) m"
  using holds_same_messages holds_cache_ok unfolding keeps_def by blast

lemma holds_with_message:
  assumes "holds ids db" "json_wf v" "is_object v" "plain_doc v"
  shows "holds (insert (row_id v) ids) (with_message v db)"
  using assms plain_with_message [of db v] cache_ok_with_message [of db v]
  by (auto simp: holds_def with_message_def)

section \<open>The domain operations\<close>

lemma holds_id_for_guid: "keeps (holds ids) (id_for_guid sha256 g)"
  using id_for_guid_tables by (intro keeps_holds cache_ok_id_for_guid) (metis prod.collapse)

lemma upsert_chat_messages: "messages (snd (upsert_chat c db)) = messages db"
  by (simp add: upsert_chat_def register_guid_def store_chat_def insert_identity_def Let_def split: option.splits)

lemma upsert_domain_chat_messages: "messages (snd (upsert_domain_chat sha256 c db)) = messages db"
proof -
  obtain r db1 where 1: "id_for_guid sha256 (chat_guid_str (c_guid c)) db = (r, db1)" by fastforce
  have "messages db1 = messages db" using id_for_guid_tables [OF 1] by simp
  moreover have "messages (snd (upsert_chat (chat_to_cache_json c n) db1)) = messages db1" for n
    by (rule upsert_chat_messages)
  ultimately show ?thesis using 1
    by (cases r; cases "upsert_chat (chat_to_cache_json c (projr r)) db1"; cases "fst (upsert_chat (chat_to_cache_json c (projr r)) db1)")
       (simp_all add: upsert_domain_chat_def andthen_apply, (metis snd_conv)+)
qed

lemma holds_upsert_domain_chat: "keeps (holds ids) (upsert_domain_chat sha256 c)"
  using upsert_domain_chat_messages by (intro keeps_holds cache_ok_upsert_domain_chat)

lemma plain_merged_at:
  "holds ids db \<Longrightarrow> json_wf v \<Longrightarrow> is_object v \<Longrightarrow> plain_doc v \<Longrightarrow> plain_doc (merged_at db v)"
  unfolding merged_at_def holds_def by (intro plain_merge) (auto intro: plain_stored)

lemma holds_upsert_domain_message: "keeps (holds ids) (upsert_domain_message sha256 msg)"
proof -
  have step: "keeps (holds ids) (upsert_message (message_to_cache_json msg n k))" if "in_i64 k" for n k
  proof (rule keepsI)
    fix db
    assume h: "holds ids db"
    let ?v = "message_to_cache_json msg n k"
    have "plain_doc (merged_at db ?v)" using plain_merged_at [OF h] plain_message_to_cache_json [OF that] by simp
    then show "holds ids (snd (upsert_message ?v db))"
      using holds_with_message [OF h, of "merged_at db ?v"] merged_at_ok [OF holds_cache_ok [OF h], of ?v]
      by (simp add: upsert_message_apply [OF holds_cache_ok [OF h]] holds_mono subset_insertI)
  qed
  show ?thesis
  proof (rule keepsI)
    fix db
    assume h: "holds ids db"
    obtain r db1 where 1: "id_for_guid sha256 (chat_guid_str (m_chat msg)) db = (r, db1)" by fastforce
    have h1: "holds ids db1" using keepsE [OF holds_id_for_guid h 1] .
    show "holds ids (snd (upsert_domain_message sha256 msg db))"
    proof (cases r)
      case (Inr k)
      have "in_i64 k" using id_for_guid_in_i64 h 1 Inr by (metis holds_cache_ok cache_ok_def)
      then have "keeps (holds ids) (andthen (id_for_guid sha256 (message_guid_str (m_guid msg)))
          (\<lambda>n. andthen (upsert_message (message_to_cache_json msg n k)) (\<lambda>_. ret n)))"
        by (intro keeps_intros holds_id_for_guid step)
      from keepsD [OF this h1] show ?thesis using 1 Inr by (simp add: upsert_domain_message_def andthen_apply)
    qed (use h1 1 in \<open>simp add: upsert_domain_message_def andthen_apply\<close>)
  qed
qed

lemma ensure_chat_messages: "messages (snd (ensure_chat sha256 msg k db)) = messages db"
  using upsert_domain_chat_messages [of sha256 "(chat_stub_from_message msg)\<lparr>c_unread_count := 0\<rparr>" db]
  by (auto simp: ensure_chat_def andthen_apply split: prod.splits sum.splits)

lemma deliver_fails: "deliver sha256 msg k n db = (Inl e, db') \<Longrightarrow> db' = db"
  by (auto simp: deliver_def andthen_apply apply_live_message_def split: option.splits dest: in_transaction_atomic)

lemma apply_domain_message_fails:
  assumes "apply_domain_message sha256 msg db = (Inl e, db')"
  shows "messages db' = messages db"
proof -
  obtain r1 db1 where 1: "id_for_guid sha256 (chat_guid_str (m_chat msg)) db = (r1, db1)" by fastforce
  then have m1: "messages db1 = messages db" using id_for_guid_tables [OF 1] by simp
  show ?thesis
  proof (cases r1)
    case (Inr k)
    obtain r2 db2 where 2: "ensure_chat sha256 msg k db1 = (r2, db2)" by fastforce
    then have m2: "messages db2 = messages db" using ensure_chat_messages [of sha256 msg k db1] m1 by simp
    show ?thesis
    proof (cases r2)
      case (Inr u)
      obtain r3 db3 where 3: "id_for_guid sha256 (message_guid_str (m_guid msg)) db2 = (r3, db3)" by fastforce
      then have "messages db3 = messages db" using id_for_guid_tables [OF 3] m2 by simp
      then show ?thesis
        using assms 1 2 3 \<open>r1 = Inr k\<close> Inr deliver_fails [of sha256 msg k _ db3]
        by (cases r3) (auto simp: apply_domain_message_steps andthen_apply)
    qed (use assms 1 2 m2 Inr in \<open>simp add: apply_domain_message_steps andthen_apply\<close>)
  qed (use assms 1 m1 in \<open>simp add: apply_domain_message_steps andthen_apply\<close>)
qed

lemma row_id_stringify: "json_wf v \<Longrightarrow> row_id (stringify_row_ids v) = row_id v"
proof (cases v)
  case (JObj ob)
  assume wf: "json_wf v"
  have "json_at (stringify_row_ids v) ''id'' = unwrap_or (map_of (stringify_id ''id'' ob) ''id'') JNull"
    by (auto simp: JObj stringify_row_ids_def json_at_def json_get_def stringify_id_def [of "''chat_id''"]
        split: option.splits sum.splits)
  moreover have "in_i64 n" if "map_of ob ''id'' = Some x" "parse_json_id x = Inr n" for x n
    using that wf parse_json_id_wf [of x n] map_of_SomeD [OF that(1)] by (force simp: JObj list_all_iff)
  ultimately show ?thesis
    by (auto simp: row_id_def json_id_or_0_def JObj json_at_def json_get_def stringify_id_def parse_json_id_def [of "JStr _"]
        json_id_def parse_i64_show_int split: option.splits sum.splits)
qed (simp_all add: stringify_row_ids_def)

text \<open>A delivery that succeeds leaves the message it reports in the cache.\<close>

lemma apply_domain_message_stores:
  assumes "cache_ok db" "apply_domain_message sha256 msg db = (Inr a, db')"
  shows "dom (map_of (messages db')) = insert (row_id (ap_message a)) (dom (map_of (messages db)))"
  using assms
proof (rule apply_domain_message_runs)
  fix k n db3 doc
  assume ok3: "cache_ok db3" and doc: "json_wf doc" and m: "messages db3 = messages db"
    and run: "apply_live_message doc db3 = (Inr a, db')"
  have "ap_message a = stringify_row_ids (merged_at db3 doc)"
    using ok3 doc by (rule apply_live_message_runs) (use run in simp_all)
  then have "row_id (ap_message a) = row_id (merged_at db3 doc)"
    using row_id_stringify merged_at_ok(1) [OF ok3 doc] by simp
  then show ?thesis using apply_live_messages [OF ok3 doc run] m by (simp add: with_message_def)
qed

lemma holds_apply_domain_message:
  assumes "holds ids db" "apply_domain_message sha256 msg db = (r, db')"
  shows "holds (case r of Inl _ \<Rightarrow> ids | Inr a \<Rightarrow> insert (row_id (ap_message a)) ids) db'"
proof -
  have ok: "cache_ok db" using assms(1) by (rule holds_cache_ok)
  have ok': "cache_ok db'" using keepsE [OF cache_ok_apply_domain_message ok assms(2)] .
  show ?thesis
  proof (cases r)
    case (Inl e)
    then show ?thesis using holds_same_messages [OF assms(1) ok'] apply_domain_message_fails assms(2) by simp
  next
    case (Inr a)
    then have run: "apply_domain_message sha256 msg db = (Inr a, db')" using assms(2) by simp
    show ?thesis
      using Inr ok' assms(1) apply_domain_message_stores [OF ok run] plain_apply_domain_message [OF ok _ run]
      by (auto simp: holds_def)
  qed
qed

lemma mark_read_messages: "messages (snd (mark_read n db)) = messages db"
  by (simp add: mark_read_def split: option.splits)

lemma holds_mark_read: "keeps (holds ids) (mark_read n)"
  using cache_ok_mark_read mark_read_messages by (intro keeps_holds) (auto simp: keeps_def)

section \<open>Renaming\<close>

lemma same_upsert_chat: "keeps (\<lambda>db. messages db = tbl) (upsert_chat c)"
  using upsert_chat_messages by (intro keepsI) simp

lemma same_rename_chats: "keeps (\<lambda>db. messages db = tbl) (rename_chats book cs n)"
  by (induction cs arbitrary: n)
     (auto simp: rename_chat_def Let_def intro!: keeps_intros same_upsert_chat)

text \<open>A new name of the sender leaves the message where it is, and its document plain.\<close>

lemma holds_repair_sender_name:
  assumes "message_row_ok (fst kv) (snd kv)" "\<And>v. mr_raw (snd kv) = Some v \<Longrightarrow> plain_doc v"
  shows "keeps (holds ids) (repair_sender_name titles kv)"
proof (rule keepsI)
  fix db
  assume h: "holds ids db"
  obtain v where v: "mr_raw (snd kv) = Some v" "json_wf v" "is_object v"
    using assms(1) by (auto simp: message_row_ok_def split: option.splits)
  have ok: "cache_ok (snd (repair_sender_name titles kv db))"
    using keepsD [OF repair_sender_name_ok(1) [OF assms(1)] holds_cache_ok [OF h]] .
  show "holds ids (snd (repair_sender_name titles kv db))"
  proof (cases "repair_sender_name titles kv db = (Inr (), db)")
    case False
    then obtain name where "titles (mr_chat_id (snd kv)) = Some name" "mr_is_from_me (snd kv) = 0"
        "mr_sender_name (snd kv) \<noteq> Some name"
      by (auto simp: repair_sender_name_def Let_def split: option.splits if_splits)
    moreover obtain doc where doc: "json_put v ''sender_name'' (JStr name) = Some doc"
        "\<And>k. json_at doc k = (if k = ''sender_name'' then JStr name else json_at v k)"
      by (rule json_put_objectE [OF v(3,2), of "JStr name" "''sender_name''"]) (simp, blast)
    ultimately have run: "repair_sender_name titles kv db = (Inr (), db\<lparr>messages := kv_insert (fst kv)
        ((snd kv)\<lparr>mr_sender_name := Some name, mr_raw := Some doc\<rparr>) (messages db)\<rparr>)"
      using v(1) by (simp add: repair_sender_name_def Let_def)
    have "plain_doc doc" using plain_doc_cong [of doc v] doc(2) assms(2) [OF v(1)] by simp
    moreover have "kv_sorted (messages db)" using h by (simp add: holds_def cache_ok_def rows_ok_def)
    ultimately show ?thesis
      using h ok by (auto simp: run holds_def plain_cache_def list_all_iff set_kv_insert)
  qed (use h in simp)
qed

lemma holds_repair_phone_sender_names: "keeps (holds ids) repair_phone_sender_names"
proof (rule keepsI)
  fix db
  assume h: "holds ids db"
  obtain cs where cs: "list_chats 500 db = Inr cs" using list_chats_Inr holds_cache_ok [OF h] by blast
  have "keeps (holds ids) (repair_sender_name (chat_titles cs) kv)" if "kv \<in> set (messages db)" for kv
    using h that cache_ok_rows(2) [of db]
    by (intro holds_repair_sender_name) (auto simp: holds_def plain_cache_def list_all_iff)
  then have "keeps (holds ids) (for_each (messages db) (repair_sender_name (chat_titles cs)))"
    using for_each_ok [of "messages db" "holds ids" "repair_sender_name (chat_titles cs)" UNIV]
    by (simp add: fails_in_def)
  from keepsD [OF this h] show "holds ids (snd (repair_phone_sender_names db))"
    by (simp add: repair_phone_sender_names_def andthen_apply cs)
qed

lemma holds_apply_contact_book: "keeps (holds ids) (apply_contact_book book)"
proof (rule keepsI)
  fix db
  assume h: "holds ids db"
  obtain cs where cs: "list_chats 500 db = Inr cs" using list_chats_Inr holds_cache_ok [OF h] by blast
  let ?names = "rename_chats (fold seed_from_cache_chat cs book) cs 0"
  have "keeps cache_ok ?names" using rename_chats_ok [of cs] list_chats_docs [OF holds_cache_ok [OF h] cs] by blast
  from keepsD [OF this holds_cache_ok [OF h]] have "cache_ok (snd (?names db))" .
  moreover have "messages (snd (?names db)) = messages db"
    using keepsD [OF same_rename_chats [of "messages db"], of db] by simp
  ultimately have h1: "holds ids (snd (?names db))" by (rule holds_same_messages [OF h])
  then have "holds ids (snd (repair_phone_sender_names (snd (?names db))))"
    by (rule keepsD [OF holds_repair_phone_sender_names])
  then show "holds ids (snd (apply_contact_book book db))"
    using h1 by (auto simp: apply_contact_book_def andthen_apply cs split: prod.splits sum.splits)
qed

end
