(* ===== verification/Session_Safe.thy ===== *)
theory Session_Safe
  imports Session Cache_Rows
begin

text \<open>
  What the session keeps of the daemon's state.  The session reaches the state through a few operations; an
  invariant that those keep is kept by everything the session does, whatever the network answers and
  whatever the schedule, as long as the other tasks keep it.  The interface is the locale
  \<open>daemon_invariant\<close>; \<open>daemon_fact\<close> has the simpler laws of an invariant that any event keeps whose
  message is stored, and its first instance is the soundness of the cache.
\<close>

named_theorems sound_intros \<open>what keeps an invariant of the daemon\<close>

text \<open>The row of the cache that an event is about.\<close>

fun announced :: "envelope \<Rightarrow> i64 set" where
  "announced (Event topic payload) =
     (if topic = ''sync.message'' then {row_id (json_at payload ''message'')} else {})"
| "announced _ = {}"

fun is_event :: "envelope \<Rightarrow> bool" where
  "is_event (Event _ _) = True"
| "is_event _ = False"

abbreviation message_ids :: "cache \<Rightarrow> i64 set" where
  "message_ids db \<equiv> dom (map_of (messages db))"

lemma announced_events [simp]:
  "announced (sync_link_event view db) = {}" "announced (sync_chats_event reason cs) = {}"
  "announced (sync_message_event a) = {row_id (ap_message a)}"
  "is_event (sync_link_event view db)" "is_event (sync_chats_event reason cs)" "is_event (sync_message_event a)"
  by (simp_all add: sync_link_event_def sync_chats_event_def sync_message_event_def json_simps)

text \<open>A schedule is fair to an invariant when what other tasks do meanwhile keeps it.\<close>

definition gentle :: "(('u, 'w) daemon \<Rightarrow> bool) \<Rightarrow> ('u, 'w) loop_event list \<Rightarrow> bool" where
  "gentle I evs \<longleftrightarrow> (\<forall>f d. Meanwhile f \<in> set evs \<longrightarrow> I d \<longrightarrow> I (f d))"

lemma gentle_Cons: "gentle I (ev # evs) \<Longrightarrow> gentle I evs"
  by (simp add: gentle_def)

lemma keeps_or_default [sound_intros]: "keeps P m \<Longrightarrow> keeps P (or_default x m)"
  by (auto simp: keeps_def or_default_def split: prod.splits)

section \<open>The interface\<close>

text \<open>The operations on the shared state but for what is sent.\<close>

locale daemon_state =
  fixes E :: "('u, 'w) env" and I :: "('u, 'w) daemon \<Rightarrow> bool"
  assumes cache_sound: "I d \<Longrightarrow> cache_ok (dm_cache d)"
    and any_link: "I d \<Longrightarrow> I (d\<lparr>dm_link := l\<rparr>)"
    and any_meta: "I d \<Longrightarrow> I (change_cache (set_meta k v) d)"
    and stored_chat [sound_intros]: "keeps I (on_cache (upsert_domain_chat (ev_sha256 E) c))"
    and stored_message [sound_intros]: "keeps I (on_cache (upsert_domain_message (ev_sha256 E) m))"
    and delivery: "keeps I (on_cache (apply_domain_message (ev_sha256 E) m))"
    and named [sound_intros]: "keeps I (on_cache (apply_contact_book book))"
    and chat_read [sound_intros]: "keeps I (on_cache (mark_read n))"

text \<open>What the tasks send: the state of the link, lists of chats, and the message that a delivery has just returned,
  as it is or with members added.\<close>

locale daemon_invariant = daemon_state +
  assumes link_told: "I d \<Longrightarrow> I (emit_sync_link view d)"
    and chats_told: "I d \<Longrightarrow> I (send_event (sync_chats_event reason cs) d)"
    and delivered_told:
      "I d \<Longrightarrow> on_cache (apply_domain_message (ev_sha256 E) m) d = (Inr a, d') \<Longrightarrow> row_id v = row_id (ap_message a) \<Longrightarrow>
         I (send_event (sync_message_event (a\<lparr>ap_message := v\<rparr>)) d')"

text \<open>An invariant that any event keeps whose message is in the cache.\<close>

locale daemon_fact = daemon_state +
  assumes event: "I d \<Longrightarrow> is_event ev \<Longrightarrow> announced ev \<subseteq> message_ids (dm_cache d) \<Longrightarrow> I (send_event ev d)"

lemma delivered_is_stored:
  "cache_ok (dm_cache d) \<Longrightarrow> on_cache (apply_domain_message sha256 m) d = (Inr a, d') \<Longrightarrow>
     row_id (ap_message a) \<in> message_ids (dm_cache d')"
proof -
  assume d: "cache_ok (dm_cache d)" and run: "on_cache (apply_domain_message sha256 m) d = (Inr a, d')"
  obtain r db where 1: "apply_domain_message sha256 m (dm_cache d) = (r, db)" by fastforce
  then have "r = Inr a" "d' = d\<lparr>dm_cache := db\<rparr>" using run by (cases r; simp add: on_cache_def)+
  then show ?thesis using apply_domain_message_stores [OF d] 1 by simp
qed

sublocale daemon_fact \<subseteq> daemon_invariant E I
proof
  fix d d' m a v
  assume d: "I d" and run: "on_cache (apply_domain_message (ev_sha256 E) m) d = (Inr a, d')"
    and v: "row_id v = row_id (ap_message a)"
  have "I d'" using keepsE [OF delivery d run] .
  then show "I (send_event (sync_message_event (a\<lparr>ap_message := v\<rparr>)) d')"
    using delivered_is_stored [OF cache_sound [OF d] run] v by (intro event) simp_all
qed (simp_all add: emit_sync_link_def event)

lemma told_as_stored:
  "\<exists>v. row_id v = row_id (ap_message a) \<and> sync_message_event a = sync_message_event (a\<lparr>ap_message := v\<rparr>)"
  by (rule exI [of _ "ap_message a"]) simp

text \<open>Two invariants together are one.\<close>

lemma keeps_conj: "keeps I m \<Longrightarrow> keeps J m \<Longrightarrow> keeps (\<lambda>d. I d \<and> J d) m"
  by (simp add: keeps_def)

lemma daemon_fact_both:
  assumes "daemon_fact E I" "daemon_fact E J"
  shows "daemon_fact E (\<lambda>d. I d \<and> J d)"
proof -
  note I = daemon_fact.axioms(1) [OF assms(1)] and J = daemon_fact.axioms(1) [OF assms(2)]
  note both = daemon_state.stored_chat daemon_state.stored_message daemon_state.delivery daemon_state.named
    daemon_state.chat_read
  show ?thesis
    by unfold_locales
       (auto intro: daemon_state.cache_sound [OF I] daemon_state.any_link [OF I] daemon_state.any_link [OF J]
          daemon_state.any_meta [OF I] daemon_state.any_meta [OF J] daemon_fact.event [OF assms(1)]
          daemon_fact.event [OF assms(2)] intro!: keeps_conj both [OF I] both [OF J])
qed

context daemon_invariant
begin

lemma change_link: "I d \<Longrightarrow> I (change_link f d)"
  by (simp add: change_link_def any_link)

lemma change_uplink: "I d \<Longrightarrow> I (change_uplink f d)"
  by (simp add: change_uplink_def change_link)

lemma link_state: "I d \<Longrightarrow> I (change_cache (set_link_state b r e) d)"
  using any_meta [OF any_meta [OF any_meta], of d] by (simp add: change_cache_def set_link_state_def Let_def)

lemma disconnected: "I d \<Longrightarrow> I (change_cache set_disconnected d)"
  using any_meta [OF any_meta, of d] by (simp add: change_cache_def set_disconnected_def)

lemma emit: "I d \<Longrightarrow> I (emit_view E d)"
  by (simp add: emit_view_def link_told)

lemmas moves = change_link change_uplink link_state disconnected link_told emit

lemma kept_on_uplink [sound_intros]: "keeps I (on_uplink m)"
  by (auto simp: keeps_def on_uplink_def any_link split: prod.splits)

lemma kept_on_bb [sound_intros]: "keeps I (on_bb m)"
  by (simp add: on_bb_def kept_on_uplink)

lemma kept_on_link [sound_intros]: "keeps I (on_link m)"
  by (auto simp: keeps_def on_link_def any_link split: prod.splits)

lemma kept_writes [sound_intros]:
  "keeps I (writes (send_event (sync_chats_event reason cs)))" "keeps I (writes (change_link f))"
  "keeps I (writes (change_cache (set_meta k v)))" "keeps I (writes (emit_sync_link view))"
  by (auto intro!: keeps_writes moves any_meta chats_told)

text \<open>A message is announced once it is stored.\<close>

lemma kept_delivery [sound_intros]:
  assumes "\<And>a. \<exists>v. row_id v = row_id (ap_message a) \<and> ev a = sync_message_event (a\<lparr>ap_message := v\<rparr>)"
    and "\<And>a. keeps I (k a)"
  shows "keeps I (andthen (on_cache (apply_domain_message (ev_sha256 E) m)) (\<lambda>a.
    andthen (writes (send_event (ev a))) (\<lambda>_. k a)))"
proof (rule keepsI)
  fix d
  assume d: "I d"
  obtain r d1 where run: "on_cache (apply_domain_message (ev_sha256 E) m) d = (r, d1)" by fastforce
  show "I (snd (andthen (on_cache (apply_domain_message (ev_sha256 E) m)) (\<lambda>a.
      andthen (writes (send_event (ev a))) (\<lambda>_. k a)) d))"
  proof (cases r)
    case Inl
    then show ?thesis using keepsE [OF delivery d run] run by (simp add: andthen_apply)
  next
    case (Inr a)
    from assms(1) [of a] obtain v where "row_id v = row_id (ap_message a)" "ev a = sync_message_event (a\<lparr>ap_message := v\<rparr>)"
      by blast
    then have "I (send_event (ev a) d1)" using delivered_told [OF d] run Inr by simp
    then show ?thesis using keepsD [OF assms(2)] run Inr by (simp add: andthen_apply)
  qed
qed

section \<open>The session\<close>

lemma kept_bind_names [sound_intros]: "keeps I (bind_names E cs)"
  unfolding bind_names_def Let_def by (intro keeps_intros sound_intros)

lemma kept_prefetch_chat [sound_intros]: "keeps I (prefetch_chat E public book c)"
  unfolding prefetch_chat_def by (intro keeps_intros sound_intros)

lemma kept_prefetch_cache [sound_intros]: "keeps I (prefetch_cache E public)"
  unfolding prefetch_cache_def split_def by (intro keeps_intros sound_intros)

lemma kept_upsert_all [sound_intros]: "keeps I (upsert_all E cs acc)"
  by (induction cs arbitrary: acc) (auto intro!: keeps_intros sound_intros)

lemma kept_reload_chats [sound_intros]: "keeps I (reload_chats E public reason)"
  unfolding reload_chats_def split_def
  by (intro keeps_intros sound_intros)

lemma kept_apply_live [sound_intros]: "keeps I (apply_live E public msg)"
proof -
  have "keeps I (andthen (on_cache (apply_domain_message (ev_sha256 E) m)) (\<lambda>a.
      andthen (writes (send_event (sync_message_event a))) (\<lambda>_.
      if is_unknown (ap_chat a) then ignore_err (reload_chats E public ''unknown_chat'') else ret ())))" for m
    by (intro kept_delivery keeps_intros sound_intros told_as_stored)
  then show ?thesis by (auto simp: apply_live_def keeps_def andthen_apply)
qed

lemma kept_doorbell [sound_intros]: "keeps I (doorbell E public ev)"
  unfolding doorbell_def by (intro keeps_intros sound_intros)

lemma kept_retry_prefetch: "I d \<Longrightarrow> retry_prefetch E public ok d = (b, d') \<Longrightarrow> I d'"
  using keepsD [OF kept_prefetch_cache, of d public]
  by (auto simp: retry_prefetch_def split: if_splits prod.splits sum.splits)

lemma kept_live_poll:
  "I d \<Longrightarrow> gentle I evs \<Longrightarrow> live_poll E public gen evs ok d = (out, d') \<Longrightarrow> I d'"
proof (induction evs arbitrary: ok d)
  case Nil
  then show ?case by (auto split: if_splits)
next
  case (Cons ev evs)
  note IH = Cons.IH [OF _ gentle_Cons [OF Cons.prems(2)]]
  show ?case
  proof (cases "ln_wake (dm_link d) = gen")
    case True
    show ?thesis
    proof (cases ev)
      case (Arrives msg)
      have s: "I (snd (apply_live E public msg d))"
        using keepsD [OF kept_apply_live Cons.prems(1)] .
      show ?thesis
        using Cons.prems(3) True Arrives s IH
        by (cases "apply_live E public msg d"; cases "fst (apply_live E public msg d)") auto
    next
      case Tick
      obtain b d1 where 1: "retry_prefetch E public ok d = (b, d1)" by fastforce
      show ?thesis
        using Cons.prems(3) True Tick 1 IH [OF kept_retry_prefetch [OF Cons.prems(1) 1]] by simp
    next
      case (Meanwhile f)
      then have "I (f d)" using Cons.prems(1,2) by (auto simp: gentle_def)
      then show ?thesis using Cons.prems(3) True Meanwhile IH by simp
    qed (use Cons.prems True IH in auto)
  qed (use Cons.prems in auto)
qed

lemma kept_webhook_loop:
  "I d \<Longrightarrow> gentle I evs \<Longrightarrow> webhook_loop E public gen evs ok d = (out, d') \<Longrightarrow> I d'"
proof (induction evs arbitrary: ok d)
  case Nil
  then show ?case by (auto simp: Let_def moves split: if_splits)
next
  case (Cons ev evs)
  note IH = Cons.IH [OF _ gentle_Cons [OF Cons.prems(2)]]
  show ?case
  proof (cases "ln_wake (dm_link d) = gen")
    case True
    show ?thesis
    proof (cases ev)
      case (Arrives msg)
      have s: "I (snd (apply_live E public msg d))"
        using keepsD [OF kept_apply_live Cons.prems(1)] .
      show ?thesis
        using Cons.prems(3) True Arrives s IH
        by (cases "apply_live E public msg d"; cases "fst (apply_live E public msg d)") (auto simp: Let_def)
    next
      case (Rings hook)
      have "I (snd (doorbell E public hook d))"
        using keepsD [OF kept_doorbell Cons.prems(1)] .
      then show ?thesis using Cons.prems(3) True Rings IH by (simp add: Let_def)
    next
      case Tick
      obtain b d1 where 1: "retry_prefetch E public ok d = (b, d1)" by fastforce
      show ?thesis
        using Cons.prems(3) True Tick 1 IH [OF kept_retry_prefetch [OF Cons.prems(1) 1]] by (simp add: Let_def)
    next
      case (Meanwhile f)
      then have "I (f d)" using Cons.prems(1,2) by (auto simp: gentle_def)
      then show ?thesis using Cons.prems(3) True Meanwhile IH by (simp add: Let_def)
    qed (use Cons.prems True IH in \<open>auto simp: Let_def moves\<close>)
  qed (use Cons.prems in \<open>auto simp: Let_def moves\<close>)
qed

lemma kept_run_live:
  "I d \<Longrightarrow> gentle I (at_events a) \<Longrightarrow> run_live E public gen a ok d = (out, d') \<Longrightarrow> I d'"
proof -
  assume d: "I d" and g: "gentle I (at_events a)" and run: "run_live E public gen a ok d = (out, d')"
  have k1: "I (snd (on_link (on_store (ensure_webhook_token (at_fresh a))) d))"
    using keepsD [OF kept_on_link d] .
  have k2: "I (snd (on_uplink (uplink_webhook_clear_ours (ev_lib E) (ev_net E)) d))"
    using keepsD [OF kept_on_uplink d] .
  show ?thesis
    using run k1 k2 g
    by (auto simp: run_live_def live_webhook_def moves split: if_splits prod.splits sum.splits
        elim!: kept_live_poll [rotated 2] kept_webhook_loop [rotated 2] simp del: live_poll.simps webhook_loop.simps)
qed

lemma kept_connect_and_sync_inner:
  "I d \<Longrightarrow> gentle I (at_events a) \<Longrightarrow> connect_and_sync_inner E creds gen a retry d = (out, r, d') \<Longrightarrow> I d'"
proof -
  assume d: "I d" and g: "gentle I (at_events a)" and run: "connect_and_sync_inner E creds gen a retry d = (out, r, d')"
  have 1: "I (snd (bb_connect E creds d))"
    using keepsD [OF kept_on_uplink d] by (simp add: bb_connect_def)
  show ?thesis
  proof (cases "ln_wake (dm_link d) = gen")
    case True
    note wake = this
    show ?thesis
    proof (cases "bb_connect E creds d")
      case (Pair r1 d1)
      show ?thesis
      proof (cases r1)
        case (Inl e)
        then show ?thesis using run wake Pair 1 by (simp add: connect_and_sync_inner_def)
      next
        case (Inr c)
        let ?d2 = "emit_view E (change_cache (set_link_state True True [])
                        (change_link (set_connecting False) (change_uplink (attach c) d1)))"
        obtain p d3 where 3: "prefetch_cache E (cr_public creds) ?d2 = (p, d3)" by fastforce
        have "I ?d2" using 1 Pair by (simp add: moves)
        then have s3: "I d3" using keepsE [OF kept_prefetch_cache _ 3] by blast
        obtain o4 d4 where 4: "run_live E (cr_public creds) gen a (case p of Inl _ \<Rightarrow> False | Inr _ \<Rightarrow> True) d3 = (o4, d4)"
          by fastforce
        have "d' = d4" using run wake Pair Inr 3 4 by (simp add: connect_and_sync_inner_def)
        then show ?thesis using kept_run_live [OF s3 g 4] by simp
      qed
    qed
  qed (use run d in \<open>simp add: connect_and_sync_inner_def\<close>)
qed

lemma kept_end_session: "I d \<Longrightarrow> I (end_session E result d)"
  by (simp add: end_session_def moves)

lemma kept_connect_and_sync:
  "I d \<Longrightarrow> gentle I (at_events a) \<Longrightarrow> connect_and_sync E creds gen a retry d = (res, r, d') \<Longrightarrow> I d'"
  by (auto simp: connect_and_sync_def Let_def split: prod.splits intro!: kept_end_session dest: kept_connect_and_sync_inner)

lemma kept_run_generation:
  "I d \<Longrightarrow> list_all (\<lambda>(a, f). gentle I (at_events a) \<and> (\<forall>d. I d \<longrightarrow> I (f d))) attempts \<Longrightarrow>
     run_generation E creds gen attempts retry d = (delays, d') \<Longrightarrow> I d'"
proof (induction attempts arbitrary: retry d delays)
  case (Cons af rest)
  obtain a f where af: "af = (a, f)" by fastforce
  obtain res r1 d1 where 1: "connect_and_sync E creds gen a retry (emit_view E (change_link (set_connecting True) d)) = (res, r1, d1)"
    using prod_cases3 by blast
  have s1: "I d1" using kept_connect_and_sync [OF _ _ 1] Cons.prems af by (simp add: moves)
  show ?case
  proof (cases "ln_wake (dm_link d) = gen \<and> ln_wake (dm_link d1) = gen")
    case True
    let ?d2 = "emit_view E (change_link (set_connecting False) d1)"
    obtain t r2 where 2: "next_delay r1 = (t, r2)" by fastforce
    obtain ds d3 where 3: "run_generation E creds gen rest r2 (f ?d2) = (ds, d3)" by fastforce
    have "I (f ?d2)" using s1 Cons.prems(2) af by (simp add: moves)
    then have "I d3" using Cons.IH [of "f ?d2" r2 ds] 3 Cons.prems(2,3) True af 1 2 by (simp add: Let_def)
    then show ?thesis using Cons.prems(3) af 1 2 3 True by (simp add: Let_def)
  next
    case False
    then show ?thesis using Cons.prems s1 af 1 by (auto simp: Let_def split: if_splits)
  qed
qed simp

end

section \<open>The cache stays sound\<close>

definition sound :: "('u, 'w) daemon \<Rightarrow> bool" where
  "sound d \<longleftrightarrow> cache_ok (dm_cache d)"

lemma keeps_sound_on_cache [sound_intros]: "keeps cache_ok m \<Longrightarrow> keeps sound (on_cache m)"
  by (auto simp: keeps_def sound_def on_cache_def split: prod.splits)

lemma keeps_cache_mark_read: "keeps cache_ok (mark_read n)"
  using cache_ok_mark_read by (auto simp: keeps_def)

lemma keeps_sound_send [sound_intros]: "keeps sound (writes (send_event ev))"
  by (auto simp: keeps_def sound_def send_event_def)

lemmas cache_ok_ops = cache_ok_upsert_domain_chat cache_ok_upsert_domain_message cache_ok_apply_domain_message
  apply_contact_book_ok [THEN conjunct1] keeps_cache_mark_read

interpretation safe: daemon_fact E sound for E :: "('u, 'w) env"
  by unfold_locales
     (auto simp: sound_def change_cache_def send_event_def intro!: keeps_sound_on_cache cache_ok_ops)

lemma sound_send [simp]: "sound (send_event ev d) = sound d"
  by (simp add: sound_def send_event_def)

end
