(* ===== verification/Session_Contract.thy ===== *)
theory Session_Contract
  imports Session_Safe Store_Contract Cache_Contract
begin

text \<open>
  What the session promises: bounded retry delays, a link that looks down once a session has ended,
  live messages that are stored before they are published, and a cache that stays sound through
  every schedule.
\<close>

section \<open>Backoff\<close>

lemma retry_base_bounds: "RETRY_MIN \<le> retry_base f \<and> retry_base f \<le> RETRY_MAX"
proof -
  have "1 \<le> (2 :: nat) ^ k" for k by simp
  then have "RETRY_MIN * 1 \<le> RETRY_MIN * 2 ^ min (unat f) 7" by (intro mult_le_mono2)
  then show ?thesis by (simp add: retry_base_def RETRY_MIN_def RETRY_MAX_def)
qed

lemma retry_base_cap: "7 \<le> unat f \<Longrightarrow> retry_base f = RETRY_MAX"
  by (simp add: retry_base_def RETRY_MIN_def RETRY_MAX_def min_absorb2)

lemma unat_mod_5: "unat (e mod 5 :: u64) \<le> 4"
proof -
  have "unat (e mod 5) = unat e mod 5" by (simp add: unat_mod)
  then show ?thesis using mod_less_divisor [of 5 "unat e"] by simp
qed

lemma jitter_bound: "base div 4 * unat (e mod 5 :: u64) div 4 \<le> base div 4"
proof -
  have "base div 4 * unat (e mod 5) \<le> base div 4 * 4" using unat_mod_5 [of e] by (intro mult_le_mono2)
  then have "base div 4 * unat (e mod 5) div 4 \<le> base div 4 * 4 div 4" by (rule div_le_mono)
  then show ?thesis by simp
qed

lemma u32_saturating_inc_pos: "u32_saturating_inc n \<noteq> 0"
proof
  assume "u32_saturating_inc n = 0"
  then have "n + 1 = 0" "n \<noteq> - 1" by (auto simp: u32_saturating_inc_def split: if_splits)
  then show False by (simp add: eq_neg_iff_add_eq_0)
qed

text \<open>every retry delay is at least a quarter of a second and at most thirty seconds, lies between
  the base for the number of failures and a quarter more, and is exactly thirty seconds from the
  eighth failure in a row on; the failure count saturates instead of wrapping to zero; only a session
  of thirty seconds resets it.\<close>

theorem retry_delay_bounds:
  assumes "next_delay r = (delay, r')"
  shows "RETRY_MIN \<le> delay \<and> delay \<le> RETRY_MAX
       \<and> retry_base (rb_failures r) \<le> delay
       \<and> delay \<le> retry_base (rb_failures r) + retry_base (rb_failures r) div 4
       \<and> (7 \<le> unat (rb_failures r) \<longrightarrow> delay = RETRY_MAX)
       \<and> rb_failures r' \<noteq> 0
       \<and> (\<forall>t. rb_failures (record_session t r') = (if t \<ge> RETRY_MAX then 0 else rb_failures r'))"
proof -
  let ?b = "retry_base (rb_failures r)"
  let ?j = "?b div 4 * unat (next_entropy (rb_entropy r) mod 5) div 4"
  have d: "delay = min (?b + ?j) RETRY_MAX" and r': "rb_failures r' = u32_saturating_inc (rb_failures r)"
    using assms by (auto simp: next_delay_def Let_def)
  have b: "RETRY_MIN \<le> ?b" "?b \<le> RETRY_MAX" using retry_base_bounds by blast+
  have "7 \<le> unat (rb_failures r) \<Longrightarrow> delay = RETRY_MAX" using d retry_base_cap by simp
  moreover have "delay \<le> ?b + ?b div 4"
    using d jitter_bound [of ?b "next_entropy (rb_entropy r)"] by linarith
  moreover have "?b \<le> delay" "RETRY_MIN \<le> delay" "delay \<le> RETRY_MAX" using d b by simp_all
  moreover have "rb_failures r' \<noteq> 0" using r' u32_saturating_inc_pos by simp
  ultimately show ?thesis by (simp add: record_session_def)
qed

theorem retry_delay_bounds_witness:
  "\<exists>r'. next_delay \<lparr> rb_failures = 9, rb_entropy = 1 \<rparr> = (RETRY_MAX, r') \<and> rb_failures r' \<noteq> 0"
proof -
  obtain delay r' where 1: "next_delay \<lparr> rb_failures = 9, rb_entropy = 1 \<rparr> = (delay, r')" by fastforce
  have "7 \<le> unat (rb_failures \<lparr> rb_failures = 9, rb_entropy = 1 \<rparr>)" by simp
  then show ?thesis using retry_delay_bounds [OF 1] 1 by blast
qed

section \<open>The end of a session\<close>

text \<open>C36: however a session ends, by an error, by the peer or by a new generation, afterwards no client
  is attached, the webhook counts as neither listening nor registered, the cache says that the
  bridge is disconnected and not ready and why, and the last event published is a
  \<^verbatim>\<open>sync.link\<close> that says so.\<close>

theorem ended_session_is_down:
  assumes "connect_and_sync E creds gen a retry d = (result, retry', d')"
  shows "\<not> is_up (ln_uplink (dm_link d'))
       \<and> \<not> ln_webhook_listening (dm_link d') \<and> \<not> ln_webhook_registered (dm_link d')
       \<and> get_meta ''bridge_connected'' (dm_cache d') = Some ''false''
       \<and> get_meta ''database_ready'' (dm_cache d') = Some ''false''
       \<and> get_meta ''last_error'' (dm_cache d') = Some (last_error E result)
       \<and> (\<exists>view. last (dm_events d') = Event ''sync.link'' (merge_view view (link_snapshot (dm_cache d')))
            \<and> view = link_view (ev_lib E) (ev_origin E) (dm_link d') \<and> pv_session view \<noteq> Live)"
proof -
  obtain d0 where d': "d' = end_session E result d0"
    using assms by (auto simp: connect_and_sync_def Let_def split: prod.splits)
  have "pv_session (link_view (ev_lib E) (ev_origin E) (dm_link d')) \<noteq> Live"
    unfolding d' by (auto simp: end_session_def emit_view_def emit_sync_link_def send_event_def change_cache_def
        change_uplink_def change_link_def detach_def is_up_def link_view_def fill_webhook_def Let_def
        split: provision.splits)
  then show ?thesis
    unfolding d' by (simp add: end_session_def emit_view_def emit_sync_link_def send_event_def change_cache_def
        change_uplink_def change_link_def detach_def is_up_def set_webhook_listening_def set_link_state_def
        sync_link_event_def Let_def)
qed

text \<open>A server that answers every request with a pong.\<close>

definition demo_net :: "(string, nat) net" where
  "demo_net req w =
     (NetAnswered \<lparr> rs_status = 200, rs_reason = ''OK'', rs_text = Inr [],
        rs_json = Inr (mk_obj [(''status'', JNum (NPos 200)), (''data'', JStr ''pong'')]) \<rparr>, Suc w)"

definition demo_env :: "(string, nat) env" where
  "demo_env =
     \<lparr> ev_lib = demo_lib, ev_net = demo_net, ev_fmt = (\<lambda>_. None), ev_sha256 = demo_sha256,
       ev_image_file = (\<lambda>_. Inl ''no file''), ev_origin = None, ev_cache_text = (\<lambda>_. ''cache'') \<rparr>"

definition demo_daemon :: "(string, nat) daemon" where
  "demo_daemon =
     \<lparr> dm_link = boot_with demo_lib (demo_store (File (demo_file None)) (Entry ''hunter2'')) 0,
       dm_cache = empty_cache, dm_events = [] \<rparr>"

definition demo_attempt :: "(string, nat) attempt" where
  "demo_attempt =
     \<lparr> at_fresh = ''tok'', at_bound = Inr (), at_events = [Arrives demo_message, NoMoreMessages], at_duration = 5 \<rparr>"

theorem ended_session_is_down_witness:
  "get_meta ''bridge_connected'' (dm_cache (snd (snd (connect_and_sync demo_env (demo_creds ''hunter2'') 0
     demo_attempt \<lparr> rb_failures = 0, rb_entropy = 1 \<rparr> demo_daemon)))) = Some ''false''"
  using ended_session_is_down [of demo_env "demo_creds ''hunter2''" 0 demo_attempt "\<lparr> rb_failures = 0, rb_entropy = 1 \<rparr>" demo_daemon]
  by (metis prod.collapse)

section \<open>Live messages\<close>

lemma id_loop_positive: "id_loop fuel g n db = Some (m, db') \<Longrightarrow> 1 \<le> n \<Longrightarrow> id_of db g = Some m \<or> 1 \<le> m"
  by (induction fuel g n db rule: id_loop.induct) (auto simp: next_identity_def split: if_splits option.splits)

lemma id_for_guid_positive:
  "id_for_guid sha256 g db = (Inr n, db') \<Longrightarrow> id_of db g = Some n \<or> 1 \<le> n"
  using id_loop_positive stable_id_bounds
  by (fastforce simp: id_for_guid_def simp del: id_loop.simps split: option.splits prod.splits)

lemma apply_live_known_chat:
  assumes "cache_ok db" "json_wf msg" "is_object msg" "apply_live_message msg db = (Inr a, db')"
    and "chat_id_of msg \<noteq> 0" "stored_chat db (chat_id_of msg) \<noteq> None"
  shows "\<exists>c. ap_chat a = ChatUpdated c"
proof -
  obtain ob where msg: "msg = JObj ob" using assms(3) by (rule is_objectE)
  obtain v where v: "map_of ob ''chat_id'' = Some v" "json_id_or_0 v \<noteq> 0"
    using assms(5) msg by (cases "map_of ob ''chat_id''") (auto simp: chat_id_of_def)
  then have "v \<noteq> JNull" by auto
  then have "\<not> merge_skips ''chat_id'' v ob'" for ob' using v(2) by (simp add: merge_skips_def)
  then have "json_get (merged_at db msg) ''chat_id'' = Some v"
    using merge_message_get [of ob "stored_message db (row_id msg)" "''chat_id''"] assms(2) msg v(1)
    by (simp add: merged_at_def)
  then have same: "chat_id_of (merged_at db msg) = chat_id_of msg"
    using msg v(1) by (simp add: chat_id_of_def json_at_def)
  show ?thesis
    using assms(1,2) by (cases rule: apply_live_message_runs) (use assms(4,6) same in auto)
qed

lemma delivery_updates_chat:
  assumes "cache_ok db" "apply_domain_message sha256 msg db = (Inr a, db')"
    and "0 \<notin> snd ` set (identities db)"
  shows "\<exists>c. ap_chat a = ChatUpdated c"
  using assms(1,2)
proof (rule apply_domain_message_runs)
  fix k n db3 doc
  assume id: "fst (id_for_guid sha256 (chat_guid_str (m_chat msg)) db) = Inr k"
    and k: "in_i64 k" and ok3: "cache_ok db3" and doc: "json_wf doc" "is_object doc"
      "\<And>key. key \<noteq> ''sender_name'' \<Longrightarrow> json_at doc key = json_at (message_to_cache_json msg n k) key"
    and chat: "stored_chat db3 k \<noteq> None" and run: "apply_live_message doc db3 = (Inr a, db')"
  obtain db1 where "id_for_guid sha256 (chat_guid_str (m_chat msg)) db = (Inr k, db1)"
    using id by (cases "id_for_guid sha256 (chat_guid_str (m_chat msg)) db") simp
  then have "id_of db (chat_guid_str (m_chat msg)) = Some k \<or> 1 \<le> k" by (rule id_for_guid_positive)
  then have "k \<noteq> 0"
    using assms(3) map_of_SomeD [of "identities db" "chat_guid_str (m_chat msg)" k] by (force simp: id_of_def)
  moreover have "chat_id_of doc = k"
    using doc(3) [of "''chat_id''"] chat_id_of_message_to_cache_json [OF k, of msg n]
    by (simp add: chat_id_of_def)
  ultimately show ?thesis using apply_live_known_chat [OF ok3 doc(1,2) run] chat by simp
qed

text \<open>applying a live message on a sound cache either fails without publishing anything, or stores
  the message, named from the client's contact book, and publishes exactly one event, the one
  that carries the stored message and its chat: the chat is never missing, so the reload of all
  chats that the code keeps for a missing one does not happen.  The link is untouched.\<close>

theorem live_message_stored_then_published:
  assumes "sound d" "0 \<notin> snd ` set (identities (dm_cache d))" "apply_live E public msg d = (r, d')"
  shows "sound d' \<and> dm_link d' = dm_link d
       \<and> (case r of
            Inl e \<Rightarrow> e = CacheFailure NoReturn \<and> dm_events d' = dm_events d
          | Inr _ \<Rightarrow> \<exists>a c. apply_domain_message (ev_sha256 E) (message_apply_contacts (client_book d) msg) (dm_cache d)
                = (Inr a, dm_cache d')
              \<and> ap_chat a = ChatUpdated c
              \<and> dm_events d' = dm_events d @ [Event ''sync.message'' (mk_obj
                   [(''message'', ap_message a), (''chat'', c), (''is_new'', JBool (ap_is_new a))])])"
proof -
  let ?m = "message_apply_contacts (client_book d) msg"
  obtain q db where run: "apply_domain_message (ev_sha256 E) ?m (dm_cache d) = (q, db)" by fastforce
  have s: "sound d'" using keepsE [OF safe.kept_apply_live assms(1,3)] .
  have ok: "cache_ok (dm_cache d)" using assms(1) by (simp add: sound_def)
  show ?thesis
  proof (cases q)
    case (Inl e)
    then have "e = NoReturn" using fails_inD [OF fails_apply_domain_message ok] run by blast
    moreover have "r = Inl (CacheFailure e)" "d' = d\<lparr>dm_cache := db\<rparr>"
      using assms(3) run Inl by (simp_all add: apply_live_def andthen_apply on_cache_def)
    ultimately show ?thesis using s by simp
  next
    case (Inr a)
    then obtain c where c: "ap_chat a = ChatUpdated c"
      using delivery_updates_chat [OF ok _ assms(2)] run by blast
    have "r = Inr ()" "d' = send_event (sync_message_event a) (d\<lparr>dm_cache := db\<rparr>)"
      using assms(3) run Inr c by (simp_all add: apply_live_def andthen_apply on_cache_def is_unknown_def)
    then show ?thesis
      using s run Inr c by (simp add: send_event_def sync_message_event_def outcome_chat_def)
  qed
qed

theorem live_message_stored_then_published_witness:
  "\<exists>ev d'. apply_live demo_env (cr_public (demo_creds ''hunter2'')) demo_message demo_daemon = (Inr (), d')
     \<and> dm_events d' = [Event ''sync.message'' ev]"
proof -
  have ok: "sound demo_daemon" by (simp add: sound_def demo_daemon_def cache_ok_empty)
  have ids: "0 \<notin> snd ` set (identities (dm_cache demo_daemon))" by (simp add: demo_daemon_def empty_cache_def)
  obtain r d' where run: "apply_live demo_env (cr_public (demo_creds ''hunter2'')) demo_message demo_daemon = (r, d')"
    by fastforce
  have "\<not> isl (fst (apply_live demo_env (cr_public (demo_creds ''hunter2'')) demo_message demo_daemon))" by code_simp
  then have "r = Inr ()" using run by (cases r) auto
  moreover have "dm_events demo_daemon = []" by (simp add: demo_daemon_def)
  ultimately show ?thesis
    using live_message_stored_then_published [OF ok ids run] run by auto
qed

text \<open>the cache stays sound through a whole generation: any number of connection attempts, with any
  answers of the network and any schedule of arrivals, deliveries and ticks, as long as what
  other tasks do in between keeps it sound.\<close>

theorem generation_keeps_cache_sound:
  assumes "cache_ok (dm_cache d)" "run_generation E creds gen attempts retry d = (delays, d')"
    and "\<forall>(a, f) \<in> set attempts. gentle sound (at_events a) \<and> (\<forall>d. sound d \<longrightarrow> sound (f d))"
  shows "cache_ok (dm_cache d')"
  using safe.kept_run_generation [of d attempts E creds gen retry delays d'] assms
  by (auto simp: sound_def list_all_iff)

theorem generation_keeps_cache_sound_witness:
  "cache_ok (dm_cache (snd (run_generation demo_env (demo_creds ''hunter2'') 0
     [(demo_attempt, \<lambda>d. d)] \<lparr> rb_failures = 0, rb_entropy = 1 \<rparr> demo_daemon)))"
proof -
  let ?run = "run_generation demo_env (demo_creds ''hunter2'') 0 [(demo_attempt, \<lambda>d. d)]
     \<lparr> rb_failures = 0, rb_entropy = 1 \<rparr> demo_daemon"
  obtain ds d' where run: "?run = (ds, d')" by fastforce
  have ok: "cache_ok (dm_cache demo_daemon)" by (simp add: demo_daemon_def cache_ok_empty)
  have "gentle sound (at_events demo_attempt)" by (simp add: gentle_def demo_attempt_def)
  then have "\<forall>(a, f) \<in> set [(demo_attempt, \<lambda>d. d)]. gentle sound (at_events a) \<and> (\<forall>d. sound d \<longrightarrow> sound (f d))"
    by simp
  from generation_keeps_cache_sound [OF ok run this] show ?thesis unfolding run snd_conv .
qed

end
