(* ===== verification/Socket_Server.thy ===== *)
theory Socket_Server
  imports Session
begin

text \<open>
  The Unix socket of \<^verbatim>\<open>sync/src/socket_server.rs\<close>: the methods it dispatches and the life of one
  client connection.  A handler runs as one step; other handlers may run before and after it.
  \<open>fresh\<close> holds the time, temporary id and token that a handler draws.  serde_json's parser is the
  parameter \<open>parse\<close>.
\<close>

record fresh =
  fr_now :: string
  fr_temp :: string
  fr_token :: string

section \<open>Replies\<close>

definition error_res :: "string \<Rightarrow> string \<Rightarrow> string \<Rightarrow> envelope" where
  "error_res i code msg = Res i False None (Some \<lparr> e_code = code, e_message = msg \<rparr>)"

definition ok_res :: "string \<Rightarrow> json \<Rightarrow> envelope" where
  "ok_res i result = Res i True (Some result) None"

definition failure_code :: "failure \<Rightarrow> string" where
  "failure_code e = (case e of Uplink b \<Rightarrow> bb_error_code b | _ \<Rightarrow> ''error'')"

section \<open>The methods\<close>

text \<open>\<^verbatim>\<open>context\<close>: the text replaces that of the cause.\<close>

definition required :: "message_text \<Rightarrow> 'a option \<Rightarrow> ('u, 'w, 'a) daemon_op" where
  "required m v = (case v of None \<Rightarrow> raise (Failed m) | Some x \<Rightarrow> ret x)"

definition read_cache :: "(cache \<Rightarrow> cache_error + 'a) \<Rightarrow> ('u, 'w, 'a) daemon_op" where
  "read_cache f = on_cache (\<lambda>db. (f db, db))"

definition view_of :: "('u, 'w) env \<Rightarrow> ('u, 'w) daemon \<Rightarrow> public_view" where
  "view_of E d = link_view (ev_lib E) (ev_origin E) (dm_link d)"

definition snapshot :: "('u, 'w) env \<Rightarrow> ('u, 'w, json) daemon_op" where
  "snapshot E =
     andthen (read_cache (list_chats 50)) (\<lambda>cs.
     reads (\<lambda>d. insert_members [(''chats'', JArr cs), (''protocol'', JStr PROTOCOL_VERSION)]
       (merge_view (view_of E d) (link_snapshot (dm_cache d)))))"

definition live_event :: "applied \<Rightarrow> envelope" where
  "live_event a = Event ''sync.message'' (mk_obj
     [(''message'', ap_message a),
      (''chat'', unwrap_or (outcome_chat (ap_chat a)) JNull),
      (''is_new'', JBool (ap_is_new a))])"

definition do_status :: "('u, 'w) env \<Rightarrow> ('u, 'w, json) daemon_op" where
  "do_status E =
     reads (\<lambda>d. merge_view (view_of E d)
       (insert_members [(''connected'', JBool True), (''protocol'', JStr PROTOCOL_VERSION)]
         (link_snapshot (dm_cache d))))"

text \<open>Announce a view and answer its fields.\<close>

definition announce :: "public_view \<Rightarrow> ('u, 'w, json) daemon_op" where
  "announce view =
     andthen (writes (emit_sync_link view)) (\<lambda>_. ret (to_status_fields view))"

definition do_config_set :: "('u, 'w) env \<Rightarrow> json \<Rightarrow> ('u, 'w, json) daemon_op" where
  "do_config_set E params =
     andthen (required ''server_url required'' (as_str (json_at params ''server_url''))) (\<lambda>url.
     let password = Option.bind (json_get params ''password'') as_str in
     andthen (of_result (map_sum Failed id (settings_draft_from_input (ev_lib E) url password))) (\<lambda>draft.
     andthen (on_link (link_apply (ev_lib E) (ev_origin E) draft)) announce))"

definition do_config_reconnect :: "('u, 'w) env \<Rightarrow> ('u, 'w, json) daemon_op" where
  "do_config_reconnect E = andthen (on_link (link_reconnect (ev_lib E) (ev_origin E))) announce"

definition requested_port :: "json \<Rightarrow> u16" where
  "requested_port params =
     ucast (unwrap_or (Option.bind (json_get params ''port'') as_u64) (ucast DEFAULT_PORT))"

definition clear_webhooks :: "('u, 'w) env \<Rightarrow> ('u, 'w, unit) daemon_op" where
  "clear_webhooks E = ignore_err (on_uplink (uplink_webhook_clear_ours (ev_lib E) (ev_net E)))"

definition do_webhook_set :: "('u, 'w) env \<Rightarrow> fresh \<Rightarrow> json \<Rightarrow> ('u, 'w, json) daemon_op" where
  "do_webhook_set E fr params =
     (let enabled = unwrap_or (as_bool (json_at params ''enabled'')) False;
          serve_url = unwrap_or (Option.bind (json_get params ''serve_url'') as_str) []
      in andthen (if enabled then ret () else clear_webhooks E) (\<lambda>_.
         andthen (on_link (apply_webhook (ev_lib E) (ev_origin E) (fr_token fr)
           \<lparr> wd_enabled = enabled, wd_port = requested_port params, wd_serve_url = serve_url \<rparr>))
           announce))"

definition do_webhook_url :: "('u, 'w) env \<Rightarrow> fresh \<Rightarrow> ('u, 'w, json) daemon_op" where
  "do_webhook_url E fr =
     andthen (on_link (link_webhook_copy_url (ev_lib E) (ev_origin E) (fr_token fr))) (\<lambda>url.
     ret (mk_obj [(''url'', JStr url)]))"

definition do_webhook_rotate :: "('u, 'w) env \<Rightarrow> fresh \<Rightarrow> ('u, 'w, json) daemon_op" where
  "do_webhook_rotate E fr =
     andthen (clear_webhooks E) (\<lambda>_.
     andthen (on_link (link_rotate_webhook_token (ev_lib E) (ev_origin E) (fr_token fr))) announce)"

text \<open>\<^verbatim>\<open>map_err(|e| anyhow!("{e}"))\<close>: the text stays, the code is lost.\<close>

definition plain_failure :: "('s, failure, 'a) act \<Rightarrow> ('s, failure, 'a) act" where
  "plain_failure m s = (case m s of
     (Inl (Uplink b), s') \<Rightarrow> (Inl (Failed (bb_error_text b)), s') | (r, s') \<Rightarrow> (r, s'))"

definition do_webhook_register :: "('u, 'w) env \<Rightarrow> fresh \<Rightarrow> ('u, 'w, json) daemon_op" where
  "do_webhook_register E fr =
     andthen (reads (\<lambda>d. is_up (ln_uplink (dm_link d)))) (\<lambda>up.
     if \<not> up then raise (Failed ''Connect to BlueBubbles first'')
     else
       andthen (on_link (link_webhook_copy_url (ev_lib E) (ev_origin E) (fr_token fr))) (\<lambda>url.
       andthen (plain_failure (on_uplink (uplink_webhook_replace (ev_lib E) (ev_net E) url))) (\<lambda>_.
       andthen (writes (change_link (set_webhook_registered True))) (\<lambda>_.
       andthen (reads (view_of E)) announce))))"

definition name_visible :: "json \<Rightarrow> bool" where
  "name_visible c = (case as_str (json_at c ''contact_name'') of
     None \<Rightarrow> False | Some s \<Rightarrow> list_ex is_alphabetic s)"

definition do_contacts_authorize :: "('u, 'w) env \<Rightarrow> ('u, 'w, json) daemon_op" where
  "do_contacts_authorize E =
     andthen (on_uplink (uplink_contact_book (ev_lib E) (ev_net E))) (\<lambda>book.
     andthen (on_cache (apply_contact_book book)) (\<lambda>n.
     andthen (read_cache (list_chats 50)) (\<lambda>cs.
     andthen (writes (send_event (sync_chats_event ''contacts'' cs))) (\<lambda>_.
     let names_visible = n > 0 \<or> list_ex name_visible cs in
     ret (mk_obj [(''outcome'', JStr (if names_visible then ''granted'' else ''unavailable'')),
                  (''names_visible'', JBool names_visible)])))))"

definition requested_chat :: "json \<Rightarrow> ('u, 'w, i64) daemon_op" where
  "requested_chat params =
     (case parse_json_id (json_at params ''chat_id'') of
        Inl _ \<Rightarrow> raise (Failed ''chat_id required'') | Inr n \<Rightarrow> ret n)"

definition do_mark_read :: "('u, 'w) env \<Rightarrow> json \<Rightarrow> ('u, 'w, json) daemon_op" where
  "do_mark_read E params =
     andthen (requested_chat params) (\<lambda>chat_id.
     andthen (on_cache (mark_read chat_id)) (\<lambda>chat.
     andthen (reads (\<lambda>d. guid_for_chat_id chat_id (dm_cache d))) (\<lambda>guid.
     andthen (case guid of
         None \<Rightarrow> ret ()
       | Some g \<Rightarrow> (case chat_guid_parse g of
           Inl _ \<Rightarrow> ret ()
         | Inr cg \<Rightarrow> ignore_err (on_uplink (uplink_mark_read (ev_lib E) (ev_net E) cg)))) (\<lambda>_.
     ret (mk_obj [(''chat'', unwrap_or chat JNull)])))))"

definition known_chat :: "i64 \<Rightarrow> ('u, 'w, string) daemon_op" where
  "known_chat chat_id =
     andthen (reads (\<lambda>d. guid_for_chat_id chat_id (dm_cache d))) (required ''unknown chat'')"

definition parsed_guid :: "string \<Rightarrow> ('u, 'w, chat_guid) daemon_op" where
  "parsed_guid g = of_result (map_sum (\<lambda>e. Failed (domain_error_text e)) id (chat_guid_parse g))"

definition echo_client_id :: "json \<Rightarrow> json \<Rightarrow> json" where
  "echo_client_id params msg =
     (case Option.bind (json_get params ''client_id'') as_str of
        None \<Rightarrow> msg
      | Some client_id \<Rightarrow> insert_members [(''client_id'', JStr client_id)] msg)"

definition sent_reply :: "applied \<Rightarrow> ('u, 'w, json) daemon_op" where
  "sent_reply a =
     andthen (writes (send_event (live_event a))) (\<lambda>_.
     ret (mk_obj [(''ok'', JBool True), (''message'', ap_message a)]))"

definition do_send :: "('u, 'w) env \<Rightarrow> fresh \<Rightarrow> json \<Rightarrow> ('u, 'w, json) daemon_op" where
  "do_send E fr params =
     andthen (requested_chat params) (\<lambda>chat_id.
     andthen (required ''text required'' (as_str (json_at params ''text''))) (\<lambda>text.
     andthen (known_chat chat_id) (\<lambda>g.
     andthen (parsed_guid g) (\<lambda>guid.
     andthen (on_uplink (uplink_send_text (ev_lib E) (ev_net E) (ev_fmt E) (fr_now fr) (fr_temp fr) guid text)) (\<lambda>msg.
     andthen (on_cache (apply_domain_message (ev_sha256 E) msg)) (\<lambda>a.
     sent_reply (a\<lparr>ap_message := echo_client_id params (ap_message a)\<rparr>)))))))"

definition do_send_attachment :: "('u, 'w) env \<Rightarrow> fresh \<Rightarrow> json \<Rightarrow> ('u, 'w, json) daemon_op" where
  "do_send_attachment E fr params =
     andthen (requested_chat params) (\<lambda>chat_id.
     andthen (required ''path required'' (as_str (json_at params ''path''))) (\<lambda>path.
     andthen (known_chat chat_id) (\<lambda>g.
     andthen (reads (\<lambda>d. unwrap_or (identifier_for_chat_id chat_id (dm_cache d)) [])) (\<lambda>identifier.
     andthen (parsed_guid g) (\<lambda>guid.
     andthen (on_uplink (uplink_send_attachment (ev_lib E) (ev_net E) (ev_fmt E) (ev_image_file E)
       (fr_now fr) (fr_temp fr) guid identifier path)) (\<lambda>msg.
     andthen (on_cache (apply_domain_message (ev_sha256 E) msg)) sent_reply))))))"

definition limit_or :: "i64 \<Rightarrow> json \<Rightarrow> i64" where
  "limit_or n params = unwrap_or (Option.bind (json_get params ''limit'') as_i64) n"

definition do_chats_list :: "json \<Rightarrow> ('u, 'w, json) daemon_op" where
  "do_chats_list params =
     andthen (read_cache (list_chats (limit_or 80 params))) (\<lambda>cs.
     ret (mk_obj [(''chats'', JArr cs)]))"

definition do_history :: "json \<Rightarrow> ('u, 'w, json) daemon_op" where
  "do_history params =
     andthen (requested_chat params) (\<lambda>chat_id.
     let before = Option.bind (json_get params ''before'') as_str in
     andthen (read_cache (list_messages chat_id (limit_or 200 params) before)) (\<lambda>ms.
     ret (mk_obj [(''messages'', JArr ms)])))"

text \<open>SQLite's \<^verbatim>\<open>LIKE\<close>: \<^verbatim>\<open>%\<close> is any text, \<^verbatim>\<open>_\<close> any character, ASCII letters match in any case.\<close>

fun sql_like :: "string \<Rightarrow> string \<Rightarrow> bool" where
  "sql_like [] s \<longleftrightarrow> s = []"
| "sql_like (p # ps) s \<longleftrightarrow>
     (if p = CHR ''%'' then sql_like ps s \<or> (case s of [] \<Rightarrow> False | c # cs \<Rightarrow> sql_like (p # ps) cs)
      else (case s of
          [] \<Rightarrow> False
        | c # cs \<Rightarrow> (p = CHR ''_'' \<or> to_ascii_lower p = to_ascii_lower c) \<and> sql_like ps cs))"

definition search_hit :: "string \<Rightarrow> msg_row \<Rightarrow> bool" where
  "search_hit query row = (case mr_text row of
     None \<Rightarrow> False | Some t \<Rightarrow> sql_like (''%'' @ query @ ''%'') t)"

definition search_messages :: "string \<Rightarrow> i64 \<Rightarrow> cache \<Rightarrow> cache_error + json list" where
  "search_messages query limit db =
     (let rows = filter (search_hit query) (map snd (messages db))
      in collect_results (map (\<lambda>r. case mr_raw r of None \<Rightarrow> Inl BadJson | Some v \<Rightarrow> Inr v)
           (sql_limit limit (order_desc (\<lambda>r. sql_of (mr_created_at r)) rows))))"

definition do_search :: "json \<Rightarrow> ('u, 'w, json) daemon_op" where
  "do_search params =
     andthen (required ''query required'' (as_str (json_at params ''query''))) (\<lambda>query.
     andthen (read_cache (search_messages query (limit_or 50 params))) (\<lambda>ms.
     ret (mk_obj [(''messages'', JArr ms)])))"

definition dispatch :: "('u, 'w) env \<Rightarrow> fresh \<Rightarrow> string \<Rightarrow> json \<Rightarrow> ('u, 'w, json) daemon_op" where
  "dispatch E fr method params =
     (if method = ''status'' then do_status E
      else if method = ''config.set'' then do_config_set E params
      else if method = ''config.reconnect'' then do_config_reconnect E
      else if method = ''webhook.set'' then do_webhook_set E fr params
      else if method = ''webhook.url'' then do_webhook_url E fr
      else if method = ''webhook.rotate'' then do_webhook_rotate E fr
      else if method = ''webhook.register'' then do_webhook_register E fr
      else if method = ''contacts.authorize'' then do_contacts_authorize E
      else if method = ''chats.mark_read'' then do_mark_read E params
      else if method = ''messages.send'' then do_send E fr params
      else if method = ''messages.send_attachment'' then do_send_attachment E fr params
      else if method = ''chats.list'' then do_chats_list params
      else if method = ''messages.history'' then do_history params
      else if method = ''messages.search'' then do_search params
      else raise (Failed (''unknown method: '' @ method)))"

section \<open>A client connection\<close>

text \<open>
  Whether the client streams events, the tasks in flight, the lines written to it, and whether the
  connection has ended.
\<close>

record task =
  tk_id :: string
  tk_method :: string
  tk_params :: json

record client =
  cl_streaming :: bool
  cl_tasks :: "task list"
  cl_out :: "envelope list"
  cl_closed :: bool

definition new_client_state :: client where
  "new_client_state = \<lparr> cl_streaming = False, cl_tasks = [], cl_out = [], cl_closed = False \<rparr>"

definition MAX_IN_FLIGHT_REQUESTS :: nat where "MAX_IN_FLIGHT_REQUESTS = 8"

definition write_env :: "envelope \<Rightarrow> client \<Rightarrow> client" where
  "write_env ev c = c\<lparr>cl_out := cl_out c @ [ev]\<rparr>"

definition close_client :: "client \<Rightarrow> client" where
  "close_client c = c\<lparr>cl_closed := True, cl_tasks := []\<rparr>"

definition parse_line :: "(string \<Rightarrow> json option) \<Rightarrow> string \<Rightarrow> envelope option" where
  "parse_line parse line = Option.bind (parse line) envelope_of_json"

definition subscribe_requested :: "(string \<Rightarrow> json option) \<Rightarrow> string \<Rightarrow> bool option" where
  "subscribe_requested parse line0 =
     (let line = trim line0 in
      if line = [] then Some False
      else (case parse_line parse line of
          None \<Rightarrow> None
        | Some (Req _ method _) \<Rightarrow> Some (method = ''events.subscribe'')
        | Some _ \<Rightarrow> Some False))"

text \<open>Answer a subscription; a cache that cannot be read ends the connection.\<close>

definition answer_snapshot ::
  "('u, 'w) env \<Rightarrow> string \<Rightarrow> ('u, 'w) daemon \<Rightarrow> client \<Rightarrow> client" where
  "answer_snapshot E i d c =
     (case fst (snapshot E d) of
        Inl _ \<Rightarrow> close_client c
      | Inr snap \<Rightarrow> write_env (ok_res i snap) c)"

definition start_request ::
  "('u, 'w) env \<Rightarrow> (string \<Rightarrow> json option) \<Rightarrow> string \<Rightarrow> ('u, 'w) daemon \<Rightarrow> client \<Rightarrow> client" where
  "start_request E parse line0 d c =
     (let line = trim line0 in
      if line = [] then c
      else (case parse_line parse line of
          None \<Rightarrow> close_client c
        | Some (Req i method params) \<Rightarrow>
            if method = ''events.subscribe'' then answer_snapshot E i d c
            else if length (cl_tasks c) < MAX_IN_FLIGHT_REQUESTS
            then c\<lparr>cl_tasks := cl_tasks c @ [\<lparr> tk_id = i, tk_method = method, tk_params = params \<rparr>]\<rparr>
            else write_env (error_res i ''busy'' ''too many requests in flight'') c
        | Some _ \<Rightarrow> c))"

text \<open>What a finished handler writes: nothing when it panicked.\<close>

definition task_reply :: "('u, 'w) env \<Rightarrow> string \<Rightarrow> failure + json \<Rightarrow> envelope option" where
  "task_reply E i result = (case result of
     Inr v \<Rightarrow> Some (ok_res i v)
   | Inl (CacheFailure Panic) \<Rightarrow> None
   | Inl e \<Rightarrow> Some (error_res i (failure_code e) (failure_text E e)))"

text \<open>The task at a position runs its handler.  One that never returns stays where it is.\<close>

definition finish_task ::
  "('u, 'w) env \<Rightarrow> fresh \<Rightarrow> nat \<Rightarrow> ('u, 'w) daemon \<times> client \<Rightarrow> ('u, 'w) daemon \<times> client" where
  "finish_task E fr n dc =
     (let d = fst dc; c = snd dc in
      if n < length (cl_tasks c) then
        let t = cl_tasks c ! n;
            (result, d') = dispatch E fr (tk_method t) (tk_params t) d
        in if result = Inl (CacheFailure NoReturn) then (d', c)
           else
             let c1 = c\<lparr>cl_tasks := take n (cl_tasks c) @ drop (Suc n) (cl_tasks c)\<rparr>
             in (d', case task_reply E (tk_id t) result of None \<Rightarrow> c1 | Some reply \<Rightarrow> write_env reply c1)
      else dc)"

definition lagged_event :: "json list \<Rightarrow> envelope" where
  "lagged_event cs = sync_chats_event ''events_lagged'' cs"

datatype client_event =
    Line string
  | EndOfInput
  | TaskRuns nat fresh
  | EventIn envelope
  | LaggedBehind
  | EventsClosed

text \<open>One step of \<^verbatim>\<open>handle_client\<close> and its tasks.  Events reach a streaming client only.\<close>

definition client_step ::
  "('u, 'w) env \<Rightarrow> (string \<Rightarrow> json option) \<Rightarrow> client_event \<Rightarrow> ('u, 'w) daemon \<times> client \<Rightarrow>
     ('u, 'w) daemon \<times> client" where
  "client_step E parse ev dc =
     (let d = fst dc; c = snd dc in
      if cl_closed c then dc
      else case ev of
          Line line \<Rightarrow>
            if cl_streaming c then (d, start_request E parse line d c)
            else (case subscribe_requested parse line of
                None \<Rightarrow> (d, close_client c)
              | Some False \<Rightarrow> (d, start_request E parse line d c)
              | Some True \<Rightarrow>
                  (case parse_line parse (trim line) of
                     Some (Req i _ _) \<Rightarrow> (d, answer_snapshot E i d (c\<lparr>cl_streaming := True\<rparr>))
                   | _ \<Rightarrow> (d, c\<lparr>cl_streaming := True\<rparr>)))
        | EndOfInput \<Rightarrow> (d, close_client c)
        | TaskRuns n fr \<Rightarrow> finish_task E fr n dc
        | EventIn env \<Rightarrow> (d, if cl_streaming c then write_env env c else c)
        | LaggedBehind \<Rightarrow>
            (d, if cl_streaming c
                then (case list_chats 50 (dm_cache d) of
                    Inl _ \<Rightarrow> close_client c | Inr cs \<Rightarrow> write_env (lagged_event cs) c)
                else c)
        | EventsClosed \<Rightarrow> (d, if cl_streaming c then close_client c else c))"

fun client_run ::
  "('u, 'w) env \<Rightarrow> (string \<Rightarrow> json option) \<Rightarrow> client_event list \<Rightarrow> ('u, 'w) daemon \<times> client \<Rightarrow>
     ('u, 'w) daemon \<times> client" where
  "client_run E parse [] dc = dc"
| "client_run E parse (ev # evs) dc = client_run E parse evs (client_step E parse ev dc)"

end
