(* ===== verification/Server_Safe.thy ===== *)
theory Server_Safe
  imports Socket_Server Session_Safe
begin

text \<open>
  The handlers: every method keeps an invariant of the daemon that the session keeps, and on a sound cache
  none ends in a panic or meets a document that is no JSON.
\<close>

text \<open>The failures a handler may end in.\<close>

definition benign :: "failure set" where
  "benign = {e. e \<noteq> CacheFailure BadJson \<and> e \<noteq> CacheFailure Panic}"

lemma benign_simps [simp]: "Failed m \<in> benign" "Uplink b \<in> benign" "CacheFailure NoReturn \<in> benign"
  by (simp_all add: benign_def)

lemma benign_on_cache:
  "fails_in E cache_ok m \<Longrightarrow> E \<subseteq> {NoReturn} \<Longrightarrow> fails_in benign sound (on_cache m)"
  by (auto simp: fails_in_def sound_def on_cache_def benign_def split: prod.splits)
     (metis fst_conv map_sum.simps sum.exhaust sum.inject(1) subsetD singletonD cache_error.distinct failure.inject(2) Inl_Inr_False)+

lemma benign_on_link [sound_intros]: "fails_in benign P (on_link m)"
  by (auto simp: fails_in_def on_link_def benign_def split: prod.splits)
     (metis map_sum.simps sum.exhaust sum.inject(1) failure.distinct(5) Inl_Inr_False)+

lemma benign_on_uplink [sound_intros]: "fails_in benign P (on_uplink m)"
  by (auto simp: fails_in_def on_uplink_def benign_def split: prod.splits)
     (metis map_sum.simps sum.exhaust sum.inject(1) failure.distinct(1) Inl_Inr_False)+

lemma benign_required [sound_intros]: "fails_in benign P (required m v)" "keeps P (required m v)"
  by (auto simp: required_def fails_in_def split: option.splits intro: keeps_intros)

lemma benign_settings [sound_intros]: "fails_in benign P (of_result (map_sum Failed id r))"
  by (cases r) (auto simp: fails_in_def)

lemma benign_announce [sound_intros]: "fails_in benign sound (announce view)"
  by (auto simp: announce_def intro!: keeps_intros sound_intros)

lemma keeps_read_cache [sound_intros]: "keeps P (read_cache f)"
  by (auto simp: keeps_def read_cache_def on_cache_def split: prod.splits)

lemma benign_list_chats [sound_intros]: "fails_in benign sound (read_cache (list_chats n))"
  and benign_list_messages [sound_intros]: "fails_in benign sound (read_cache (list_messages c n before))"
  by (auto simp: fails_in_def read_cache_def on_cache_def sound_def list_chats_ok list_messages_ok)

lemma collect_results_map:
  "(\<And>x. x \<in> set xs \<Longrightarrow> f x = Inr (g x)) \<Longrightarrow> collect_results (map f xs) = Inr (map g xs)"
  by (induction xs) simp_all

lemma search_messages_ok:
  assumes "cache_ok db"
  shows "search_messages query limit db = Inr (map (the \<circ> mr_raw)
    (sql_limit limit (order_desc (\<lambda>r. sql_of (mr_created_at r)) (filter (search_hit query) (map snd (messages db))))))"
proof -
  let ?rows = "sql_limit limit (order_desc (\<lambda>r. sql_of (mr_created_at r)) (filter (search_hit query) (map snd (messages db))))"
  have "set ?rows \<subseteq> set (order_desc (\<lambda>r. sql_of (mr_created_at r)) (filter (search_hit query) (map snd (messages db))))"
    by (rule set_sql_limit)
  then have "set ?rows \<subseteq> snd ` set (messages db)" by (auto simp: order_desc_def)
  then have "mr_raw r \<noteq> None" if "r \<in> set ?rows" for r
    using cache_ok_message_raw [OF assms] that by blast
  then show ?thesis
    unfolding search_messages_def Let_def by (intro collect_results_map) fastforce
qed

lemma benign_search [sound_intros]: "fails_in benign sound (read_cache (search_messages query n))"
  by (auto simp: fails_in_def read_cache_def on_cache_def sound_def search_messages_ok)

lemma fails_mark_read: "fails_in {} cache_ok (mark_read n)"
  unfolding fails_in_def using cache_ok_mark_read [of _ n] by fastforce

lemma benign_cache_ops [sound_intros]:
  "fails_in benign sound (on_cache (mark_read n))"
  "fails_in benign sound (on_cache (apply_contact_book book))"
  "fails_in benign sound (on_cache (apply_domain_message sha256 msg))"
  using apply_contact_book_ok
  by (auto intro!: benign_on_cache fails_mark_read fails_apply_domain_message)

lemma benign_raise [sound_intros]: "fails_in benign P (raise (Failed m))"
  by (auto simp: fails_in_def)

lemma benign_requested_chat [sound_intros]:
  "fails_in benign P (requested_chat params)" "keeps P (requested_chat params)"
  by (auto simp: requested_chat_def fails_in_def split: sum.splits intro: keeps_intros)

lemma benign_known_chat [sound_intros]: "fails_in benign P (known_chat n)" "keeps P (known_chat n)"
  unfolding known_chat_def by (intro keeps_intros sound_intros)+

lemma benign_parsed_guid [sound_intros]: "fails_in benign P (parsed_guid g)" "keeps P (parsed_guid g)"
  unfolding parsed_guid_def
  by (cases "chat_guid_parse g"; auto simp: fails_in_def) (intro keeps_intros)

lemma benign_plain_failure [sound_intros]:
  "fails_in benign P m \<Longrightarrow> fails_in benign P (plain_failure m)" "keeps P m \<Longrightarrow> keeps P (plain_failure m)"
  by (fastforce simp: fails_in_def keeps_def plain_failure_def split: prod.splits sum.splits failure.splits)+

lemma benign_clear_webhooks [sound_intros]: "fails_in benign P (clear_webhooks E)"
  unfolding clear_webhooks_def by (intro keeps_intros sound_intros)

lemma benign_sent_reply [sound_intros]: "keeps sound (sent_reply a)" "fails_in benign sound (sent_reply a)"
  unfolding sent_reply_def by (intro keeps_intros sound_intros)+

lemma sound_case_guid [sound_intros]:
  "keeps P m \<Longrightarrow> (\<And>x. keeps P (f x)) \<Longrightarrow> keeps P (case r of Inl _ \<Rightarrow> m | Inr x \<Rightarrow> f x)"
  "fails_in F P m \<Longrightarrow> (\<And>x. fails_in F P (f x)) \<Longrightarrow> fails_in F P (case r of Inl _ \<Rightarrow> m | Inr x \<Rightarrow> f x)"
  "fails_in F P n \<Longrightarrow> (\<And>y. fails_in F P (g y)) \<Longrightarrow> fails_in F P (case v of None \<Rightarrow> n | Some y \<Rightarrow> g y)"
  by (auto split: sum.splits option.splits)

section \<open>The handlers keep what the session keeps\<close>

lemma row_id_echo_client_id [simp]: "row_id (echo_client_id params v) = row_id v"
  by (cases v) (auto simp: echo_client_id_def insert_members_def row_id_def json_at_def json_get_def split: option.splits)

lemma live_event_is_sync: "live_event = sync_message_event"
  by (simp add: fun_eq_iff live_event_def sync_message_event_def)

lemmas method_defs = do_status_def do_config_set_def do_config_reconnect_def do_webhook_set_def
  do_webhook_url_def do_webhook_rotate_def do_webhook_register_def do_contacts_authorize_def
  do_mark_read_def do_chats_list_def do_history_def do_search_def

context daemon_invariant
begin

lemma kept_announce [sound_intros]: "keeps I (announce view)"
  unfolding announce_def by (intro keeps_intros sound_intros)

lemma kept_clear_webhooks [sound_intros]: "keeps I (clear_webhooks E)"
  unfolding clear_webhooks_def by (intro keeps_intros sound_intros)

lemma kept_sent:
  assumes "\<And>a. \<exists>v. row_id v = row_id (ap_message a) \<and> f a = a\<lparr>ap_message := v\<rparr>"
  shows "keeps I (andthen (on_cache (apply_domain_message (ev_sha256 E) m)) (\<lambda>a. sent_reply (f a)))"
  unfolding sent_reply_def live_event_is_sync using assms by (intro kept_delivery keeps_intros) metis

lemma echoed_message:
  "\<exists>v. row_id v = row_id (ap_message a)
     \<and> a\<lparr>ap_message := echo_client_id params (ap_message a)\<rparr> = a\<lparr>ap_message := v\<rparr>"
  by (rule exI [of _ "echo_client_id params (ap_message a)"]) simp

lemma kept_send [sound_intros]: "keeps I (do_send E fr params)"
  unfolding do_send_def
  by (rule keeps_andthen [OF _ keeps_andthen [OF _ keeps_andthen [OF _ keeps_andthen [OF _ keeps_andthen [OF _ kept_sent [OF echoed_message]]]]]])
     (intro sound_intros | simp)+

lemma same_message: "\<exists>v. row_id v = row_id (ap_message a) \<and> a = a\<lparr>ap_message := v\<rparr>"
  by (rule exI [of _ "ap_message a"]) simp

lemma kept_send_attachment [sound_intros]: "keeps I (do_send_attachment E fr params)"
  unfolding do_send_attachment_def
  by (rule keeps_andthen [OF _ keeps_andthen [OF _ keeps_andthen [OF _ keeps_andthen [OF _ keeps_andthen [OF _
        keeps_andthen [OF _ kept_sent [of "\<lambda>a. a", OF same_message]]]]]]])
     (intro keeps_intros sound_intros | simp)+

lemma kept_dispatch: "keeps I (dispatch E fr method params)"
  unfolding dispatch_def method_defs Let_def
  by (intro keeps_intros sound_intros)

end

lemma benign_dispatch: "fails_in benign sound (dispatch E fr method params)"
  unfolding dispatch_def method_defs do_send_def do_send_attachment_def Let_def
  by (intro keeps_intros sound_intros cache_ok_ops)+

end
