(* ===== verification/Session_Loop.thy ===== *)
theory Session_Loop
  imports Session
begin

text \<open>
  \<^verbatim>\<open>session_loop\<close> of \<^verbatim>\<open>sync/src/link/mod.rs\<close> beside any number of requests that reconnect.  The
  watch channel has a value, the wake of the link, and a version that every send bumps; a
  receiver remembers the version it has seen.  A request in \<^verbatim>\<open>reconnect_from_store\<close> is split at each
  shared write, so that requests interleave with each other and with the loop.
\<close>

section \<open>The system\<close>

text \<open>Where a request is: it has loaded a provision, set the flag, written the provision, or
  drawn a generation that it has yet to send.\<close>

datatype 'u handler =
    Loaded "'u provision"
  | Flagged "'u provision"
  | Published
  | Numbered u64

text \<open>Where the loop is: at its head, holding a generation, waiting for a change, in
  \<^verbatim>\<open>run_generation\<close>, or just out of it.\<close>

datatype 'u loop_at =
    AtTop
  | ReadGen u64
  | Idle
  | Running u64 "'u credentials"
  | Left u64

record ('u, 'w) system =
  sy_daemon :: "('u, 'w) daemon"
  sy_version :: nat
  sy_seen :: nat
  sy_loop :: "'u loop_at"
  sy_handlers :: "'u handler list"

text \<open>\<^verbatim>\<open>spawn_session\<close>.\<close>

definition spawn_session :: "('u, 'w) daemon \<Rightarrow> ('u, 'w) system" where
  "spawn_session d = \<lparr> sy_daemon = d, sy_version = 0, sy_seen = 0, sy_loop = AtTop, sy_handlers = [] \<rparr>"

definition sys_link :: "(('u, 'w) link \<Rightarrow> ('u, 'w) link) \<Rightarrow> ('u, 'w) system \<Rightarrow> ('u, 'w) system" where
  "sys_link f s = s\<lparr>sy_daemon := change_link f (sy_daemon s)\<rparr>"

abbreviation link_of :: "('u, 'w) system \<Rightarrow> ('u, 'w) link" where
  "link_of s \<equiv> dm_link (sy_daemon s)"

section \<open>Requests\<close>

text \<open>\<^verbatim>\<open>reconnect_from_store\<close> begins with the load; one that fails returns.\<close>

definition begin_reconnect :: "'u url_lib \<Rightarrow> ('u, 'w) system \<Rightarrow> ('u, 'w) system" where
  "begin_reconnect lib s =
     (case on_store (load lib) (link_of s) of
        (Inl _, l) \<Rightarrow> sys_link (\<lambda>_. l) s
      | (Inr p, l) \<Rightarrow> (sys_link (\<lambda>_. l) s)\<lparr>sy_handlers := sy_handlers s @ [Loaded p]\<rparr>)"

text \<open>The next write of a request, and where it is then, if not at its end.\<close>

fun handler_step :: "'u handler \<Rightarrow> ('u, 'w) system \<Rightarrow> 'u handler option \<times> ('u, 'w) system" where
  "handler_step (Loaded p) s = (Some (Flagged p), sys_link (set_connecting (p \<noteq> Empty)) s)"
| "handler_step (Flagged p) s = (Some Published, sys_link (\<lambda>l. l\<lparr>ln_provision := p\<rparr>) s)"
| "handler_step Published s =
     (let gen = ln_generation (link_of s) + 1
      in (Some (Numbered gen), sys_link (\<lambda>l. l\<lparr>ln_generation := gen\<rparr>) s))"
| "handler_step (Numbered gen) s =
     (None, (sys_link (\<lambda>l. l\<lparr>ln_wake := gen\<rparr>) s)\<lparr>sy_version := sy_version s + 1\<rparr>)"

definition handler_move :: "nat \<Rightarrow> ('u, 'w) system \<Rightarrow> ('u, 'w) system" where
  "handler_move n s =
     (case handler_step (sy_handlers s ! n) s of
        (None, s') \<Rightarrow> s'\<lparr>sy_handlers := take n (sy_handlers s) @ drop (Suc n) (sy_handlers s)\<rparr>
      | (Some h, s') \<Rightarrow> s'\<lparr>sy_handlers := (sy_handlers s)[n := h]\<rparr>)"

section \<open>The loop\<close>

text \<open>\<^verbatim>\<open>wake.changed().await\<close>: returns when the version is not the seen one.\<close>

definition await_change :: "('u, 'w) system \<Rightarrow> ('u, 'w) system option" where
  "await_change s =
     (if sy_seen s = sy_version s then None
      else Some (s\<lparr>sy_seen := sy_version s, sy_loop := AtTop\<rparr>))"

text \<open>What the loop does about the provision it read, up to its next wait.\<close>

definition enter_idle :: "('u, 'w) env \<Rightarrow> ('u, 'w) daemon \<Rightarrow> ('u, 'w) daemon" where
  "enter_idle E d =
     emit_view E (change_cache set_disconnected (change_uplink detach (change_link (set_connecting False) d)))"

definition enter_generation :: "('u, 'w) env \<Rightarrow> ('u, 'w) daemon \<Rightarrow> ('u, 'w) daemon" where
  "enter_generation E d = emit_view E (change_link (set_connecting True) d)"

text \<open>The next step of the loop; \<^verbatim>\<open>None\<close> while it waits.  A generation returns when the wake is
  another.\<close>

definition loop_step :: "('u, 'w) env \<Rightarrow> ('u, 'w) system \<Rightarrow> ('u, 'w) system option" where
  "loop_step E s =
     (case sy_loop s of
        AtTop \<Rightarrow> Some (s\<lparr>sy_loop := ReadGen (ln_wake (link_of s))\<rparr>)
      | ReadGen gen \<Rightarrow> Some
          (case ln_provision (link_of s) of
             Empty \<Rightarrow> s\<lparr>sy_daemon := enter_idle E (sy_daemon s), sy_loop := Idle\<rparr>
           | Ready creds \<Rightarrow>
               s\<lparr>sy_daemon := enter_generation E (sy_daemon s), sy_loop := Running gen creds\<rparr>)
      | Idle \<Rightarrow> await_change s
      | Running gen _ \<Rightarrow>
          (if ln_wake (link_of s) \<noteq> gen then Some (s\<lparr>sy_loop := Left gen\<rparr>) else None)
      | Left gen \<Rightarrow>
          (if ln_wake (link_of s) = gen then await_change s else Some (s\<lparr>sy_loop := AtTop\<rparr>)))"

section \<open>Runs\<close>

text \<open>The part of the link that only a reconnect writes.\<close>

definition control :: "('u, 'w) daemon \<Rightarrow> 'u provision \<times> u64 \<times> u64" where
  "control d = (ln_provision (dm_link d), ln_generation (dm_link d), ln_wake (dm_link d))"

text \<open>\<open>beside\<close> is whatever the running session and other handlers do: settings and caches may
  change, the control part may not.\<close>

inductive sys_step :: "('u, 'w) env \<Rightarrow> ('u, 'w) system \<Rightarrow> ('u, 'w) system \<Rightarrow> bool"
  for E :: "('u, 'w) env" where
  begins: "sys_step E s (begin_reconnect (ev_lib E) s)"
| moves: "n < length (sy_handlers s) \<Longrightarrow> sys_step E s (handler_move n s)"
| loops: "loop_step E s = Some s' \<Longrightarrow> sys_step E s s'"
| beside: "control d = control (sy_daemon s) \<Longrightarrow> sys_step E s (s\<lparr>sy_daemon := d\<rparr>)"

inductive reachable :: "('u, 'w) env \<Rightarrow> ('u, 'w) daemon \<Rightarrow> ('u, 'w) system \<Rightarrow> bool"
  for E :: "('u, 'w) env" and d0 :: "('u, 'w) daemon" where
  spawned: "reachable E d0 (spawn_session d0)"
| stepped: "reachable E d0 s \<Longrightarrow> sys_step E s s' \<Longrightarrow> reachable E d0 s'"

inductive_cases sys_stepE: "sys_step E s s'"

text \<open>The loop alone, for at most so many steps.\<close>

fun settle :: "('u, 'w) env \<Rightarrow> nat \<Rightarrow> ('u, 'w) system \<Rightarrow> ('u, 'w) system" where
  "settle E 0 s = s"
| "settle E (Suc n) s = (case loop_step E s of None \<Rightarrow> s | Some s' \<Rightarrow> settle E n s')"

text \<open>The loop serves the provision in memory.\<close>

definition in_sync :: "('u, 'w) system \<Rightarrow> bool" where
  "in_sync s = (case sy_loop s of
     Running gen creds \<Rightarrow> gen = ln_wake (link_of s) \<and> ln_provision (link_of s) = Ready creds
   | Idle \<Rightarrow> ln_provision (link_of s) = Empty
   | _ \<Rightarrow> False)"

section \<open>The invariant\<close>

definition numbered :: "'u handler list \<Rightarrow> u64 list" where
  "numbered hs = concat (map (\<lambda>h. case h of Numbered g \<Rightarrow> [g] | _ \<Rightarrow> []) hs)"

text \<open>Past the write of the provision, and yet to wake the loop.\<close>

definition pending :: "'u handler list \<Rightarrow> bool" where
  "pending hs = list_ex (\<lambda>h. case h of Published \<Rightarrow> True | Numbered _ \<Rightarrow> True | _ \<Rightarrow> False) hs"

text \<open>The generations drawn so far are the sends and the requests about to send.  Those on their way
  and the current one are different, and none is above the counter.\<close>

definition generations_ok :: "('u, 'w) system \<Rightarrow> bool" where
  "generations_ok s \<longleftrightarrow>
     unat (ln_generation (link_of s)) = sy_version s + length (numbered (sy_handlers s))
     \<and> distinct (ln_wake (link_of s) # numbered (sy_handlers s))
     \<and> (\<forall>g\<in>set (ln_wake (link_of s) # numbered (sy_handlers s)). g \<le> ln_generation (link_of s))"

text \<open>A generation the loop holds has been sent, so it never comes again.\<close>

definition held_ok :: "u64 \<Rightarrow> ('u, 'w) system \<Rightarrow> bool" where
  "held_ok g s \<longleftrightarrow> g \<le> ln_generation (link_of s) \<and> g \<notin> set (numbered (sy_handlers s))"

definition loop_ok :: "('u, 'w) system \<Rightarrow> bool" where
  "loop_ok s = (case sy_loop s of
     AtTop \<Rightarrow> True
   | ReadGen g \<Rightarrow> held_ok g s
   | Left g \<Rightarrow> held_ok g s \<and> ln_wake (link_of s) \<noteq> g
   | Idle \<Rightarrow> sy_seen s = sy_version s \<longrightarrow> ln_provision (link_of s) = Empty \<or> pending (sy_handlers s)
   | Running g creds \<Rightarrow> held_ok g s \<and>
       (ln_wake (link_of s) = g \<longrightarrow> ln_provision (link_of s) = Ready creds \<or> pending (sy_handlers s)))"

definition loop_inv :: "('u, 'w) system \<Rightarrow> bool" where
  "loop_inv s \<longleftrightarrow> generations_ok s \<and> sy_seen s \<le> sy_version s \<and> loop_ok s"

text \<open>How many requests there have been; a generation is a \<^verbatim>\<open>u64\<close>, and the invariant holds while they
  do not run out.\<close>

definition requests :: "('u, 'w) system \<Rightarrow> nat" where
  "requests s = sy_version s + length (sy_handlers s)"

lemma numbered_simps [simp]:
  "numbered [] = []" "numbered (xs @ ys) = numbered xs @ numbered ys"
  "numbered (h # xs) = (case h of Numbered g \<Rightarrow> [g] | _ \<Rightarrow> []) @ numbered xs"
  by (simp_all add: numbered_def)

lemma pending_simps [simp]:
  "pending [] = False" "pending (xs @ ys) \<longleftrightarrow> pending xs \<or> pending ys"
  "pending (h # xs) \<longleftrightarrow> (case h of Published \<Rightarrow> True | Numbered _ \<Rightarrow> True | _ \<Rightarrow> False) \<or> pending xs"
  by (simp_all add: pending_def)

lemma sys_link_simps [simp]:
  "sy_daemon (sys_link f s) = change_link f (sy_daemon s)" "sy_version (sys_link f s) = sy_version s"
  "sy_seen (sys_link f s) = sy_seen s" "sy_loop (sys_link f s) = sy_loop s"
  "sy_handlers (sys_link f s) = sy_handlers s"
  by (simp_all add: sys_link_def)

lemma change_link_simps [simp]: "dm_link (change_link f d) = f (dm_link d)"
  by (simp add: change_link_def)

lemma set_connecting_simps [simp]:
  "ln_provision (set_connecting b l) = ln_provision l" "ln_generation (set_connecting b l) = ln_generation l"
  "ln_wake (set_connecting b l) = ln_wake l" "ln_uplink (set_connecting b l) = ln_uplink l"
  by (simp_all add: set_connecting_def)

lemma enter_control [simp]:
  "dm_link (enter_idle E d) = set_connecting False (dm_link d)\<lparr>ln_uplink := detach (ln_uplink (dm_link d))\<rparr>"
  "dm_link (enter_generation E d) = set_connecting True (dm_link d)"
  by (simp_all add: enter_idle_def enter_generation_def emit_view_def emit_sync_link_def send_event_def
      change_cache_def change_uplink_def change_link_def set_connecting_def)

text \<open>A request's place in the list, with what is around it.\<close>

lemma handler_at:
  assumes "n < length hs"
  obtains xs h ys where "hs = xs @ h # ys" "hs ! n = h" "take n hs = xs" "drop (Suc n) hs = ys"
    "\<And>h'. hs[n := h'] = xs @ h' # ys"
proof
  let ?xs = "take n hs" and ?ys = "drop (Suc n) hs"
  show "hs = ?xs @ hs ! n # ?ys" by (rule id_take_nth_drop [OF assms])
  show "hs[n := h'] = ?xs @ h' # ?ys" for h' by (rule upd_conv_take_nth_drop [OF assms])
qed simp_all

lemma next_generation:
  assumes "unat g + 1 < 2 ^ 64"
  shows "unat (g + 1) = unat (g::u64) + 1" "h \<le> g \<Longrightarrow> h \<le> g + 1 \<and> h \<noteq> g + 1"
proof -
  show u: "unat (g + 1) = unat g + 1" using assms by (simp add: unat_word_ariths)
  show "h \<le> g + 1 \<and> h \<noteq> g + 1" if "h \<le> g"
  proof -
    have "unat h < unat (g + 1)" using that u by (simp add: word_le_nat_alt)
    then show ?thesis by (auto simp: word_le_nat_alt)
  qed
qed

lemma begin_inv: "loop_inv s \<Longrightarrow> loop_inv (begin_reconnect lib s)"
  by (auto simp: begin_reconnect_def on_store_def loop_inv_def generations_ok_def loop_ok_def held_ok_def
      split: sum.splits prod.splits loop_at.splits)

lemma beside_inv: "loop_inv s \<Longrightarrow> control d = control (sy_daemon s) \<Longrightarrow> loop_inv (s\<lparr>sy_daemon := d\<rparr>)"
  by (auto simp: control_def loop_inv_def generations_ok_def loop_ok_def held_ok_def split: loop_at.splits)

lemma loop_step_inv: "loop_inv s \<Longrightarrow> loop_step E s = Some s' \<Longrightarrow> loop_inv s'"
  by (auto simp: loop_step_def await_change_def loop_inv_def generations_ok_def loop_ok_def held_ok_def
      split: loop_at.splits if_splits provision.splits)

lemma handler_inv:
  assumes "loop_inv s" "n < length (sy_handlers s)" "requests s < 2 ^ 64"
  shows "loop_inv (handler_move n s)"
proof -
  obtain xs h ys where at: "sy_handlers s = xs @ h # ys" "sy_handlers s ! n = h" "take n (sy_handlers s) = xs"
      "drop (Suc n) (sy_handlers s) = ys" "\<And>h'. (sy_handlers s)[n := h'] = xs @ h' # ys"
    using handler_at [OF assms(2)] by metis
  show ?thesis
  proof (cases h)
    case (Loaded p)
    then show ?thesis using assms(1) at
      by (auto simp: handler_move_def loop_inv_def generations_ok_def loop_ok_def held_ok_def split: loop_at.splits)
  next
    case (Flagged p)
    then show ?thesis using assms(1) at
      by (auto simp: handler_move_def loop_inv_def generations_ok_def loop_ok_def held_ok_def split: loop_at.splits)
  next
    case Published
    have "length (numbered zs) \<le> length zs" for zs :: "'a handler list"
      by (induction zs) (auto split: handler.splits)
    from this [of xs] this [of ys] have "unat (ln_generation (link_of s)) + 1 < 2 ^ 64"
      using assms(1,3) at(1) Published by (simp add: loop_inv_def generations_ok_def requests_def)
    note next_gen = next_generation [OF this]
    show ?thesis using assms(1) at next_gen(1) Published
      by (auto dest!: next_gen(2) simp: handler_move_def loop_inv_def generations_ok_def loop_ok_def held_ok_def Let_def split: loop_at.splits)
  next
    case (Numbered g)
    then show ?thesis using assms(1) at
      by (auto simp: handler_move_def loop_inv_def generations_ok_def loop_ok_def held_ok_def split: loop_at.splits)
  qed
qed

lemma requests_mono: "sys_step E s s' \<Longrightarrow> requests s \<le> requests s'"
proof (induction rule: sys_step.induct)
  case (moves n s)
  then show ?case
    by (cases "sy_handlers s ! n") (auto simp: handler_move_def requests_def Let_def)
qed (auto simp: begin_reconnect_def requests_def loop_step_def await_change_def
      split: prod.splits sum.splits loop_at.splits if_splits provision.splits)

lemma reachable_inv:
  assumes "reachable E d0 s" "requests s < 2 ^ 64" "ln_generation (dm_link d0) = 0" "ln_wake (dm_link d0) = 0"
  shows "loop_inv s"
  using assms(1,2)
proof (induction rule: reachable.induct)
  case spawned
  then show ?case
    using assms(3,4) by (simp add: spawn_session_def loop_inv_def generations_ok_def loop_ok_def)
next
  case (stepped s s')
  then have "requests s < 2 ^ 64" using requests_mono order.strict_trans1 by blast
  with stepped.hyps(2) stepped.IH show ?case
    by (cases rule: sys_step.cases) (auto intro: begin_inv beside_inv loop_step_inv handler_inv)
qed

end
