(* ===== verification/Link_Contract.thy ===== *)
theory Link_Contract
  imports Server_Safe Session_Contract Session_Loop
begin

text \<open>
  What a client learns and can change over the socket: the status never depends on a secret, a
  rotated webhook token, the port of the webhook, and what a search finds.
\<close>

definition demo_fresh :: fresh where
  "demo_fresh = \<lparr> fr_now = ''2026-01-01T00:00:00.000Z'', fr_temp = ''temp-1'', fr_token = ''t0ken'' \<rparr>"

lemma demo_sound: "sound demo_daemon"
  by (simp add: sound_def demo_daemon_def cache_ok_empty)

lemma demo_daemon_store: "ln_store (dm_link demo_daemon) = demo_store (File (demo_file None)) (Entry ''hunter2'')"
  by (simp add: demo_daemon_def boot_with_def demo_load Let_def)

section \<open>Secrets\<close>

text \<open>The same daemon with another password and another webhook token, wherever it keeps them: in the
  keyring, in memory, in the config file and in the client.\<close>

definition other_entry :: "string \<Rightarrow> key_cell \<Rightarrow> key_cell" where
  "other_entry x c = (case c of Entry e \<Rightarrow> if trim e = [] then Entry e else Entry x | _ \<Rightarrow> c)"

definition other_config :: "string \<Rightarrow> config_cell \<Rightarrow> config_cell" where
  "other_config x c = (case c of
     File f \<Rightarrow> File (f\<lparr>fi_password := map_option (\<lambda>_. x) (fi_password f)\<rparr>) | _ \<Rightarrow> c)"

definition other_provision :: "string \<Rightarrow> 'u provision \<Rightarrow> 'u provision" where
  "other_provision x p = (case p of Empty \<Rightarrow> Empty | Ready c \<Rightarrow> Ready (c\<lparr>cr_secret := Password x\<rparr>))"

definition other_uplink :: "string \<Rightarrow> ('u, 'w) uplink \<Rightarrow> ('u, 'w) uplink" where
  "other_uplink x u = u\<lparr>ul_client := map_option (\<lambda>c. c\<lparr>bb_password := x\<rparr>) (ul_client u)\<rparr>"

definition other_secrets :: "string \<Rightarrow> string \<Rightarrow> ('u, 'w) daemon \<Rightarrow> ('u, 'w) daemon" where
  "other_secrets password token d =
     change_link (\<lambda>l. l\<lparr>
       ln_store := (ln_store l)\<lparr> sc_config := other_config password (sc_config (ln_store l)),
         sc_password := other_entry password (sc_password (ln_store l)),
         sc_webhook := other_entry token (sc_webhook (ln_store l)) \<rparr>,
       ln_provision := other_provision password (ln_provision l),
       ln_uplink := other_uplink password (ln_uplink l)\<rparr>) d"

definition other_store :: "string \<Rightarrow> string \<Rightarrow> store_ctx \<Rightarrow> store_ctx" where
  "other_store password token s =
     s\<lparr> sc_config := other_config password (sc_config s), sc_password := other_entry password (sc_password s),
        sc_webhook := other_entry token (sc_webhook s) \<rparr>"

lemma other_store_peeks:
  assumes "trim password \<noteq> []" "trim token \<noteq> []"
  shows "fst (peek_webhook (other_store password token s)) = fst (peek_webhook s)"
    "fst (peek_server_url lib (other_store password token s)) = fst (peek_server_url lib s)"
    "fst (password_set (other_store password token s)) = fst (password_set s)"
    "fst (webhook_token_set (other_store password token s)) = fst (webhook_token_set s)"
  using assms
  by (cases "sc_config s"; simp add: peek_webhook_def peek_server_url_def read_config_def other_store_def
        other_config_def andthen_apply split: option.splits;
      cases "sc_password s"; cases "sc_webhook s";
      simp add: password_set_def webhook_token_set_def secret_load_def secret_load_webhook_def andthen_apply
        other_entry_def password_new_def)+

lemma view_hides_secrets:
  assumes "trim password \<noteq> []" "trim token \<noteq> []"
  shows "link_view lib origin (dm_link (other_secrets password token d)) = link_view lib origin (dm_link d)"
proof -
  let ?l = "dm_link d"
  have up: "is_up (other_uplink password u) = is_up u" for u :: "('a, 'b) uplink"
    by (simp add: other_uplink_def is_up_def)
  have "dm_link (other_secrets password token d) = ?l\<lparr>ln_store := other_store password token (ln_store ?l),
       ln_provision := other_provision password (ln_provision ?l), ln_uplink := other_uplink password (ln_uplink ?l)\<rparr>"
    by (simp add: other_secrets_def other_store_def change_link_def)
  then show ?thesis
    by (cases "ln_provision ?l")
       (simp_all add: link_view_def fill_webhook_def other_store_peeks [OF assms] other_provision_def up Let_def)
qed

text \<open>C19: no answer to a status request or a subscription and no \<^verbatim>\<open>sync.link\<close> event depends on what the
  password or the webhook token is: with other, equally valid ones in the keyring, the config file, the
  memory and the client, they are the same to the letter.\<close>

theorem status_reveals_no_secret:
  assumes "trim password \<noteq> []" "trim token \<noteq> []"
  shows "fst (dispatch E fr ''status'' params (other_secrets password token d)) = fst (dispatch E fr ''status'' params d)
       \<and> fst (snapshot E (other_secrets password token d)) = fst (snapshot E d)
       \<and> dm_events (emit_view E (other_secrets password token d)) = dm_events (emit_view E d)"
proof -
  have other: "dm_cache (other_secrets password token d) = dm_cache d" "dm_events (other_secrets password token d) = dm_events d"
    by (simp_all add: other_secrets_def change_link_def)
  then show ?thesis
    by (simp add: dispatch_def do_status_def snapshot_def view_of_def view_hides_secrets [OF assms] andthen_apply
        read_cache_def on_cache_def emit_view_def emit_sync_link_def send_event_def
        split: sum.splits)
qed

theorem status_reveals_no_secret_witness:
  "fst (dispatch demo_env demo_fresh ''status'' JNull (other_secrets ''swordfish'' ''t'' demo_daemon))
     = fst (dispatch demo_env demo_fresh ''status'' JNull demo_daemon)
   \<and> sc_password (ln_store (dm_link (other_secrets ''swordfish'' ''t'' demo_daemon))) = Entry ''swordfish''
   \<and> sc_password (ln_store (dm_link demo_daemon)) = Entry ''hunter2''"
proof -
  have "trim ''swordfish'' \<noteq> []" "trim ''t'' \<noteq> []" "trim ''hunter2'' \<noteq> []" by code_simp+
  then show ?thesis
    using status_reveals_no_secret [of "''swordfish''" "''t''" demo_env demo_fresh JNull demo_daemon]
    by (simp add: other_secrets_def change_link_def demo_daemon_store other_entry_def)
      (simp add: demo_store_def)
qed

section \<open>The webhook\<close>

lemma clear_webhooks_runs:
  "clear_webhooks E d = (r, d1) \<Longrightarrow> control d1 = control d \<and> ln_store (dm_link d1) = ln_store (dm_link d)"
  by (auto simp: clear_webhooks_def ignore_err_def on_uplink_def control_def split: prod.splits sum.splits)

lemma announce_runs: "announce view d = (Inr v, d') \<Longrightarrow> dm_link d' = dm_link d"
  by (auto simp: announce_def andthen_apply emit_sync_link_def send_event_def)

lemma map_sum_Inr: "map_sum f id a = Inr v \<longleftrightarrow> a = Inr v"
  by (cases a) simp_all

lemma rotate_runs:
  assumes "on_link (link_rotate_webhook_token lib origin fresh) d = (Inr view, d')"
  shows "control d' = control d \<and> trim fresh \<noteq> [] \<and> sc_webhook (ln_store (dm_link d')) = Entry fresh"
proof -
  obtain l where run: "link_rotate_webhook_token lib origin fresh (dm_link d) = (Inr view, l)" and d': "d' = d\<lparr>dm_link := l\<rparr>"
    using assms by (cases "link_rotate_webhook_token lib origin fresh (dm_link d)") (auto simp: on_link_def map_sum_Inr)
  obtain st where "rotate_webhook_token fresh (ln_store (dm_link d)) = (Inr (), st)"
      and l: "l = set_webhook_registered False ((dm_link d)\<lparr>ln_store := st\<rparr>)"
    using run by (cases "rotate_webhook_token fresh (ln_store (dm_link d))")
      (auto simp: link_rotate_webhook_token_def andthen_eq_Inr on_store_def)
  then have "trim fresh \<noteq> []" "sc_webhook st = Entry fresh"
    by (cases "sc_webhook (ln_store (dm_link d))";
        auto simp: rotate_webhook_token_def andthen_eq_Inr password_new_def secret_store_webhook_def split: if_splits)+
  then show ?thesis using d' l by (simp add: control_def set_webhook_registered_def)
qed

text \<open>rotating the webhook token does not reach the endpoint that is running: the request succeeds, the
  new token is the one every webhook URL carries from then on, no new generation is started, and the
  endpoint, which holds the token that was stored when it started, refuses the deliveries that carry
  the new one.\<close>

theorem rotated_token_is_refused:
  assumes "dispatch E fr ''webhook.rotate'' params d = (Inr v, d')"
    and "sc_webhook (ln_store (dm_link d)) = Entry (hk_token s)" "fr_token fr \<noteq> hk_token s"
    and "hr_is_post req" "hr_token req = Some (fr_token fr)"
  shows "(\<forall>x. ensure_webhook_token x (ln_store (dm_link d')) = (Inr (Password (fr_token fr)), ln_store (dm_link d')))
       \<and> control d' = control d
       \<and> handle_hook now req s = (UNAUTHORIZED, s)"
proof -
  obtain d1 d2 view where "clear_webhooks E d = (Inr (), d1)"
      "on_link (link_rotate_webhook_token (ev_lib E) (ev_origin E) (fr_token fr)) d1 = (Inr view, d2)"
      "announce view d2 = (Inr v, d')"
    using assms(1) by (auto simp: dispatch_def do_webhook_rotate_def andthen_eq_Inr)
  then have ctl: "control d' = control d" and "trim (fr_token fr) \<noteq> []"
      "sc_webhook (ln_store (dm_link d')) = Entry (fr_token fr)"
    using clear_webhooks_runs rotate_runs announce_runs by (fastforce simp: control_def)+
  then have "ensure_webhook_token x (ln_store (dm_link d')) = (Inr (Password (fr_token fr)), ln_store (dm_link d'))" for x
    by (simp add: ensure_webhook_token_runs password_new_def)
  then show ?thesis using ctl assms(3-5) by (auto simp: handle_hook_def token_matches_eq)
qed

text \<open>A daemon whose webhook token is stored, and the endpoint that was started with it.\<close>

definition demo_hooked :: "(string, nat) daemon" where
  "demo_hooked = change_link (\<lambda>l. l\<lparr>ln_store := (ln_store l)\<lparr>sc_webhook := Entry ''0ld''\<rparr>\<rparr>) demo_daemon"

definition demo_endpoint :: hook_state where
  "demo_endpoint = \<lparr> hk_token = ''0ld'', hk_hits = (0, 0), hk_queue = [], hk_cap = 64, hk_open = True \<rparr>"

definition demo_new_delivery :: hook_request where
  "demo_new_delivery = \<lparr> hr_is_post = True, hr_token = Some ''t0ken'', hr_content_type = Some ''application/json'',
     hr_len = 2, hr_json = Some (JObj []) \<rparr>"

theorem rotated_token_is_refused_witness:
  "\<exists>v d'. dispatch demo_env demo_fresh ''webhook.rotate'' JNull demo_hooked = (Inr v, d')
     \<and> handle_hook 5 demo_new_delivery demo_endpoint = (UNAUTHORIZED, demo_endpoint)
     \<and> fst (ensure_webhook_token ''x'' (ln_store (dm_link d'))) = Inr (Password ''t0ken'')"
proof -
  have "trim ''t0ken'' \<noteq> []" by code_simp
  moreover have "is_up (ln_uplink (dm_link demo_hooked)) = False"
    by (simp add: demo_hooked_def demo_daemon_def boot_with_def demo_load Let_def is_up_def change_link_def)
  ultimately have "\<exists>v d'. dispatch demo_env demo_fresh ''webhook.rotate'' JNull demo_hooked = (Inr v, d')"
    by (simp add: dispatch_def do_webhook_rotate_def clear_webhooks_def on_uplink_def ignore_err_def
        link_rotate_webhook_token_def rotate_webhook_token_def password_new_def demo_hooked_def demo_daemon_store
        secret_store_webhook_def on_store_def on_link_def andthen_apply demo_fresh_def change_link_def announce_def
        split: prod.splits sum.splits)
  then obtain v d' where run: "dispatch demo_env demo_fresh ''webhook.rotate'' JNull demo_hooked = (Inr v, d')"
    by blast
  have "sc_webhook (ln_store (dm_link demo_hooked)) = Entry (hk_token demo_endpoint)"
    by (simp add: demo_hooked_def demo_endpoint_def change_link_def)
  from rotated_token_is_refused [OF run this, of demo_new_delivery 5] run show ?thesis
    by (simp add: demo_fresh_def demo_endpoint_def demo_new_delivery_def)
qed

section \<open>Search\<close>

text \<open>A query without wildcards.\<close>

definition plain :: "string \<Rightarrow> bool" where
  "plain q = list_all (\<lambda>c. c \<noteq> CHR ''%'' \<and> c \<noteq> CHR ''_'') q"

lemma sql_like_any [simp]: "sql_like ''%'' t"
  by (induction t) simp_all

lemma sql_like_prefix:
  "plain q \<Longrightarrow> sql_like (q @ ''%'') t \<longleftrightarrow> starts_with (to_ascii_lowercase t) (to_ascii_lowercase q)"
proof (induction q arbitrary: t)
  case Nil
  then show ?case by (simp add: to_ascii_lowercase_def starts_with_def del: sql_like.simps)
next
  case (Cons p q)
  show ?case
    using Cons by (cases t) (auto simp: plain_def to_ascii_lowercase_def starts_with_def)
qed

lemma sql_like_contains:
  "plain q \<Longrightarrow> sql_like (''%'' @ q @ ''%'') t \<longleftrightarrow> str_contains (to_ascii_lowercase t) (to_ascii_lowercase q)"
proof (induction t)
  case Nil
  have "starts_with [] p = (p = [])" for p by (auto simp: starts_with_def)
  then show ?case using sql_like_prefix [OF Nil, of "[]"] by (simp add: to_ascii_lowercase_def)
next
  case (Cons c t)
  then show ?case using sql_like_prefix [OF Cons.prems, of "c # t"] by (simp add: to_ascii_lowercase_def)
qed

definition has_text :: "(string \<Rightarrow> bool) \<Rightarrow> msg_row \<Rightarrow> bool" where
  "has_text P row = (case mr_text row of None \<Rightarrow> False | Some t \<Rightarrow> P t)"

text \<open>C32: on a sound cache a search for a text without wildcards answers the documents of the messages
  that contain it, ASCII letters in any case, the newest first and at most as many as asked for; the
  query is not escaped, so a search for a percent sign finds every message that has a text.\<close>

theorem search_finds_text:
  assumes "cache_ok db" "query = ''%'' \<or> plain query"
  shows "search_messages query limit db = Inr (map (the \<circ> mr_raw) (sql_limit limit
           (order_desc (\<lambda>r. sql_of (mr_created_at r))
             (filter (has_text (\<lambda>t. query = ''%'' \<or> str_contains (to_ascii_lowercase t) (to_ascii_lowercase query)))
               (map snd (messages db))))))"
proof -
  have skip: "sql_like (CHR ''%'' # ps) t" if "sql_like ps t" for ps t using that by simp
  have "sql_like ''%%%'' t" for t by (rule skip [OF skip [OF sql_like_any]])
  then have "sql_like (''%'' @ query @ ''%'') t \<longleftrightarrow>
      query = ''%'' \<or> str_contains (to_ascii_lowercase t) (to_ascii_lowercase query)" for t
    using assms(2) sql_like_contains [of query t] by (auto simp del: sql_like.simps)
  then have "search_hit query =
      has_text (\<lambda>t. query = ''%'' \<or> str_contains (to_ascii_lowercase t) (to_ascii_lowercase query))"
    by (intro ext) (simp add: search_hit_def has_text_def del: sql_like.simps split: option.splits)
  then show ?thesis using search_messages_ok [OF assms(1)] by simp
qed

definition demo_searched :: cache where
  "demo_searched = snd (apply_live_message (JObj [(''chat_id'', JStr ''7''), (''created_at'', JStr ''2024''),
     (''id'', JStr ''9''), (''text'', JStr ''Say HI'')]) demo_db)"

theorem search_finds_text_witness:
  "\<exists>m. search_messages ''hi'' 50 demo_searched = Inr [m] \<and> json_at m ''text'' = JStr ''Say HI''"
proof -
  let ?m = "JObj [(''chat_id'', JStr ''7''), (''created_at'', JStr ''2024''),
     (''id'', JStr ''9''), (''text'', JStr ''Say HI'')]"
  have "json_wf ?m" "is_object ?m" by (simp_all add: kv_sorted_def)
  then have ok: "cache_ok demo_searched"
    using cache_ok_apply_live [OF demo_db_ok, of ?m] unfolding demo_searched_def by (metis prod.collapse)
  have "plain ''hi''" by (simp add: plain_def)
  moreover have "map (the \<circ> mr_raw) (sql_limit 50 (order_desc (\<lambda>r. sql_of (mr_created_at r))
        (filter (has_text (\<lambda>t. ''hi'' = ''%'' \<or> str_contains (to_ascii_lowercase t) (to_ascii_lowercase ''hi'')))
          (map snd (messages demo_searched))))) = [?m]"
    by code_simp
  ultimately show ?thesis using search_finds_text [OF ok, of "''hi''" 50] by (simp add: json_at_def json_get_def)
qed

end
