(* ===== verification/Server_Contract.thy ===== *)
theory Server_Contract
  imports Link_Contract "HOL-Library.Multiset"
begin

text \<open>
  What the socket server and the link promise to the clients of the daemon.
\<close>

section \<open>Handlers\<close>

text \<open>C13: every method keeps the cache sound, whatever its parameters and whatever the server answers,
  and on a sound cache none of them panics or meets a document that is no JSON; so the code of an
  error reply is one of \<^verbatim>\<open>link_down\<close>, \<^verbatim>\<open>timeout\<close>, \<^verbatim>\<open>upstream\<close> and \<^verbatim>\<open>error\<close>.\<close>

theorem dispatch_is_safe:
  assumes "sound d" "dispatch E fr method params d = (r, d')"
  shows "sound d' \<and> r \<noteq> Inl (CacheFailure BadJson) \<and> r \<noteq> Inl (CacheFailure Panic)
       \<and> (\<forall>e. r = Inl e \<longrightarrow> failure_code e \<in> {''link_down'', ''timeout'', ''upstream'', ''error''})"
proof -
  have "sound d'" using keepsE [OF safe.kept_dispatch assms] .
  moreover have "e \<in> benign" if "r = Inl e" for e
    using fails_inD [OF benign_dispatch assms(1)] assms(2) that by blast
  ultimately show ?thesis
    by (auto simp: benign_def failure_code_def bb_error_code_def split: failure.splits bb_error.splits)
qed

theorem dispatch_is_safe_witness:
  "sound (snd (dispatch demo_env demo_fresh ''messages.send''
     (mk_obj [(''chat_id'', JStr ''7''), (''text'', JStr ''hi'')]) demo_daemon))"
  using dispatch_is_safe [OF demo_sound, of demo_env demo_fresh "''messages.send''"
      "mk_obj [(''chat_id'', JStr ''7''), (''text'', JStr ''hi'')]"]
  by (metis prod.collapse)

lemma read_cache_pure: "snd (read_cache f d) = d"
  by (simp add: read_cache_def on_cache_def)

lemma pure_andthen: "snd (m d) = d \<Longrightarrow> (\<And>x. snd (f x d) = d) \<Longrightarrow> snd (andthen m f d) = d"
  by (cases "m d"; cases "fst (m d)") (auto simp: andthen_apply)

lemma pure_parts: "snd (required m v d) = d" "snd (requested_chat params d) = d"
  by (auto simp: required_def requested_chat_def split: option.splits sum.splits)

lemma pure_queries:
  "snd (do_status E d) = d" "snd (do_chats_list params d) = d"
  "snd (do_history params d) = d" "snd (do_search params d) = d"
  by (auto simp: do_status_def do_chats_list_def do_history_def do_search_def Let_def
      intro!: pure_andthen read_cache_pure pure_parts)

text \<open>asking for the status, the chats, the history or a search changes nothing in the daemon, and an
  unknown method is refused without effect.\<close>

theorem queries_change_nothing:
  assumes "dispatch E fr method params d = (r, d')"
    and "method \<in> {''status'', ''chats.list'', ''messages.history'', ''messages.search''}
         \<or> method \<notin> {''config.set'', ''config.reconnect'', ''webhook.set'', ''webhook.url'', ''webhook.rotate'',
              ''webhook.register'', ''contacts.authorize'', ''chats.mark_read'', ''messages.send'',
              ''messages.send_attachment''}"
  shows "d' = d"
proof -
  have "dispatch E fr method params \<in> {do_status E, do_chats_list params, do_history params, do_search params,
      raise (Failed (''unknown method: '' @ method))}"
    using assms(2) by (elim disjE insertE emptyE) (simp_all add: dispatch_def)
  then have "snd (dispatch E fr method params d) = d"
    by (elim insertE emptyE) (simp_all add: pure_queries)
  then show ?thesis using assms(1) by simp
qed

theorem queries_change_nothing_witness:
  "snd (dispatch demo_env demo_fresh ''messages.search'' (mk_obj [(''query'', JStr ''x'')]) demo_daemon) = demo_daemon"
  using queries_change_nothing [of demo_env demo_fresh "''messages.search''" "mk_obj [(''query'', JStr ''x'')]" demo_daemon]
  by (metis insertI1 insertI2 prod.collapse)

section \<open>Requests and replies\<close>

text \<open>The ids of the requests on the lines read, and of the responses written.\<close>

definition line_ids :: "(string \<Rightarrow> json option) \<Rightarrow> client_event \<Rightarrow> string multiset" where
  "line_ids parse ev = (case ev of
     Line line \<Rightarrow> (if trim line = [] then {#} else
        (case parse_line parse (trim line) of Some (Req i _ _) \<Rightarrow> {#i#} | _ \<Rightarrow> {#}))
   | _ \<Rightarrow> {#})"

definition response_id :: "envelope \<Rightarrow> string multiset" where
  "response_id ev = (case ev of Res i _ _ _ \<Rightarrow> {#i#} | _ \<Rightarrow> {#})"

definition response_ids :: "client \<Rightarrow> string multiset" where
  "response_ids c = \<Sum>\<^sub># (mset (map response_id (cl_out c)))"

definition task_ids :: "client \<Rightarrow> string multiset" where
  "task_ids c = mset (map tk_id (cl_tasks c))"

text \<open>Events on the broadcast channel are never responses.\<close>

definition broadcast :: "client_event \<Rightarrow> bool" where
  "broadcast ev = (case ev of EventIn env \<Rightarrow> response_id env = {#} | _ \<Rightarrow> True)"

lemma write_env_ids [simp]:
  "response_ids (write_env ev c) = response_ids c + response_id ev" "task_ids (write_env ev c) = task_ids c"
  "cl_closed (write_env ev c) = cl_closed c" "cl_tasks (write_env ev c) = cl_tasks c"
  by (simp_all add: response_ids_def task_ids_def write_env_def)

lemma response_id_simps [simp]: "response_id (ok_res i v) = {#i#}" "response_id (error_res i c m) = {#i#}"
  "response_id (sync_chats_event reason cs) = {#}" "response_id (Event t p) = {#}"
  by (simp_all add: response_id_def ok_res_def error_res_def sync_chats_event_def)

lemma snapshot_Inr: "sound d \<Longrightarrow> \<exists>v. fst (snapshot E d) = Inr v"
  by (simp add: snapshot_def andthen_apply read_cache_def on_cache_def sound_def list_chats_ok)

lemma answer_snapshot_ids:
  "sound d \<Longrightarrow> response_ids (answer_snapshot E i d c) = response_ids c + {#i#}
     \<and> task_ids (answer_snapshot E i d c) = task_ids c \<and> cl_closed (answer_snapshot E i d c) = cl_closed c
     \<and> cl_tasks (answer_snapshot E i d c) = cl_tasks c"
  using snapshot_Inr [of d E] by (auto simp: answer_snapshot_def)

lemma close_client_closed [simp]: "cl_closed (close_client c)" "cl_tasks (close_client c) = []"
  by (simp_all add: close_client_def)

lemma add_task_ids [simp]:
  "response_ids (c\<lparr>cl_tasks := ts\<rparr>) = response_ids c"
  "task_ids (c\<lparr>cl_tasks := ts\<rparr>) = mset (map tk_id ts)"
  "task_ids (c\<lparr>cl_streaming := b\<rparr>) = task_ids c"
  "response_ids (c\<lparr>cl_streaming := b\<rparr>) = response_ids c"
  by (simp_all add: response_ids_def task_ids_def)

lemma start_request_ids:
  assumes "sound d" "\<not> cl_closed (start_request E parse line d c)"
  shows "response_ids (start_request E parse line d c) + task_ids (start_request E parse line d c) =
      response_ids c + task_ids c + line_ids parse (Line line)"
proof (cases "parse_line parse (trim line)")
  case None
  then show ?thesis
    using assms(2) by (auto simp: start_request_def line_ids_def Let_def split: if_splits)
next
  case (Some req)
  then show ?thesis
    using answer_snapshot_ids [OF assms(1), of E]
    by (cases req) (auto simp: start_request_def line_ids_def Let_def task_ids_def [of c])
qed

lemma task_split:
  assumes "n < length ts"
  shows "mset (map tk_id ts) = mset (map tk_id (take n ts @ drop (Suc n) ts)) + {#tk_id (ts ! n)#}"
proof -
  have "mset (map tk_id ts) = mset (map tk_id (take n ts @ ts ! n # drop (Suc n) ts))"
    using id_take_nth_drop [OF assms] by simp
  then show ?thesis by simp
qed

lemma task_reply_id:
  "result \<noteq> Inl (CacheFailure Panic) \<Longrightarrow> \<exists>reply. task_reply E i result = Some reply \<and> response_id reply = {#i#}"
  by (auto simp: task_reply_def split: sum.splits failure.splits cache_error.splits)

lemma finish_task_ids:
  assumes "sound d"
  shows "sound (fst (finish_task E fr n (d, c)))
    \<and> response_ids (snd (finish_task E fr n (d, c))) + task_ids (snd (finish_task E fr n (d, c))) = response_ids c + task_ids c
    \<and> cl_closed (snd (finish_task E fr n (d, c))) = cl_closed c
    \<and> length (cl_tasks (snd (finish_task E fr n (d, c)))) \<le> length (cl_tasks c)"
proof (cases "n < length (cl_tasks c)")
  case True
  let ?t = "cl_tasks c ! n"
  obtain r d' where run: "dispatch E fr (tk_method ?t) (tk_params ?t) d = (r, d')" by fastforce
  have s: "sound d'" using keepsE [OF safe.kept_dispatch assms run] .
  have "r \<noteq> Inl (CacheFailure Panic)"
  proof
    assume "r = Inl (CacheFailure Panic)"
    with fails_inD [OF benign_dispatch assms] run have "CacheFailure Panic \<in> benign" by blast
    then show False by (simp add: benign_def)
  qed
  then obtain reply where "task_reply E (tk_id ?t) r = Some reply" "response_id reply = {#tk_id ?t#}"
    using task_reply_id by blast
  then show ?thesis
    using True run s task_split [OF True]
    by (simp add: finish_task_def task_ids_def [of c] del: map_append mset_map) 
qed (use assms in \<open>simp add: finish_task_def\<close>)

lemma lagged_event_ids [simp]: "response_id (lagged_event cs) = {#}"
  by (simp add: lagged_event_def)

text \<open>One step keeps the daemon sound, the requests accounted for, and at most eight tasks.\<close>

lemma client_step_ids:
  assumes "sound d" "broadcast ev" "client_step E parse ev (d, c) = (d', c')" "\<not> cl_closed c'"
  shows "sound d' \<and> \<not> cl_closed c \<and>
    response_ids c' + task_ids c' = response_ids c + task_ids c + line_ids parse ev"
proof -
  have open_c: "\<not> cl_closed c" using assms(3,4) by (auto simp: client_step_def)
  show ?thesis
  proof (cases ev)
    case (Line line)
    then have d: "d' = d" using assms(3) open_c
      by (auto simp: client_step_def split: if_splits option.splits bool.splits envelope.splits)
    consider (request) "c' = start_request E parse line d c"
      | (subscribe) i params where "parse_line parse (trim line) = Some (Req i ''events.subscribe'' params)"
          "trim line \<noteq> []" "c' = answer_snapshot E i d (c\<lparr>cl_streaming := True\<rparr>)"
      using assms(3,4) open_c Line
      by (auto simp: client_step_def subscribe_requested_def Let_def
          split: if_splits option.splits envelope.splits bool.splits)
    then show ?thesis
    proof cases
      case request
      then show ?thesis using start_request_ids [OF assms(1)] assms(1,4) open_c d Line by simp
    next
      case subscribe
      then show ?thesis
        using answer_snapshot_ids [OF assms(1), of E i "c\<lparr>cl_streaming := True\<rparr>"] assms(1) open_c d Line
        by (simp add: line_ids_def)
    qed
  next
    case (TaskRuns n fr)
    then show ?thesis
      using assms(3) open_c finish_task_ids [OF assms(1), of E fr n c] by (simp add: client_step_def line_ids_def)
  next
    case (EventIn env)
    then show ?thesis
      using assms open_c by (auto simp: client_step_def line_ids_def broadcast_def split: if_splits)
  qed (use assms open_c list_chats_ok in \<open>auto simp: client_step_def line_ids_def sound_def split: if_splits sum.splits\<close>)
qed

lemma closed_stays: "cl_closed c \<Longrightarrow> client_run E parse evs (d, c) = (d, c)"
  by (induction evs) (simp_all add: client_step_def)

text \<open>C14: as long as a connection is open, every request read on it has been answered exactly once or is
  in flight: the ids of the responses written and of the tasks running together are the ids of the
  requests read, counted with their repetitions.  No request is lost or answered twice, refused ones
  and subscriptions included.\<close>

theorem requests_answered_once:
  assumes "sound d" "\<forall>ev\<in>set evs. broadcast ev"
    and "client_run E parse evs (d, new_client_state) = (d', c)" "\<not> cl_closed c"
  shows "response_ids c + task_ids c = (\<Sum>ev\<leftarrow>evs. line_ids parse ev)"
proof -
  have "response_ids c + task_ids c = response_ids c0 + task_ids c0 + (\<Sum>ev\<leftarrow>evs. line_ids parse ev)"
    if "sound d0" "\<forall>ev\<in>set evs. broadcast ev" "client_run E parse evs (d0, c0) = (d', c)" for d0 c0
    using that
  proof (induction evs arbitrary: d0 c0)
    case (Cons ev evs)
    obtain d1 c1 where step: "client_step E parse ev (d0, c0) = (d1, c1)" by fastforce
    have run: "client_run E parse evs (d1, c1) = (d', c)" using Cons.prems(3) step by simp
    have "\<not> cl_closed c1" using closed_stays [of c1 E parse evs d1] run assms(4) by auto
    with client_step_ids [OF Cons.prems(1) _ step] Cons.prems(2)
    have *: "sound d1" "response_ids c1 + task_ids c1 = response_ids c0 + task_ids c0 + line_ids parse ev"
      by auto
    from Cons.IH [OF *(1) _ run] Cons.prems(2) *(2) show ?case by (simp add: ac_simps)
  qed simp
  from this [OF assms(1-3)] show ?thesis by (simp add: new_client_state_def response_ids_def task_ids_def)
qed

definition demo_parse :: "string \<Rightarrow> json option" where
  "demo_parse s = (if s = ''status'' then Some (envelope_to_json (Req ''1'' ''status'' JNull))
     else if s = ''chats'' then Some (envelope_to_json (Req ''2'' ''chats.list'' JNull)) else None)"

theorem requests_answered_once_witness:
  "response_ids (snd (client_run demo_env demo_parse [Line '' status'', Line ''chats'', TaskRuns 1 demo_fresh]
       (demo_daemon, new_client_state))) +
   task_ids (snd (client_run demo_env demo_parse [Line '' status'', Line ''chats'', TaskRuns 1 demo_fresh]
       (demo_daemon, new_client_state)))
   = line_ids demo_parse (Line '' status'') + line_ids demo_parse (Line ''chats'')"
proof -
  let ?evs = "[Line '' status'', Line ''chats'', TaskRuns 1 demo_fresh]"
  let ?r = "client_run demo_env demo_parse ?evs (demo_daemon, new_client_state)"
  have "trim '' status'' = ''status''" "trim ''chats'' = ''chats''" by code_simp+
  then have "\<not> cl_closed (snd ?r)"
    using finish_task_ids [OF demo_sound]
    by (simp add: client_step_def new_client_state_def subscribe_requested_def parse_line_def demo_parse_def
        envelope_of_json_def json_simps start_request_def Let_def MAX_IN_FLIGHT_REQUESTS_def)
  moreover have "\<forall>ev\<in>set ?evs. broadcast ev" by (simp add: broadcast_def)
  ultimately show ?thesis
    using requests_answered_once [OF demo_sound, of ?evs demo_env demo_parse "fst ?r" "snd ?r"]
    by (simp add: line_ids_def)
qed

text \<open>a client never has more than eight handlers in flight.\<close>

theorem in_flight_bounded:
  "length (cl_tasks (snd (client_run E parse evs (d, new_client_state)))) \<le> MAX_IN_FLIGHT_REQUESTS"
proof -
  have snap: "length (cl_tasks (answer_snapshot E i d c)) \<le> length (cl_tasks c)" for i d c
    by (auto simp: answer_snapshot_def split: sum.splits)
  have start: "length (cl_tasks (start_request E parse line d c)) \<le> MAX_IN_FLIGHT_REQUESTS"
    if "length (cl_tasks c) \<le> MAX_IN_FLIGHT_REQUESTS" for line d c
    using that snap [of _ d c] by (auto simp: start_request_def Let_def split: option.splits envelope.splits
        intro: order_trans)
  have finish: "length (cl_tasks (snd (finish_task E fr n (d, c)))) \<le> length (cl_tasks c)" for fr n d c
    by (auto simp: finish_task_def Let_def split: prod.splits option.splits)
  have step: "length (cl_tasks (snd (client_step E parse ev (d, c)))) \<le> MAX_IN_FLIGHT_REQUESTS"
    if "length (cl_tasks c) \<le> MAX_IN_FLIGHT_REQUESTS" for ev d c
    using that start [OF that] order_trans [OF finish that]
      order_trans [OF snap, of "c\<lparr>cl_streaming := True\<rparr>" MAX_IN_FLIGHT_REQUESTS]
    by (auto simp: client_step_def split: client_event.splits option.splits bool.splits envelope.splits sum.splits)
  have "length (cl_tasks c) \<le> MAX_IN_FLIGHT_REQUESTS \<Longrightarrow>
      length (cl_tasks (snd (client_run E parse evs (d, c)))) \<le> MAX_IN_FLIGHT_REQUESTS" for d c
  proof (induction evs arbitrary: d c)
    case (Cons ev evs)
    then show ?case using step [of c ev d] by (metis client_run.simps(2) prod.collapse)
  qed simp
  then show ?thesis by (simp add: new_client_state_def)
qed

end
