(* ===== verification/Loop_Contract.thy ===== *)
theory Loop_Contract
  imports Session_Loop Session_Contract
begin

text \<open>
  The promises of the session loop: a reconnect is never lost, and what it is worth when requests
  race.
\<close>

section \<open>Settling\<close>

text \<open>The loop changes neither the provision nor the wake, and no request.\<close>

lemma loop_step_keeps:
  "loop_step E s = Some s' \<Longrightarrow> control (sy_daemon s') = control (sy_daemon s)
     \<and> ln_store (link_of s') = ln_store (link_of s) \<and> sy_handlers s' = sy_handlers s \<and> requests s' = requests s"
  by (auto simp: loop_step_def await_change_def control_def requests_def set_connecting_def
      split: loop_at.splits if_splits provision.splits)

lemma settle_keeps:
  "control (sy_daemon (settle E n s)) = control (sy_daemon s)
     \<and> ln_store (link_of (settle E n s)) = ln_store (link_of s) \<and> sy_handlers (settle E n s) = sy_handlers s"
  by (induction E n s rule: settle.induct) (auto dest: loop_step_keeps split: option.splits)

lemma settle_inv: "loop_inv s \<Longrightarrow> loop_inv (settle E n s)"
  by (induction E n s rule: settle.induct) (auto dest: loop_step_inv split: option.splits)


lemma waiting_in_sync: "loop_inv s \<Longrightarrow> sy_handlers s = [] \<Longrightarrow> loop_step E s = None \<Longrightarrow> in_sync s"
  by (auto simp: loop_inv_def loop_ok_def in_sync_def loop_step_def await_change_def
      split: loop_at.splits if_splits)

text \<open>How many steps the loop is from waiting.\<close>

fun steps_left :: "('u, 'w) system \<Rightarrow> nat" where
  "steps_left s = (case sy_loop s of
     Running gen _ \<Rightarrow> if ln_wake (link_of s) \<noteq> gen then 7 else 0
   | Left _ \<Rightarrow> 6
   | AtTop \<Rightarrow> if sy_seen s = sy_version s then 2 else 5
   | ReadGen gen \<Rightarrow> (case ln_provision (link_of s) of
       Empty \<Rightarrow> if sy_seen s = sy_version s then 1 else 4
     | Ready _ \<Rightarrow> if ln_wake (link_of s) \<noteq> gen then 8 else 1)
   | Idle \<Rightarrow> if sy_seen s = sy_version s then 0 else 3)"

lemma loop_step_measure: "loop_step E s = Some s' \<Longrightarrow> steps_left s' < steps_left s"
  by (auto simp: loop_step_def await_change_def set_connecting_def
      split: loop_at.splits if_splits provision.splits)

lemma settle_waits: "steps_left s \<le> n \<Longrightarrow> loop_step E (settle E n s) = None"
proof (induction n arbitrary: s)
  case 0
  then show ?case using loop_step_measure [of E s] by (cases "loop_step E s") auto
next
  case (Suc n)
  show ?case
  proof (cases "loop_step E s")
    case (Some s')
    then have "steps_left s' \<le> n" using loop_step_measure [OF Some] Suc.prems by linarith
    then show ?thesis using Suc.IH Some by simp
  qed simp
qed

lemma settled:
  assumes "loop_inv s" "sy_handlers s = []"
  shows "loop_step E (settle E 8 s) = None \<and> in_sync (settle E 8 s)"
proof -
  have "steps_left s \<le> 8" by (auto split: loop_at.splits provision.splits)
  then have "loop_step E (settle E 8 s) = None" by (rule settle_waits)
  then show ?thesis using waiting_in_sync settle_inv assms settle_keeps by metis
qed

text \<open>C7: no reconnect is lost: whatever the interleaving of requests, of the session and of the loop, once
  no request is under way the loop, left to itself, waits after at most eight steps, and what it
  then serves is the provision in memory: a generation of its own with those credentials, or
  nothing when there are none.\<close>

theorem no_lost_reconnect:
  assumes "reachable E d0 s" "ln_generation (dm_link d0) = 0" "ln_wake (dm_link d0) = 0"
    and "requests s < 2 ^ 64" "sy_handlers s = []"
  shows "loop_step E (settle E 8 s) = None \<and> in_sync (settle E 8 s)
       \<and> ln_provision (link_of (settle E 8 s)) = ln_provision (link_of s)"
  using settled [OF reachable_inv [OF assms(1,4,2,3)] assms(5), of E] settle_keeps [of E 8 s]
  by (simp add: control_def)

theorem no_lost_reconnect_witness:
  "in_sync (settle demo_env 8 (spawn_session demo_daemon))
   \<and> sy_loop (settle demo_env 8 (spawn_session demo_daemon)) = Running 0 (demo_creds ''hunter2'')"
proof -
  have boot: "ln_generation (dm_link demo_daemon) = 0" "ln_wake (dm_link demo_daemon) = 0"
      "ln_provision (dm_link demo_daemon) = Ready (demo_creds ''hunter2'')"
    by (simp_all add: demo_daemon_def boot_with_def demo_load Let_def ok_or_def)
  let ?s = "settle demo_env 8 (spawn_session demo_daemon)"
  have "in_sync ?s" and "ln_provision (link_of ?s) = Ready (demo_creds ''hunter2'')"
    using no_lost_reconnect [OF reachable.spawned boot(1,2), of demo_env] boot(3)
    by (auto simp: spawn_session_def requests_def)
  moreover have "ln_wake (link_of ?s) = 0"
    using settle_keeps [of demo_env 8 "spawn_session demo_daemon"] boot(2) by (simp add: control_def spawn_session_def)
  ultimately show ?thesis by (auto simp: in_sync_def split: loop_at.splits)
qed

section \<open>A request by itself, and two that race\<close>

text \<open>Uninterrupted, the four writes of a request are \<^verbatim>\<open>reconnect_from_store\<close> in one go.\<close>

lemma reconnect_in_steps:
  assumes "reconnect_from_store (ev_lib E) origin (link_of s) = (Inr view, l)"
  defines "n \<equiv> length (sy_handlers s)"
  shows "let s' = handler_move n (handler_move n (handler_move n (handler_move n (begin_reconnect (ev_lib E) s))))
         in link_of s' = l \<and> sy_handlers s' = sy_handlers s \<and> sy_version s' = sy_version s + 1
            \<and> view = link_view (ev_lib E) origin l \<and> ln_wake l = ln_generation (link_of s) + 1"
proof -
  obtain p l1 where load: "on_store (load (ev_lib E)) (link_of s) = (Inr p, l1)"
    and run: "l = (l1\<lparr>ln_connecting := p \<noteq> Empty, ln_provision := p\<rparr>)
      \<lparr>ln_generation := ln_generation l1 + 1, ln_wake := ln_generation l1 + 1\<rparr>"
      "view = link_view (ev_lib E) origin l"
    using assms(1) by (auto simp: reconnect_from_store_def andthen_eq_Inr Let_def)
  have "ln_generation l1 = ln_generation (link_of s)" using load by (auto simp: on_store_def split: prod.splits)
  then show ?thesis
    using load run unfolding n_def
    by (simp add: begin_reconnect_def handler_move_def nth_append set_connecting_def Let_def)
qed


lemma length_handler_move [simp]:
  "n < length (sy_handlers s) \<Longrightarrow> sy_handlers s ! n = Loaded p \<or> sy_handlers s ! n = Flagged p \<or> sy_handlers s ! n = Published
    \<Longrightarrow> length (sy_handlers (handler_move n s)) = length (sy_handlers s)"
  by (auto simp: handler_move_def Let_def)






end
