(* ===== verification/Bridge.thy ===== *)
theory Bridge
  imports Proto Webhook
begin

text \<open>
  The settings and the gates of the Mac bridge: \<^verbatim>\<open>bridge/src/config.rs\<close>, \<^verbatim>\<open>bridge/src/pairing.rs\<close>,
  \<^verbatim>\<open>bridge/src/attachments.rs\<close> and \<^verbatim>\<open>bridge/src/steipete.rs\<close>.  The clock, the random code, HMAC, the
  certificate authority, the IPv6 parser and the file system are parameters.  Instants and
  durations are nanoseconds.
\<close>

section \<open>The configuration\<close>

record bridge_config =
  bc_bind :: string
  bc_port :: u16
  bc_enroll_port :: u16
  bc_imsg_path :: string
  bc_ghostty_path :: string
  bc_enable_send :: bool
  bc_data_dir :: string
  bc_pairing_code :: "string option"
  bc_pairing_code_expires_at :: "instant option"
  bc_mdns_advertise :: bool

definition default_enroll_port :: u16 where "default_enroll_port = 18790"

definition default_ghostty_path :: string where "default_ghostty_path = ''/Applications/Ghostty.app''"

text \<open>\<open>config_dir\<close> is what \<^verbatim>\<open>dirs::config_dir\<close> answers.\<close>

definition default_config :: "string option \<Rightarrow> bridge_config" where
  "default_config config_dir =
     \<lparr> bc_bind = ''127.0.0.1'', bc_port = 18789, bc_enroll_port = 18790, bc_imsg_path = ''imsg'',
       bc_ghostty_path = default_ghostty_path, bc_enable_send = False,
       bc_data_dir = unwrap_or config_dir ''.'' @ ''/imsg-bridge'', bc_pairing_code = None,
       bc_pairing_code_expires_at = None, bc_mdns_advertise = False \<rparr>"

subsection \<open>The bind address\<close>

datatype ip_addr = V4 byte byte byte byte | V6 "u16 list"

fun split_on :: "char \<Rightarrow> string \<Rightarrow> string list" where
  "split_on sep [] = [[]]"
| "split_on sep (c # s) =
     (if c = sep then [] # split_on sep s
      else (case split_on sep s of [] \<Rightarrow> [[c]] | g # gs \<Rightarrow> (c # g) # gs))"

text \<open>One to three decimal digits, no leading zero, at most 255.\<close>

definition parse_octet :: "string \<Rightarrow> byte option" where
  "parse_octet s =
     (case parse_digits s of
        None \<Rightarrow> None
      | Some n \<Rightarrow>
          if length s \<le> 3 \<and> (hd s = CHR ''0'' \<longrightarrow> length s = 1) \<and> n \<le> 255
          then Some (of_int n) else None)"

definition parse_ipv4 :: "string \<Rightarrow> ip_addr option" where
  "parse_ipv4 s =
     (case map parse_octet (split_on CHR ''.'' s) of
        [Some a, Some b, Some c, Some d] \<Rightarrow> Some (V4 a b c d) | _ \<Rightarrow> None)"

definition parse_ip :: "(string \<Rightarrow> u16 list option) \<Rightarrow> string \<Rightarrow> ip_addr option" where
  "parse_ip parse_v6 s = or_else (parse_ipv4 s) (map_option V6 (parse_v6 s))"

fun is_unspecified :: "ip_addr \<Rightarrow> bool" where
  "is_unspecified (V4 a b c d) \<longleftrightarrow> a = 0 \<and> b = 0 \<and> c = 0 \<and> d = 0"
| "is_unspecified (V6 gs) \<longleftrightarrow> gs = replicate 8 0"

fun is_loopback :: "ip_addr \<Rightarrow> bool" where
  "is_loopback (V4 a b c d) \<longleftrightarrow> a = 127"
| "is_loopback (V6 gs) \<longleftrightarrow> gs = replicate 7 0 @ [1]"

fun is_tailscale_or_private :: "ip_addr \<Rightarrow> bool" where
  "is_tailscale_or_private (V4 a b c d) \<longleftrightarrow>
     a = 100 \<and> 64 \<le> b \<and> b \<le> 127 \<or> a = 10 \<or> a = 172 \<and> 16 \<le> b \<and> b \<le> 31 \<or> a = 192 \<and> b = 168"
| "is_tailscale_or_private (V6 _) \<longleftrightarrow> False"

datatype bind_error = InvalidBind string | UnspecifiedBind | PublicBind ip_addr

definition validate_bind :: "(string \<Rightarrow> u16 list option) \<Rightarrow> bridge_config \<Rightarrow> bind_error + unit" where
  "validate_bind parse_v6 config =
     (case parse_ip parse_v6 (bc_bind config) of
        None \<Rightarrow> Inl (InvalidBind (bc_bind config))
      | Some ip \<Rightarrow>
          if is_unspecified ip then Inl UnspecifiedBind
          else if is_loopback ip then Inr ()
          else if is_tailscale_or_private ip then Inr ()
          else Inl (PublicBind ip))"

section \<open>The pairing code\<close>

definition MAX_ATTEMPTS_PER_IP :: nat where "MAX_ATTEMPTS_PER_IP = 5"
definition ATTEMPT_WINDOW :: int where "ATTEMPT_WINDOW = 300 * 1000000000"
definition CODE_TTL :: int where "CODE_TTL = 900 * 1000000000"

text \<open>\<open>now\<close> is the time of the call.\<close>

definition pairing_code_valid :: "instant \<Rightarrow> bridge_config \<Rightarrow> bool" where
  "pairing_code_valid now config =
     (case bc_pairing_code config of
        None \<Rightarrow> False
      | Some code \<Rightarrow>
          if code = [] then False
          else (case bc_pairing_code_expires_at config of
              Some expires \<Rightarrow> now < expires | None \<Rightarrow> True))"

definition merge_live_ticket :: "bridge_config \<Rightarrow> bridge_config \<Rightarrow> bridge_config" where
  "merge_live_ticket listen disk =
     listen\<lparr> bc_pairing_code := bc_pairing_code disk,
             bc_pairing_code_expires_at := bc_pairing_code_expires_at disk \<rparr>"

text \<open>\<open>disk\<close> is what \<^verbatim>\<open>Config::load\<close> answers.\<close>

definition live_pairing_config :: "string + bridge_config \<Rightarrow> bridge_config \<Rightarrow> bridge_config" where
  "live_pairing_config disk listen =
     (case disk of Inr c \<Rightarrow> merge_live_ticket listen c | Inl _ \<Rightarrow> listen)"

text \<open>\<open>uuid\<close> is a fresh UUID as 32 hexadecimal digits.\<close>

definition rotate_pairing_code :: "instant \<Rightarrow> string \<Rightarrow> bridge_config \<Rightarrow> string \<times> bridge_config" where
  "rotate_pairing_code now uuid config =
     (let code = take 8 uuid
      in (code, config\<lparr> bc_pairing_code := Some code, bc_pairing_code_expires_at := Some (now + CODE_TTL) \<rparr>))"

text \<open>\<open>hostname\<close> is the name of the host, when it has one.\<close>

definition bridge_hostname :: "string option \<Rightarrow> bridge_config \<Rightarrow> string" where
  "bridge_hostname hostname config =
     (if bc_bind config \<noteq> ''127.0.0.1'' \<and> bc_bind config \<noteq> ''::1'' then bc_bind config
      else unwrap_or hostname ''localhost'')"

definition sanitize_client_name :: "string \<Rightarrow> string" where
  "sanitize_client_name name =
     take 64 (filter (\<lambda>c. is_ascii_alphanumeric c \<or> c = CHR ''-'' \<or> c = CHR ''_'') name)"

definition constant_time_eq :: "string \<Rightarrow> string \<Rightarrow> bool" where
  "constant_time_eq a b =
     (if length (utf8 a) \<noteq> length (utf8 b) then False
      else fold (\<lambda>(x, y) acc. or acc (xor x y)) (zip (utf8 a) (utf8 b)) (0 :: byte) = 0)"

section \<open>Enrolling\<close>

text \<open>The failed attempts by peer.\<close>

type_synonym attempts = "string \<rightharpoonup> instant list"

definition retain_recent :: "instant \<Rightarrow> instant list \<Rightarrow> instant list" where
  "retain_recent now ts = filter (\<lambda>t. duration_since now t < ATTEMPT_WINDOW) ts"

definition rate_limit_ok :: "instant \<Rightarrow> string \<Rightarrow> attempts \<Rightarrow> bool \<times> attempts" where
  "rate_limit_ok now peer m =
     (let ts = retain_recent now (unwrap_or (m peer) [])
      in (length ts < MAX_ATTEMPTS_PER_IP, m(peer \<mapsto> ts)))"

definition record_attempt :: "instant \<Rightarrow> string \<Rightarrow> attempts \<Rightarrow> attempts" where
  "record_attempt now peer m =
     m(peer \<mapsto> retain_recent now (unwrap_or (m peer) []) @ [now])"

record enroll_request =
  er_pairing_code :: string
  er_client_name :: string
  er_csr_pem :: string

record enroll_response =
  en_ca_pem :: string
  en_client_cert_pem :: string
  en_bridge_url :: string
  en_bridge_host :: string
  en_bridge_port :: u16

text \<open>A refusal has a status and a text.\<close>

datatype enroll_reply = Refused nat string | Enrolled enroll_response

text \<open>What a request meets outside: the time, the config on disk, the signing of a CSR under a client
  name and the certificate file, which read and change the disk \<open>'w\<close>, and the host name.\<close>

record 'w enroll_world =
  ew_now :: instant
  ew_disk :: "string + bridge_config"
  ew_sign :: "string \<Rightarrow> string \<Rightarrow> ('w, string, string) act"
  ew_ca :: "('w, string, string) act"
  ew_hostname :: "string option"

definition sign_request :: "'w enroll_world \<Rightarrow> bridge_config \<Rightarrow> string \<Rightarrow> string \<Rightarrow> 'w \<Rightarrow> enroll_reply \<times> 'w" where
  "sign_request W config client_name csr w =
     (case ew_sign W client_name csr w of
        (Inl e, w1) \<Rightarrow> (Refused 400 e, w1)
      | (Inr cert, w1) \<Rightarrow>
          (case ew_ca W w1 of
             (Inl e, w2) \<Rightarrow> (Refused 500 (''read ca: '' @ e), w2)
           | (Inr ca, w2) \<Rightarrow>
               let host = bridge_hostname (ew_hostname W) config
               in (Enrolled \<lparr> en_ca_pem = ca, en_client_cert_pem = cert,
                    en_bridge_url = ''wss://'' @ host @ '':'' @ show_int (uint (bc_port config)) @ ''/ws'',
                    en_bridge_host = host, en_bridge_port = bc_port config \<rparr>, w2)))"

text \<open>The handler after the rate limit, and the whole of it.\<close>

definition enroll_checked ::
  "'w enroll_world \<Rightarrow> bridge_config \<Rightarrow> string \<Rightarrow> enroll_request \<Rightarrow> attempts \<Rightarrow> 'w \<Rightarrow> enroll_reply \<times> attempts \<times> 'w" where
  "enroll_checked W config peer req m w =
     (let ticket = live_pairing_config (ew_disk W) config in
      if \<not> pairing_code_valid (ew_now W) ticket
      then (Refused 403 ''pairing code expired or not configured. Run imsg setup on the Mac.'', m, w)
      else
        let expected = unwrap_or (bc_pairing_code ticket) [] in
        if \<not> constant_time_eq expected (trim (er_pairing_code req))
        then (Refused 401 ''invalid pairing code'', record_attempt (ew_now W) peer m, w)
        else
          let client_name = sanitize_client_name (er_client_name req) in
          if client_name = [] then (Refused 400 ''invalid client_name'', m, w)
          else (case sign_request W config client_name (er_csr_pem req) w of (reply, w') \<Rightarrow> (reply, m, w')))"

definition enroll_handler ::
  "'w enroll_world \<Rightarrow> bridge_config \<Rightarrow> string \<Rightarrow> enroll_request \<Rightarrow> attempts \<Rightarrow> 'w \<Rightarrow> enroll_reply \<times> attempts \<times> 'w" where
  "enroll_handler W config peer req m w =
     (case rate_limit_ok (ew_now W) peer m of
        (False, m1) \<Rightarrow> (Refused 429 ''too many pairing attempts'', m1, w)
      | (True, m1) \<Rightarrow> enroll_checked W config peer req m1 w)"

text \<open>Requests beside each other: one that has passed the limit waits for the rest of its handler.\<close>

record 'w enroll_server =
  es_attempts :: attempts
  es_checked :: "('w enroll_world \<times> string \<times> enroll_request) list"
  es_replies :: "(string \<times> enroll_reply) list"
  es_world :: 'w

definition new_enroll_server :: "'w \<Rightarrow> 'w enroll_server" where
  "new_enroll_server w = \<lparr> es_attempts = Map.empty, es_checked = [], es_replies = [], es_world = w \<rparr>"

definition enroll_arrives :: "'w enroll_world \<Rightarrow> string \<Rightarrow> enroll_request \<Rightarrow> 'w enroll_server \<Rightarrow> 'w enroll_server" where
  "enroll_arrives W peer req s =
     (case rate_limit_ok (ew_now W) peer (es_attempts s) of
        (False, m) \<Rightarrow> s\<lparr> es_attempts := m,
            es_replies := es_replies s @ [(peer, Refused 429 ''too many pairing attempts'')] \<rparr>
      | (True, m) \<Rightarrow> s\<lparr> es_attempts := m, es_checked := es_checked s @ [(W, peer, req)] \<rparr>)"

definition enroll_finishes :: "bridge_config \<Rightarrow> nat \<Rightarrow> 'w enroll_server \<Rightarrow> 'w enroll_server" where
  "enroll_finishes config n s =
     (case es_checked s ! n of (W, peer, req) \<Rightarrow>
        case enroll_checked W config peer req (es_attempts s) (es_world s) of (reply, m, w) \<Rightarrow>
          s\<lparr> es_attempts := m, es_checked := take n (es_checked s) @ drop (Suc n) (es_checked s),
             es_replies := es_replies s @ [(peer, reply)], es_world := w \<rparr>)"

inductive enroll_step :: "bridge_config \<Rightarrow> 'w enroll_server \<Rightarrow> 'w enroll_server \<Rightarrow> bool"
  for config :: bridge_config where
  arrives: "enroll_step config s (enroll_arrives W peer req s)"
| finishes: "n < length (es_checked s) \<Longrightarrow> enroll_step config s (enroll_finishes config n s)"

record pairing_status =
  ps_code :: "string option"
  ps_expires_at :: "instant option"
  ps_valid :: bool
  ps_enroll_url :: string
  ps_ca_path :: string

definition pairing_status_of :: "instant \<Rightarrow> string option \<Rightarrow> bridge_config \<Rightarrow> pairing_status" where
  "pairing_status_of now hostname config =
     \<lparr> ps_code = bc_pairing_code config, ps_expires_at = bc_pairing_code_expires_at config,
       ps_valid = pairing_code_valid now config,
       ps_enroll_url = ''https://'' @ bridge_hostname hostname config @ '':''
         @ show_int (uint (bc_enroll_port config)) @ ''/v1/pair/enroll'',
       ps_ca_path = bc_data_dir config @ ''/ca.pem'' \<rparr>"

text \<open>\<^verbatim>\<open>commands::init\<close> up to the saving: \<open>loaded\<close> is the config on disk or the default.\<close>

definition u16_saturating_inc :: "u16 \<Rightarrow> u16" where
  "u16_saturating_inc n = (if n = - 1 then n else n + 1)"

definition init_config :: "instant \<Rightarrow> string \<Rightarrow> string \<Rightarrow> u16 \<Rightarrow> bool \<Rightarrow> bridge_config \<Rightarrow> bridge_config" where
  "init_config now uuid bind port mdns loaded =
     (let config = loaded\<lparr> bc_bind := bind, bc_port := port,
            bc_enroll_port := u16_saturating_inc port, bc_mdns_advertise := mdns \<rparr>
      in if bc_pairing_code config = None \<or> \<not> pairing_code_valid now config
         then snd (rotate_pairing_code now uuid config) else config)"

section \<open>Attachments\<close>

text \<open>\<open>hmac\<close> is HMAC-SHA256 of a key and a message in hexadecimal.\<close>

definition token_for ::
  "(byte list \<Rightarrow> byte list \<Rightarrow> string) \<Rightarrow> string \<Rightarrow> string \<Rightarrow> string \<Rightarrow> byte list \<Rightarrow> string" where
  "token_for hmac chat_guid message_guid filename secret =
     hmac secret (utf8 (chat_guid @ '':'' @ message_guid @ '':'' @ filename))"

definition MAX_BYTES :: nat where "MAX_BYTES = 25 * 1024 * 1024"

text \<open>A path as its components.  \<open>canonicalize\<close> and \<open>file_len\<close> are the file system's.  A canonical path has
  no parent components, and joining an absolute path replaces what is before it.\<close>

datatype component = RootDir | ParentDir | Normal string

type_synonym path = "component list"

definition ATTACHMENTS_ROOT :: path where
  "ATTACHMENTS_ROOT = [Normal ''Library'', Normal ''Messages'', Normal ''Attachments'']"

definition path_join :: "path \<Rightarrow> path \<Rightarrow> path" where
  "path_join a b = (case b of RootDir # _ \<Rightarrow> b | _ \<Rightarrow> a @ b)"

definition path_starts_with :: "path \<Rightarrow> path \<Rightarrow> bool" where
  "path_starts_with p base \<longleftrightarrow> take (length base) p = base"

definition resolve_attachment ::
  "(path \<Rightarrow> path option) \<Rightarrow> (path \<Rightarrow> string + nat) \<Rightarrow> path \<Rightarrow> path \<Rightarrow> string + path" where
  "resolve_attachment canonicalize file_len home relative =
     (let base = path_join home ATTACHMENTS_ROOT in
      case canonicalize (path_join base relative) of
        None \<Rightarrow> Inl ''canonicalize attachment''
      | Some canonical \<Rightarrow>
          if \<not> path_starts_with canonical (unwrap_or (canonicalize base) base)
          then Inl ''attachment path outside allowed root''
          else if ParentDir \<in> set canonical then Inl ''path traversal rejected''
          else (case file_len canonical of
              Inl e \<Rightarrow> Inl e
            | Inr n \<Rightarrow> if n > MAX_BYTES then Inl ''attachment exceeds size cap'' else Inr canonical))"

end
