(* ===== verification/Bridge_Contract.thy ===== *)
theory Bridge_Contract
  imports Bridge
begin

text \<open>
  What the gates of the bridge promise: where it listens, who gets a certificate, and how often a
  pairing code can be guessed.
\<close>

section \<open>Where the bridge listens\<close>

text \<open>An IPv4 address as a number, and the networks in CIDR notation.\<close>

definition ipv4 :: "byte \<Rightarrow> byte \<Rightarrow> byte \<Rightarrow> byte \<Rightarrow> u32" where
  "ipv4 a b c d = of_nat (unat a * 2 ^ 24 + unat b * 2 ^ 16 + unat c * 2 ^ 8 + unat d)"

definition in_network :: "u32 \<Rightarrow> u32 \<times> nat \<Rightarrow> bool" where
  "in_network ip net \<longleftrightarrow> drop_bit (32 - snd net) ip = drop_bit (32 - snd net) (fst net)"

definition local_networks :: "(u32 \<times> nat) set" where
  "local_networks =
     {(ipv4 127 0 0 0, 8), (ipv4 10 0 0 0, 8), (ipv4 172 16 0 0, 12), (ipv4 192 168 0 0, 16), (ipv4 100 64 0 0, 10)}"

lemma unat_ipv4: "unat (ipv4 a b c d) = unat a * 2 ^ 24 + unat b * 2 ^ 16 + unat c * 2 ^ 8 + unat d"
proof -
  let ?n = "unat a * 2 ^ 24 + unat b * 2 ^ 16 + unat c * 2 ^ 8 + unat d"
  have "unat a < 256" "unat b < 256" "unat c < 256" "unat d < 256"
    using unsigned_less [where 'b = 8 and 'a = nat] by force+
  then have "?n < 2 ^ 32" by simp
  then show ?thesis unfolding ipv4_def unat_of_nat by simp
qed

lemma in_network_unat:
  "in_network ip (net, n) \<longleftrightarrow> unat ip div 2 ^ (32 - n) = unat net div 2 ^ (32 - n)"
  unfolding in_network_def word_unat_eq_iff unat_drop_bit_eq fst_conv snd_conv by (simp add: drop_bit_eq_div)

lemma octet_div: "(a * 2 ^ 24 + b * 2 ^ 16 + c * 2 ^ 8 + d) div 2 ^ 24 = a"
    "(a * 2 ^ 24 + b * 2 ^ 16 + c * 2 ^ 8 + d) div 2 ^ 16 = a * 256 + b"
    "(a * 2 ^ 24 + b * 2 ^ 16 + c * 2 ^ 8 + d) div 2 ^ 20 = a * 16 + b div 16"
    "(a * 2 ^ 24 + b * 2 ^ 16 + c * 2 ^ 8 + d) div 2 ^ 22 = a * 4 + b div 64"
  if "b < 256" "c < 256" "d < 256" for a b c d :: nat
  using that by simp_all

lemma byte_unat:
  "x = y \<longleftrightarrow> unat x = unat y" "x \<le> y \<longleftrightarrow> unat x \<le> unat y" for x y :: byte
  by (rule word_unat_eq_iff, rule word_le_nat_alt)

lemma digits_eq:
  fixes x m z n k :: nat
  assumes "z < k" "n < k"
  shows "x * k + z = m * k + n \<longleftrightarrow> x = m \<and> z = n"
proof
  assume eq: "x * k + z = m * k + n"
  have "(x * k + z) div k = x" "(m * k + n) div k = m" "(x * k + z) mod k = z" "(m * k + n) mod k = n"
    using assms by simp_all
  then show "x = m \<and> z = n" using eq by metis
qed simp

lemma octet_pairs:
  assumes "y < (256::nat)"
  shows "x * 256 + y = 192 * 256 + 168 \<longleftrightarrow> x = 192 \<and> y = 168"
    "x * 16 + y div 16 = 172 * 16 + 1 \<longleftrightarrow> x = 172 \<and> 16 \<le> y \<and> y \<le> 31"
    "x * 4 + y div 64 = 100 * 4 + 1 \<longleftrightarrow> x = 100 \<and> 64 \<le> y \<and> y \<le> 127"
proof -
  show "x * 256 + y = 192 * 256 + 168 \<longleftrightarrow> x = 192 \<and> y = 168"
    by (rule digits_eq) (use assms in simp_all)
  have "x * 16 + y div 16 = 172 * 16 + 1 \<longleftrightarrow> x = 172 \<and> y div 16 = 1"
    by (rule digits_eq) (use assms in simp_all)
  then show "x * 16 + y div 16 = 172 * 16 + 1 \<longleftrightarrow> x = 172 \<and> 16 \<le> y \<and> y \<le> 31" by auto
  have "x * 4 + y div 64 = 100 * 4 + 1 \<longleftrightarrow> x = 100 \<and> y div 64 = 1"
    by (rule digits_eq) (use assms in simp_all)
  then show "x * 4 + y div 64 = 100 * 4 + 1 \<longleftrightarrow> x = 100 \<and> 64 \<le> y \<and> y \<le> 127" by auto
qed

lemma in_network_octets:
  "in_network (ipv4 a b c d) (ipv4 127 0 0 0, 8) \<longleftrightarrow> unat a = 127"
  "in_network (ipv4 a b c d) (ipv4 10 0 0 0, 8) \<longleftrightarrow> unat a = 10"
  "in_network (ipv4 a b c d) (ipv4 192 168 0 0, 16) \<longleftrightarrow> unat a = 192 \<and> unat b = 168"
  "in_network (ipv4 a b c d) (ipv4 172 16 0 0, 12) \<longleftrightarrow> unat a = 172 \<and> 16 \<le> unat b \<and> unat b \<le> 31"
  "in_network (ipv4 a b c d) (ipv4 100 64 0 0, 10) \<longleftrightarrow> unat a = 100 \<and> 64 \<le> unat b \<and> unat b \<le> 127"
proof -
  have less: "unat b < 256" "unat c < 256" "unat d < 256"
    using unsigned_less [where 'b = 8 and 'a = nat] by force+
  note div = octet_div [OF less, of "unat a"]
  have octets: "unat (0::byte) = 0" "unat (10::byte) = 10" "unat (16::byte) = 16" "unat (64::byte) = 64"
    "unat (100::byte) = 100" "unat (127::byte) = 127" "unat (168::byte) = 168" "unat (172::byte) = 172"
    "unat (192::byte) = 192"
    by simp_all
  have bits: "32 - 8 = (24::nat)" "32 - 16 = (16::nat)" "32 - 12 = (20::nat)" "32 - 10 = (22::nat)"
    by simp_all
  have nets: "(127 * 2 ^ 24 + 0 * 2 ^ 16 + 0 * 2 ^ 8 + 0) div 2 ^ 24 = (127::nat)"
    "(10 * 2 ^ 24 + 0 * 2 ^ 16 + 0 * 2 ^ 8 + 0) div 2 ^ 24 = (10::nat)"
    "(192 * 2 ^ 24 + 168 * 2 ^ 16 + 0 * 2 ^ 8 + 0) div 2 ^ 16 = (192 * 256 + 168::nat)"
    "(172 * 2 ^ 24 + 16 * 2 ^ 16 + 0 * 2 ^ 8 + 0) div 2 ^ 20 = (172 * 16 + 1::nat)"
    "(100 * 2 ^ 24 + 64 * 2 ^ 16 + 0 * 2 ^ 8 + 0) div 2 ^ 22 = (100 * 4 + 1::nat)"
    by simp_all
  note unf = in_network_unat unat_ipv4 octets bits nets div
  show "in_network (ipv4 a b c d) (ipv4 127 0 0 0, 8) \<longleftrightarrow> unat a = 127"
    and "in_network (ipv4 a b c d) (ipv4 10 0 0 0, 8) \<longleftrightarrow> unat a = 10"
    unfolding unf by (rule refl)+
  show "in_network (ipv4 a b c d) (ipv4 192 168 0 0, 16) \<longleftrightarrow> unat a = 192 \<and> unat b = 168"
    unfolding unf by (rule octet_pairs(1) [OF less(1)])
  show "in_network (ipv4 a b c d) (ipv4 172 16 0 0, 12) \<longleftrightarrow> unat a = 172 \<and> 16 \<le> unat b \<and> unat b \<le> 31"
    unfolding unf by (rule octet_pairs(2) [OF less(1)])
  show "in_network (ipv4 a b c d) (ipv4 100 64 0 0, 10) \<longleftrightarrow> unat a = 100 \<and> 64 \<le> unat b \<and> unat b \<le> 127"
    unfolding unf by (rule octet_pairs(3) [OF less(1)])
qed

lemma in_local_networks:
  "(\<exists>net\<in>local_networks. in_network (ipv4 a b c d) net) \<longleftrightarrow>
     a = 127 \<or> a = 10 \<or> a = 172 \<and> 16 \<le> b \<and> b \<le> 31 \<or> a = 192 \<and> b = 168 \<or> a = 100 \<and> 64 \<le> b \<and> b \<le> 127"
  unfolding local_networks_def bex_simps in_network_octets byte_unat [of a] byte_unat [of b]
    byte_unat(2) [of _ b]
  by simp

lemma loopback_v6: "[0, 0, 0, 0, 0, 0, 0, 1] \<noteq> replicate 8 (0::u16)" "replicate 7 (0::u16) @ [1] = [0, 0, 0, 0, 0, 0, 0, 1]"
  by code_simp+

text \<open>the bridge only ever listens on an address of its own machine, of a private network or of
  Tailscale: exactly the IPv4 addresses of five networks in CIDR notation, and \<^verbatim>\<open>::1\<close>.\<close>

theorem bind_is_local:
  "validate_bind parse_v6 config = Inr () \<longleftrightarrow>
     (case parse_ip parse_v6 (bc_bind config) of
        Some (V4 a b c d) \<Rightarrow> \<exists>net\<in>local_networks. in_network (ipv4 a b c d) net
      | Some (V6 gs) \<Rightarrow> gs = [0, 0, 0, 0, 0, 0, 0, 1]
      | None \<Rightarrow> False)"
  unfolding in_local_networks
  by (auto simp: validate_bind_def loopback_v6 split: option.splits ip_addr.splits)

section \<open>Pairing\<close>

lemma constant_time_eq_iff: "constant_time_eq a b \<longleftrightarrow> a = b"
  using token_matches_eq [of a b] by (simp add: constant_time_eq_def token_matches_def Let_def)

definition name_char :: "char \<Rightarrow> bool" where
  "name_char c \<longleftrightarrow> is_ascii_alphanumeric c \<or> c = CHR ''-'' \<or> c = CHR ''_''"

lemma sanitized_name:
  "list_all name_char (sanitize_client_name n)" "length (sanitize_client_name n) \<le> 64"
  by (auto simp: sanitize_client_name_def name_char_def list_all_iff dest: in_set_takeD)

lemma sign_request_status: "(reply, w') = sign_request W config n csr w \<Longrightarrow> reply \<noteq> Refused 401 t"
  by (auto simp: sign_request_def Let_def split: sum.splits prod.splits)

text \<open>What the handler answers, by cases.\<close>

lemma enroll_cases:
  assumes "enroll_handler W config peer req m w = (reply, m', w')"
  obtains (limited) "reply = Refused 429 ''too many pairing attempts''"
      "\<not> length (retain_recent (ew_now W) (unwrap_or (m peer) [])) < MAX_ATTEMPTS_PER_IP"
      "m' = m(peer \<mapsto> retain_recent (ew_now W) (unwrap_or (m peer) []))" "w' = w"
  | (invalid) "\<exists>t. reply = Refused 403 t"
      "m' = m(peer \<mapsto> retain_recent (ew_now W) (unwrap_or (m peer) []))" "w' = w"
  | (wrong) "\<exists>t. reply = Refused 401 t"
      "length (retain_recent (ew_now W) (unwrap_or (m peer) [])) < MAX_ATTEMPTS_PER_IP"
      "m' = m(peer \<mapsto> retain_recent (ew_now W) (unwrap_or (m peer) []) @ [ew_now W])" "w' = w"
  | (right) code where "bc_pairing_code (live_pairing_config (ew_disk W) config) = Some code"
      "pairing_code_valid (ew_now W) (live_pairing_config (ew_disk W) config)"
      "trim (er_pairing_code req) = code"
      "length (retain_recent (ew_now W) (unwrap_or (m peer) [])) < MAX_ATTEMPTS_PER_IP"
      "(reply, w') = (if sanitize_client_name (er_client_name req) = [] then (Refused 400 ''invalid client_name'', w)
                else sign_request W config (sanitize_client_name (er_client_name req)) (er_csr_pem req) w)"
      "m' = m(peer \<mapsto> retain_recent (ew_now W) (unwrap_or (m peer) []))"
proof -
  note unf = enroll_handler_def enroll_checked_def rate_limit_ok_def Let_def
  let ?ticket = "live_pairing_config (ew_disk W) config"
  show ?thesis
  proof (cases "length (retain_recent (ew_now W) (unwrap_or (m peer) [])) < MAX_ATTEMPTS_PER_IP")
    case False
    then show ?thesis using assms limited by (simp add: unf)
  next
    case few: True
    show ?thesis
    proof (cases "pairing_code_valid (ew_now W) ?ticket")
      case False
      then show ?thesis using assms few invalid by (auto simp: unf)
    next
      case valid: True
      then obtain code where code: "bc_pairing_code ?ticket = Some code"
        by (auto simp: pairing_code_valid_def split: option.splits)
      have idem: "retain_recent t (retain_recent t ts) = retain_recent t ts" for t ts
        by (simp add: retain_recent_def)
      show ?thesis
      proof (cases "trim (er_pairing_code req) = code")
        case False
        then show ?thesis using assms few valid code wrong
          by (auto simp: unf constant_time_eq_iff record_attempt_def idem)
      next
        case same: True
        show ?thesis using assms few valid code same
          by (intro right [of code]) (auto simp: unf constant_time_eq_iff split: if_splits prod.splits)
      qed
    qed
  qed
qed

text \<open>C24: a client certificate is only ever issued against the pairing code: the code on disk when there is
  one, not empty, not expired, given by the request to the letter (around white space), by a peer with
  fewer than five failed attempts in the last five minutes.  It is signed for a name of at
  most 64 letters, digits, dashes and underscores, and counts as no failed attempt.\<close>

theorem enrolled_only_with_code:
  assumes "enroll_handler W config peer req m w = (Enrolled r, m', w')"
  shows "\<exists>code name. bc_pairing_code (live_pairing_config (ew_disk W) config) = Some code \<and> code \<noteq> []
     \<and> (\<forall>e. bc_pairing_code_expires_at (live_pairing_config (ew_disk W) config) = Some e \<longrightarrow> ew_now W < e)
     \<and> trim (er_pairing_code req) = code
     \<and> length (retain_recent (ew_now W) (unwrap_or (m peer) [])) < MAX_ATTEMPTS_PER_IP
     \<and> name = sanitize_client_name (er_client_name req) \<and> name \<noteq> [] \<and> length name \<le> 64 \<and> list_all name_char name
     \<and> fst (ew_sign W name (er_csr_pem req) w) = Inr (en_client_cert_pem r)
     \<and> retain_recent (ew_now W) (unwrap_or (m' peer) []) = retain_recent (ew_now W) (unwrap_or (m peer) [])"
  using assms
proof (cases rule: enroll_cases)
  case (right code)
  then have "sanitize_client_name (er_client_name req) \<noteq> []"
    and signed: "sign_request W config (sanitize_client_name (er_client_name req)) (er_csr_pem req) w = (Enrolled r, w')"
    by (auto split: if_splits)
  moreover have "fst (ew_sign W (sanitize_client_name (er_client_name req)) (er_csr_pem req) w) = Inr (en_client_cert_pem r)"
    using signed by (auto simp: sign_request_def Let_def split: sum.splits prod.splits)
  moreover have "retain_recent (ew_now W) (unwrap_or (m' peer) []) = retain_recent (ew_now W) (unwrap_or (m peer) [])"
    using right(6) by (simp add: retain_recent_def)
  ultimately show ?thesis
    using right(1-4) sanitized_name by (auto simp: pairing_code_valid_def split: option.splits if_splits)
qed auto

text \<open>A bridge with a fresh code, and a client that knows it.\<close>

definition demo_config :: bridge_config where
  "demo_config = snd (rotate_pairing_code 0 ''0123456789abcdef0123456789abcdef'' (default_config None))"

definition demo_world :: "instant \<Rightarrow> unit enroll_world" where
  "demo_world now = \<lparr> ew_now = now, ew_disk = Inl ''no file'', ew_sign = (\<lambda>name csr. ret (''cert of '' @ name)),
     ew_ca = ret ''ca'', ew_hostname = Some ''mac'' \<rparr>"

definition demo_enroll :: "string \<Rightarrow> enroll_request" where
  "demo_enroll code = \<lparr> er_pairing_code = code, er_client_name = ''my laptop!'', er_csr_pem = ''csr'' \<rparr>"

theorem enrolled_only_with_code_witness:
  "\<exists>r m'. enroll_handler (demo_world 5) demo_config ''peer'' (demo_enroll '' 01234567 '') Map.empty () = (Enrolled r, m', ())
     \<and> fst (ew_sign (demo_world 5) ''mylaptop'' ''csr'' ()) = Inr (en_client_cert_pem r)"
proof -
  let ?run = "enroll_handler (demo_world 5) demo_config ''peer'' (demo_enroll '' 01234567 '') Map.empty ()"
  obtain reply m' where run: "?run = (reply, m', ())" by (cases ?run) auto
  have "case fst ?run of Enrolled _ \<Rightarrow> True | Refused _ _ \<Rightarrow> False" by code_simp
  then obtain r where "reply = Enrolled r" using run by (cases reply) auto
  moreover have "sanitize_client_name ''my laptop!'' = ''mylaptop''" by code_simp
  ultimately show ?thesis
    using run enrolled_only_with_code [of "demo_world 5" demo_config "''peer''" "demo_enroll '' 01234567 ''" Map.empty "()" r m' "()"]
    by (auto simp: demo_enroll_def)
qed

text \<open>A run of requests, each with the world it meets and its peer.\<close>

fun serve_enrolls ::
  "bridge_config \<Rightarrow> ('w enroll_world \<times> string \<times> enroll_request) list \<Rightarrow> attempts \<Rightarrow> 'w \<Rightarrow>
     enroll_reply list \<times> attempts \<times> 'w" where
  "serve_enrolls config [] m w = ([], m, w)"
| "serve_enrolls config ((W, peer, req) # reqs) m w =
     (let (reply, m1, w1) = enroll_handler W config peer req m w;
          (replies, m2, w2) = serve_enrolls config reqs m1 w1
      in (reply # replies, m2, w2))"

text \<open>The wrong guesses of a peer among the answered requests.\<close>

definition wrong_guesses :: "string \<Rightarrow> ('w enroll_world \<times> string \<times> enroll_request) list \<Rightarrow> enroll_reply list \<Rightarrow> nat" where
  "wrong_guesses peer reqs replies =
     length (filter (\<lambda>((_, p, _), reply). p = peer \<and> (\<exists>t. reply = Refused 401 t)) (zip reqs replies))"

definition failed_since :: "instant \<Rightarrow> string \<Rightarrow> attempts \<Rightarrow> nat" where
  "failed_since t0 peer m = length (filter (\<lambda>t. t0 \<le> t) (unwrap_or (m peer) []))"

lemma retained_since:
  assumes "t0 \<le> now" "now < t0 + ATTEMPT_WINDOW"
  shows "filter (\<lambda>t. t0 \<le> t) (retain_recent now ts) = filter (\<lambda>t. t0 \<le> t) ts"
  using assms by (auto simp: retain_recent_def duration_since_def ATTEMPT_WINDOW_def intro!: filter_cong)

lemma enroll_counts:
  assumes "enroll_handler W config p req m w = (reply, m', w')" "t0 \<le> ew_now W" "ew_now W < t0 + ATTEMPT_WINDOW"
  shows "failed_since t0 peer m' = failed_since t0 peer m + (if p = peer \<and> (\<exists>t. reply = Refused 401 t) then 1 else 0)
     \<and> (p = peer \<and> (\<exists>t. reply = Refused 401 t) \<longrightarrow> failed_since t0 peer m < MAX_ATTEMPTS_PER_IP)"
  using assms(1)
proof (cases rule: enroll_cases)
  case wrong
  have "length (filter (\<lambda>t. t0 \<le> t) ts) \<le> length (retain_recent (ew_now W) ts)" for ts
    using retained_since [OF assms(2,3), of ts] by (metis length_filter_le)
  then have "failed_since t0 p m < MAX_ATTEMPTS_PER_IP"
    using wrong(2) order.strict_trans1 unfolding failed_since_def by blast
  then show ?thesis using wrong assms(2) retained_since [OF assms(2,3)] by (auto simp: failed_since_def)
next
  case (right code)
  then have "(reply, w') = (Refused 400 ''invalid client_name'', w) \<or> (\<exists>n csr. (reply, w') = sign_request W config n csr w)"
    by metis
  then have "reply \<noteq> Refused 401 t" for t
    using sign_request_status [of reply w' W config _ _ w t] by auto
  then show ?thesis using right(6) retained_since [OF assms(2,3)] by (auto simp: failed_since_def)
qed (use retained_since [OF assms(2,3)] in \<open>auto simp: failed_since_def\<close>)

lemma wrong_guesses_Cons:
  "wrong_guesses peer ((W, p, req) # reqs) (reply # replies) =
     (if p = peer \<and> (\<exists>t. reply = Refused 401 t) then 1 else 0) + wrong_guesses peer reqs replies"
  by (simp add: wrong_guesses_def)

lemma enroll_refused_early:
  assumes "enroll_handler W config peer req m w = (reply, m', w')" "t0 \<le> ew_now W" "ew_now W < t0 + ATTEMPT_WINDOW"
    and "MAX_ATTEMPTS_PER_IP \<le> failed_since t0 peer m"
  shows "reply = Refused 429 ''too many pairing attempts'' \<and> w' = w"
proof -
  have "failed_since t0 peer m \<le> length (retain_recent (ew_now W) (unwrap_or (m peer) []))"
    using retained_since [OF assms(2,3)] length_filter_le unfolding failed_since_def by metis
  then have "\<not> fst (rate_limit_ok (ew_now W) peer m)" using assms(4) by (simp add: rate_limit_ok_def Let_def)
  then show ?thesis using assms(1) by (simp add: enroll_handler_def split: prod.splits bool.splits)
qed

lemma guesses_beyond_refused:
  "\<forall>(W, _)\<in>set reqs. t0 \<le> ew_now W \<and> ew_now W < t0 + ATTEMPT_WINDOW \<Longrightarrow>
     serve_enrolls config reqs m w = (replies, m', w') \<Longrightarrow> i < length reqs \<Longrightarrow> fst (snd (reqs ! i)) = peer \<Longrightarrow>
     MAX_ATTEMPTS_PER_IP \<le> failed_since t0 peer m + wrong_guesses peer (take i reqs) (take i replies) \<Longrightarrow>
     replies ! i = Refused 429 ''too many pairing attempts''"
proof (induction reqs arbitrary: i m w replies)
  case (Cons r reqs)
  obtain W p req where r: "r = (W, p, req)" by (cases r)
  obtain reply m1 w1 where one: "enroll_handler W config p req m w = (reply, m1, w1)" by (rule prod_cases3)
  obtain rest where rest: "serve_enrolls config reqs m1 w1 = (rest, m', w')" "replies = reply # rest"
    using Cons.prems(2) r one by (auto split: prod.splits)
  have win: "t0 \<le> ew_now W" "ew_now W < t0 + ATTEMPT_WINDOW" using Cons.prems(1) r by auto
  show ?case
  proof (cases i)
    case 0
    then show ?thesis
      using Cons.prems(4,5) r rest(2) one enroll_refused_early [of W config peer req m w reply m1 w1, OF _ win]
      by (simp add: wrong_guesses_def)
  next
    case (Suc j)
    then show ?thesis
      using Cons.IH [OF _ rest(1), of j] Cons.prems(1,3-5) r rest(2) enroll_counts [OF one win, of peer]
      by (auto simp: wrong_guesses_Cons)
  qed
qed simp

text \<open>C15: of requests that are handled one after the other, a peer can have the pairing code compared with at most five
  wrong guesses in any five minutes, whatever else is requested in between and whatever had happened before; once
  it has made these, each of its further requests in that time is answered 429, whatever code it has, the right one
  included.\<close>

theorem guesses_are_bounded:
  assumes "\<forall>(W, _)\<in>set reqs. t0 \<le> ew_now W \<and> ew_now W < t0 + ATTEMPT_WINDOW"
    and "serve_enrolls config reqs m w = (replies, m', w')"
  shows "wrong_guesses peer reqs replies \<le> MAX_ATTEMPTS_PER_IP
    \<and> (\<forall>i < length reqs. fst (snd (reqs ! i)) = peer
         \<and> MAX_ATTEMPTS_PER_IP \<le> wrong_guesses peer (take i reqs) (take i replies) \<longrightarrow>
           replies ! i = Refused 429 ''too many pairing attempts'')"
proof -
  have "wrong_guesses peer reqs replies + failed_since t0 peer m \<le> max MAX_ATTEMPTS_PER_IP (failed_since t0 peer m)"
    using assms
  proof (induction reqs arbitrary: m w replies)
    case Nil
    then show ?case by (simp add: wrong_guesses_def)
  next
    case (Cons r reqs)
    obtain W p req where r: "r = (W, p, req)" by (cases r)
    obtain reply m1 w1 where one: "enroll_handler W config p req m w = (reply, m1, w1)" by (rule prod_cases3)
    obtain rest where rest: "serve_enrolls config reqs m1 w1 = (rest, m', w')" "replies = reply # rest"
      using Cons.prems(2) r one by (auto split: prod.splits)
    have win: "t0 \<le> ew_now W" "ew_now W < t0 + ATTEMPT_WINDOW" using Cons.prems(1) r by auto
    show ?case
      using Cons.IH [OF _ rest(1)] Cons.prems(1) enroll_counts [OF one win, of peer] r rest(2)
      by (auto simp: wrong_guesses_Cons split: if_splits)
  qed
  then show ?thesis using guesses_beyond_refused [OF assms, of _ peer] by auto
qed

text \<open>Five wrong guesses, and then the right code.\<close>

definition demo_guesses :: "(unit enroll_world \<times> string \<times> enroll_request) list" where
  "demo_guesses = replicate 5 (demo_world 5, ''peer'', demo_enroll ''guess'') @ [(demo_world 5, ''peer'', demo_enroll ''01234567'')]"

theorem guesses_are_bounded_witness:
  "fst (serve_enrolls demo_config demo_guesses Map.empty ()) ! 5 = Refused 429 ''too many pairing attempts''
   \<and> wrong_guesses ''peer'' demo_guesses (fst (serve_enrolls demo_config demo_guesses Map.empty ())) \<le> 5"
proof -
  obtain replies m' where run: "serve_enrolls demo_config demo_guesses Map.empty () = (replies, m', ())"
    by (cases "serve_enrolls demo_config demo_guesses Map.empty ()") auto
  have "take 5 (fst (serve_enrolls demo_config demo_guesses Map.empty ())) = replicate 5 (Refused 401 ''invalid pairing code'')"
    by code_simp
  then have "wrong_guesses ''peer'' (take 5 demo_guesses) (take 5 replies) = 5"
    using run by (simp add: demo_guesses_def wrong_guesses_def eval_nat_numeral)
  moreover have "\<forall>(W, _)\<in>set demo_guesses. 0 \<le> ew_now W \<and> ew_now W < 0 + ATTEMPT_WINDOW"
    by (auto simp: demo_guesses_def demo_world_def ATTEMPT_WINDOW_def)
  ultimately show ?thesis using guesses_are_bounded [OF _ run, of 0 "''peer''"] run
    by (auto simp: demo_guesses_def MAX_ATTEMPTS_PER_IP_def nth_append dest: spec [of _ 5])
qed





end
