(* ===== verification/Contacts_Auth.thy ===== *)
theory Contacts_Auth
  imports Bridge
begin

text \<open>
  The Contacts authorisation of \<^verbatim>\<open>bridge/src/contacts.rs\<close>: reading the status from its probes, looking
  for names, and the state machine that drives one attempt to an end.  The world \<open>'w\<close> is the Mac:
  the imsg child, the probe programs, the clock; \<open>auth_env\<close> holds what the code asks of it.
\<close>

section \<open>Status and outcome\<close>

datatype contacts_status = NotDetermined | Denied | Restricted | Authorized

definition as_wire :: "contacts_status \<Rightarrow> bool \<Rightarrow> contacts_state" where
  "as_wire status names_visible =
     (if status = Authorized \<and> names_visible then Granted else Unavailable)"

definition from_probe_label :: "string \<Rightarrow> contacts_status" where
  "from_probe_label label =
     (if label = ''authorized'' \<or> label = ''limited'' then Authorized
      else if label = ''denied'' then Denied
      else if label = ''restricted'' then Restricted
      else NotDetermined)"

datatype contacts_outcome =
    OutGranted bool
  | OutDenied
  | OutTimedOut
  | OutHelperMissing string

definition as_state :: "contacts_outcome \<Rightarrow> contacts_state" where
  "as_state out = (case out of OutGranted True \<Rightarrow> Granted | _ \<Rightarrow> Unavailable)"

text \<open>The derived serialisation: tagged, in snake case.\<close>

definition outcome_to_json :: "contacts_outcome \<Rightarrow> json" where
  "outcome_to_json out = (case out of
     OutGranted b \<Rightarrow> mk_obj [(''outcome'', JStr ''granted''), (''names_visible'', JBool b)]
   | OutDenied \<Rightarrow> mk_obj [(''outcome'', JStr ''denied'')]
   | OutTimedOut \<Rightarrow> mk_obj [(''outcome'', JStr ''timed_out'')]
   | OutHelperMissing d \<Rightarrow> mk_obj [(''outcome'', JStr ''helper_missing''), (''detail'', JStr d)])"

definition busy_gate_reply :: json where
  "busy_gate_reply = mk_obj [(''outcome'', JStr ''prompting'')]"

section \<open>What a list of chats shows\<close>

definition chats_of :: "json \<Rightarrow> json list option" where
  "chats_of result = or_else (Option.bind (json_get result ''chats'') as_array) (as_array result)"

definition nonempty_str :: "json option \<Rightarrow> string option" where
  "nonempty_str v = (case Option.bind v as_str of None \<Rightarrow> None | Some s \<Rightarrow> if trim s = [] then None else Some (trim s))"

definition chats_have_visible_names :: "json \<Rightarrow> bool" where
  "chats_have_visible_names result =
     (case chats_of result of
        None \<Rightarrow> False
      | Some list \<Rightarrow>
          list_ex (\<lambda>chat. case Option.bind (json_get chat ''contact_name'') as_str of
              None \<Rightarrow> False | Some s \<Rightarrow> trim s \<noteq> []) list)"

fun first_part :: "json list \<Rightarrow> string option" where
  "first_part [] = None"
| "first_part (part # parts) =
     (case as_str part of
        Some s \<Rightarrow>
          if trim s \<noteq> [] then Some s else first_part parts
      | None \<Rightarrow>
          (case or_else (nonempty_str (json_get part ''identifier'')) (nonempty_str (json_get part ''handle'')) of
             Some i \<Rightarrow> Some i
           | None \<Rightarrow> first_part parts))"

fun first_handle_in :: "json list \<Rightarrow> string option" where
  "first_handle_in [] = None"
| "first_handle_in (chat # rest) =
     (case nonempty_str (json_get chat ''identifier'') of
        Some i \<Rightarrow> Some i
      | None \<Rightarrow>
          (case Option.bind (json_get chat ''participants'') as_array of
             None \<Rightarrow> first_handle_in rest
           | Some parts \<Rightarrow>
               (case first_part parts of Some i \<Rightarrow> Some i | None \<Rightarrow> first_handle_in rest)))"

definition first_handle :: "json \<Rightarrow> string option" where
  "first_handle result = Option.bind (chats_of result) first_handle_in"

section \<open>Finding the programs\<close>

text \<open>The file system below a path, and the directories of \<^verbatim>\<open>PATH\<close> when it is set.\<close>

record host =
  ho_is_file :: "string \<Rightarrow> bool"
  ho_exists :: "string \<Rightarrow> bool"
  ho_path :: "string list option"

definition is_absolute :: "string \<Rightarrow> bool" where
  "is_absolute p \<longleftrightarrow> starts_with p ''/''"

definition dir_join :: "string \<Rightarrow> string \<Rightarrow> string" where
  "dir_join dir name =
     (if is_absolute name then name
      else if dir = [] then name
      else if last dir = CHR ''/'' then dir @ name
      else dir @ ''/'' @ name)"

definition OPT_HOMEBREW_IMSG :: string where "OPT_HOMEBREW_IMSG = ''/opt/homebrew/bin/imsg''"
definition USR_LOCAL_IMSG :: string where "USR_LOCAL_IMSG = ''/usr/local/bin/imsg''"

definition resolve_steipete_imsg :: "host \<Rightarrow> string \<Rightarrow> string option" where
  "resolve_steipete_imsg H configured =
     (if is_absolute configured \<and> ho_is_file H configured then Some configured
      else find (ho_is_file H) [OPT_HOMEBREW_IMSG, USR_LOCAL_IMSG])"

text \<open>\<open>H'\<close> is the host after \<^verbatim>\<open>brew install\<close>, where brew was found and run; without brew nothing changes.\<close>

definition OPT_HOMEBREW_BREW :: string where "OPT_HOMEBREW_BREW = ''/opt/homebrew/bin/brew''"
definition USR_LOCAL_BREW :: string where "USR_LOCAL_BREW = ''/usr/local/bin/brew''"

definition in_path :: "host \<Rightarrow> string \<Rightarrow> string option" where
  "in_path H name = find (ho_is_file H) (map (\<lambda>dir. dir_join dir name) (unwrap_or (ho_path H) []))"

definition resolve_brew :: "host \<Rightarrow> string option" where
  "resolve_brew H = or_else (find (ho_is_file H) [OPT_HOMEBREW_BREW, USR_LOCAL_BREW]) (in_path H ''brew'')"

definition FORMULA :: string where "FORMULA = ''steipete/tap/imsg''"
definition INSTALL_CMD :: string where "INSTALL_CMD = ''brew install steipete/tap/imsg''"

definition missing_error :: "host \<Rightarrow> string" where
  "missing_error H =
     ''The Mac bridge needs Homebrew imsg ('' @ FORMULA @ '').''
     @ (if resolve_brew H = None
        then '' Install Homebrew from https://brew.sh, then run:'' @ [CHR 0x0A]
        else '' Install it with:'' @ [CHR 0x0A])
     @ INSTALL_CMD"

definition ensure_steipete_imsg :: "host \<Rightarrow> host \<Rightarrow> string \<Rightarrow> string + string" where
  "ensure_steipete_imsg H H' configured =
     (case resolve_steipete_imsg H configured of
        Some found \<Rightarrow> Inr found
      | None \<Rightarrow>
          let H2 = (if resolve_brew H = None then H else H')
          in (case resolve_steipete_imsg H2 configured of
                Some found \<Rightarrow> Inr found | None \<Rightarrow> Inl (missing_error H2)))"

definition resolve_imsg_path :: "host \<Rightarrow> string \<Rightarrow> string" where
  "resolve_imsg_path H imsg_path =
     (case resolve_steipete_imsg H imsg_path of
        Some found \<Rightarrow> found
      | None \<Rightarrow>
          if is_absolute imsg_path then imsg_path
          else (case in_path H imsg_path of
              Some found \<Rightarrow> found
            | None \<Rightarrow>
                let brew = dir_join ''/opt/homebrew/bin'' imsg_path
                in if ho_exists H brew then brew else imsg_path))"

text \<open>The components of a path: the root counts, empty and inner \<^verbatim>\<open>.\<close> parts do not.\<close>

definition component_count :: "string \<Rightarrow> nat" where
  "component_count p =
     (let parts = split_on CHR ''/'' p;
          kept = (case parts of [] \<Rightarrow> [] | f # rest \<Rightarrow>
            (if f = [] then [] else [f]) @ filter (\<lambda>x. x \<noteq> [] \<and> x \<noteq> ''.'') rest)
      in length kept + (if is_absolute p then 1 else 0))"

definition imsg_usable :: "host \<Rightarrow> string \<Rightarrow> bool" where
  "imsg_usable H p \<longleftrightarrow> ho_is_file H p \<or> component_count p = 1"

section \<open>Probing\<close>

text \<open>
  What the code asks of the Mac: a call over imsg's RPC, the Swift probe and imsg's nickname command
  with their output, opening Ghostty with its arguments, a respawn, the clock and a pause.  The
  timeouts around the probes are among their failures.  Around a call, a respawn and \<^verbatim>\<open>open\<close> there is none: each of
  them may wait for ever, which is \<open>NoAnswer\<close>.
\<close>

datatype call_error = NoAnswer | CallError string

record 'w auth_env =
  ae_host :: host
  ae_parse :: "string \<Rightarrow> json option"
  ae_call :: "string \<Rightarrow> json \<Rightarrow> ('w, call_error, json) act"
  ae_swift :: "('w, string, string \<times> string) act"
  ae_nickname :: "string \<Rightarrow> string list \<Rightarrow> ('w, string, string \<times> string \<times> bool) act"
  ae_open :: "string list \<Rightarrow> ('w, call_error, string option) act"
  ae_respawn :: "string \<Rightarrow> ('w, call_error, unit) act"
  ae_now :: "'w \<Rightarrow> instant"
  ae_sleep :: "int \<Rightarrow> 'w \<Rightarrow> 'w"

fun lines_of :: "string \<Rightarrow> string list" where
  "lines_of s = split_on (CHR 0x0A) s"

definition parse_probe_output :: "(string \<Rightarrow> json option) \<Rightarrow> string \<Rightarrow> string \<Rightarrow> string + contacts_status" where
  "parse_probe_output parse stdout stderr =
     (let line = unwrap_or (find (\<lambda>l. l \<noteq> []) (map trim (lines_of stdout))) [] in
      case Option.bind (Option.bind (parse line) (\<lambda>v. json_get v ''status'')) as_str of
        Some status \<Rightarrow> Inr (from_probe_label status)
      | None \<Rightarrow> Inl (''contacts-probe unreadable: '' @ line @ '' '' @ stderr))"

definition status_from_nickname :: "string \<Rightarrow> string \<Rightarrow> bool \<Rightarrow> contacts_status" where
  "status_from_nickname stdout stderr success =
     (let lower = to_ascii_lowercase (stdout @ '' '' @ stderr) in
      if str_contains lower ''denied'' then Denied
      else if str_contains lower ''restricted'' then Restricted
      else if str_contains lower ''contacts_unavailable'' \<or> str_contains lower ''not determined'' then NotDetermined
      else if success then Authorized
      else NotDetermined)"

definition probe_via_swift :: "'w auth_env \<Rightarrow> ('w, string, contacts_status) act" where
  "probe_via_swift A = andthen (ae_swift A) (\<lambda>(out, err). of_result (parse_probe_output (ae_parse A) out err))"

definition probe_via_nickname :: "'w auth_env \<Rightarrow> bridge_config \<Rightarrow> string \<Rightarrow> ('w, string, contacts_status) act" where
  "probe_via_nickname A config handle =
     andthen (ae_nickname A (resolve_imsg_path (ae_host A) (bc_imsg_path config))
       [''nickname'', ''--address'', handle, ''--local'', ''--json''])
       (\<lambda>(out, err, ok). ret (status_from_nickname out err ok))"

definition probe_with_handle ::
  "'w auth_env \<Rightarrow> bridge_config \<Rightarrow> string option \<Rightarrow> ('w, string, contacts_status) act" where
  "probe_with_handle A config handle w =
     (case probe_via_swift A w of
        (Inr status, w1) \<Rightarrow> (Inr status, w1)
      | (Inl _, w1) \<Rightarrow> probe_via_nickname A config (unwrap_or handle ''0'') w1)"

definition chats_limit :: "nat \<Rightarrow> json" where
  "chats_limit n = mk_obj [(''limit'', JNum (NPos (of_nat n)))]"

definition names_visible :: "'w auth_env \<Rightarrow> ('w, call_error, bool) act" where
  "names_visible A = andthen (ae_call A ''chats.list'' (chats_limit 20)) (\<lambda>r. ret (chats_have_visible_names r))"

definition pick_handle :: "'w auth_env \<Rightarrow> ('w, call_error, string) act" where
  "pick_handle A =
     andthen (ae_call A ''chats.list'' (chats_limit 20)) (\<lambda>r.
     of_result (case first_handle r of
        None \<Rightarrow> Inl (CallError ''no chat handle available to request Contacts'') | Some h \<Rightarrow> Inr h))"

text \<open>\<^verbatim>\<open>open\<close> answers nothing on success and its exit status otherwise; when it does not end there is no outcome.\<close>

definition prompt_via_ghostty ::
  "'w auth_env \<Rightarrow> bridge_config \<Rightarrow> string \<Rightarrow> ('w, contacts_outcome option, unit) act" where
  "prompt_via_ghostty A config handle w =
     (let ghostty = bc_ghostty_path config;
          imsg = resolve_imsg_path (ae_host A) (bc_imsg_path config) in
      if \<not> ho_exists (ae_host A) ghostty
      then (Inl (Some (OutHelperMissing (''Ghostty not found at '' @ ghostty))), w)
      else if \<not> imsg_usable (ae_host A) imsg
      then (Inl (Some (OutHelperMissing (''imsg not found at '' @ imsg))), w)
      else
        case ae_open A [''-na'', ghostty, ''--args'', ''-e'', imsg, ''nickname'', ''--address'', handle,
            ''--local'', ''--json''] w of
          (Inl NoAnswer, w1) \<Rightarrow> (Inl None, w1)
        | (Inl (CallError e), w1) \<Rightarrow> (Inl (Some (OutHelperMissing (''open Ghostty: '' @ e))), w1)
        | (Inr (Some status), w1) \<Rightarrow> (Inl (Some (OutHelperMissing (''open Ghostty exited '' @ status))), w1)
        | (Inr None, w1) \<Rightarrow> (Inr (), w1))"

section \<open>The state machine\<close>

definition VERIFY_ATTEMPTS :: nat where "VERIFY_ATTEMPTS = 5"
definition VERIFY_GAP :: int where "VERIFY_GAP = 400 * 1000000"
definition AWAIT_POLL :: int where "AWAIT_POLL = 750 * 1000000"
definition AWAIT_LIMIT :: int where "AWAIT_LIMIT = 90 * 1000000000"

datatype auth_step =
    Probe
  | Prompt
  | AwaitUser instant
  | VerifyNames nat
  | RestartRpc
  | Done contacts_outcome

text \<open>\<^verbatim>\<open>pick_handle(rpc).await.ok()\<close> and a probe with it.\<close>

definition failing :: "('w, string, 'a) act \<Rightarrow> ('w, call_error, 'a) act" where
  "failing m w = (case m w of (r, w1) \<Rightarrow> (map_sum CallError id r, w1))"

definition probe_picked :: "'w auth_env \<Rightarrow> bridge_config \<Rightarrow> ('w, call_error, contacts_status) act" where
  "probe_picked A config w =
     (case pick_handle A w of
        (Inr h, w1) \<Rightarrow> failing (probe_with_handle A config (Some h)) w1
      | (Inl (CallError _), w1) \<Rightarrow> failing (probe_with_handle A config None) w1
      | (Inl NoAnswer, w1) \<Rightarrow> (Inl NoAnswer, w1))"

text \<open>One round of the loop: the next step, and whether the child has been restarted.  An error leaves the
  loop, and no answer ends the round nowhere.\<close>

fun auth_round ::
  "'w auth_env \<Rightarrow> bridge_config \<Rightarrow> instant \<Rightarrow> auth_step \<Rightarrow> bool \<Rightarrow> ('w, call_error, auth_step \<times> bool) act" where
  "auth_round A config deadline0 Probe restarted w =
     andthen (probe_picked A config) (\<lambda>status. ret
       (if status = Denied \<or> status = Restricted then Done OutDenied
        else if status = Authorized then VerifyNames 0
        else Prompt, restarted)) w"
| "auth_round A config deadline0 Prompt restarted w =
     (case pick_handle A w of
        (Inl NoAnswer, w1) \<Rightarrow> (Inl NoAnswer, w1)
      | (Inl (CallError e), w1) \<Rightarrow> (Inr (Done (OutHelperMissing e), restarted), w1)
      | (Inr handle, w1) \<Rightarrow>
          (case prompt_via_ghostty A config handle w1 of
             (Inl None, w2) \<Rightarrow> (Inl NoAnswer, w2)
           | (Inl (Some out), w2) \<Rightarrow> (Inr (Done out, restarted), w2)
           | (Inr _, w2) \<Rightarrow> (Inr (AwaitUser deadline0, restarted), w2)))"
| "auth_round A config deadline0 (AwaitUser deadline) restarted w =
     (if ae_now A w \<ge> deadline then (Inr (Done OutTimedOut, restarted), w)
      else andthen (probe_picked A config) (\<lambda>status. ret
        (if status = Authorized then VerifyNames 0
         else if status = Denied \<or> status = Restricted then Done OutDenied
         else AwaitUser deadline, restarted)) (ae_sleep A AWAIT_POLL w))"
| "auth_round A config deadline0 (VerifyNames attempt) restarted w =
     (case names_visible A w of
        (r, w1) \<Rightarrow>
          if r = Inl NoAnswer then (Inl NoAnswer, w1)
          else if r = Inr True then (Inr (Done (OutGranted True), restarted), w1)
          else if attempt + 1 < VERIFY_ATTEMPTS
          then (Inr (VerifyNames (attempt + 1), restarted), ae_sleep A VERIFY_GAP w1)
          else if \<not> restarted then (Inr (RestartRpc, restarted), w1)
          else andthen (probe_picked A config) (\<lambda>status. ret
            (if status = Authorized then Done (OutGranted False)
             else if status = Denied \<or> status = Restricted then Done OutDenied
             else Done OutTimedOut, restarted)) w1)"
| "auth_round A config deadline0 RestartRpc restarted w =
     (case ae_respawn A (bc_imsg_path config) w of
        (Inl NoAnswer, w1) \<Rightarrow> (Inl NoAnswer, w1)
      | (Inl (CallError e), w1) \<Rightarrow> (Inr (Done (OutHelperMissing (''respawn failed: '' @ e)), True), w1)
      | (Inr _, w1) \<Rightarrow> (Inr (VerifyNames 0, True), w1))"
| "auth_round A config deadline0 (Done out) restarted w = (Inr (Done out, restarted), w)"

text \<open>The loop.  Running out of fuel is \<^verbatim>\<open>None\<close>; \<open>AUTH_FUEL\<close> is shown to be enough.\<close>

fun auth_loop ::
  "nat \<Rightarrow> 'w auth_env \<Rightarrow> bridge_config \<Rightarrow> instant \<Rightarrow> auth_step \<Rightarrow> bool \<Rightarrow> 'w \<Rightarrow> ((call_error + contacts_outcome) \<times> 'w) option" where
  "auth_loop fuel A config deadline0 (Done out) restarted w = Some (Inr out, w)"
| "auth_loop 0 A config deadline0 step restarted w = None"
| "auth_loop (Suc fuel) A config deadline0 step restarted w =
     (case auth_round A config deadline0 step restarted w of
        (Inl e, w1) \<Rightarrow> Some (Inl e, w1)
      | (Inr (step', restarted'), w1) \<Rightarrow> auth_loop fuel A config deadline0 step' restarted' w1)"

definition AUTH_FUEL :: nat where "AUTH_FUEL = 140"

definition authorize_inner ::
  "'w auth_env \<Rightarrow> bridge_config \<Rightarrow> 'w \<Rightarrow> ((call_error + contacts_outcome) \<times> 'w) option" where
  "authorize_inner A config w = auth_loop AUTH_FUEL A config (ae_now A w + AWAIT_LIMIT) Probe False w"

text \<open>\<^verbatim>\<open>authorize\<close>: a timer that fires before the attempt is done leaves the world where it was then, and it
  always fires when the attempt waits for ever.\<close>

definition authorize ::
  "'w auth_env \<Rightarrow> bridge_config \<Rightarrow> 'w option \<Rightarrow> 'w \<Rightarrow> ((string + contacts_outcome) \<times> 'w) option" where
  "authorize A config timer w =
     (case timer of
        Some w' \<Rightarrow> Some (Inr OutTimedOut, w')
      | None \<Rightarrow> map_option (\<lambda>(r, w').
          (case r of Inl NoAnswer \<Rightarrow> Inr OutTimedOut | Inl (CallError e) \<Rightarrow> Inl e | Inr out \<Rightarrow> Inr out, w'))
          (authorize_inner A config w))"

section \<open>Termination\<close>

text \<open>The clock never goes back, and a pause passes at least its time.\<close>

definition clock_ok :: "'w auth_env \<Rightarrow> bool" where
  "clock_ok A \<longleftrightarrow>
     (\<forall>m p w. ae_now A w \<le> ae_now A (snd (ae_call A m p w)))
     \<and> (\<forall>w. ae_now A w \<le> ae_now A (snd (ae_swift A w)))
     \<and> (\<forall>p args w. ae_now A w \<le> ae_now A (snd (ae_nickname A p args w)))
     \<and> (\<forall>args w. ae_now A w \<le> ae_now A (snd (ae_open A args w)))
     \<and> (\<forall>p w. ae_now A w \<le> ae_now A (snd (ae_respawn A p w)))
     \<and> (\<forall>d w. 0 \<le> d \<longrightarrow> ae_now A w + d \<le> ae_now A (ae_sleep A d w))"

definition later :: "'w auth_env \<Rightarrow> ('w, 'e, 'a) act \<Rightarrow> bool" where
  "later A m \<longleftrightarrow> (\<forall>w. ae_now A w \<le> ae_now A (snd (m w)))"

lemma laterD: "later A m \<Longrightarrow> m w = (r, w') \<Longrightarrow> ae_now A w \<le> ae_now A w'"
  unfolding later_def by (metis snd_conv)

lemma later_ret: "later A (ret x)" "later A (of_result r)"
  by (simp_all add: later_def)

lemma later_andthen: "later A m \<Longrightarrow> (\<And>x. later A (f x)) \<Longrightarrow> later A (andthen m f)"
  by (auto simp: later_def andthen_apply split: prod.splits sum.splits) (metis order_trans snd_conv)+

lemma later_case:
  assumes "later A m" "\<And>e. later A (f e)" "\<And>x. later A (g x)"
  shows "later A (\<lambda>w. case m w of (Inl e, w1) \<Rightarrow> f e w1 | (Inr x, w1) \<Rightarrow> g x w1)"
  unfolding later_def
proof
  fix w
  obtain r w1 where m: "m w = (r, w1)" by fastforce
  have "ae_now A w \<le> ae_now A w1" using laterD [OF assms(1) m] .
  moreover have "ae_now A w1 \<le> ae_now A (snd (f e w1))" "ae_now A w1 \<le> ae_now A (snd (g x w1))" for e x
    using assms(2,3) by (simp_all add: later_def)
  ultimately show "ae_now A w \<le> ae_now A (snd (case m w of (Inl e, w1) \<Rightarrow> f e w1 | (Inr x, w1) \<Rightarrow> g x w1))"
    using m by (cases r) (auto intro: order_trans)
qed

lemma later_parts:
  assumes "clock_ok A"
  shows "later A (ae_call A m p)" "later A (ae_swift A)" "later A (ae_nickname A q args)"
    "later A (ae_open A args)" "later A (ae_respawn A q)"
  using assms unfolding clock_ok_def later_def by blast+

lemma later_probes:
  assumes "clock_ok A"
  shows "later A (pick_handle A)" "later A (names_visible A)" "later A (probe_picked A config)"
proof -
  note parts = later_parts [OF assms]
  show pick: "later A (pick_handle A)" "later A (names_visible A)"
    unfolding pick_handle_def names_visible_def by (intro later_andthen parts later_ret)+
  have nick: "later A (probe_via_nickname A config h)" for h
    unfolding probe_via_nickname_def by (intro later_andthen parts) (simp add: later_ret split: prod.split)
  have swift: "later A (probe_via_swift A)"
    unfolding probe_via_swift_def by (intro later_andthen parts) (simp add: later_ret split: prod.split)
  have probe: "later A (probe_with_handle A config h)" for h
    using later_case [OF swift nick later_ret(1), of "\<lambda>_. unwrap_or h ''0''" "\<lambda>x. x"]
    by (simp add: later_def probe_with_handle_def ret_def case_prod_beta cong: sum.case_cong)
  have failing: "later A (failing (probe_with_handle A config h))" for h
    using probe [of h] by (auto simp: later_def failing_def split: prod.splits) (metis snd_conv)
  show "later A (probe_picked A config)"
    unfolding later_def
  proof
    fix w
    obtain r w1 where r: "pick_handle A w = (r, w1)" by fastforce
    have "ae_now A w \<le> ae_now A w1" using laterD [OF pick(1) r] .
    moreover have "ae_now A w1 \<le> ae_now A (snd (failing (probe_with_handle A config h) w1))" for h
      using failing by (simp add: later_def)
    ultimately show "ae_now A w \<le> ae_now A (snd (probe_picked A config w))"
      using r by (auto simp: probe_picked_def intro: order_trans split: sum.splits call_error.splits)
  qed
qed

text \<open>How many rounds are left at most.\<close>

definition polls_left :: "instant \<Rightarrow> instant \<Rightarrow> nat" where
  "polls_left deadline now = (if deadline \<le> now then 0 else nat ((deadline - now) div AWAIT_POLL) + 1)"

definition rounds_left :: "instant \<Rightarrow> instant \<Rightarrow> auth_step \<Rightarrow> bool \<Rightarrow> nat" where
  "rounds_left deadline0 now step restarted = (case step of
     Done _ \<Rightarrow> 0
   | VerifyNames attempt \<Rightarrow> (if restarted then 0 else 7) + (VERIFY_ATTEMPTS - attempt) + 1
   | RestartRpc \<Rightarrow> 7
   | AwaitUser deadline \<Rightarrow> 14 + polls_left deadline now
   | Prompt \<Rightarrow> 15 + polls_left deadline0 now
   | Probe \<Rightarrow> 16 + polls_left deadline0 now)"

lemma polls_left_mono: "now \<le> now' \<Longrightarrow> polls_left deadline now' \<le> polls_left deadline now"
proof -
  assume le: "now \<le> now'"
  have "(deadline - now') div AWAIT_POLL \<le> (deadline - now) div AWAIT_POLL"
    using le by (intro zdiv_mono1) (simp_all add: AWAIT_POLL_def)
  then show ?thesis using le by (auto simp: polls_left_def intro: nat_mono)
qed

lemma polls_left_poll:
  assumes "now < deadline" "now + AWAIT_POLL \<le> now'"
  shows "polls_left deadline now' < polls_left deadline now"
proof -
  have pos: "0 < AWAIT_POLL" by (simp add: AWAIT_POLL_def)
  have "(deadline - now') div AWAIT_POLL \<le> (deadline - now + (- 1) * AWAIT_POLL) div AWAIT_POLL"
    using assms(2) pos by (intro zdiv_mono1) auto
  also have "\<dots> = (deadline - now) div AWAIT_POLL - 1"
    using pos by (subst div_mult_self1) auto
  finally have d: "(deadline - now') div AWAIT_POLL \<le> (deadline - now) div AWAIT_POLL - 1" .
  show ?thesis
  proof (cases "deadline \<le> now'")
    case True
    then show ?thesis using assms(1) by (simp add: polls_left_def)
  next
    case False
    then have "0 \<le> (deadline - now') div AWAIT_POLL" using pos by (simp add: pos_imp_zdiv_nonneg_iff)
    then show ?thesis using False d assms(1) by (simp add: polls_left_def)
  qed
qed

text \<open>Each step but the last comes closer to the end; a second verification only follows a restart.\<close>

definition step_ok :: "auth_step \<Rightarrow> bool \<Rightarrow> bool" where
  "step_ok step restarted = (case step of
     VerifyNames attempt \<Rightarrow> attempt < VERIFY_ATTEMPTS
   | RestartRpc \<Rightarrow> \<not> restarted
   | Done _ \<Rightarrow> True
   | _ \<Rightarrow> \<not> restarted)"

lemma auth_round_closer:
  assumes "clock_ok A" "step_ok step restarted" "\<forall>out. step \<noteq> Done out"
    and "auth_round A config deadline0 step restarted w = (Inr (step', restarted'), w')"
  shows "step_ok step' restarted'
     \<and> rounds_left deadline0 (ae_now A w') step' restarted' < rounds_left deadline0 (ae_now A w) step restarted"
proof (cases step)
  case Probe
  then obtain status where p: "probe_picked A config w = (Inr status, w')"
    and s: "(step', restarted') = (if status = Denied \<or> status = Restricted then Done OutDenied
        else if status = Authorized then VerifyNames 0 else Prompt, restarted)"
    using assms(4) by (auto simp: andthen_eq_Inr)
  have "polls_left deadline0 (ae_now A w') \<le> polls_left deadline0 (ae_now A w)"
    using laterD [OF later_probes(3) [OF assms(1)] p] by (rule polls_left_mono)
  then show ?thesis using Probe s assms(2)
    by (auto simp: rounds_left_def step_ok_def VERIFY_ATTEMPTS_def split: if_splits)
next
  case Prompt
  obtain r w1 where pick: "pick_handle A w = (r, w1)" by fastforce
  have w1: "ae_now A w \<le> ae_now A w1" using laterD [OF later_probes(1) [OF assms(1)] pick] .
  have prompt: "ae_now A w1 \<le> ae_now A (snd (prompt_via_ghostty A config h w1))" for h
    using later_parts(4) [OF assms(1)]
    by (auto simp: prompt_via_ghostty_def Let_def later_def split: prod.splits sum.splits option.splits call_error.splits)
      (metis snd_conv)+
  show ?thesis
  proof (cases r)
    case (Inl e)
    then show ?thesis using assms(4) Prompt pick by (cases e) (auto simp: rounds_left_def step_ok_def)
  next
    case (Inr h)
    obtain q w2 where q: "prompt_via_ghostty A config h w1 = (q, w2)" by fastforce
    have "polls_left deadline0 (ae_now A w2) \<le> polls_left deadline0 (ae_now A w)"
      using w1 prompt [of h] q by (intro polls_left_mono) auto
    then show ?thesis using assms(2,4) Prompt pick Inr q
      by (cases q) (auto simp: rounds_left_def step_ok_def split: option.splits)
  qed
next
  case (AwaitUser deadline)
  show ?thesis
  proof (cases "ae_now A w \<ge> deadline")
    case True
    then show ?thesis using assms(4) AwaitUser by (auto simp: rounds_left_def step_ok_def)
  next
    case False
    let ?w = "ae_sleep A AWAIT_POLL w"
    obtain status where p: "probe_picked A config ?w = (Inr status, w')"
      and s: "(step', restarted') = (if status = Authorized then VerifyNames 0
          else if status = Denied \<or> status = Restricted then Done OutDenied else AwaitUser deadline, restarted)"
      using assms(4) AwaitUser False by (auto simp: andthen_eq_Inr)
    have "ae_now A w + AWAIT_POLL \<le> ae_now A ?w"
      using assms(1) unfolding clock_ok_def by (simp add: AWAIT_POLL_def)
    also have "\<dots> \<le> ae_now A w'" using laterD [OF later_probes(3) [OF assms(1)] p] .
    finally have "polls_left deadline (ae_now A w') < polls_left deadline (ae_now A w)"
      using False by (intro polls_left_poll) auto
    then show ?thesis using AwaitUser s assms(2)
      by (auto simp: rounds_left_def step_ok_def VERIFY_ATTEMPTS_def split: if_splits)
  qed
next
  case (VerifyNames attempt)
  then show ?thesis using assms(2,4)
    by (auto simp: rounds_left_def step_ok_def VERIFY_ATTEMPTS_def andthen_eq_Inr split: prod.splits if_splits)
next
  case RestartRpc
  then show ?thesis using assms(2,4)
    by (auto simp: rounds_left_def step_ok_def VERIFY_ATTEMPTS_def split: prod.splits sum.splits call_error.splits)
qed (use assms(3) in simp)

lemma auth_loop_unfold:
  "\<forall>out. step \<noteq> Done out \<Longrightarrow> auth_loop (Suc fuel) A config deadline0 step restarted w =
     (case auth_round A config deadline0 step restarted w of
        (Inl e, w1) \<Rightarrow> Some (Inl e, w1)
      | (Inr (step', restarted'), w1) \<Rightarrow> auth_loop fuel A config deadline0 step' restarted' w1)"
  by (cases step) simp_all

lemma auth_loop_returns:
  assumes "clock_ok A"
  shows "step_ok step restarted \<Longrightarrow> rounds_left deadline0 (ae_now A w) step restarted \<le> fuel \<Longrightarrow>
     auth_loop fuel A config deadline0 step restarted w \<noteq> None"
proof (induction fuel arbitrary: step restarted w)
  case 0
  then show ?case by (cases step) (auto simp: rounds_left_def)
next
  case (Suc fuel)
  show ?case
  proof (cases "\<exists>out. step = Done out")
    case False
    obtain r w' where round: "auth_round A config deadline0 step restarted w = (r, w')" by fastforce
    show ?thesis
    proof (cases r)
      case (Inr sr)
      obtain step' restarted' where sr: "sr = (step', restarted')" by fastforce
      have "step_ok step' restarted'" "rounds_left deadline0 (ae_now A w') step' restarted' \<le> fuel"
        using auth_round_closer [OF assms Suc.prems(1) _ round [unfolded Inr sr]] False Suc.prems(2) by auto
      then show ?thesis using Suc.IH round Inr sr False by (simp add: auth_loop_unfold)
    qed (use round False in \<open>simp add: auth_loop_unfold\<close>)
  qed auto
qed

section \<open>What happened in an attempt\<close>

text \<open>The states an attempt goes through: the step, whether the child has been restarted, and the world.\<close>

inductive auth_next ::
  "'w auth_env \<Rightarrow> bridge_config \<Rightarrow> instant \<Rightarrow> auth_step \<times> bool \<times> 'w \<Rightarrow> auth_step \<times> bool \<times> 'w \<Rightarrow> bool"
  for A :: "'w auth_env" and config :: bridge_config and deadline :: instant where
  round: "\<forall>out. step \<noteq> Done out \<Longrightarrow> auth_round A config deadline step restarted w = (Inr (step', restarted'), w') \<Longrightarrow>
    auth_next A config deadline (step, restarted, w) (step', restarted', w')"

inductive_cases auth_nextE: "auth_next A config deadline (step, restarted, w) (step', restarted', w')"

definition auth_reaches :: "'w auth_env \<Rightarrow> bridge_config \<Rightarrow> 'w \<Rightarrow> auth_step \<times> bool \<times> 'w \<Rightarrow> bool" where
  "auth_reaches A config w = (auth_next A config (ae_now A w + AWAIT_LIMIT))\<^sup>*\<^sup>* (Probe, False, w)"

text \<open>The status was authorised, at the start or while the user was awaited; the first \<open>n\<close> looks for a name found
  none; the user was asked; the child was restarted.\<close>

definition authorised :: "'w auth_env \<Rightarrow> bridge_config \<Rightarrow> 'w \<Rightarrow> bool" where
  "authorised A config w \<longleftrightarrow> (\<exists>w1. auth_reaches A config w (Probe, False, w1) \<and> fst (probe_picked A config w1) = Inr Authorized)
     \<or> (\<exists>d w1. auth_reaches A config w (AwaitUser d, False, w1)
          \<and> fst (probe_picked A config (ae_sleep A AWAIT_POLL w1)) = Inr Authorized)"

definition looked :: "'w auth_env \<Rightarrow> bridge_config \<Rightarrow> 'w \<Rightarrow> bool \<Rightarrow> nat \<Rightarrow> bool" where
  "looked A config w restarted n \<longleftrightarrow>
     (\<forall>k<n. \<exists>w1. auth_reaches A config w (VerifyNames k, restarted, w1) \<and> fst (names_visible A w1) \<noteq> Inr True)"

definition prompted :: "'w auth_env \<Rightarrow> bridge_config \<Rightarrow> 'w \<Rightarrow> bool" where
  "prompted A config w \<longleftrightarrow> (\<exists>w1 h w2. auth_reaches A config w (Prompt, False, w1) \<and> pick_handle A w1 = (Inr h, w2)
     \<and> fst (prompt_via_ghostty A config h w2) = Inr ())"

definition respawned :: "'w auth_env \<Rightarrow> bridge_config \<Rightarrow> 'w \<Rightarrow> bool" where
  "respawned A config w \<longleftrightarrow> (\<exists>w1. auth_reaches A config w (RestartRpc, False, w1)
     \<and> fst (ae_respawn A (bc_imsg_path config) w1) = Inr ())"

text \<open>Authorised, five looks for a name found none before the restart and five after it, and the status then was
  \<open>status\<close>.\<close>

definition nameless :: "'w auth_env \<Rightarrow> bridge_config \<Rightarrow> 'w \<Rightarrow> contacts_status \<Rightarrow> 'w \<Rightarrow> bool" where
  "nameless A config w status w' \<longleftrightarrow> authorised A config w \<and> looked A config w False 5 \<and> respawned A config w
     \<and> looked A config w True 5
     \<and> (\<exists>w0 r w1. auth_reaches A config w (VerifyNames 4, True, w0) \<and> names_visible A w0 = (r, w1) \<and> r \<noteq> Inr True
          \<and> probe_picked A config w1 = (Inr status, w'))"

definition justified :: "'w auth_env \<Rightarrow> bridge_config \<Rightarrow> 'w \<Rightarrow> contacts_outcome \<Rightarrow> 'w \<Rightarrow> bool" where
  "justified A config w out w' = (case out of
     OutGranted True \<Rightarrow> authorised A config w \<and> (\<exists>n b w0. auth_reaches A config w (VerifyNames n, b, w0) \<and> names_visible A w0 = (Inr True, w'))
   | OutGranted False \<Rightarrow> nameless A config w Authorized w'
   | OutDenied \<Rightarrow> \<exists>w0 status. probe_picked A config w0 = (Inr status, w') \<and> (status = Denied \<or> status = Restricted)
   | OutTimedOut \<Rightarrow>
       prompted A config w \<and> auth_reaches A config w (AwaitUser (ae_now A w + AWAIT_LIMIT), False, w')
         \<and> ae_now A w + AWAIT_LIMIT \<le> ae_now A w'
       \<or> nameless A config w NotDetermined w'
   | OutHelperMissing text \<Rightarrow>
       (\<exists>w0. auth_reaches A config w (Prompt, False, w0) \<and> (fst (pick_handle A w0) = Inl (CallError text)
          \<or> (\<exists>h w1. pick_handle A w0 = (Inr h, w1) \<and> prompt_via_ghostty A config h w1 = (Inl (Some out), w'))))
       \<or> (\<exists>w0 e. auth_reaches A config w (RestartRpc, False, w0) \<and> text = ''respawn failed: '' @ e
            \<and> ae_respawn A (bc_imsg_path config) w0 = (Inl (CallError e), w')))"

definition auth_state_ok :: "'w auth_env \<Rightarrow> bridge_config \<Rightarrow> 'w \<Rightarrow> auth_step \<times> bool \<times> 'w \<Rightarrow> bool" where
  "auth_state_ok A config w = (\<lambda>(step, restarted, w'). case step of
     Probe \<Rightarrow> \<not> restarted
   | Prompt \<Rightarrow> \<not> restarted
   | AwaitUser d \<Rightarrow> d = ae_now A w + AWAIT_LIMIT \<and> \<not> restarted \<and> prompted A config w
   | VerifyNames n \<Rightarrow> n < VERIFY_ATTEMPTS \<and> authorised A config w \<and> looked A config w restarted n
       \<and> (restarted \<longrightarrow> respawned A config w \<and> looked A config w False 5)
   | RestartRpc \<Rightarrow> \<not> restarted \<and> authorised A config w \<and> looked A config w False 5
   | Done out \<Rightarrow> justified A config w out w')"

lemma looked_0: "looked A config w b 0"
  by (simp add: looked_def)

lemma looked_again:
  "looked A config w b n \<Longrightarrow> auth_reaches A config w (VerifyNames n, b, w1) \<Longrightarrow> fst (names_visible A w1) \<noteq> Inr True \<Longrightarrow>
     looked A config w b (Suc n)"
  unfolding looked_def less_Suc_eq by blast

lemma prompt_outcome: "prompt_via_ghostty A config h w = (Inl (Some out), w') \<Longrightarrow> \<exists>text. out = OutHelperMissing text"
  by (auto simp: prompt_via_ghostty_def Let_def split: if_splits prod.splits sum.splits option.splits call_error.splits)

lemma auth_state_step:
  assumes reach: "auth_reaches A config w (step, restarted, w1)" and ok: "auth_state_ok A config w (step, restarted, w1)"
    and round: "auth_round A config (ae_now A w + AWAIT_LIMIT) step restarted w1 = (Inr (step', restarted'), w2)"
    and live: "\<forall>out. step \<noteq> Done out"
  shows "auth_state_ok A config w (step', restarted', w2)"
proof (cases step)
  case Probe
  then obtain status where "probe_picked A config w1 = (Inr status, w2)" "restarted' = restarted"
      "step' = (if status = Denied \<or> status = Restricted then Done OutDenied
        else if status = Authorized then VerifyNames 0 else Prompt)"
    using round by (auto simp: andthen_eq_Inr)
  moreover have "authorised A config w" if "status = Authorized"
    using reach ok Probe calculation(1) that unfolding authorised_def by (auto simp: auth_state_ok_def)
  ultimately show ?thesis using ok Probe
    by (cases status) (auto simp: auth_state_ok_def justified_def VERIFY_ATTEMPTS_def looked_0 intro!: exI [of _ w1])
next
  case Prompt
  then have b: "\<not> restarted" using ok by (simp add: auth_state_ok_def)
  have here: "auth_reaches A config w (Prompt, False, w1)" using reach Prompt b by simp
  obtain r w3 where pick: "pick_handle A w1 = (r, w3)" by fastforce
  show ?thesis
  proof (cases r)
    case (Inl e)
    then show ?thesis using round reach Prompt pick b
      by (cases e) (auto simp: auth_state_ok_def justified_def intro!: exI [of _ w1])
  next
    case (Inr h)
    obtain q w4 where q: "prompt_via_ghostty A config h w3 = (q, w4)" by fastforce
    show ?thesis
    proof (cases q)
      case (Inr u)
      then have "prompted A config w" using reach Prompt b pick \<open>r = Inr h\<close> q by (auto simp: prompted_def)
      then show ?thesis using round Prompt b pick \<open>r = Inr h\<close> q Inr by (auto simp: auth_state_ok_def)
    next
      case (Inl e)
      then obtain out where "e = Some out" using round Prompt pick \<open>r = Inr h\<close> q by (cases e) auto
      then have p: "prompt_via_ghostty A config h w3 = (Inl (Some out), w4)" using q \<open>q = Inl e\<close> by simp
      obtain msg where out: "out = OutHelperMissing msg" using prompt_outcome [OF p] by blast
      note m = p [unfolded out]
      then have "step' = Done (OutHelperMissing msg)" "w2 = w4" using round Prompt pick \<open>r = Inr h\<close> by auto
      moreover have "justified A config w (OutHelperMissing msg) w4"
        unfolding justified_def contacts_outcome.simps using here pick [unfolded \<open>r = Inr h\<close>] m by blast
      ultimately show ?thesis by (simp add: auth_state_ok_def)
    qed
  qed
next
  case (AwaitUser d)
  then have d: "d = ae_now A w + AWAIT_LIMIT" "\<not> restarted" "prompted A config w"
    using ok by (simp_all add: auth_state_ok_def)
  show ?thesis
  proof (cases "d \<le> ae_now A w1")
    case True
    then show ?thesis using round reach AwaitUser d by (auto simp: auth_state_ok_def justified_def)
  next
    case False
    then obtain status where "probe_picked A config (ae_sleep A AWAIT_POLL w1) = (Inr status, w2)" "restarted' = restarted"
        "step' = (if status = Authorized then VerifyNames 0
          else if status = Denied \<or> status = Restricted then Done OutDenied else AwaitUser d)"
      using round AwaitUser by (auto simp: andthen_eq_Inr)
    moreover have "authorised A config w" if "status = Authorized"
      unfolding authorised_def
    proof (intro disjI2 exI conjI)
      show "auth_reaches A config w (AwaitUser d, False, w1)" using reach d(2) AwaitUser by simp
      show "fst (probe_picked A config (ae_sleep A AWAIT_POLL w1)) = Inr Authorized" using calculation(1) that by simp
    qed
    ultimately show ?thesis using d
      by (cases status)
         (auto simp: auth_state_ok_def justified_def VERIFY_ATTEMPTS_def looked_0 intro!: exI [of _ "ae_sleep A AWAIT_POLL w1"])
  qed
next
  case (VerifyNames n)
  then have n: "n < VERIFY_ATTEMPTS" "restarted \<longrightarrow> respawned A config w \<and> looked A config w False 5" "authorised A config w"
      "looked A config w restarted n"
    using ok by (simp_all add: auth_state_ok_def)
  obtain r w3 where names: "names_visible A w1 = (r, w3)" by fastforce
  have look: "looked A config w restarted (Suc n)" if "r \<noteq> Inr True"
    using looked_again [OF n(4)] reach VerifyNames names that by simp
  consider (stuck) "r = Inl NoAnswer" | (seen) "r = Inr True"
    | (again) "r \<noteq> Inl NoAnswer" "r \<noteq> Inr True" "n + 1 < VERIFY_ATTEMPTS"
    | (restart) "r \<noteq> Inl NoAnswer" "r \<noteq> Inr True" "\<not> n + 1 < VERIFY_ATTEMPTS" "\<not> restarted"
    | (final) "r \<noteq> Inl NoAnswer" "r \<noteq> Inr True" "\<not> n + 1 < VERIFY_ATTEMPTS" restarted by blast
  then show ?thesis
  proof cases
    case seen
    then have "step' = Done (OutGranted True)" "names_visible A w1 = (Inr True, w2)" using round VerifyNames names by auto
    moreover have "auth_reaches A config w (VerifyNames n, restarted, w1)" using reach VerifyNames by simp
    ultimately show ?thesis using n(3) by (simp add: auth_state_ok_def justified_def) blast
  next
    case final
    then obtain status where status: "probe_picked A config w3 = (Inr status, w2)"
        "step' = (if status = Authorized then Done (OutGranted False)
          else if status = Denied \<or> status = Restricted then Done OutDenied else Done OutTimedOut)"
      using round VerifyNames names by (auto simp: andthen_eq_Inr)
    have "n = 4" using n(1) final(3) by (simp add: VERIFY_ATTEMPTS_def)
    then have "nameless A config w status w2"
      using n(2,3) look [OF final(2)] reach VerifyNames names final(2,4) status(1) by (auto simp: nameless_def)
    then show ?thesis using status by (cases status) (auto simp: auth_state_ok_def justified_def intro!: exI [of _ w3])
  next
    case restart
    have "n = 4" using n(1) restart(3) by (simp add: VERIFY_ATTEMPTS_def)
    then show ?thesis using round VerifyNames names n look [OF restart(2)] restart by (auto simp: auth_state_ok_def)
  next
    case again
    then show ?thesis using round VerifyNames names n look [OF again(2)] by (auto simp: auth_state_ok_def)
  qed (use round VerifyNames names in simp)
next
  case RestartRpc
  then have b: "\<not> restarted" "authorised A config w" "looked A config w False 5" using ok by (simp_all add: auth_state_ok_def)
  obtain r w3 where r: "ae_respawn A (bc_imsg_path config) w1 = (r, w3)" by fastforce
  show ?thesis
  proof (cases r)
    case (Inl e)
    then show ?thesis using round reach RestartRpc r b
      by (cases e) (auto simp: auth_state_ok_def justified_def)
  next
    case (Inr u)
    then have "respawned A config w" using reach RestartRpc b(1) r by (auto simp: respawned_def)
    then show ?thesis using round RestartRpc r Inr b(2,3) by (auto simp: auth_state_ok_def VERIFY_ATTEMPTS_def looked_0)
  qed
qed (use live in simp)

lemma auth_reaches_ok: "auth_reaches A config w s \<Longrightarrow> auth_state_ok A config w s"
  unfolding auth_reaches_def
proof (induction rule: rtranclp_induct)
  case base
  then show ?case by (simp add: auth_state_ok_def)
next
  case (step s t)
  obtain s1 b w1 s2 b2 w2 where st: "s = (s1, b, w1)" "t = (s2, b2, w2)" by (metis prod.collapse)
  then show ?case
    using step auth_state_step [of A config w s1 b w1 s2 b2 w2] by (auto simp: auth_reaches_def elim: auth_nextE)
qed

lemma auth_loop_reaches:
  "auth_loop fuel A config deadline step restarted w = Some (r, w') \<Longrightarrow>
     (case r of
        Inr out \<Rightarrow> \<exists>b. (auth_next A config deadline)\<^sup>*\<^sup>* (step, restarted, w) (Done out, b, w')
      | Inl e \<Rightarrow> \<exists>step1 b w1. (auth_next A config deadline)\<^sup>*\<^sup>* (step, restarted, w) (step1, b, w1)
          \<and> auth_round A config deadline step1 b w1 = (Inl e, w'))"
proof (induction fuel arbitrary: step restarted w)
  case 0
  then show ?case by (cases step) auto
next
  case (Suc fuel)
  show ?case
  proof (cases "\<exists>out. step = Done out")
    case live: False
    obtain q w1 where round: "auth_round A config deadline step restarted w = (q, w1)" by fastforce
    show ?thesis
    proof (cases q)
      case (Inl e)
      then have "r = Inl e" "w1 = w'" using Suc.prems live round by (auto simp: auth_loop_unfold)
      have "(auth_next A config deadline)\<^sup>*\<^sup>* (step, restarted, w) (step, restarted, w)" by simp
      then show ?thesis unfolding \<open>r = Inl e\<close> sum.case using round \<open>q = Inl e\<close> \<open>w1 = w'\<close> by blast
    next
      case (Inr sb)
      obtain step1 b1 where sb: "sb = (step1, b1)" by fastforce
      have rest: "auth_loop fuel A config deadline step1 b1 w1 = Some (r, w')"
        using Suc.prems live round Inr sb by (simp add: auth_loop_unfold)
      have first: "auth_next A config deadline (step, restarted, w) (step1, b1, w1)"
        using live round Inr sb by (intro auth_next.round) auto
      show ?thesis
        using Suc.IH [OF rest] converse_rtranclp_into_rtranclp [of "auth_next A config deadline", OF first]
        by (cases r) (simp, blast)+
    qed
  next
    case True
    then obtain out where "step = Done out" by blast
    then show ?thesis using Suc.prems by (auto intro: exI [of _ restarted])
  qed
qed

lemma authorize_inner_justified: "authorize_inner A config w = Some (Inr out, w') \<Longrightarrow> justified A config w out w'"
  using auth_loop_reaches [of AUTH_FUEL A config "ae_now A w + AWAIT_LIMIT" Probe False w "Inr out" w']
    auth_reaches_ok [of A config w]
  by (fastforce simp: authorize_inner_def auth_reaches_def auth_state_ok_def)

text \<open>An attempt waits for ever only in a call, a respawn or the opening of Ghostty that does.\<close>

definition never_answers :: "'w auth_env \<Rightarrow> bool" where
  "never_answers A \<longleftrightarrow> (\<exists>m p w. fst (ae_call A m p w) = Inl NoAnswer) \<or> (\<exists>p w. fst (ae_respawn A p w) = Inl NoAnswer)
     \<or> (\<exists>args w. fst (ae_open A args w) = Inl NoAnswer)"

lemma call_stuck: "ae_call A m p w = (Inl NoAnswer, w') \<Longrightarrow> never_answers A"
  unfolding never_answers_def by (metis fst_conv)

lemma open_stuck: "prompt_via_ghostty A config h w = (Inl None, w') \<Longrightarrow> never_answers A"
  unfolding never_answers_def
  by (auto simp: prompt_via_ghostty_def Let_def split: if_splits prod.splits sum.splits option.splits call_error.splits)
     (metis fst_conv)+

lemma failing_answers: "failing m w \<noteq> (Inl NoAnswer, w')"
  by (auto simp: failing_def split: prod.splits) (metis call_error.distinct(1) map_sum.simps sum.exhaust sum.inject(1) sum.simps(4))

lemma pick_stuck:
  "pick_handle A w = (Inl NoAnswer, w') \<Longrightarrow> never_answers A" "names_visible A w = (Inl NoAnswer, w') \<Longrightarrow> never_answers A"
  "probe_picked A config w = (Inl NoAnswer, w') \<Longrightarrow> never_answers A"
  by (auto simp: pick_handle_def names_visible_def probe_picked_def failing_answers andthen_apply of_result_def ret_def
      dest: call_stuck split: prod.splits sum.splits option.splits call_error.splits)

lemma auth_round_stuck: "auth_round A config d step b w = (Inl NoAnswer, w') \<Longrightarrow> never_answers A"
proof (cases step)
  case RestartRpc
  assume "auth_round A config d step b w = (Inl NoAnswer, w')"
  then have "fst (ae_respawn A (bc_imsg_path config) w) = Inl NoAnswer"
    using RestartRpc by (auto split: prod.splits sum.splits call_error.splits)
  then show ?thesis by (auto simp: never_answers_def)
qed (auto simp: andthen_apply ret_def dest: pick_stuck open_stuck
    split: prod.splits sum.splits option.splits if_splits call_error.splits)

lemma authorize_inner_stuck: "authorize_inner A config w = Some (Inl NoAnswer, w') \<Longrightarrow> never_answers A"
  using auth_loop_reaches [of AUTH_FUEL A config "ae_now A w + AWAIT_LIMIT" Probe False w "Inl NoAnswer" w'] auth_round_stuck
  by (fastforce simp: authorize_inner_def)

end
