(* ===== verification/Imsg_Rpc.thy ===== *)
theory Imsg_Rpc
  imports Proto
begin

text \<open>
  The JSON-RPC client of \<^verbatim>\<open>bridge/src/imsg_rpc.rs\<close>: calls write a request with a fresh id and wait;
  the read loop hands each response to the call that waits for its id and forwards message
  notifications.  Every call has a ticket, the number of calls before it, so that two calls can be
  told apart whatever their ids.  The child process is the source of the lines.
\<close>

section \<open>State\<close>

text \<open>The id counter is global; the pending map has the senders of the calls by id, \<open>rp_answers\<close> the
  responses handed over by ticket, \<open>rp_dropped\<close> the calls whose sender was dropped, \<open>rp_failed\<close> the error of each call
  that could not write its request, and \<open>rp_reading\<close> says whether the read loop runs.\<close>

record rpc =
  rp_req_id :: u64
  rp_calls :: nat
  rp_pending :: "string \<rightharpoonup> nat"
  rp_answers :: "(nat \<times> json) list"
  rp_dropped :: "nat set"
  rp_failed :: "nat \<rightharpoonup> string"
  rp_written :: "json list"
  rp_events :: "json list"
  rp_reading :: bool

text \<open>\<^verbatim>\<open>REQ_ID\<close> starts at 1.\<close>

definition rpc_spawn :: rpc where
  "rpc_spawn = \<lparr> rp_req_id = 1, rp_calls = 0, rp_pending = Map.empty, rp_answers = [], rp_dropped = {},
     rp_failed = Map.empty, rp_written = [], rp_events = [], rp_reading = True \<rparr>"

section \<open>Calls\<close>

definition call_request :: "string \<Rightarrow> string \<Rightarrow> json \<Rightarrow> json" where
  "call_request i method params =
     mk_obj [(''jsonrpc'', JStr ''2.0''), (''id'', JStr i), (''method'', JStr method), (''params'', params)]"

text \<open>\<^verbatim>\<open>call\<close> up to its wait; \<open>failure\<close> is the error of writing or flushing the request.  Inserting under an id that is
  taken drops the sender there.  A call that fails to write returns its error and leaves its sender in the map.\<close>

definition begin_call :: "string \<Rightarrow> json \<Rightarrow> string option \<Rightarrow> rpc \<Rightarrow> rpc" where
  "begin_call method params failure s =
     (let i = show_int (uint (rp_req_id s));
          old = (case rp_pending s i of None \<Rightarrow> {} | Some t \<Rightarrow> {t})
      in s\<lparr> rp_req_id := rp_req_id s + 1, rp_calls := rp_calls s + 1,
            rp_pending := (rp_pending s)(i \<mapsto> rp_calls s),
            rp_dropped := rp_dropped s \<union> old,
            rp_failed := (rp_failed s)(rp_calls s := failure),
            rp_written := if failure = None then rp_written s @ [call_request i method params] else rp_written s \<rparr>)"

text \<open>What a call makes of its response.\<close>

definition call_result :: "(json \<Rightarrow> string) \<Rightarrow> json \<Rightarrow> string + json" where
  "call_result show_json resp =
     (case json_get resp ''error'' of
        Some err \<Rightarrow> Inl (''imsg rpc error: '' @ show_json err)
      | None \<Rightarrow> Inr (unwrap_or (json_get resp ''result'') JNull))"

text \<open>What a call has returned so far.  A response handed over to one that has returned its write error finds nobody.\<close>

definition call_returned :: "(json \<Rightarrow> string) \<Rightarrow> rpc \<Rightarrow> nat \<Rightarrow> (string + json) option" where
  "call_returned show_json s t =
     (case rp_failed s t of
        Some e \<Rightarrow> Some (Inl e)
      | None \<Rightarrow> map_option (call_result show_json) (map_of (rp_answers s) t))"

section \<open>The read loop\<close>

definition deliver :: "string \<Rightarrow> json \<Rightarrow> rpc \<Rightarrow> rpc" where
  "deliver i v s =
     (case rp_pending s i of
        None \<Rightarrow> s
      | Some t \<Rightarrow> s\<lparr> rp_pending := (rp_pending s)(i := None), rp_answers := rp_answers s @ [(t, v)] \<rparr>)"

definition on_value :: "json \<Rightarrow> rpc \<Rightarrow> rpc" where
  "on_value v s =
     (case Option.bind (json_get v ''id'') as_str of
        Some i \<Rightarrow> deliver i v s
      | None \<Rightarrow>
          if Option.bind (json_get v ''method'') as_str = Some ''message''
          then (case Option.bind (json_get v ''params'') (\<lambda>p. json_get p ''message'') of
              Some msg \<Rightarrow> s\<lparr> rp_events := rp_events s @ [msg] \<rparr> | None \<Rightarrow> s)
          else s)"

text \<open>A line that is no JSON ends the loop.\<close>

definition read_line :: "(string \<Rightarrow> json option) \<Rightarrow> string \<Rightarrow> rpc \<Rightarrow> rpc" where
  "read_line parse line0 s =
     (let line = trim line0 in
      if line = [] then s
      else (case parse line of
          None \<Rightarrow> s\<lparr> rp_reading := False \<rparr>
        | Some v \<Rightarrow> on_value v s))"

definition end_of_output :: "rpc \<Rightarrow> rpc" where
  "end_of_output s = s\<lparr> rp_reading := False \<rparr>"

section \<open>Respawning\<close>

definition respawned_reply :: json where
  "respawned_reply = mk_obj [(''error'', mk_obj [(''message'', JStr ''imsg rpc respawned'')])]"

text \<open>The child is killed and the waiting calls are answered with an error, in some order.  Then it is
  launched anew, which may fail; a launched one has a read loop of its own.\<close>

definition respawn_drain :: "nat list \<Rightarrow> rpc \<Rightarrow> rpc" where
  "respawn_drain order s =
     s\<lparr> rp_pending := Map.empty, rp_answers := rp_answers s @ map (\<lambda>t. (t, respawned_reply)) order \<rparr>"

definition respawn_launch :: "bool \<Rightarrow> rpc \<Rightarrow> rpc" where
  "respawn_launch launched s = (if launched then s\<lparr> rp_reading := True \<rparr> else s)"

text \<open>\<^verbatim>\<open>ensure_watch\<close>: up to six calls, with a pause after each failure.  The calls are a parameter.\<close>

fun ensure_watch :: "nat \<Rightarrow> ('w, string, json) act \<Rightarrow> ('w \<Rightarrow> 'w) \<Rightarrow> string option \<Rightarrow> ('w, string, unit) act" where
  "ensure_watch 0 call pause last_err w =
     (Inl (unwrap_or last_err ''watch.subscribe failed''), w)"
| "ensure_watch (Suc n) call pause last_err w =
     (case call w of
        (Inr _, w1) \<Rightarrow> (Inr (), w1)
      | (Inl e, w1) \<Rightarrow> ensure_watch n call pause (Some e) (pause w1))"

section \<open>Method names\<close>

definition bridge_method_to_imsg :: "string \<Rightarrow> string option" where
  "bridge_method_to_imsg method =
     (if method \<in> {''status'', ''chats.list'', ''messages.history'', ''messages.after'', ''messages.search'',
          ''handles.check'', ''send''}
      then Some method else None)"

definition envelope_error :: "string \<Rightarrow> string \<Rightarrow> string \<Rightarrow> envelope" where
  "envelope_error i code message = Res i False None (Some \<lparr> e_code = code, e_message = message \<rparr>)"

definition envelope_ok :: "string \<Rightarrow> json \<Rightarrow> envelope" where
  "envelope_ok i result = Res i True (Some result) None"

section \<open>Runs\<close>

inductive rpc_step :: "(string \<Rightarrow> json option) \<Rightarrow> rpc \<Rightarrow> rpc \<Rightarrow> bool"
  for parse :: "string \<Rightarrow> json option" where
  calls: "rpc_step parse s (begin_call method params failure s)"
| reads_line: "rp_reading s \<Longrightarrow> rpc_step parse s (read_line parse line s)"
| output_ends: "rp_reading s \<Longrightarrow> rpc_step parse s (end_of_output s)"
| drains: "distinct order \<Longrightarrow> set order = ran (rp_pending s) \<Longrightarrow> rpc_step parse s (respawn_drain order s)"
| launches: "rpc_step parse s (respawn_launch launched s)"

inductive rpc_reachable :: "(string \<Rightarrow> json option) \<Rightarrow> rpc \<Rightarrow> bool"
  for parse :: "string \<Rightarrow> json option" where
  rpc_spawned: "rpc_reachable parse rpc_spawn"
| rpc_stepped: "rpc_reachable parse s \<Longrightarrow> rpc_step parse s s' \<Longrightarrow> rpc_reachable parse s'"

section \<open>The invariant\<close>

definition call_id :: "nat \<Rightarrow> string" where
  "call_id t = show_int (uint (of_nat (t + 1) :: u64))"

text \<open>Waiting calls are known by their own ids; every call waits or has been answered, once; an answer
  carries the id of its call or is the one of a respawn.\<close>

definition rpc_inv :: "rpc \<Rightarrow> bool" where
  "rpc_inv s \<longleftrightarrow>
     rp_req_id s = of_nat (rp_calls s + 1)
     \<and> (\<forall>i t. rp_pending s i = Some t \<longrightarrow> i = call_id t)
     \<and> rp_dropped s = {} \<and> distinct (map fst (rp_answers s))
     \<and> ran (rp_pending s) \<inter> fst ` set (rp_answers s) = {}
     \<and> ran (rp_pending s) \<union> fst ` set (rp_answers s) = {..<rp_calls s}
     \<and> (\<forall>(t, v)\<in>set (rp_answers s). v = respawned_reply \<or> json_get v ''id'' = Some (JStr (call_id t)))"

lemma show_int_inject: "0 \<le> m \<Longrightarrow> 0 \<le> n \<Longrightarrow> show_int m = show_int n \<longleftrightarrow> m = n"
  using digits_value_show_digits by (metis show_int_def not_le)

lemma call_id_inject:
  assumes "t + 1 < 2 ^ 64" "u + 1 < 2 ^ 64"
  shows "call_id t = call_id u \<longleftrightarrow> t = u"
proof -
  have "uint (of_nat (n + 1) :: u64) = int (n + 1)" if "n + 1 < 2 ^ 64" for n
    using that by (simp add: uint_nat unat_of_nat del: of_nat_Suc of_nat_add)
  then show ?thesis using assms by (simp add: call_id_def show_int_inject del: of_nat_Suc of_nat_add)
qed

lemma spawn_inv: "rpc_inv rpc_spawn"
  by (simp add: rpc_inv_def rpc_spawn_def)

lemma rpc_invD:
  assumes "rpc_inv s"
  shows "rp_req_id s = of_nat (rp_calls s + 1)" "\<And>i t. rp_pending s i = Some t \<Longrightarrow> i = call_id t"
    "rp_dropped s = {}" "distinct (map fst (rp_answers s))"
    "ran (rp_pending s) \<inter> fst ` set (rp_answers s) = {}"
    "ran (rp_pending s) \<union> fst ` set (rp_answers s) = {..<rp_calls s}"
    "\<And>t v. (t, v) \<in> set (rp_answers s) \<Longrightarrow> v = respawned_reply \<or> json_get v ''id'' = Some (JStr (call_id t))"
  using assms unfolding rpc_inv_def by blast+

lemma rpc_invI:
  assumes "rp_req_id s = of_nat (rp_calls s + 1)" "\<And>i t. rp_pending s i = Some t \<Longrightarrow> i = call_id t"
    "rp_dropped s = {}" "distinct (map fst (rp_answers s))"
    "ran (rp_pending s) \<inter> fst ` set (rp_answers s) = {}"
    "ran (rp_pending s) \<union> fst ` set (rp_answers s) = {..<rp_calls s}"
    "\<And>t v. (t, v) \<in> set (rp_answers s) \<Longrightarrow> v = respawned_reply \<or> json_get v ''id'' = Some (JStr (call_id t))"
  shows "rpc_inv s"
  using assms unfolding rpc_inv_def by blast

lemma call_id_free:
  assumes "rpc_inv s" "rp_calls s + 2 < 2 ^ 64"
  shows "rp_pending s (call_id (rp_calls s)) = None"
proof (cases "rp_pending s (call_id (rp_calls s))")
  case (Some t)
  have "t \<in> {..<rp_calls s}" using ranI [of "rp_pending s", OF Some] rpc_invD(6) [OF assms(1)] by blast
  moreover have "call_id (rp_calls s) = call_id t" using rpc_invD(2) [OF assms(1) Some] .
  ultimately show ?thesis using call_id_inject [of "rp_calls s" t] assms(2) by simp
qed simp

lemma begin_call_inv:
  assumes "rpc_inv s" "rp_calls s + 2 < 2 ^ 64"
  shows "rpc_inv (begin_call method params failure s)"
proof -
  note inv = rpc_invD [OF assms(1)] and free = call_id_free [OF assms]
  let ?n = "rp_calls s" and ?s = "begin_call method params failure s"
  have i: "show_int (uint (rp_req_id s)) = call_id ?n" using inv(1) by (simp add: call_id_def)
  have step: "rp_req_id ?s = rp_req_id s + 1" "rp_calls ?s = Suc ?n"
      "rp_pending ?s = (rp_pending s)(call_id ?n \<mapsto> ?n)" "rp_dropped ?s = rp_dropped s" "rp_answers ?s = rp_answers s"
    using free i by (simp_all add: begin_call_def Let_def)
  have ran: "ran (rp_pending ?s) = insert ?n (ran (rp_pending s))" using free step(3) by simp
  have fresh: "?n \<notin> fst ` set (rp_answers s)" using inv(6) by blast
  show ?thesis
  proof (rule rpc_invI)
    show "rp_req_id ?s = of_nat (rp_calls ?s + 1)" using inv(1) step by simp
    show "j = call_id t" if "rp_pending ?s j = Some t" for j t
      using that inv(2) [of j t] step(3) by (cases "j = call_id ?n") auto
    show "ran (rp_pending ?s) \<union> fst ` set (rp_answers ?s) = {..<rp_calls ?s}"
      using inv(6) ran step by (simp add: lessThan_Suc)
    show "ran (rp_pending ?s) \<inter> fst ` set (rp_answers ?s) = {}" using inv(5) fresh ran step by simp
    show "w = respawned_reply \<or> json_get w ''id'' = Some (JStr (call_id u))" if "(u, w) \<in> set (rp_answers ?s)" for u w
      using inv(7) [of u w] that unfolding step(5) by blast
    show "rp_dropped ?s = {}" unfolding step(4) by (rule inv(3))
    show "distinct (map fst (rp_answers ?s))" unfolding step(5) by (rule inv(4))
  qed
qed

lemma deliver_inv:
  assumes "rpc_inv s" "json_get v ''id'' = Some (JStr i)"
  shows "rpc_inv (deliver i v s)"
proof (cases "rp_pending s i")
  case (Some t)
  note inv = rpc_invD [OF assms(1)]
  let ?s = "deliver i v s"
  have step: "rp_req_id ?s = rp_req_id s" "rp_calls ?s = rp_calls s" "rp_pending ?s = (rp_pending s)(i := None)"
      "rp_dropped ?s = rp_dropped s" "rp_answers ?s = rp_answers s @ [(t, v)]"
    using Some by (simp_all add: deliver_def)
  have i: "i = call_id t" using inv(2) [OF Some] .
  have t: "t \<in> ran (rp_pending s)" using Some by (rule ranI)
  have ran: "ran (rp_pending ?s) = ran (rp_pending s) - {t}"
  proof (intro set_eqI iffI)
    fix u assume "u \<in> ran (rp_pending ?s)"
    then obtain j where "j \<noteq> i" "rp_pending s j = Some u" using step(3) by (auto simp: ran_def split: if_splits)
    then show "u \<in> ran (rp_pending s) - {t}" using inv(2) [of j t] i ranI [of "rp_pending s" j u] by auto
  next
    fix u assume "u \<in> ran (rp_pending s) - {t}"
    then obtain j where "rp_pending s j = Some u" "u \<noteq> t" by (auto simp: ran_def)
    then have "rp_pending ?s j = Some u" using Some step(3) by auto
    then show "u \<in> ran (rp_pending ?s)" by (rule ranI)
  qed
  have waits: "t \<notin> fst ` set (rp_answers s)" using t inv(5) by blast
  show ?thesis
  proof (rule rpc_invI)
    show "j = call_id u" if "rp_pending ?s j = Some u" for j u
      using that inv(2) [of j u] step(3) by (cases "j = i") auto
    show "distinct (map fst (rp_answers ?s))" using inv(4) waits step(5) by simp
    show "ran (rp_pending ?s) \<inter> fst ` set (rp_answers ?s) = {}" using inv(5) ran step(5) by auto
    have "ran (rp_pending ?s) \<union> fst ` set (rp_answers ?s) = ran (rp_pending s) \<union> fst ` set (rp_answers s)"
      using t ran step(5) by auto
    then show "ran (rp_pending ?s) \<union> fst ` set (rp_answers ?s) = {..<rp_calls ?s}" using inv(6) step(2) by simp
    show "w = respawned_reply \<or> json_get w ''id'' = Some (JStr (call_id u))" if "(u, w) \<in> set (rp_answers ?s)" for u w
      using that inv(7) [of u w] assms(2) i step(5) by auto
  qed (use inv(1,3) step in simp_all)
qed (use assms in \<open>simp add: deliver_def\<close>)

lemma read_line_inv: "rpc_inv s \<Longrightarrow> rpc_inv (read_line parse line s)"
proof -
  assume inv: "rpc_inv s"
  have "rpc_inv (on_value v s)" for v
  proof (cases "Option.bind (json_get v ''id'') as_str")
    case (Some i)
    then have "json_get v ''id'' = Some (JStr i)" by (auto simp: bind_eq_Some_conv elim: as_str.elims)
    then show ?thesis using deliver_inv [OF inv] Some by (simp add: on_value_def)
  next
    case None
    then show ?thesis using inv by (auto simp: on_value_def rpc_inv_def split: option.splits)
  qed
  then show ?thesis using inv by (auto simp: read_line_def Let_def rpc_inv_def [of "s\<lparr>rp_reading := False\<rparr>"]
        rpc_inv_def [of s] split: option.splits)
qed

lemma drain_inv:
  assumes "rpc_inv s" "distinct order" "set order = ran (rp_pending s)"
  shows "rpc_inv (respawn_drain order s)"
proof -
  note inv = rpc_invD [OF assms(1)]
  let ?s = "respawn_drain order s"
  have step: "rp_req_id ?s = rp_req_id s" "rp_calls ?s = rp_calls s" "rp_pending ?s = Map.empty"
      "rp_dropped ?s = rp_dropped s" "map fst (rp_answers ?s) = map fst (rp_answers s) @ order"
    by (simp_all add: respawn_drain_def comp_def)
  have fsts: "fst ` set (rp_answers ?s) = fst ` set (rp_answers s) \<union> ran (rp_pending s)"
    using arg_cong [OF step(5), of set] assms(3) by simp
  show ?thesis
  proof (rule rpc_invI)
    show "distinct (map fst (rp_answers ?s))" using inv(4,5) assms(2,3) step(5) by auto
    show "ran (rp_pending ?s) \<union> fst ` set (rp_answers ?s) = {..<rp_calls ?s}" using inv(6) fsts step by auto
    show "w = respawned_reply \<or> json_get w ''id'' = Some (JStr (call_id u))" if "(u, w) \<in> set (rp_answers ?s)" for u w
      using that inv(7) [of u w] by (auto simp: respawn_drain_def)
  qed (use inv(1,3) step in simp_all)
qed

lemma reading_inv: "rpc_inv s \<Longrightarrow> rpc_inv (s\<lparr>rp_reading := b\<rparr>)"
  by (simp add: rpc_inv_def)

lemma rpc_calls_mono: "rpc_step parse s s' \<Longrightarrow> rp_calls s \<le> rp_calls s'"
  by (induction rule: rpc_step.induct)
     (auto simp: begin_call_def read_line_def end_of_output_def respawn_drain_def respawn_launch_def on_value_def
       deliver_def Let_def split: option.splits)

lemma rpc_step_inv:
  assumes "rpc_step parse s s'" "rpc_inv s" "rp_calls s' + 1 < 2 ^ 64"
  shows "rpc_inv s'"
  using assms(1)
proof (cases rule: rpc_step.cases)
  case (calls m p failure)
  then show ?thesis using begin_call_inv [OF assms(2)] assms(3) by (simp add: begin_call_def Let_def)
qed (use assms(2) in \<open>auto simp: end_of_output_def respawn_launch_def intro: read_line_inv drain_inv reading_inv\<close>)

lemma rpc_reachable_inv: "rpc_reachable parse s \<Longrightarrow> rp_calls s + 1 < 2 ^ 64 \<Longrightarrow> rpc_inv s"
proof (induction rule: rpc_reachable.induct)
  case rpc_spawned
  show ?case by (rule spawn_inv)
next
  case (rpc_stepped s s')
  then show ?case using rpc_calls_mono [OF rpc_stepped.hyps(2)] rpc_step_inv by simp
qed

end
