(* ===== verification/Bridge_Server.thy ===== *)
theory Bridge_Server
  imports Contacts_Auth Imsg_Rpc
begin

text \<open>
  The websocket server of the Mac bridge, \<^verbatim>\<open>bridge/src/server.rs\<close>: which requests reach imsg, the
  authorisation of Contacts behind its gate, and what a socket is sent.  The world is the one of
  \<open>Contacts_Auth\<close>; a call over imsg's RPC is \<open>ae_call\<close> of it.
\<close>

record 'w app_state =
  as_config :: bridge_config
  as_db_generation :: string
  as_events :: "envelope list"
  as_contacts :: contacts_state
  as_gate :: bool
  as_world :: 'w

text \<open>Sent so far on the broadcast channel, oldest first; the gate is held by another attempt or not.\<close>

definition contacts_event :: "contacts_state \<Rightarrow> envelope" where
  "contacts_event c = Event ''contacts'' (mk_obj [(''state'', JStr (contacts_state_label c))])"

definition store_and_publish_contacts :: "contacts_state \<Rightarrow> 'w app_state \<Rightarrow> 'w app_state" where
  "store_and_publish_contacts c s =
     s\<lparr> as_contacts := c, as_events := as_events s @ [contacts_event c] \<rparr>"

text \<open>\<^verbatim>\<open>initial_contacts_state\<close>, the state a bridge starts with; \<^verbatim>\<open>None\<close> when a call waits for ever.\<close>

definition initial_contacts_state :: "'w auth_env \<Rightarrow> bridge_config \<Rightarrow> 'w \<Rightarrow> (contacts_state \<times> 'w) option" where
  "initial_contacts_state A config w =
     (case ae_call A ''chats.list'' (chats_limit 1) w of
        (r, w1) \<Rightarrow>
          if r = Inl NoAnswer then None
          else (case probe_with_handle A config (case r of Inl _ \<Rightarrow> None | Inr v \<Rightarrow> first_handle v) w1 of
             (Inl _, w2) \<Rightarrow> Some (Unavailable, w2)
           | (Inr status, w2) \<Rightarrow>
               (case names_visible A w2 of
                  (names, w3) \<Rightarrow>
                    if names = Inl NoAnswer then None else Some (as_wire status (names = Inr True), w3))))"

text \<open>\<open>timer\<close>: whether the 110 seconds run out first, and the world then.\<close>

definition handle_contacts_authorize ::
  "'w auth_env \<Rightarrow> 'w option \<Rightarrow> string \<Rightarrow> 'w app_state \<Rightarrow> (envelope \<times> 'w app_state) option" where
  "handle_contacts_authorize A timer i s =
     (if as_gate s then Some (envelope_ok i busy_gate_reply, s)
      else
        let s1 = store_and_publish_contacts Prompting (s\<lparr>as_gate := True\<rparr>) in
        map_option (\<lambda>(r, w).
          let out = (case r of Inr out \<Rightarrow> out | Inl e \<Rightarrow> OutHelperMissing e);
              s2 = store_and_publish_contacts (as_state out) (s1\<lparr>as_world := w\<rparr>)
          in (envelope_ok i (outcome_to_json out), s2\<lparr>as_gate := False\<rparr>))
        (authorize A (as_config s) timer (as_world s1)))"

definition str_param :: "json \<Rightarrow> string \<Rightarrow> string" where
  "str_param params k = unwrap_or (Option.bind (json_get params k) as_str) []"

definition fetch_attachment_token ::
  "(byte list \<Rightarrow> byte list \<Rightarrow> string) \<Rightarrow> bridge_config \<Rightarrow> json \<Rightarrow> json" where
  "fetch_attachment_token hmac config params =
     mk_obj [(''token'', JStr (token_for hmac (str_param params ''chat_guid'') (str_param params ''message_guid'')
        (str_param params ''filename'') (utf8 (bc_data_dir config)))),
      (''expires_in'', JNum (NPos 300))]"

text \<open>A request to imsg; \<^verbatim>\<open>None\<close> when the call waits for ever.\<close>

definition forward :: "'w auth_env \<Rightarrow> string \<Rightarrow> string \<Rightarrow> json \<Rightarrow> 'w app_state \<Rightarrow> (envelope \<times> 'w app_state) option" where
  "forward A i imsg_method params s =
     (case ae_call A imsg_method params (as_world s) of
        (Inr result, w) \<Rightarrow> Some (envelope_ok i result, s\<lparr>as_world := w\<rparr>)
      | (Inl (CallError e), w) \<Rightarrow> Some (envelope_error i ''upstream_error'' e, s\<lparr>as_world := w\<rparr>)
      | (Inl NoAnswer, _) \<Rightarrow> None)"

text \<open>The reply to an envelope, when there is one; \<^verbatim>\<open>None\<close> when its handler waits for ever.\<close>

definition handle_request ::
  "'w auth_env \<Rightarrow> (byte list \<Rightarrow> byte list \<Rightarrow> string) \<Rightarrow> 'w option \<Rightarrow> string \<Rightarrow> string \<Rightarrow> json \<Rightarrow> 'w app_state \<Rightarrow>
     (envelope \<times> 'w app_state) option" where
  "handle_request A hmac timer i method params s =
     (if method = ''contacts.status''
      then Some (envelope_ok i (mk_obj [(''state'', JStr (contacts_state_label (as_contacts s)))]), s)
      else if method = ''contacts.authorize'' then handle_contacts_authorize A timer i s
      else if \<not> method_allowed method \<and> \<not> bc_enable_send (as_config s)
      then Some (envelope_error i ''forbidden'' (''method not allowed: '' @ method), s)
      else if method = ''watch.ack'' then Some (envelope_ok i (mk_obj [(''ok'', JBool True)]), s)
      else if method = ''attachments.fetch''
      then Some (envelope_ok i (fetch_attachment_token hmac (as_config s) params), s)
      else (case bridge_method_to_imsg method of
          Some imsg_method \<Rightarrow> forward A i imsg_method params s
        | None \<Rightarrow> Some (envelope_error i ''unknown_method'' (''unknown: '' @ method), s)))"

definition handle_envelope ::
  "'w auth_env \<Rightarrow> (byte list \<Rightarrow> byte list \<Rightarrow> string) \<Rightarrow> 'w option \<Rightarrow> envelope \<Rightarrow> 'w app_state \<Rightarrow>
     (envelope option \<times> 'w app_state) option" where
  "handle_envelope A hmac timer env s =
     (case env of
        Ping \<Rightarrow> Some (Some Pong, s)
      | Req i method params \<Rightarrow>
          map_option (\<lambda>(reply, s'). (Some reply, s')) (handle_request A hmac timer i method params s)
      | _ \<Rightarrow> Some (None, s))"

section \<open>A socket\<close>

text \<open>\<open>now_text\<close> is the time of the connection.  The first two lines, and a line per event.\<close>

definition socket_greeting :: "string \<Rightarrow> 'w app_state \<Rightarrow> envelope list" where
  "socket_greeting now_text s =
     [Event ''db.generation'' (mk_obj [(''generation'', JStr (as_db_generation s)), (''at'', JStr now_text)]),
      contacts_event (as_contacts s)]"

datatype socket_event =
    Text string
  | SocketPing "byte list"
  | OtherFrame
  | SocketClosed
  | Broadcast envelope
  | BroadcastLost

datatype frame = Line envelope | SocketPong "byte list"

text \<open>One turn of the socket: the frames sent, whether it goes on, and the state.\<close>

definition socket_turn ::
  "'w auth_env \<Rightarrow> (byte list \<Rightarrow> byte list \<Rightarrow> string) \<Rightarrow> 'w option \<Rightarrow> socket_event \<Rightarrow> 'w app_state \<Rightarrow>
     (frame list \<times> bool \<times> 'w app_state) option" where
  "socket_turn A hmac timer ev s =
     (case ev of
        Text line \<Rightarrow>
          (case Option.bind (ae_parse A line) envelope_of_json of
             None \<Rightarrow> Some ([], True, s)
           | Some env \<Rightarrow>
               map_option (\<lambda>(reply, s'). (case reply of None \<Rightarrow> [] | Some r \<Rightarrow> [Line r], True, s'))
                 (handle_envelope A hmac timer env s))
      | SocketPing p \<Rightarrow> Some ([SocketPong p], True, s)
      | OtherFrame \<Rightarrow> Some ([], True, s)
      | SocketClosed \<Rightarrow> Some ([], False, s)
      | Broadcast env \<Rightarrow> Some ([Line env], True, s)
      | BroadcastLost \<Rightarrow> Some ([], True, s))"

text \<open>\<^verbatim>\<open>spawn_watch_forwarder\<close>: messages become events until the channel reports an error; one that
  reports a lag ends it too.\<close>

fun forward_watch :: "json option list \<Rightarrow> envelope list" where
  "forward_watch [] = []"
| "forward_watch (None # rest) = []"
| "forward_watch (Some msg # rest) = Event ''message'' msg # forward_watch rest"

text \<open>Before that it asks for the subscription until it has it: six calls, a longer pause, and again.\<close>

partial_function (option) watch_ready ::
  "('w, string, json) act \<Rightarrow> ('w \<Rightarrow> 'w) \<Rightarrow> ('w \<Rightarrow> 'w) \<Rightarrow> 'w \<Rightarrow> 'w option" where
  "watch_ready call pause long_pause w =
     (case ensure_watch 6 call pause None w of
        (Inr _, w1) \<Rightarrow> Some w1
      | (Inl _, w1) \<Rightarrow> watch_ready call pause long_pause (long_pause w1))"

text \<open>The forwarder starts exactly when one of these rounds succeeds.\<close>

definition watch_round :: "('w, string, json) act \<Rightarrow> ('w \<Rightarrow> 'w) \<Rightarrow> ('w \<Rightarrow> 'w) \<Rightarrow> 'w \<Rightarrow> 'w" where
  "watch_round call pause long_pause w = long_pause (snd (ensure_watch 6 call pause None w))"

lemma watch_ready_round:
  "watch_ready call pause long_pause w =
     (if fst (ensure_watch 6 call pause None w) = Inr () then Some (snd (ensure_watch 6 call pause None w))
      else watch_ready call pause long_pause (watch_round call pause long_pause w))"
  by (subst watch_ready.simps) (auto simp: watch_round_def split: prod.splits sum.splits)

lemma watch_ready_iff:
  "watch_ready call pause long_pause w \<noteq> None \<longleftrightarrow>
     (\<exists>n. fst (ensure_watch 6 call pause None ((watch_round call pause long_pause ^^ n) w)) = Inr ())"
proof
  assume "watch_ready call pause long_pause w \<noteq> None"
  then obtain w' where "watch_ready call pause long_pause w = Some w'" by blast
  then show "\<exists>n. fst (ensure_watch 6 call pause None ((watch_round call pause long_pause ^^ n) w)) = Inr ()"
  proof (induction rule: watch_ready.raw_induct [rotated, consumes 1])
    case (1 ready call pause long_pause w w')
    show ?case
    proof (cases "ensure_watch 6 call pause None w")
      case (Pair r w1)
      then show ?thesis
      proof (cases r)
        case (Inl e)
        then have "ready call pause long_pause (long_pause w1) = Some w'" using 1(2) Pair by simp
        from 1(1) [OF this] obtain n where
          "fst (ensure_watch 6 call pause None ((watch_round call pause long_pause ^^ n) (long_pause w1))) = Inr ()" by blast
        moreover have "watch_round call pause long_pause w = long_pause w1" using Pair by (simp add: watch_round_def)
        ultimately show ?thesis
          by (intro exI [of _ "Suc n"]) (simp only: funpow_Suc_right o_apply)
      next
        case (Inr u)
        then show ?thesis using Pair by (intro exI [of _ 0]) simp
      qed
    qed
  qed
next
  assume "\<exists>n. fst (ensure_watch 6 call pause None ((watch_round call pause long_pause ^^ n) w)) = Inr ()"
  then obtain n where "fst (ensure_watch 6 call pause None ((watch_round call pause long_pause ^^ n) w)) = Inr ()" ..
  then show "watch_ready call pause long_pause w \<noteq> None"
  proof (induction n arbitrary: w)
    case (Suc n)
    then show ?case by (subst watch_ready_round) (simp add: funpow_swap1)
  qed (subst watch_ready_round, simp)
qed

end
