(* ===== verification/Bridge_Server_Contract.thy ===== *)
theory Bridge_Server_Contract
  imports Bridge_Server
begin

text \<open>
  What the bridge promises: an authorisation of Contacts ends and says only what it saw, nothing is
  sent without permission, and a call of imsg is answered at most once, by the response with its id.
\<close>

section \<open>Authorising Contacts\<close>

lemma enough_fuel: "rounds_left (now + AWAIT_LIMIT) now Probe False \<le> AUTH_FUEL"
  by (simp add: rounds_left_def polls_left_def AWAIT_LIMIT_def AWAIT_POLL_def AUTH_FUEL_def)

lemma authorize_inner_returns: "clock_ok A \<Longrightarrow> authorize_inner A config w \<noteq> None"
  unfolding authorize_inner_def using enough_fuel by (intro auth_loop_returns) (auto simp: step_ok_def)

lemma authorize_granted:
  assumes "authorize A config timer w = Some (Inr (OutGranted True), w')"
  shows "authorize_inner A config w = Some (Inr (OutGranted True), w')"
proof -
  obtain r where r: "authorize_inner A config w = Some (r, w')"
      "(case r of Inl NoAnswer \<Rightarrow> Inr OutTimedOut | Inl (CallError e) \<Rightarrow> Inl e | Inr out \<Rightarrow> Inr out) = Inr (OutGranted True)"
    using assms by (auto simp: authorize_def split: option.splits)
  then have "r = Inr (OutGranted True)" by (cases r) (simp_all split: call_error.splits)
  then show ?thesis using r(1) by simp
qed

text \<open>A Mac whose Contacts are already granted, with one named chat; the world is the time.\<close>

definition demo_mac :: "int auth_env" where
  "demo_mac = \<lparr> ae_host = \<lparr> ho_is_file = (\<lambda>_. True), ho_exists = (\<lambda>_. True), ho_path = None \<rparr>,
     ae_parse = (\<lambda>_. Some (mk_obj [(''status'', JStr ''authorized'')])),
     ae_call = (\<lambda>_ _ w. (Inr (mk_obj [(''chats'', JArr [mk_obj [(''contact_name'', JStr ''Ann'')]])]), w + 1)),
     ae_swift = (\<lambda>w. (Inr (''{}'', []), w + 1)), ae_nickname = (\<lambda>_ _ w. (Inl ''no'', w + 1)),
     ae_open = (\<lambda>_ w. (Inr None, w + 1)), ae_respawn = (\<lambda>_ w. (Inr (), w + 1)),
     ae_now = (\<lambda>w. w), ae_sleep = (\<lambda>d w. w + d) \<rparr>"

lemma demo_clock: "clock_ok demo_mac"
  by (simp add: clock_ok_def demo_mac_def)

text \<open>The same Mac with a child that never answers.\<close>

definition silent_mac :: "int auth_env" where
  "silent_mac = demo_mac\<lparr>ae_call := \<lambda>_ _ w. (Inl NoAnswer, w)\<rparr>"

lemma silent_clock: "clock_ok silent_mac"
  by (simp add: clock_ok_def silent_mac_def demo_mac_def)


text \<open>C20: an attempt to authorise Contacts ends.  As long as the clock does not go back and a pause passes
  its time, the state machine itself is done after at most 140 rounds, whatever the probes, the child and the
  user answer; it waits for ever only inside a call of imsg, a respawn or an opening of Ghostty that does,
  and then the timer of 110 seconds ends the attempt, as timed out.\<close>

theorem contacts_attempt_ends:
  assumes "clock_ok A"
  shows "(\<exists>r w'. authorize A config timer w = Some (r, w'))
       \<and> (\<exists>r w'. auth_loop 140 A config (ae_now A w + AWAIT_LIMIT) Probe False w = Some (r, w')
            \<and> authorize_inner A config w = Some (r, w')
            \<and> (r = Inl NoAnswer \<longrightarrow> authorize A config None w = Some (Inr OutTimedOut, w')
                 \<and> ((\<exists>m p w. fst (ae_call A m p w) = Inl NoAnswer) \<or> (\<exists>p w. fst (ae_respawn A p w) = Inl NoAnswer)
                    \<or> (\<exists>args w. fst (ae_open A args w) = Inl NoAnswer))))"
proof -
  obtain r w' where run: "authorize_inner A config w = Some (r, w')" using authorize_inner_returns [OF assms] by fastforce
  then have "\<exists>r w'. authorize A config timer w = Some (r, w')" by (cases timer) (auto simp: authorize_def)
  moreover have "never_answers A" "authorize A config None w = Some (Inr OutTimedOut, w')" if "r = Inl NoAnswer"
    using run authorize_inner_stuck that by (auto simp: authorize_def)
  ultimately show ?thesis using run by (auto simp: never_answers_def authorize_inner_def AUTH_FUEL_def)
qed

theorem contacts_attempt_ends_witness:
  "\<exists>r w'. authorize silent_mac (default_config None) None 0 = Some (r, w')"
  using contacts_attempt_ends [OF silent_clock] by blast



text \<open>a request to authorise Contacts while no attempt runs is always answered with its outcome; clients
  see \<^verbatim>\<open>prompting\<close> and then the final state, which is granted only when names were just seen, and
  the gate is free again.  While an attempt runs, another request is answered at once and changes
  nothing.\<close>

theorem authorize_announces_outcome:
  assumes "clock_ok A"
  shows "if as_gate s then handle_contacts_authorize A timer i s = Some (envelope_ok i busy_gate_reply, s)
     else \<exists>out s'. handle_contacts_authorize A timer i s = Some (envelope_ok i (outcome_to_json out), s')
       \<and> \<not> as_gate s' \<and> as_contacts s' = as_state out \<and> as_config s' = as_config s
       \<and> as_events s' = as_events s @ [contacts_event Prompting, contacts_event (as_state out)]
       \<and> (as_contacts s' = Granted \<longrightarrow> (\<exists>w0. names_visible A w0 = (Inr True, as_world s')))"
proof (cases "as_gate s")
  case False
  obtain r w where run: "authorize A (as_config s) timer (as_world s) = Some (r, w)"
    using authorize_inner_returns [OF assms] by (cases timer) (fastforce simp: authorize_def)+
  let ?out = "case r of Inr out \<Rightarrow> out | Inl e \<Rightarrow> OutHelperMissing e"
  have "\<exists>w0. names_visible A w0 = (Inr True, w)" if "as_state ?out = Granted"
  proof -
    have out: "r = Inr (OutGranted True)"
      using that by (cases r) (auto simp: as_state_def split: contacts_outcome.splits bool.splits)
    then have "authorize_inner A (as_config s) (as_world s) = Some (Inr (OutGranted True), w)"
      using authorize_granted run by simp
    from authorize_inner_justified [OF this] show ?thesis by (auto simp: justified_def)
  qed
  then show ?thesis using False run
    by (simp add: handle_contacts_authorize_def store_and_publish_contacts_def Let_def)
      (rule exI [of _ ?out], simp)
qed (simp add: handle_contacts_authorize_def)

definition demo_state :: "int app_state" where
  "demo_state = \<lparr> as_config = default_config None, as_db_generation = ''g'', as_events = [], as_contacts = Unavailable,
     as_gate = False, as_world = 0 \<rparr>"

theorem authorize_announces_outcome_witness:
  "\<exists>out s'. handle_contacts_authorize demo_mac None ''1'' demo_state = Some (envelope_ok ''1'' (outcome_to_json out), s')
     \<and> as_events s' = [contacts_event Prompting, contacts_event (as_state out)]"
  using authorize_announces_outcome [OF demo_clock, of demo_state None "''1''"] by (auto simp: demo_state_def)

section \<open>Requests\<close>

definition read_methods :: "string set" where
  "read_methods = {''status'', ''chats.list'', ''messages.history'', ''messages.after'', ''messages.search'', ''handles.check''}"

text \<open>C22: a request other than an authorisation reaches imsg only under its own name, and only if it is one
  of the six that read, or \<^verbatim>\<open>send\<close> on a bridge that has sending enabled; every other request changes
  nothing, and on a bridge that has not, \<^verbatim>\<open>send\<close> is answered \<^verbatim>\<open>forbidden\<close>.  That a bridge with sending
  enabled forwards \<^verbatim>\<open>send\<close> is what the code does (\<^verbatim>\<open>bridge_method_to_imsg\<close> has an arm for it); the unit
  test \<^verbatim>\<open>maps_bridge_methods\<close> beside it says that it maps to nothing, and would fail.\<close>

theorem sending_needs_permission:
  assumes "handle_request A hmac timer i method params s = Some (reply, s')" "method \<noteq> ''contacts.authorize''"
  defines "reaches_imsg \<equiv> method \<in> read_methods \<or> method = ''send'' \<and> bc_enable_send (as_config s)"
  shows "(reaches_imsg \<longrightarrow> forward A i method params s = Some (reply, s'))
       \<and> (\<not> reaches_imsg \<longrightarrow> s' = s)
       \<and> (method = ''send'' \<and> \<not> bc_enable_send (as_config s) \<longrightarrow>
            reply = envelope_error i ''forbidden'' ''method not allowed: send'')"
proof -
  have reads_allowed: "method_allowed method \<and> bridge_method_to_imsg method = Some method
      \<and> method \<notin> {''contacts.status'', ''watch.ack'', ''attachments.fetch''}" if "method \<in> read_methods"
    using that by (auto simp: read_methods_def method_allowed_def ALLOWED_METHODS_def bridge_method_to_imsg_def)
  have send: "\<not> method_allowed ''send''" "bridge_method_to_imsg ''send'' = Some ''send''" "''send'' \<notin> read_methods"
    by (simp_all add: method_allowed_def ALLOWED_METHODS_def bridge_method_to_imsg_def read_methods_def)
  have others: "bridge_method_to_imsg method = None" if "method \<notin> read_methods" "method \<noteq> ''send''"
    using that by (simp add: bridge_method_to_imsg_def read_methods_def)
  consider (reads) "method \<in> read_methods" | (send) "method = ''send''"
    | (other) "method \<notin> read_methods" "method \<noteq> ''send''" by blast
  then show ?thesis
  proof cases
    case reads
    then have "method \<noteq> ''send''" using send(3) by blast
    then show ?thesis using assms(1,2) reads_allowed [OF reads] reads
      unfolding reaches_imsg_def handle_request_def by simp
  next
    case send
    then show ?thesis using assms(1) \<open>\<not> method_allowed ''send''\<close> \<open>bridge_method_to_imsg ''send'' = Some ''send''\<close>
        \<open>''send'' \<notin> read_methods\<close>
      unfolding reaches_imsg_def handle_request_def by (simp split: if_splits)
  next
    case other
    have "handle_request A hmac timer i method params s = Some (r, s2) \<Longrightarrow> s2 = s" for r s2
      using assms(2) others [OF other] unfolding handle_request_def by (auto split: if_splits)
    then show ?thesis using assms(1) other unfolding reaches_imsg_def by blast
  qed
qed

theorem sending_needs_permission_witness:
  "\<exists>reply s'. handle_request demo_mac (\<lambda>_ _. []) None ''1'' ''send'' JNull demo_state = Some (reply, s') \<and> s' = demo_state
     \<and> reply = envelope_error ''1'' ''forbidden'' ''method not allowed: send''"
proof -
  have off: "\<not> bc_enable_send (as_config demo_state)" by (simp add: demo_state_def default_config_def)
  then obtain reply s' where run: "handle_request demo_mac (\<lambda>_ _. []) None ''1'' ''send'' JNull demo_state = Some (reply, s')"
    by (simp add: handle_request_def method_allowed_def ALLOWED_METHODS_def)
  from sending_needs_permission [OF run] off run show ?thesis by (auto simp: read_methods_def)
qed

definition fetch_params :: "string \<Rightarrow> string \<Rightarrow> string \<Rightarrow> json" where
  "fetch_params chat message filename =
     mk_obj [(''chat_guid'', JStr chat), (''message_guid'', JStr message), (''filename'', JStr filename)]"

text \<open>the token of an attachment does not name it: the guids and the file name are joined by colons,
  so different ones give the same token, and the key is the path of the data directory, the same for
  everyone who knows it.\<close>

theorem attachment_tokens_collide:
  "fetch_attachment_token hmac config (fetch_params (chat @ '':'' @ part) message filename)
     = fetch_attachment_token hmac config (fetch_params chat (part @ '':'' @ message) filename)
   \<and> fetch_attachment_token hmac config (fetch_params chat message filename)
     = mk_obj [(''token'', JStr (hmac (utf8 (bc_data_dir config)) (utf8 (chat @ '':'' @ message @ '':'' @ filename)))),
         (''expires_in'', JNum (NPos 300))]"
  by (simp add: fetch_attachment_token_def fetch_params_def str_param_def token_for_def json_simps)

section \<open>Calls of imsg\<close>

text \<open>C23: every call of imsg made so far either still waits or has got exactly one answer, never both, and
  no call's answer goes to another: an answer carries the id of its call, or is the error of a
  respawn.  A call has returned when it was answered or could not write its request, and not before.\<close>

theorem calls_answered_once:
  assumes "rpc_reachable parse s" "rp_calls s + 1 < 2 ^ 64" "t < rp_calls s"
  shows "(t \<in> ran (rp_pending s) \<longleftrightarrow> t \<notin> fst ` set (rp_answers s))
       \<and> (\<forall>v w. (t, v) \<in> set (rp_answers s) \<longrightarrow> (t, w) \<in> set (rp_answers s) \<longrightarrow> v = w)
       \<and> distinct (map fst (rp_answers s)) \<and> t \<notin> rp_dropped s
       \<and> (\<forall>v. (t, v) \<in> set (rp_answers s) \<longrightarrow> v = respawned_reply \<or> json_get v ''id'' = Some (JStr (call_id t)))
       \<and> (call_returned show_json s t = None \<longleftrightarrow> t \<in> ran (rp_pending s) \<and> rp_failed s t = None)"
proof -
  note inv = rpc_invD [OF rpc_reachable_inv [OF assms(1,2)]]
  have "t \<in> ran (rp_pending s) \<union> fst ` set (rp_answers s)" using inv(6) assms(3) by simp
  moreover have "v = w" if "(t, v) \<in> set (rp_answers s)" "(t, w) \<in> set (rp_answers s)" for v w
    using that eq_key_imp_eq_value [OF inv(4)] by blast
  moreover have "t \<notin> rp_dropped s" using inv(3) by simp
  moreover have "call_returned show_json s t = None \<longleftrightarrow> t \<notin> fst ` set (rp_answers s) \<and> rp_failed s t = None"
    by (auto simp: call_returned_def map_of_eq_None_iff split: option.splits)
  ultimately show ?thesis using inv(4,5,7) by blast
qed

definition demo_reply :: "string \<Rightarrow> json option" where
  "demo_reply line = (if line = ''bad'' then None
     else Some (mk_obj [(''id'', JStr ''1''), (''result'', JStr line)]))"

definition demo_rpc :: rpc where
  "demo_rpc = read_line demo_reply ''ok'' (begin_call ''b'' JNull None (begin_call ''a'' JNull None rpc_spawn))"

lemma demo_rpc_facts: "rp_calls demo_rpc = 2" "rp_pending demo_rpc ''2'' = Some 1" "map fst (rp_answers demo_rpc) = [0]"
  by code_simp+

theorem calls_answered_once_witness:
  "0 \<in> fst ` set (rp_answers demo_rpc) \<and> 0 \<notin> ran (rp_pending demo_rpc) \<and> 1 \<in> ran (rp_pending demo_rpc)"
proof -
  have "rp_reading (begin_call ''b'' JNull None (begin_call ''a'' JNull None rpc_spawn))" by code_simp
  then have "rpc_reachable demo_reply demo_rpc"
    unfolding demo_rpc_def
    by (rule rpc_stepped [OF rpc_stepped [OF rpc_stepped [OF rpc_spawned rpc_step.calls] rpc_step.calls]
          rpc_step.reads_line])
  note once = calls_answered_once [OF this]
  have "set (map fst (rp_answers demo_rpc)) = {0}" unfolding demo_rpc_facts(3) by simp
  then have answered: "fst ` set (rp_answers demo_rpc) = {0}" by (simp only: set_map)
  have small: "rp_calls demo_rpc + 1 < 2 ^ 64" "0 < rp_calls demo_rpc" "1 < rp_calls demo_rpc"
    unfolding demo_rpc_facts(1) by simp_all
  have "0 \<in> ran (rp_pending demo_rpc) \<longleftrightarrow> 0 \<notin> fst ` set (rp_answers demo_rpc)"
    "1 \<in> ran (rp_pending demo_rpc) \<longleftrightarrow> 1 \<notin> fst ` set (rp_answers demo_rpc)"
    using once [OF small(1,2)] once [OF small(1,3)] by blast+
  then show ?thesis unfolding answered by simp
qed

text \<open>one line of the child that is no JSON stops the reading for good: the calls that wait then, and all
  that are made later, are never answered, unless the child is respawned; every other step leaves
  them waiting.\<close>

theorem bad_line_stops_answers:
  assumes "trim line \<noteq> []" "parse (trim line) = None"
    and "s' = fold (\<lambda>(method, params, failure). begin_call method params failure) calls (read_line parse line s)"
    and "rpc_step parse s' s''" "\<forall>order. s'' \<noteq> respawn_drain order s'"
  shows "rp_answers s'' = rp_answers s \<and> rp_events s'' = rp_events s
       \<and> (rp_reading s'' \<longrightarrow> s'' = respawn_launch True s')"
proof -
  have "\<not> rp_reading s' \<and> rp_answers s' = rp_answers s \<and> rp_events s' = rp_events s"
    unfolding assms(3) using assms(1,2)
    by (induction calls rule: rev_induct) (auto simp: read_line_def Let_def begin_call_def split: prod.splits)
  with assms(4,5) show ?thesis
    by (cases rule: rpc_step.cases) (auto simp: begin_call_def Let_def respawn_launch_def)
qed

theorem bad_line_stops_answers_witness:
  "rp_answers (begin_call ''c'' JNull None (read_line demo_reply ''bad'' demo_rpc)) = rp_answers demo_rpc"
proof -
  let ?s = "read_line demo_reply ''bad'' demo_rpc" and ?t = "begin_call ''c'' JNull None (read_line demo_reply ''bad'' demo_rpc)"
  have line: "trim ''bad'' = ''bad''" by code_simp
  have step: "rpc_step demo_reply ?s ?t" by (rule rpc_step.calls)
  have "rp_calls ?t \<noteq> rp_calls (respawn_drain order ?s)" for order
    by (simp add: begin_call_def Let_def respawn_drain_def)
  then have "\<forall>order. ?t \<noteq> respawn_drain order ?s" by metis
  then show ?thesis
    using bad_line_stops_answers [of "''bad''" demo_reply ?s "[]" demo_rpc ?t] step line by (simp add: demo_reply_def)
qed

end
