(* ===== verification/Files.thy ===== *)
theory Files
  imports Prelude "HOL-Library.AList" "HOL-Library.Sublist"
begin

text \<open>
  The file system as the bridge, the setup and the installer use it: \<^verbatim>\<open>std::fs\<close> on a tree of files,
  directories and symbolic links.  A path is absolute and given by its components; links are followed
  at its end only.  \<open>dk_denied\<close> says which operations the system refuses, and with what text; an
  operation that is refused changes nothing.
\<close>

section \<open>Trees\<close>

type_synonym fpath = "string list"

datatype node =
    Plain string
  | Dir "(string \<times> node) list"
  | Link fpath

fun node_at :: "node \<Rightarrow> fpath \<Rightarrow> node option" where
  "node_at t [] = Some t"
| "node_at (Dir es) (n # p) = Option.bind (map_of es n) (\<lambda>t. node_at t p)"
| "node_at (Plain _) (n # p) = None"
| "node_at (Link _) (n # p) = None"

fun put_at :: "fpath \<Rightarrow> node \<Rightarrow> node \<Rightarrow> node" where
  "put_at [] x t = x"
| "put_at (n # p) x (Dir es) = Dir (AList.update n (put_at p x (unwrap_or (map_of es n) (Dir []))) es)"
| "put_at (n # p) x (Plain c) = Plain c"
| "put_at (n # p) x (Link q) = Link q"

fun cut_at :: "fpath \<Rightarrow> node \<Rightarrow> node" where
  "cut_at [] t = t"
| "cut_at (n # p) (Dir es) =
     (if p = [] then Dir (AList.delete n es)
      else (case map_of es n of None \<Rightarrow> Dir es | Some t \<Rightarrow> Dir (AList.update n (cut_at p t) es)))"
| "cut_at (n # p) (Plain c) = Plain c"
| "cut_at (n # p) (Link q) = Link q"

definition dir_at :: "node \<Rightarrow> fpath \<Rightarrow> bool" where
  "dir_at t p = (case node_at t p of Some (Dir _) \<Rightarrow> True | _ \<Rightarrow> False)"

text \<open>The end of a chain of links, which the system follows 40 times at most.\<close>

fun final_path :: "nat \<Rightarrow> node \<Rightarrow> fpath \<Rightarrow> fpath option" where
  "final_path 0 t p = None"
| "final_path (Suc k) t p = (case node_at t p of Some (Link q) \<Rightarrow> final_path k t q | _ \<Rightarrow> Some p)"

definition MAXSYMLINKS :: nat where "MAXSYMLINKS = 40"

section \<open>Operations\<close>

datatype file_op =
    ReadFile fpath
  | WriteFile fpath
  | MakeDir fpath
  | ListDir fpath
  | RemoveTree fpath
  | RemoveFile fpath
  | MakeLink fpath
  | SetMode fpath

record disk =
  dk_root :: node
  dk_denied :: "file_op \<Rightarrow> string option"

definition ENOENT :: string where "ENOENT = ''No such file or directory (os error 2)''"
definition EEXIST :: string where "EEXIST = ''File exists (os error 17)''"
definition ENOTDIR :: string where "ENOTDIR = ''Not a directory (os error 20)''"
definition EISDIR :: string where "EISDIR = ''Is a directory (os error 21)''"
definition ELOOP :: string where "ELOOP = ''Too many levels of symbolic links (os error 40)''"

definition permitted :: "file_op \<Rightarrow> ('z disk_scheme, string, unit) act" where
  "permitted f d = (case dk_denied d f of None \<Rightarrow> (Inr (), d) | Some e \<Rightarrow> (Inl e, d))"

definition follow :: "fpath \<Rightarrow> ('z disk_scheme, string, fpath) act" where
  "follow p d = (case final_path MAXSYMLINKS (dk_root d) p of None \<Rightarrow> (Inl ELOOP, d) | Some q \<Rightarrow> (Inr q, d))"

definition fs_exists :: "'z disk_scheme \<Rightarrow> fpath \<Rightarrow> bool" where
  "fs_exists d p =
     (case final_path MAXSYMLINKS (dk_root d) p of None \<Rightarrow> False | Some q \<Rightarrow> node_at (dk_root d) q \<noteq> None)"

definition fs_is_file :: "'z disk_scheme \<Rightarrow> fpath \<Rightarrow> bool" where
  "fs_is_file d p =
     (case final_path MAXSYMLINKS (dk_root d) p of
        None \<Rightarrow> False
      | Some q \<Rightarrow> (case node_at (dk_root d) q of Some (Plain _) \<Rightarrow> True | _ \<Rightarrow> False))"

definition fs_is_dir :: "'z disk_scheme \<Rightarrow> fpath \<Rightarrow> bool" where
  "fs_is_dir d p =
     (case final_path MAXSYMLINKS (dk_root d) p of None \<Rightarrow> False | Some q \<Rightarrow> dir_at (dk_root d) q)"

definition read_to_string :: "fpath \<Rightarrow> ('z disk_scheme, string, string) act" where
  "read_to_string p =
     andthen (permitted (ReadFile p)) (\<lambda>_.
     andthen (follow p) (\<lambda>q d.
       case node_at (dk_root d) q of
         Some (Plain s) \<Rightarrow> (Inr s, d)
       | Some (Dir _) \<Rightarrow> (Inl EISDIR, d)
       | _ \<Rightarrow> (Inl ENOENT, d)))"

definition write_file :: "fpath \<Rightarrow> string \<Rightarrow> ('z disk_scheme, string, unit) act" where
  "write_file p s =
     andthen (permitted (WriteFile p)) (\<lambda>_.
     andthen (follow p) (\<lambda>q d.
       if dir_at (dk_root d) q then (Inl EISDIR, d)
       else if \<not> dir_at (dk_root d) (butlast q) then (Inl ENOENT, d)
       else (Inr (), d\<lparr>dk_root := put_at q (Plain s) (dk_root d)\<rparr>)))"

text \<open>\<^verbatim>\<open>create_dir_all\<close>: the directories of a path that are missing, from the top.  At the end of the path a link
  to a directory is as good as one.\<close>

fun make_dirs :: "fpath \<Rightarrow> fpath \<Rightarrow> ('z disk_scheme, string, unit) act" where
  "make_dirs base [] d = (Inr (), d)"
| "make_dirs base (n # rest) d =
     (case node_at (dk_root d) (base @ [n]) of
        Some (Dir _) \<Rightarrow> make_dirs (base @ [n]) rest d
      | None \<Rightarrow>
          (case dk_denied d (MakeDir (base @ [n])) of
             Some e \<Rightarrow> (Inl e, d)
           | None \<Rightarrow> make_dirs (base @ [n]) rest (d\<lparr>dk_root := put_at (base @ [n]) (Dir []) (dk_root d)\<rparr>))
      | Some _ \<Rightarrow> (if rest = [] \<and> fs_is_dir d (base @ [n]) then Inr () else Inl EEXIST, d))"

definition create_dir_all :: "fpath \<Rightarrow> ('z disk_scheme, string, unit) act" where
  "create_dir_all p = make_dirs [] p"

text \<open>The names in a directory, in the order of the directory.\<close>

definition read_dir :: "fpath \<Rightarrow> ('z disk_scheme, string, string list) act" where
  "read_dir p =
     andthen (permitted (ListDir p)) (\<lambda>_.
     andthen (follow p) (\<lambda>q d.
       case node_at (dk_root d) q of
         Some (Dir es) \<Rightarrow> (Inr (remdups (map fst es)), d)
       | None \<Rightarrow> (Inl ENOENT, d)
       | Some _ \<Rightarrow> (Inl ENOTDIR, d)))"

definition remove_dir_all :: "fpath \<Rightarrow> ('z disk_scheme, string, unit) act" where
  "remove_dir_all p =
     andthen (permitted (RemoveTree p)) (\<lambda>_ d.
       case node_at (dk_root d) p of
         None \<Rightarrow> (Inl ENOENT, d)
       | Some (Plain _) \<Rightarrow> (Inl ENOTDIR, d)
       | Some _ \<Rightarrow> (Inr (), d\<lparr>dk_root := cut_at p (dk_root d)\<rparr>))"

definition remove_file :: "fpath \<Rightarrow> ('z disk_scheme, string, unit) act" where
  "remove_file p =
     andthen (permitted (RemoveFile p)) (\<lambda>_ d.
       case node_at (dk_root d) p of
         None \<Rightarrow> (Inl ENOENT, d)
       | Some (Dir _) \<Rightarrow> (Inl EISDIR, d)
       | Some _ \<Rightarrow> (Inr (), d\<lparr>dk_root := cut_at p (dk_root d)\<rparr>))"

definition make_link :: "fpath \<Rightarrow> fpath \<Rightarrow> ('z disk_scheme, string, unit) act" where
  "make_link target p =
     andthen (permitted (MakeLink p)) (\<lambda>_ d.
       if node_at (dk_root d) p \<noteq> None then (Inl EEXIST, d)
       else if \<not> dir_at (dk_root d) (butlast p) then (Inl ENOENT, d)
       else (Inr (), d\<lparr>dk_root := put_at p (Link target) (dk_root d)\<rparr>))"

definition copy_file :: "fpath \<Rightarrow> fpath \<Rightarrow> ('z disk_scheme, string, unit) act" where
  "copy_file src dest = andthen (read_to_string src) (write_file dest)"

text \<open>\<^verbatim>\<open>fs::set_permissions\<close>, whose effect no definition here looks at.\<close>

definition set_mode :: "fpath \<Rightarrow> ('z disk_scheme, string, unit) act" where
  "set_mode p =
     andthen (permitted (SetMode p)) (\<lambda>_ d. if fs_exists d p then (Inr (), d) else (Inl ENOENT, d))"

section \<open>Facts\<close>

lemma parallel_simps [simp]:
  "(b @ p) \<parallel> (b @ q) \<longleftrightarrow> p \<parallel> q" "(m # p) \<parallel> (n # q) \<longleftrightarrow> m \<noteq> n \<or> p \<parallel> q" "\<not> [] \<parallel> q" "\<not> p \<parallel> []"
  by (auto simp: parallel_def)

lemma dir_at_iff: "dir_at t p \<longleftrightarrow> (\<exists>es. node_at t p = Some (Dir es))"
  by (auto simp: dir_at_def split: option.splits node.splits)

lemma dir_at_simps [simp]:
  "dir_at t [] \<longleftrightarrow> (\<exists>es. t = Dir es)"
  "dir_at (Dir es) (n # p) \<longleftrightarrow> (\<exists>t. map_of es n = Some t \<and> dir_at t p)"
  "\<not> dir_at (Plain c) p" "\<not> dir_at (Link l) p"
  by (cases p; auto simp: dir_at_iff bind_eq_Some_conv)+

lemma node_at_append: "node_at t (p @ q) = Option.bind (node_at t p) (\<lambda>u. node_at u q)"
proof (induction t p rule: node_at.induct)
  case (2 es n p)
  then show ?case by (cases "map_of es n") auto
qed auto

lemma node_at_snoc:
  "node_at t (p @ [n]) = Some x \<longleftrightarrow> (\<exists>es. node_at t p = Some (Dir es) \<and> map_of es n = Some x)"
  by (auto simp: node_at_append bind_eq_Some_conv elim: node_at.elims)

lemma dir_at_parent: "dir_at t (p @ q) \<Longrightarrow> dir_at t p"
  by (cases "node_at t p"; cases q)
     (auto simp: dir_at_iff node_at_append elim: node_at.elims)

lemma update_lookup: "map_of (AList.update n x es) m = (if m = n then Some x else map_of es m)"
  by (simp add: update_conv')

lemma delete_lookup: "map_of (AList.delete n es) m = (if m = n then None else map_of es m)"
  by (simp add: delete_conv')

lemma put_at_below:
  "dir_at t p \<Longrightarrow> node_at (put_at (p @ n # q) x t) (p @ r) = node_at (put_at (n # q) x (the (node_at t p))) r"
  by (induction t p rule: node_at.induct)
     (auto simp: dir_at_def update_lookup unwrap_or_def split: option.splits)

lemma put_at_same:
  assumes "dir_at t (butlast p)"
  shows "node_at (put_at p x t) p = Some x"
proof (cases p rule: rev_cases)
  case (snoc b n)
  then show ?thesis using assms put_at_below [of t b n "[]" x "[n]"]
    by (auto simp: dir_at_iff update_lookup)
qed simp

lemma put_at_parallel: "p \<parallel> q \<Longrightarrow> node_at (put_at p x t) q = node_at t q"
proof (induction p x t arbitrary: q rule: put_at.induct)
  case (2 n p x es)
  then obtain m r where q: "q = m # r" by (cases q) auto
  show ?case
  proof (cases "m = n")
    case True
    then have "p \<parallel> r" using 2(2) q by auto
    then have "node_at (put_at p x (unwrap_or (map_of es n) (Dir []))) r
        = node_at (unwrap_or (map_of es n) (Dir [])) r" by (rule 2(1))
    moreover have "r \<noteq> []" using \<open>p \<parallel> r\<close> by auto
    then have "node_at (Dir []) r = None" by (cases r) auto
    ultimately show ?thesis using q True by (cases "map_of es n") (auto simp: update_lookup unwrap_or_def)
  qed (use q in \<open>simp add: update_lookup\<close>)
qed auto

lemma put_at_keeps_dir: "dir_at t q \<Longrightarrow> \<not> prefix p q \<Longrightarrow> dir_at (put_at p x t) q"
proof (induction p x t arbitrary: q rule: put_at.induct)
  case (2 n p x es)
  then show ?case
  proof (cases q)
    case (Cons m r)
    then show ?thesis using 2 by (auto simp: update_lookup unwrap_or_def)
  qed simp
qed auto

lemma cut_at_parallel: "p \<parallel> q \<Longrightarrow> node_at (cut_at p t) q = node_at t q"
proof (induction p t arbitrary: q rule: cut_at.induct)
  case (2 n p es)
  then obtain m r where q: "q = m # r" by (cases q) auto
  show ?case
  proof (cases "m = n")
    case True
    then have "p \<parallel> r" using 2(2) q by auto
    moreover from this have "p \<noteq> []" by auto
    ultimately show ?thesis using q True 2(1) by (auto simp: update_lookup split: option.splits)
  qed (use q in \<open>auto simp: update_lookup delete_lookup split: option.splits\<close>)
qed auto

lemma cut_at_gone: "p \<noteq> [] \<Longrightarrow> node_at (cut_at p t) (p @ q) = None"
proof (induction p t rule: cut_at.induct)
  case (2 n p es)
  then show ?case by (auto simp: update_lookup delete_lookup split: option.splits)
qed auto

lemma cut_at_keeps_parent: "dir_at t p \<Longrightarrow> dir_at (cut_at (p @ [n]) t) p"
  by (induction t p rule: node_at.induct) (auto simp: update_lookup split: option.splits)

section \<open>What a step leaves alone\<close>

lemma put_at_keeps_leaf:
  "node_at t q = Some y \<Longrightarrow> \<forall>es. y \<noteq> Dir es \<Longrightarrow> \<not> prefix p q \<Longrightarrow> node_at (put_at p x t) q = Some y"
proof (induction p x t arbitrary: q rule: put_at.induct)
  case (2 n p x es)
  then show ?case
  proof (cases q)
    case (Cons m r)
    then show ?thesis using 2 by (auto simp: update_lookup unwrap_or_def bind_eq_Some_conv)
  qed auto
qed auto

text \<open>A tree that only got more entries.\<close>

definition grows :: "node \<Rightarrow> node \<Rightarrow> bool" where
  "grows t t' \<longleftrightarrow>
     (\<forall>p y. node_at t p = Some y \<longrightarrow> (\<forall>es. y \<noteq> Dir es) \<longrightarrow> node_at t' p = Some y)
     \<and> (\<forall>p. dir_at t p \<longrightarrow> dir_at t' p)"

lemma grows_refl [simp]: "grows t t"
  by (simp add: grows_def)

lemma grows_trans: "grows t t' \<Longrightarrow> grows t' t'' \<Longrightarrow> grows t t''"
  by (simp add: grows_def)

lemma growsD:
  "grows t t' \<Longrightarrow> node_at t p = Some (Plain s) \<Longrightarrow> node_at t' p = Some (Plain s)"
  "grows t t' \<Longrightarrow> node_at t p = Some (Link q) \<Longrightarrow> node_at t' p = Some (Link q)"
  "grows t t' \<Longrightarrow> dir_at t p \<Longrightarrow> dir_at t' p"
  "grows t t' \<Longrightarrow> node_at t p \<noteq> None \<Longrightarrow> node_at t' p \<noteq> None"
proof -
  assume g: "grows t t'"
  show "node_at t p = Some (Plain s) \<Longrightarrow> node_at t' p = Some (Plain s)"
    and "node_at t p = Some (Link q) \<Longrightarrow> node_at t' p = Some (Link q)"
    and "dir_at t p \<Longrightarrow> dir_at t' p" using g by (auto simp: grows_def)
  show "node_at t' p \<noteq> None" if "node_at t p \<noteq> None"
  proof -
    from that obtain y where y: "node_at t p = Some y" by auto
    show ?thesis
    proof (cases y)
      case (Dir es)
      then have "dir_at t' p" using g y by (auto simp: grows_def dir_at_iff)
      then show ?thesis by (auto simp: dir_at_iff)
    qed (use g y in \<open>auto simp: grows_def\<close>)
  qed
qed

lemma put_new_grows: "node_at t p = None \<Longrightarrow> grows t (put_at p x t)"
  unfolding grows_def
proof (intro conjI allI impI)
  assume none: "node_at t p = None"
  have above: "\<not> prefix p q" if "node_at t q \<noteq> None" for q
    using none that by (auto simp: prefix_def node_at_append)
  show "node_at (put_at p x t) q = Some y" if "node_at t q = Some y" "\<forall>es. y \<noteq> Dir es" for q y
    using put_at_keeps_leaf [OF that] above that by simp
  show "dir_at (put_at p x t) q" if "dir_at t q" for q
    using put_at_keeps_dir [OF that] above that by (auto simp: dir_at_iff)
qed

lemma make_dirs_grows: "grows (dk_root d) (dk_root (snd (make_dirs base p d)))"
proof (induction base p d rule: make_dirs.induct)
  case (2 base n rest d)
  show ?case
  proof (cases "node_at (dk_root d) (base @ [n])")
    case None
    have "grows (dk_root d) (put_at (base @ [n]) (Dir []) (dk_root d))" using None by (rule put_new_grows)
    then show ?thesis using 2(1) [OF None] None grows_trans
      by (cases "dk_denied d (MakeDir (base @ [n]))") fastforce+
  qed (use 2(2) in \<open>auto split: node.splits\<close>)
qed simp

lemma make_dirs_denied [simp]: "dk_denied (snd (make_dirs base p d)) = dk_denied d"
  by (induction base p d rule: make_dirs.induct) (auto split: option.splits node.splits)

text \<open>Making directories and files makes no links.\<close>

lemma empty_dir_no_link [simp]: "node_at (Dir []) s \<noteq> Some (Link r)"
  by (cases s) auto

lemma file_no_link [simp]: "node_at (Plain c) s \<noteq> Some (Link r)"
  by (cases s) auto

lemma put_no_link:
  "(\<And>s. node_at x s \<noteq> Some (Link r)) \<Longrightarrow> node_at (put_at p x t) q = Some (Link r) \<Longrightarrow> node_at t q = Some (Link r)"
proof (induction p x t arbitrary: q rule: put_at.induct)
  case (2 n p x es)
  show ?case
  proof (cases q)
    case (Cons m s)
    then show ?thesis using 2
      by (auto simp: update_lookup unwrap_or_def bind_eq_Some_conv split: if_splits option.splits)
  qed (use 2 in auto)
qed auto

lemma make_dirs_link:
  "node_at (dk_root (snd (make_dirs base p d))) q = Some (Link r) \<Longrightarrow> node_at (dk_root d) q = Some (Link r)"
proof (induction base p d rule: make_dirs.induct)
  case (2 base n rest d)
  then show ?case by (fastforce dest: put_no_link [OF empty_dir_no_link] split: option.splits node.splits)
qed simp

lemma create_dir_all_grows: "grows (dk_root d) (dk_root (snd (create_dir_all p d)))"
  by (simp add: create_dir_all_def make_dirs_grows)

lemma create_dir_all_denied [simp]: "dk_denied (snd (create_dir_all p d)) = dk_denied d"
  by (simp add: create_dir_all_def)

lemma make_dirs_there: "dir_at (dk_root d) (base @ p) \<Longrightarrow> make_dirs base p d = (Inr (), d)"
proof (induction base p d rule: make_dirs.induct)
  case (2 base n rest d)
  from 2(3) have "dir_at (dk_root d) ((base @ [n]) @ rest)" by simp
  moreover from dir_at_parent [OF this] obtain es where "node_at (dk_root d) (base @ [n]) = Some (Dir es)"
    by (auto simp: dir_at_iff)
  ultimately show ?case using 2(2) by simp
qed simp

lemma create_dir_all_there: "dir_at (dk_root d) p \<Longrightarrow> create_dir_all p d = (Inr (), d)"
  using make_dirs_there [of d "[]" p] by (simp add: create_dir_all_def)

lemma final_path_grows:
  assumes "grows t t'"
  shows "final_path k t p = Some q \<Longrightarrow> node_at t q \<noteq> None \<Longrightarrow> final_path k t' p = Some q"
proof (induction k arbitrary: p)
  case (Suc k)
  consider (link) r where "node_at t p = Some (Link r)" | (plain) "\<forall>r. node_at t p \<noteq> Some (Link r)" by blast
  then show ?case
  proof cases
    case link
    then show ?thesis using Suc growsD(2) [OF assms] by auto
  next
    case plain
    then have "p = q" using Suc.prems(1) by (auto split: option.splits node.splits)
    then obtain y where y: "node_at t p = Some y" using Suc.prems(2) by auto
    have "\<forall>r. node_at t' p \<noteq> Some (Link r)"
    proof (cases y)
      case (Dir es)
      then have "dir_at t' p" using y growsD(3) [OF assms] by (auto simp: dir_at_iff)
      then show ?thesis by (auto simp: dir_at_iff)
    qed (use y plain growsD(1) [OF assms] in auto)
    then show ?thesis using \<open>p = q\<close> by (auto split: option.splits node.splits)
  qed
qed simp

lemma exists_grows:
  assumes "fs_exists d p" "grows (dk_root d) (dk_root d')"
  shows "fs_exists d' p"
proof -
  obtain q where q: "final_path MAXSYMLINKS (dk_root d) p = Some q" "node_at (dk_root d) q \<noteq> None"
    using assms(1) by (auto simp: fs_exists_def split: option.splits)
  then show ?thesis using final_path_grows [OF assms(2) q] growsD(4) [OF assms(2) q(2)]
    by (simp add: fs_exists_def)
qed

text \<open>Reading and writing at a path that is no link.\<close>

lemma final_path_plain:
  "(\<forall>q. node_at t p \<noteq> Some (Link q)) \<Longrightarrow> final_path MAXSYMLINKS t p = Some p"
  by (auto simp: MAXSYMLINKS_def numeral_eq_Suc split: option.splits node.splits)

lemma exists_plain: "node_at (dk_root d) p = Some (Plain s) \<Longrightarrow> fs_exists d p"
  by (simp add: fs_exists_def final_path_plain)

lemma missing_plain: "node_at (dk_root d) p = None \<Longrightarrow> \<not> fs_exists d p"
  by (simp add: fs_exists_def final_path_plain)

lemma read_plain:
  "node_at (dk_root d) p = Some (Plain s) \<Longrightarrow> dk_denied d (ReadFile p) = None \<Longrightarrow> read_to_string p d = (Inr s, d)"
  by (simp add: read_to_string_def andthen_apply permitted_def follow_def final_path_plain)

lemma read_same: "snd (read_to_string p d) = d"
  by (auto simp: read_to_string_def andthen_apply permitted_def follow_def split: option.splits node.splits)

lemma read_missing: "\<not> fs_exists d p \<Longrightarrow> \<exists>e. read_to_string p d = (Inl e, d)"
  by (auto simp: fs_exists_def read_to_string_def andthen_apply permitted_def follow_def split: option.splits)

lemma write_plain:
  assumes "dir_at (dk_root d) (butlast p)" "node_at (dk_root d) p = None \<or> node_at (dk_root d) p = Some (Plain s0)"
    "dk_denied d (WriteFile p) = None"
  shows "write_file p s d = (Inr (), d\<lparr>dk_root := put_at p (Plain s) (dk_root d)\<rparr>)"
  using assms
  by (auto simp: write_file_def andthen_apply permitted_def follow_def final_path_plain dir_at_def)

lemma write_denied: "dk_denied d (WriteFile p) = Some e \<Longrightarrow> write_file p s d = (Inl e, d)"
  by (simp add: write_file_def andthen_apply permitted_def)

lemma write_ok:
  assumes "write_file p s d = (Inr u, d')" "\<forall>q. node_at (dk_root d) p \<noteq> Some (Link q)"
  shows "d' = d\<lparr>dk_root := put_at p (Plain s) (dk_root d)\<rparr>" "dir_at (dk_root d) (butlast p)"
  using assms by (auto simp: write_file_def andthen_apply permitted_def follow_def final_path_plain
      split: option.splits if_splits)

lemma write_keeps:
  assumes "node_at (dk_root d) q = Some (Plain c)" "q \<noteq> p" "\<forall>q. node_at (dk_root d) p \<noteq> Some (Link q)"
  shows "node_at (dk_root (snd (write_file p s d))) q = Some (Plain c)"
proof -
  have "\<not> prefix p q" if "\<not> dir_at (dk_root d) p"
  proof
    assume "prefix p q"
    then obtain n r where q: "q = p @ n # r" using assms(2) by (metis prefix_def append_Nil2 neq_Nil_conv)
    then obtain u where u: "node_at (dk_root d) p = Some u" "node_at u (n # r) = Some (Plain c)"
      using assms(1) by (auto simp: node_at_append bind_eq_Some_conv)
    then show False using that by (cases u) (auto simp: dir_at_def)
  qed
  then show ?thesis using assms put_at_keeps_leaf [OF assms(1)]
    by (auto simp: write_file_def andthen_apply permitted_def follow_def final_path_plain split: option.splits)
qed

text \<open>A file stays while others are written, as long as their paths are no links.\<close>

definition file_kept :: "fpath \<Rightarrow> string \<Rightarrow> fpath set \<Rightarrow> 'z disk_scheme \<Rightarrow> bool" where
  "file_kept q c ps d \<longleftrightarrow>
     node_at (dk_root d) q = Some (Plain c) \<and> (\<forall>p\<in>ps. \<forall>r. node_at (dk_root d) p \<noteq> Some (Link r))"

lemma write_cases:
  obtains "snd (write_file p s d) = d"
  | q where "snd (write_file p s d) = d\<lparr>dk_root := put_at q (Plain s) (dk_root d)\<rparr>"
proof -
  have "snd (write_file p s d) = d \<or> (\<exists>q. snd (write_file p s d) = d\<lparr>dk_root := put_at q (Plain s) (dk_root d)\<rparr>)"
    by (auto simp: write_file_def andthen_apply permitted_def follow_def split: option.splits)
  then show ?thesis using that by blast
qed

lemma write_no_link:
  assumes "node_at (dk_root (snd (write_file p s d))) q = Some (Link r)"
  shows "node_at (dk_root d) q = Some (Link r)"
proof (cases rule: write_cases [of p s d])
  case (2 u)
  then show ?thesis using assms put_no_link [OF file_no_link, of u s "dk_root d" q r] by simp
qed (use assms in simp)

lemma keeps_write [keeps_intros]:
  assumes "q \<noteq> p" "p \<in> ps"
  shows "keeps (file_kept q c ps) (write_file p s)"
proof (rule keepsI)
  fix d :: "'z disk_scheme"
  assume d: "file_kept q c ps d"
  then have "node_at (dk_root (snd (write_file p s d))) q = Some (Plain c)"
    using assms by (intro write_keeps) (auto simp: file_kept_def)
  then show "file_kept q c ps (snd (write_file p s d))"
    using d write_no_link [of p s d] by (auto simp: file_kept_def)
qed

lemma keeps_create_dir_all [keeps_intros]: "keeps (file_kept q c ps) (create_dir_all r)"
  using growsD(1) [OF create_dir_all_grows] make_dirs_link
  by (fastforce simp: keeps_def file_kept_def create_dir_all_def)

lemma keeps_read [keeps_intros]: "keeps P (read_to_string p)"
  by (simp add: keeps_def read_same)

lemma keeps_permitted [keeps_intros]: "keeps P (permitted f)"
  by (auto simp: keeps_def permitted_def split: option.splits)

text \<open>What the system refuses never changes.\<close>

lemma keeps_denied_write [keeps_intros]: "keeps (\<lambda>d. dk_denied d = D) (write_file p s)"
proof (rule keepsI)
  fix d :: "'z disk_scheme"
  assume "dk_denied d = D"
  then show "dk_denied (snd (write_file p s d)) = D" by (cases rule: write_cases [of p s d]) simp_all
qed

lemma keeps_denied_dirs [keeps_intros]: "keeps (\<lambda>d. dk_denied d = D) (create_dir_all p)"
  by (auto simp: keeps_def)

end
