(* ===== verification/Tls.thy ===== *)
theory Tls
  imports Bridge Files
begin

text \<open>
  The certificate directory of the bridge, \<^verbatim>\<open>bridge/src/tls.rs\<close>: making the authority and the server
  certificate, loading them, issuing and importing client certificates, and the list of clients.
  rcgen, rustls and the PEM reader are the parameter \<open>pki\<close>; what they refuse is a text.
\<close>

section \<open>The libraries\<close>

text \<open>\<open>pk_certs\<close> are the certificates in a PEM text, each read or refused; the other members say why a step
  is refused, or nothing.\<close>

record 'c pki =
  pk_new_ca :: "string + string \<times> string"
  pk_new_server :: "string \<times> string \<Rightarrow> string list \<Rightarrow> string + string \<times> string"
  pk_certs :: "string \<Rightarrow> (string + 'c) list"
  pk_private_key :: "string \<Rightarrow> string + string option"
  pk_add_root :: "'c \<Rightarrow> string option"
  pk_verifier :: "'c list \<Rightarrow> string option"
  pk_single_cert :: "'c list \<Rightarrow> string \<Rightarrow> string option"
  pk_key_pair :: "string \<Rightarrow> string option"
  pk_issuer :: "string \<Rightarrow> string \<Rightarrow> string option"
  pk_csr :: "string \<Rightarrow> string option"
  pk_signed_by :: "string \<Rightarrow> string \<Rightarrow> string \<Rightarrow> string + string"

record 'c server_config =
  sc_client_roots :: "'c list option"
  sc_certs :: "'c list"
  sc_key :: string

record 'c tls_material =
  tm_server_config :: "'c server_config"
  tm_ca_cert_pem :: string
  tm_data_dir :: fpath

text \<open>An error with its context is shown as the context.\<close>

definition with_context :: "string \<Rightarrow> ('s, string, 'a) act \<Rightarrow> ('s, string, 'a) act" where
  "with_context msg m s = (case m s of (Inl _, s') \<Rightarrow> (Inl msg, s') | (Inr x, s') \<Rightarrow> (Inr x, s'))"

definition check :: "string \<Rightarrow> string option \<Rightarrow> ('s, string, unit) act" where
  "check msg refused = (case refused of None \<Rightarrow> ret () | Some _ \<Rightarrow> raise msg)"

text \<open>\<^verbatim>\<open>collect\<close> of results: all of them, or the first refusal.\<close>

fun collected :: "('e + 'a) list \<Rightarrow> 'e + 'a list" where
  "collected [] = Inr []"
| "collected (Inl e # rs) = Inl e"
| "collected (Inr x # rs) = (case collected rs of Inl e \<Rightarrow> Inl e | Inr xs \<Rightarrow> Inr (x # xs))"

text \<open>\<^verbatim>\<open>dir.join(text)\<close> as the system resolves it: an absolute text replaces the directory, \<^verbatim>\<open>..\<close> goes up.\<close>

definition join_text :: "fpath \<Rightarrow> string \<Rightarrow> fpath" where
  "join_text dir s =
     fold (\<lambda>c p. if c = [] \<or> c = ''.'' then p else if c = ''..'' then butlast p else p @ [c])
       (split_on CHR ''/'' s) (if starts_with s ''/'' then [] else dir)"

section \<open>The server's certificates\<close>

definition server_names :: "string option \<Rightarrow> string \<Rightarrow> string list" where
  "server_names hostname bind =
     (let sans = [''imsg-bridge.local'', ''localhost'']
            @ (if bind \<noteq> [] \<and> bind \<noteq> ''0.0.0.0'' then [bind] else [])
      in case hostname of
           Some h \<Rightarrow> if h \<in> set sans then sans else sans @ [h]
         | None \<Rightarrow> sans)"

definition load_key_pair :: "'c pki \<Rightarrow> string \<Rightarrow> string \<Rightarrow> string \<Rightarrow> ('s, string, 'c list \<times> string) act" where
  "load_key_pair K cert_context cert_pem key_pem =
     andthen (with_context cert_context (of_result (collected (pk_certs K cert_pem)))) (\<lambda>certs.
     andthen (with_context ''parse server key'' (of_result (pk_private_key K key_pem))) (\<lambda>key.
     case key of None \<Rightarrow> raise ''no private key'' | Some k \<Rightarrow> ret (certs, k)))"

text \<open>The loop over the certificates of the authority: one that cannot be read ends it with its own
  error, one that cannot be added with a context.\<close>

fun add_roots :: "'c pki \<Rightarrow> (string + 'c) list \<Rightarrow> ('s, string, 'c list) act" where
  "add_roots K [] = ret []"
| "add_roots K (Inl e # rs) = raise e"
| "add_roots K (Inr c # rs) =
     andthen (check ''add ca cert'' (pk_add_root K c)) (\<lambda>_.
     andthen (add_roots K rs) (\<lambda>roots. ret (c # roots)))"

definition load_server_config :: "'c pki \<Rightarrow> fpath \<Rightarrow> ('z disk_scheme, string, 'c tls_material) act" where
  "load_server_config K data_dir =
     andthen (read_to_string (data_dir @ [''ca.pem''])) (\<lambda>ca_pem.
     andthen (read_to_string (data_dir @ [''server.pem''])) (\<lambda>cert_pem.
     andthen (read_to_string (data_dir @ [''server-key.pem''])) (\<lambda>key_pem.
     andthen (load_key_pair K ''parse server cert'' cert_pem key_pem) (\<lambda>(certs, key).
     andthen (add_roots K (pk_certs K ca_pem)) (\<lambda>roots.
     andthen (check ''client verifier'' (pk_verifier K roots)) (\<lambda>_.
     andthen (check ''server tls config'' (pk_single_cert K certs key)) (\<lambda>_.
     ret \<lparr> tm_server_config = \<lparr> sc_client_roots = Some roots, sc_certs = certs, sc_key = key \<rparr>,
           tm_ca_cert_pem = ca_pem, tm_data_dir = data_dir \<rparr>)))))))"

text \<open>Enrolment asks for no client certificate.\<close>

definition load_enroll_tls_config :: "'c pki \<Rightarrow> fpath \<Rightarrow> ('z disk_scheme, string, 'c server_config) act" where
  "load_enroll_tls_config K data_dir =
     andthen (read_to_string (data_dir @ [''server.pem''])) (\<lambda>cert_pem.
     andthen (read_to_string (data_dir @ [''server-key.pem''])) (\<lambda>key_pem.
     andthen (load_key_pair K ''parse enroll cert'' cert_pem key_pem) (\<lambda>(certs, key).
     andthen (check ''enroll tls config'' (pk_single_cert K certs key)) (\<lambda>_.
     ret \<lparr> sc_client_roots = None, sc_certs = certs, sc_key = key \<rparr>))))"

definition create_certs :: "'c pki \<Rightarrow> string option \<Rightarrow> fpath \<Rightarrow> string \<Rightarrow> ('z disk_scheme, string, unit) act" where
  "create_certs K hostname data_dir bind =
     andthen (of_result (pk_new_ca K)) (\<lambda>(ca_pem, ca_key).
     andthen (of_result (pk_new_server K (ca_pem, ca_key) (server_names hostname bind))) (\<lambda>(cert, key).
     andthen (write_file (data_dir @ [''ca.pem'']) ca_pem) (\<lambda>_.
     andthen (write_file (data_dir @ [''ca-key.pem'']) ca_key) (\<lambda>_.
     andthen (write_file (data_dir @ [''server.pem'']) cert) (\<lambda>_.
     write_file (data_dir @ [''server-key.pem'']) key)))))"

definition init_certs :: "'c pki \<Rightarrow> string option \<Rightarrow> fpath \<Rightarrow> string \<Rightarrow> ('z disk_scheme, string, 'c tls_material) act" where
  "init_certs K hostname data_dir bind =
     andthen (create_dir_all data_dir) (\<lambda>_.
     andthen (create_dir_all (data_dir @ [''clients''])) (\<lambda>_.
     andthen (\<lambda>d. if fs_exists d (data_dir @ [''ca.pem'']) then (Inr (), d)
                  else create_certs K hostname data_dir bind d) (\<lambda>_.
     load_server_config K data_dir)))"

section \<open>Clients\<close>

definition sign_client_csr :: "'c pki \<Rightarrow> fpath \<Rightarrow> string \<Rightarrow> string \<Rightarrow> ('z disk_scheme, string, string) act" where
  "sign_client_csr K data_dir name csr_pem =
     andthen (with_context ''read ca'' (read_to_string (data_dir @ [''ca.pem'']))) (\<lambda>ca_pem.
     andthen (with_context ''read ca key'' (read_to_string (data_dir @ [''ca-key.pem'']))) (\<lambda>ca_key.
     andthen (check ''parse ca key'' (pk_key_pair K ca_key)) (\<lambda>_.
     andthen (check ''ca issuer'' (pk_issuer K ca_pem ca_key)) (\<lambda>_.
     andthen (check ''parse csr'' (pk_csr K csr_pem)) (\<lambda>_.
     andthen (with_context ''sign csr'' (of_result (pk_signed_by K ca_pem ca_key csr_pem))) (\<lambda>pem.
     andthen (create_dir_all (data_dir @ [''clients''])) (\<lambda>_.
     andthen (write_file (join_text (data_dir @ [''clients'']) (name @ ''.pem'')) pem) (\<lambda>_.
     ret pem))))))))"

definition import_client_cert :: "fpath \<Rightarrow> string \<Rightarrow> string \<Rightarrow> ('z disk_scheme, string, fpath) act" where
  "import_client_cert data_dir name cert_pem =
     (let p = join_text (data_dir @ [''clients'']) (name @ ''.pem'') in
      andthen (create_dir_all (data_dir @ [''clients''])) (\<lambda>_.
      andthen (write_file p cert_pem) (\<lambda>_. ret p)))"

definition stored_certs :: "'c pki \<Rightarrow> string \<Rightarrow> 'c list" where
  "stored_certs K pem = concat (map (\<lambda>r. case r of Inl _ \<Rightarrow> [] | Inr c \<Rightarrow> [c]) (pk_certs K pem))"

definition client_allowed :: "'c pki \<Rightarrow> fpath \<Rightarrow> 'c list \<Rightarrow> 'z disk_scheme \<Rightarrow> bool" where
  "client_allowed K data_dir peer_certs d =
     (case fst (read_dir (data_dir @ [''clients'']) d) of
        Inl _ \<Rightarrow> peer_certs = []
      | Inr names \<Rightarrow>
          peer_certs \<noteq> []
          \<and> list_ex (\<lambda>n. case fst (read_to_string (data_dir @ [''clients'', n]) d) of
               Inl _ \<Rightarrow> False
             | Inr pem \<Rightarrow> list_ex (\<lambda>c. c \<in> set (stored_certs K pem)) peer_certs) names)"

section \<open>Enrolling on the disk\<close>

text \<open>The world of an enrolment, over the certificate directory of the bridge.\<close>

definition enroll_on_disk ::
  "'c pki \<Rightarrow> instant \<Rightarrow> (string + bridge_config) \<Rightarrow> string option \<Rightarrow> fpath \<Rightarrow> 'z disk_scheme enroll_world" where
  "enroll_on_disk K now disk hostname data_dir =
     \<lparr> ew_now = now, ew_disk = disk, ew_sign = sign_client_csr K data_dir,
       ew_ca = read_to_string (data_dir @ [''ca.pem'']), ew_hostname = hostname \<rparr>"

end
