(* ===== verification/Tls_Contract.thy ===== *)
theory Tls_Contract
  imports Tls Bridge_Contract
begin

text \<open>
  What the certificate directory promises: who enrols is on the list of clients, nothing else is
  written, and what becomes of a first start that fails half way.
\<close>

section \<open>Paths\<close>

lemma split_on_plain: "CHR ''/'' \<notin> set s \<Longrightarrow> split_on CHR ''/'' s = [s]"
  by (induction s) auto

lemma join_name:
  assumes "list_all name_char n"
  shows "join_text dir (n @ ''.pem'') = dir @ [n @ ''.pem'']"
proof -
  have "CHR ''/'' \<notin> set n" using assms
    by (auto simp: list_all_iff name_char_def is_ascii_alphanumeric_def is_ascii_alphabetic_def is_ascii_digit_def)
  then have "split_on CHR ''/'' (n @ ''.pem'') = [n @ ''.pem'']" by (intro split_on_plain) auto
  moreover have "\<not> starts_with (n @ ''.pem'') ''/''"
    using \<open>CHR ''/'' \<notin> set n\<close> by (cases n) (auto simp: starts_with_def)
  moreover have "n @ ''.pem'' \<noteq> ''.''" "n @ ''.pem'' \<noteq> ''..''" by (cases n; simp)+
  ultimately show ?thesis by (simp add: join_text_def)
qed

section \<open>A second start\<close>

lemma keeps_with_context [keeps_intros]: "keeps P m \<Longrightarrow> keeps P (with_context msg m)"
  by (auto simp: keeps_def with_context_def split: prod.splits sum.splits)

lemma keeps_check [keeps_intros]: "keeps P (check msg r)"
  by (auto simp: check_def keeps_def split: option.splits)

lemma keeps_add_roots [keeps_intros]: "keeps P (add_roots K rs)"
  by (induction K rs rule: add_roots.induct) (auto intro!: keeps_intros)

lemma keeps_load_key_pair [keeps_intros]: "keeps P (load_key_pair K msg cert key)"
  by (auto simp: load_key_pair_def intro!: keeps_intros split: option.splits)

lemma keeps_load_server_config [keeps_intros]: "keeps P (load_server_config K dir)"
  by (auto simp: load_server_config_def intro!: keeps_intros split: prod.splits)

lemma load_server_config_same: "snd (load_server_config K dir d) = d"
  using keepsD [OF keeps_load_server_config, of "\<lambda>x. x = d" d] by simp

text \<open>With the authority in place, a start makes directories at most.\<close>

lemma init_grows:
  assumes "fs_exists d (dir @ [''ca.pem''])"
  shows "grows (dk_root d) (dk_root (snd (init_certs K h dir b d)))"
proof -
  obtain r1 d1 where 1: "create_dir_all dir d = (r1, d1)" by fastforce
  obtain r2 d2 where 2: "create_dir_all (dir @ [''clients'']) d1 = (r2, d2)" by fastforce
  have g1: "grows (dk_root d) (dk_root d1)" using create_dir_all_grows [of d dir] 1 by simp
  have g2: "grows (dk_root d) (dk_root d2)"
    using grows_trans [OF g1] create_dir_all_grows [of d1 "dir @ [''clients'']"] 2 by simp
  show ?thesis using g1 g2 exists_grows [OF assms g2] load_server_config_same [of K dir d2] 1 2
    by (cases r1; cases r2) (auto simp: init_certs_def andthen_apply)
qed

text \<open>C25: starting again never touches what is there: once the authority's certificate exists, no file of the
  disk changes, so every client that was issued a certificate stays paired.\<close>

theorem init_keeps_credentials:
  assumes "fs_exists d (dir @ [''ca.pem''])"
    and "node_at (dk_root d) p = Some (Plain s)"
  shows "node_at (dk_root (snd (init_certs K h dir b d))) p = Some (Plain s)"
  using growsD(1) [OF init_grows [OF assms(1)] assms(2)] .

definition demo_pki :: "string pki" where
  "demo_pki = \<lparr> pk_new_ca = Inr (''ca cert'', ''ca key''),
     pk_new_server = (\<lambda>_ names. Inr (''server cert '' @ concat names, ''server key'')),
     pk_certs = (\<lambda>pem. [Inr pem]), pk_private_key = (\<lambda>pem. Inr (Some pem)), pk_add_root = (\<lambda>_. None),
     pk_verifier = (\<lambda>_. None), pk_single_cert = (\<lambda>_ _. None), pk_key_pair = (\<lambda>_. None),
     pk_issuer = (\<lambda>_ _. None), pk_csr = (\<lambda>_. None), pk_signed_by = (\<lambda>_ _ csr. Inr (''client '' @ csr)) \<rparr>"

definition demo_dir :: fpath where "demo_dir = [''home'', ''imsg-bridge'']"

definition demo_disk :: disk where
  "demo_disk = \<lparr> dk_root = Dir [(''home'', Dir [])], dk_denied = (\<lambda>_. None) \<rparr>"

definition demo_started :: disk where
  "demo_started = snd (init_certs demo_pki (Some ''mac'') demo_dir ''10.0.0.2'' demo_disk)"

theorem init_keeps_credentials_witness:
  "node_at (dk_root (snd (init_certs demo_pki None demo_dir ''10.0.0.9'' demo_started)))
     (demo_dir @ [''ca-key.pem'']) = Some (Plain ''ca key'')"
  by (rule init_keeps_credentials) code_simp+

section \<open>A first start that fails\<close>

lemma load_needs_server_cert:
  assumes "\<not> fs_exists d (dir @ [''server.pem''])"
  shows "\<exists>e. fst (load_server_config K dir d) = Inl e"
proof -
  obtain r where "read_to_string (dir @ [''ca.pem'']) d = (r, d)"
    using read_same [of "dir @ [''ca.pem'']" d] by (metis prod.collapse)
  then show ?thesis using read_missing [OF assms] by (cases r) (auto simp: load_server_config_def)
qed

text \<open>C26: a first start that fails half way is final: \<^verbatim>\<open>ca.pem\<close> is written first and its existence alone is
  taken for the whole set, so after a failure to write \<^verbatim>\<open>server.pem\<close> every later start fails as well, with
  whatever libraries, address and permissions.\<close>

theorem failed_start_is_final:
  fixes K :: "'c pki" and K' :: "'e pki"
  assumes "dir_at (dk_root d) (dir @ [''clients''])"
    and "\<forall>f\<in>{''ca.pem'', ''ca-key.pem'', ''server.pem''}. node_at (dk_root d) (dir @ [f]) = None"
    and "pk_new_ca K = Inr (ca, ca_key)" "pk_new_server K (ca, ca_key) (server_names h b) = Inr (cert, key)"
    and "dk_denied d = (\<lambda>f. if f = WriteFile (dir @ [''server.pem'']) then Some e else None)"
    and "init_certs K h dir b d = (r, d')"
  shows "r = Inl e \<and> (\<exists>e'. fst (init_certs K' h' dir b' (d'\<lparr>dk_denied := denied\<rparr>)) = Inl e')"
proof -
  let ?ca = "dir @ [''ca.pem'']" and ?key = "dir @ [''ca-key.pem'']" and ?server = "dir @ [''server.pem'']"
  let ?d1 = "d\<lparr>dk_root := put_at ?ca (Plain ca) (dk_root d)\<rparr>"
  let ?d2 = "?d1\<lparr>dk_root := put_at ?key (Plain ca_key) (dk_root ?d1)\<rparr>"
  have dirs: "dir_at (dk_root d) dir" using dir_at_parent [OF assms(1)] .
  have none: "node_at (dk_root d) ?ca = None" "node_at (dk_root d) ?key = None" "node_at (dk_root d) ?server = None"
    using assms(2) by auto
  have w1: "write_file ?ca ca d = (Inr (), ?d1)"
    by (rule write_plain) (use dirs none assms(5) in auto)
  have dirs1: "dir_at (dk_root ?d1) dir" "dir_at (dk_root ?d1) (dir @ [''clients''])"
    using put_at_keeps_dir [OF dirs, of ?ca] put_at_keeps_dir [OF assms(1), of ?ca] by auto
  have none1: "node_at (dk_root ?d1) ?key = None" "node_at (dk_root ?d1) ?server = None"
    using put_at_parallel [of ?ca ?key] put_at_parallel [of ?ca ?server] none by simp_all
  have w2: "write_file ?key ca_key ?d1 = (Inr (), ?d2)"
    by (rule write_plain) (use dirs1 none1 assms(5) in auto)
  have w3: "write_file ?server cert ?d2 = (Inl e, ?d2)" by (rule write_denied) (simp add: assms(5))
  have ca1: "node_at (dk_root ?d1) ?ca = Some (Plain ca)"
    using put_at_same [of "dk_root d" ?ca] dirs by simp
  have ca2: "node_at (dk_root ?d2) ?ca = Some (Plain ca)" "node_at (dk_root ?d2) ?server = None"
    "dir_at (dk_root ?d2) (dir @ [''clients''])"
    using put_at_parallel [of ?key ?ca] put_at_parallel [of ?key ?server] ca1 none1
      put_at_keeps_dir [OF dirs1(2), of ?key] by simp_all
  have run: "init_certs K h dir b d = (Inl e, ?d2)"
    using create_dir_all_there [OF dirs] create_dir_all_there [OF assms(1)] missing_plain [OF none(1)] assms(3,4) w1 w2 w3
    by (simp add: init_certs_def create_certs_def)
  let ?d' = "d'\<lparr>dk_denied := denied\<rparr>"
  have root: "dk_root ?d' = dk_root ?d2" using run assms(6) by simp
  have "fs_exists ?d' ?ca" by (rule exists_plain) (use root ca2 in simp)
  moreover have "\<not> fs_exists ?d' ?server" by (rule missing_plain) (use root ca2 in simp)
  moreover have "create_dir_all dir ?d' = (Inr (), ?d')" "create_dir_all (dir @ [''clients'']) ?d' = (Inr (), ?d')"
    using create_dir_all_there [of ?d'] dir_at_parent root ca2(3) by metis+
  ultimately have "\<exists>e'. fst (init_certs K' h' dir b' ?d') = Inl e'"
    using load_needs_server_cert [of ?d' dir K'] by (simp add: init_certs_def)
  then show ?thesis using run assms(6) by simp
qed

definition demo_full_disk :: disk where
  "demo_full_disk = \<lparr> dk_root = Dir [(''home'', Dir [(''imsg-bridge'', Dir [(''clients'', Dir [])])])],
     dk_denied = (\<lambda>f. if f = WriteFile (demo_dir @ [''server.pem'']) then Some ''No space left on device'' else None) \<rparr>"

theorem failed_start_is_final_witness:
  "\<exists>d' e'. init_certs demo_pki None demo_dir ''10.0.0.2'' demo_full_disk = (Inl ''No space left on device'', d')
     \<and> fst (init_certs demo_pki None demo_dir ''10.0.0.2'' (d'\<lparr>dk_denied := \<lambda>_. None\<rparr>)) = Inl e'"
proof -
  obtain r d' where run: "init_certs demo_pki None demo_dir ''10.0.0.2'' demo_full_disk = (r, d')" by fastforce
  have "r = Inl ''No space left on device''
     \<and> (\<exists>e'. fst (init_certs demo_pki None demo_dir ''10.0.0.2'' (d'\<lparr>dk_denied := \<lambda>_. None\<rparr>)) = Inl e')"
    by (rule failed_start_is_final [OF _ _ _ _ _ run])
       (simp_all add: demo_full_disk_def demo_dir_def demo_pki_def dir_at_def)
  then show ?thesis using run by blast
qed

section \<open>Issuing\<close>

abbreviation client_file :: "fpath \<Rightarrow> string \<Rightarrow> fpath" where
  "client_file dir name \<equiv> dir @ [''clients'', name @ ''.pem'']"

lemma with_context_Inr [simp]: "with_context msg m s = (Inr x, s') \<longleftrightarrow> m s = (Inr x, s')"
  by (auto simp: with_context_def split: prod.splits sum.splits)

lemma read_Inr: "read_to_string p d = (Inr x, d') \<Longrightarrow> d' = d"
  using read_same [of p d] by simp

lemma read_state: "read_to_string p d = (r, d') \<Longrightarrow> d' = d"
  using read_same [of p d] by simp

lemma check_Inr: "check msg v s = (Inr u, s') \<Longrightarrow> s' = s"
  by (auto simp: check_def split: option.splits)

text \<open>Signing writes the certificate it answers.\<close>

lemma signed:
  assumes "sign_client_csr K dir name csr d = (Inr pem, d')" "list_all name_char name"
    "\<forall>q. node_at (dk_root d) (client_file dir name) \<noteq> Some (Link q)"
  shows "node_at (dk_root d') (client_file dir name) = Some (Plain pem)" "dk_denied d' = dk_denied d"
    "dir_at (dk_root d') (dir @ [''clients''])"
proof -
  obtain d1 where made: "create_dir_all (dir @ [''clients'']) d = (Inr (), d1)"
      and wrote: "write_file (client_file dir name) pem d1 = (Inr (), d')"
    using assms(1,2) by (auto simp: sign_client_csr_def andthen_eq_Inr join_name
        dest!: read_Inr check_Inr)
  have "\<forall>q. node_at (dk_root d1) (client_file dir name) \<noteq> Some (Link q)"
    using assms(3) made make_dirs_link [of "[]" "dir @ [''clients'']" d] by (fastforce simp: create_dir_all_def)
  note w = write_ok [OF wrote this]
  have "dk_denied d1 = dk_denied d" using made create_dir_all_denied [of "dir @ [''clients'']" d] by simp
  then show "dk_denied d' = dk_denied d" using w(1) by simp
  have parent: "dir_at (dk_root d1) (dir @ [''clients''])" using w(2) by (simp add: butlast_append)
  show "node_at (dk_root d') (client_file dir name) = Some (Plain pem)"
    using w(1) put_at_same [OF w(2)] by simp
  show "dir_at (dk_root d') (dir @ [''clients''])"
    using w(1) put_at_keeps_dir [OF parent, of "client_file dir name"] by simp
qed

lemma keeps_sign:
  assumes "list_all name_char name" "q \<noteq> client_file dir name" "client_file dir name \<in> ps"
  shows "keeps (file_kept q c ps) (sign_client_csr K dir name csr)"
  using assms by (auto simp: sign_client_csr_def join_name intro!: keeps_intros)

text \<open>A certificate that is on file is allowed.\<close>

lemma on_file_allowed:
  assumes "node_at (dk_root d) (dir @ [''clients'', f]) = Some (Plain pem)" "c \<in> set (stored_certs K pem)"
    "dk_denied d (ListDir (dir @ [''clients''])) = None" "dk_denied d (ReadFile (dir @ [''clients'', f])) = None"
  shows "client_allowed K dir [c] d"
proof -
  obtain es where es: "node_at (dk_root d) (dir @ [''clients'']) = Some (Dir es)" "map_of es f = Some (Plain pem)"
    using assms(1) node_at_snoc [of "dk_root d" "dir @ [''clients'']" f] by auto
  then have "f \<in> set (map fst es)" by (force dest: map_of_SomeD)
  moreover have "read_dir (dir @ [''clients'']) d = (Inr (remdups (map fst es)), d)"
    using es(1) assms(3) by (simp add: read_dir_def andthen_apply follow_def final_path_plain permitted_def)
  moreover have "read_to_string (dir @ [''clients'', f]) d = (Inr pem, d)"
    using read_plain [OF assms(1,4)] .
  ultimately show ?thesis using assms(2) by (force simp: client_allowed_def list_ex_iff)
qed

lemma enroll_signed:
  assumes "enroll_handler (enroll_on_disk K now disk h dir) config peer req m d = (Enrolled r, m', d')"
  shows "sign_client_csr K dir (sanitize_client_name (er_client_name req)) (er_csr_pem req) d
      = (Inr (en_client_cert_pem r), d')"
    and "read_to_string (dir @ [''ca.pem'']) d' = (Inr (en_ca_pem r), d')"
  using assms
  by (cases rule: enroll_cases;
      auto simp: sign_request_def enroll_on_disk_def Let_def dest!: read_Inr
        split: if_splits sum.splits prod.splits)+

lemma enrolled_allowed:
  assumes "enroll_handler (enroll_on_disk K now disk h dir) config peer req m d = (Enrolled r, m', d')"
    and "name = sanitize_client_name (er_client_name req)"
    and "\<forall>q. node_at (dk_root d) (client_file dir name) \<noteq> Some (Link q)"
    and "dk_denied d (ListDir (dir @ [''clients''])) = None"
    and "dk_denied d (ReadFile (client_file dir name)) = None"
  shows "\<And>c. c \<in> set (stored_certs K (en_client_cert_pem r)) \<Longrightarrow> client_allowed K dir [c] d'"
    and "read_to_string (dir @ [''ca.pem'']) d' = (Inr (en_ca_pem r), d')"
    and "\<And>q s. q \<noteq> client_file dir name \<Longrightarrow> node_at (dk_root d) q = Some (Plain s) \<Longrightarrow>
      node_at (dk_root d') q = Some (Plain s)"
proof -
  have plain: "list_all name_char name" using sanitized_name(1) assms(2) by simp
  note run = enroll_signed [OF assms(1), folded assms(2)]
  note s = signed [OF run(1) plain assms(3)]
  show "client_allowed K dir [c] d'" if "c \<in> set (stored_certs K (en_client_cert_pem r))" for c
    by (rule on_file_allowed [OF s(1) that]) (simp_all add: s(2) assms(4,5))
  show "read_to_string (dir @ [''ca.pem'']) d' = (Inr (en_ca_pem r), d')" by (rule run(2))
  show "node_at (dk_root d') q = Some (Plain x)" if "q \<noteq> client_file dir name" "node_at (dk_root d) q = Some (Plain x)" for q x
  proof -
    have "file_kept q x {client_file dir name} d" using that(2) assms(3) by (simp add: file_kept_def)
    from keepsE [OF keeps_sign [OF plain that(1) insertI1] this run(1)] show ?thesis by (simp add: file_kept_def)
  qed
qed

text \<open>What an enrolment reads is what the server reads.\<close>

lemma read_of_plain: "node_at (dk_root d) p = Some (Plain s) \<Longrightarrow> read_to_string p d = (Inr x, d') \<Longrightarrow> x = s"
  by (cases "dk_denied d (ReadFile p)") (auto simp: read_to_string_def andthen_apply permitted_def follow_def final_path_plain)

lemma add_roots_all: "add_roots K rs d = (Inr cs, d') \<Longrightarrow> rs = map Inr cs"
  by (induction rs arbitrary: cs d d' rule: add_roots.induct) (auto simp: andthen_eq_Inr raise_def ret_def dest: check_Inr)

lemma loaded_roots:
  assumes "load_server_config K dir d = (Inr t, d')" "read_to_string (dir @ [''ca.pem'']) d = (Inr ca, d)"
  shows "\<exists>roots. sc_client_roots (tm_server_config t) = Some roots \<and> pk_certs K ca = map Inr roots \<and> tm_ca_cert_pem t = ca"
  using assms
  by (auto simp: load_server_config_def andthen_eq_Inr ret_def dest!: read_Inr add_roots_all check_Inr split: prod.splits)

lemma sign_uses_authority:
  assumes "sign_client_csr K dir name csr d = (Inr pem, d')" "node_at (dk_root d) (dir @ [''ca.pem'']) = Some (Plain ca)"
  shows "\<exists>ca_key. read_to_string (dir @ [''ca-key.pem'']) d = (Inr ca_key, d) \<and> pk_signed_by K ca ca_key csr = Inr pem"
proof -
  obtain x key where x: "read_to_string (dir @ [''ca.pem'']) d = (Inr x, d)"
      and key: "read_to_string (dir @ [''ca-key.pem'']) d = (Inr key, d)" and "pk_signed_by K x key csr = Inr pem"
    using assms(1) read_same [of _ d]
    by (auto simp: sign_client_csr_def andthen_eq_Inr of_result_def split: sum.splits dest!: check_Inr)
       (metis read_Inr)
  then show ?thesis using read_of_plain [OF assms(2) x] by blast
qed

text \<open>Later enrolments under other names leave a client's file as it is.\<close>

lemma enroll_keeps:
  assumes "enroll_handler (enroll_on_disk K now disk h dir) config peer req m d = (reply, m', d')" "P d"
    and "keeps P (sign_client_csr K dir (sanitize_client_name (er_client_name req)) (er_csr_pem req))"
  shows "P d'"
  using assms
  by (auto simp: enroll_handler_def enroll_checked_def sign_request_def enroll_on_disk_def Let_def dest: keepsE dest!: read_state
      split: prod.splits bool.splits if_splits sum.splits)

definition enrols_as_others ::
  "'c pki \<Rightarrow> fpath \<Rightarrow> string \<Rightarrow> (disk enroll_world \<times> string \<times> enroll_request) list \<Rightarrow> bool" where
  "enrols_as_others K dir name reqs \<longleftrightarrow>
     (\<forall>(W, _, req)\<in>set reqs. (\<exists>now disk h. W = enroll_on_disk K now disk h dir)
        \<and> sanitize_client_name (er_client_name req) \<noteq> name)"

lemma serve_keeps:
  "serve_enrolls config reqs m d = (replies, m', d') \<Longrightarrow> enrols_as_others K dir name reqs \<Longrightarrow> P d \<Longrightarrow>
     (\<And>n csr. list_all name_char n \<Longrightarrow> n \<noteq> name \<Longrightarrow> keeps P (sign_client_csr K dir n csr)) \<Longrightarrow> P d'"
proof (induction reqs arbitrary: m d replies)
  case (Cons r reqs)
  obtain W p req where r: "r = (W, p, req)" by (cases r)
  obtain reply m1 d1 where one: "enroll_handler W config p req m d = (reply, m1, d1)" by (rule prod_cases3)
  obtain rest where rest: "serve_enrolls config reqs m1 d1 = (rest, m', d')"
    using Cons.prems(1) r one by (auto split: prod.splits)
  obtain now disk h where W: "W = enroll_on_disk K now disk h dir"
      and other: "sanitize_client_name (er_client_name req) \<noteq> name"
    using Cons.prems(2) r by (auto simp: enrols_as_others_def)
  have "P d1"
    using enroll_keeps [OF one [unfolded W], of P] Cons.prems(3,4) other sanitized_name(1) by blast
  moreover have "enrols_as_others K dir name reqs" using Cons.prems(2) by (simp add: enrols_as_others_def)
  ultimately show ?case using Cons.IH [OF rest] Cons.prems(4) by blast
qed simp

lemma keeps_denied_sign: "keeps (\<lambda>d. dk_denied d = D) (sign_client_csr K dir name csr)"
  by (auto simp: sign_client_csr_def intro!: keeps_intros)

lemma client_stays_allowed:
  assumes "node_at (dk_root d) (client_file dir name) = Some (Plain pem)" "c \<in> set (stored_certs K pem)"
    and "\<forall>n q. node_at (dk_root d) (client_file dir n) \<noteq> Some (Link q)"
    and "dk_denied d (ListDir (dir @ [''clients''])) = None" "dk_denied d (ReadFile (client_file dir name)) = None"
    and "serve_enrolls config reqs m d = (replies, m', d')" "enrols_as_others K dir name reqs"
  shows "client_allowed K dir [c] d'"
proof (rule on_file_allowed [OF _ assms(2)])
  have "dk_denied d' = dk_denied d" by (rule serve_keeps [OF assms(6,7) refl keeps_denied_sign])
  then show "dk_denied d' (ListDir (dir @ [''clients''])) = None" "dk_denied d' (ReadFile (client_file dir name)) = None"
    using assms(4,5) by simp_all
  have "file_kept (client_file dir name) pem (range (client_file dir)) d" using assms(1,3) by (auto simp: file_kept_def)
  then have "file_kept (client_file dir name) pem (range (client_file dir)) d'"
    by (rule serve_keeps [OF assms(6,7)]) (intro keeps_sign; simp)
  then show "node_at (dk_root d') (client_file dir name) = Some (Plain pem)" by (simp add: file_kept_def)
qed

text \<open>The authority of an enrolment: the one on the bridge's disk signs, is answered, and is what the server trusts.\<close>

lemma enrolled_by_authority:
  assumes "enroll_handler (enroll_on_disk K now disk h dir) config peer req m d = (Enrolled r, m', d')"
    and "\<forall>n q. node_at (dk_root d) (client_file dir n) \<noteq> Some (Link q)"
    and "node_at (dk_root d) (dir @ [''ca.pem'']) = Some (Plain ca)"
  shows "en_ca_pem r = ca" "node_at (dk_root d') (dir @ [''ca.pem'']) = Some (Plain ca)"
    and "\<exists>ca_key. read_to_string (dir @ [''ca-key.pem'']) d = (Inr ca_key, d)
          \<and> pk_signed_by K ca ca_key (er_csr_pem req) = Inr (en_client_cert_pem r)"
    and "fst (load_server_config K dir d') = Inr t \<Longrightarrow>
          \<exists>roots. sc_client_roots (tm_server_config t) = Some roots \<and> pk_certs K ca = map Inr roots"
    and "node_at (dk_root d') (client_file dir n) \<noteq> Some (Link q)"
proof -
  let ?name = "sanitize_client_name (er_client_name req)"
  have plain: "list_all name_char ?name" using sanitized_name(1) by blast
  note run = enroll_signed [OF assms(1)]
  have "file_kept (dir @ [''ca.pem'']) ca (range (client_file dir)) d" using assms(2,3) by (auto simp: file_kept_def)
  from keepsE [OF keeps_sign [OF plain] this run(1)]
  have kept: "file_kept (dir @ [''ca.pem'']) ca (range (client_file dir)) d'" by simp
  then show ca: "node_at (dk_root d') (dir @ [''ca.pem'']) = Some (Plain ca)" by (simp add: file_kept_def)
  show same: "en_ca_pem r = ca" using read_of_plain [OF ca run(2)] .
  show "\<exists>ca_key. read_to_string (dir @ [''ca-key.pem'']) d = (Inr ca_key, d)
      \<and> pk_signed_by K ca ca_key (er_csr_pem req) = Inr (en_client_cert_pem r)"
    using sign_uses_authority [OF run(1) assms(3)] .
  show "\<exists>roots. sc_client_roots (tm_server_config t) = Some roots \<and> pk_certs K ca = map Inr roots"
    if "fst (load_server_config K dir d') = Inr t"
    using that loaded_roots [of K dir d' t _ ca] run(2) same by (cases "load_server_config K dir d'") fastforce
  show "node_at (dk_root d') (client_file dir n) \<noteq> Some (Link q)" using kept by (auto simp: file_kept_def)
qed

text \<open>C9: who enrols gets a certificate for its own request, signed with the authority on the bridge's disk, which it is
  given and against which the server, loaded from that disk, checks its clients.  The certificate is on the list of
  clients (\<^verbatim>\<open>client_allowed\<close>) then and after any later enrolments under other names; one under the same sanitised name
  replaces its file.  No file but the client's own is written.\<close>

theorem enrolled_client_is_allowed:
  assumes "enroll_handler (enroll_on_disk K now disk h dir) config peer req m d = (Enrolled r, m', d')"
    and "name = sanitize_client_name (er_client_name req)"
    and "\<forall>n q. node_at (dk_root d) (client_file dir n) \<noteq> Some (Link q)"
    and "dk_denied d (ListDir (dir @ [''clients''])) = None"
    and "dk_denied d (ReadFile (client_file dir name)) = None"
    and "node_at (dk_root d) (dir @ [''ca.pem'']) = Some (Plain ca)"
  shows "en_ca_pem r = ca \<and> node_at (dk_root d') (dir @ [''ca.pem'']) = Some (Plain ca)
     \<and> (\<exists>ca_key. read_to_string (dir @ [''ca-key.pem'']) d = (Inr ca_key, d)
          \<and> pk_signed_by K ca ca_key (er_csr_pem req) = Inr (en_client_cert_pem r))
     \<and> (\<forall>t. fst (load_server_config K dir d') = Inr t \<longrightarrow>
          (\<exists>roots. sc_client_roots (tm_server_config t) = Some roots \<and> pk_certs K ca = map Inr roots))
     \<and> (\<forall>reqs m1 replies m2 d2. enrols_as_others K dir name reqs \<longrightarrow>
          serve_enrolls config reqs m1 d' = (replies, m2, d2) \<longrightarrow>
            (\<forall>c\<in>set (stored_certs K (en_client_cert_pem r)). client_allowed K dir [c] d2))
     \<and> (\<forall>q s. q \<noteq> client_file dir name \<longrightarrow> node_at (dk_root d) q = Some (Plain s) \<longrightarrow>
          node_at (dk_root d') q = Some (Plain s))"
proof -
  have link: "\<forall>q. node_at (dk_root d) (client_file dir name) \<noteq> Some (Link q)" using assms(3) by blast
  have plain: "list_all name_char name" using sanitized_name(1) assms(2) by simp
  note run = enroll_signed [OF assms(1), folded assms(2)]
  note on_file = signed [OF run(1) plain link]
  note allowed = enrolled_allowed [OF assms(1,2) link assms(4,5)]
  note authority = enrolled_by_authority [OF assms(1,3,6)]
  have "client_allowed K dir [c] d2"
    if "enrols_as_others K dir name reqs" "serve_enrolls config reqs m1 d' = (replies, m2, d2)"
      "c \<in> set (stored_certs K (en_client_cert_pem r))" for c reqs m1 replies m2 d2
    using client_stays_allowed [OF on_file(1) that(3) _ _ _ that(2,1)] authority(5) on_file(2) assms(4,5) by simp
  then show ?thesis using authority(1-4) allowed(3) by blast
qed

theorem enrolled_client_is_allowed_witness:
  "\<exists>r m' d'. enroll_handler (enroll_on_disk demo_pki 5 (Inl ''no file'') None demo_dir) demo_config ''peer''
       (demo_enroll ''01234567'') Map.empty demo_started = (Enrolled r, m', d')
     \<and> en_ca_pem r = ''ca cert''
     \<and> (\<forall>c\<in>set (stored_certs demo_pki (en_client_cert_pem r)). client_allowed demo_pki demo_dir [c] d')"
proof -
  let ?W = "enroll_on_disk demo_pki 5 (Inl ''no file'') None demo_dir"
  let ?run = "enroll_handler ?W demo_config ''peer'' (demo_enroll ''01234567'') Map.empty demo_started"
  obtain reply m' d' where run: "?run = (reply, m', d')" by (cases ?run)
  have "case fst ?run of Enrolled _ \<Rightarrow> True | Refused _ _ \<Rightarrow> False" by code_simp
  then obtain r where "reply = Enrolled r" using run by (cases reply) auto
  with run have run: "?run = (Enrolled r, m', d')" by simp
  have name: "''mylaptop'' = sanitize_client_name (er_client_name (demo_enroll ''01234567''))" by code_simp
  have files: "node_at (dk_root demo_started) (demo_dir @ [''ca.pem'']) = Some (Plain ''ca cert'')"
    "node_at (dk_root demo_started) (demo_dir @ [''clients'']) = Some (Dir [])"
    "dk_denied demo_started (ListDir (demo_dir @ [''clients''])) = None"
    "dk_denied demo_started (ReadFile (client_file demo_dir ''mylaptop'')) = None" by code_simp+
  have "\<forall>n q. node_at (dk_root demo_started) (client_file demo_dir n) \<noteq> Some (Link q)"
    using files(2) node_at_snoc [of "dk_root demo_started" "demo_dir @ [''clients'']"] by auto
  from enrolled_client_is_allowed [OF run name this files(3,4,1)] have ca: "en_ca_pem r = ''ca cert''"
    and later: "enrols_as_others demo_pki demo_dir ''mylaptop'' reqs \<Longrightarrow>
      serve_enrolls demo_config reqs m1 d' = (replies, m2, d2) \<Longrightarrow>
      \<forall>c\<in>set (stored_certs demo_pki (en_client_cert_pem r)). client_allowed demo_pki demo_dir [c] d2"
    for reqs m1 replies m2 d2 by blast+
  have "\<forall>c\<in>set (stored_certs demo_pki (en_client_cert_pem r)). client_allowed demo_pki demo_dir [c] d'"
    by (rule later [of "[]" m' "[]" m']) (simp_all add: enrols_as_others_def)
  then show ?thesis using run ca by blast
qed

text \<open>a certificate imported under a name with \<^verbatim>\<open>..\<close> leaves the directory of the clients: the name is not
  sanitised on this way, and \<^verbatim>\<open>../ca\<close> replaces the authority.\<close>

theorem import_can_replace_authority:
  assumes "import_client_cert dir ''../ca'' pem d = (Inr p, d')"
    and "\<forall>q. node_at (dk_root d) (dir @ [''ca.pem'']) \<noteq> Some (Link q)"
  shows "p = dir @ [''ca.pem''] \<and> node_at (dk_root d') (dir @ [''ca.pem'']) = Some (Plain pem)"
proof -
  have path: "join_text (dir @ [''clients'']) (''../ca'' @ ''.pem'') = dir @ [''ca.pem'']"
    by (simp add: join_text_def starts_with_def)
  obtain d1 where made: "create_dir_all (dir @ [''clients'']) d = (Inr (), d1)"
      and wrote: "write_file (dir @ [''ca.pem'']) pem d1 = (Inr (), d')" and p: "p = dir @ [''ca.pem'']"
    using assms(1) path by (auto simp: import_client_cert_def Let_def andthen_eq_Inr)
  have "\<forall>q. node_at (dk_root d1) (dir @ [''ca.pem'']) \<noteq> Some (Link q)"
    using assms(2) made make_dirs_link [of "[]" "dir @ [''clients'']" d] by (fastforce simp: create_dir_all_def)
  from write_ok [OF wrote this] show ?thesis using p put_at_same by simp
qed

theorem import_can_replace_authority_witness:
  "\<exists>p d'. import_client_cert demo_dir ''../ca'' ''mine'' demo_started = (Inr p, d')
     \<and> node_at (dk_root d') (demo_dir @ [''ca.pem'']) = Some (Plain ''mine'')"
proof -
  obtain r d' where run: "import_client_cert demo_dir ''../ca'' ''mine'' demo_started = (r, d')" by fastforce
  have "fst (import_client_cert demo_dir ''../ca'' ''mine'' demo_started) = Inr (demo_dir @ [''ca.pem''])"
    by code_simp
  moreover have "node_at (dk_root demo_started) (demo_dir @ [''ca.pem'']) = Some (Plain ''ca cert'')" by code_simp
  ultimately show ?thesis
    using run import_can_replace_authority [of demo_dir "''mine''" demo_started "demo_dir @ [''ca.pem'']" d'] by auto
qed

end
