(* ===== verification/Report.thy ===== *)
theory Report
  imports Main
begin

text \<open>
  The reports of the three \<^verbatim>\<open>doctor\<close> commands (\<^verbatim>\<open>sync\<close>, \<^verbatim>\<open>bridge\<close> and \<^verbatim>\<open>setup\<close> declare the same two structs and
  the same closure): a list of checks, and whether all of them passed.
\<close>

record doctor_check =
  dc_name :: string
  dc_ok :: bool
  dc_detail :: string

record doctor_report =
  dr_ok :: bool
  dr_checks :: "doctor_check list"

text \<open>\<^verbatim>\<open>ok &= push(name, pass, detail)\<close>.\<close>

definition push_check :: "string \<Rightarrow> bool \<Rightarrow> string \<Rightarrow> doctor_report \<Rightarrow> doctor_report" where
  "push_check name pass detail r =
     \<lparr> dr_ok = (dr_ok r \<and> pass),
       dr_checks = dr_checks r @ [\<lparr> dc_name = name, dc_ok = pass, dc_detail = detail \<rparr>] \<rparr>"

definition no_checks :: doctor_report where
  "no_checks = \<lparr> dr_ok = True, dr_checks = [] \<rparr>"

text \<open>The flag is the conjunction of the checks, whatever is pushed.\<close>

definition report_sound :: "doctor_report \<Rightarrow> bool" where
  "report_sound r \<longleftrightarrow> (dr_ok r \<longleftrightarrow> list_all dc_ok (dr_checks r))"

lemma no_checks_sound [simp, intro]: "report_sound no_checks"
  by (simp add: report_sound_def no_checks_def)

lemma push_check_sound [simp, intro]: "report_sound r \<Longrightarrow> report_sound (push_check name pass detail r)"
  by (auto simp: report_sound_def push_check_def)

lemma push_check_simps [simp]:
  "dr_ok (push_check name pass detail r) \<longleftrightarrow> dr_ok r \<and> pass" "dr_ok no_checks"
  by (simp_all add: push_check_def no_checks_def)

end
