(* ===== verification/Bridge_Commands.thy ===== *)
theory Bridge_Commands
  imports Tls Contacts_Auth Report
begin

text \<open>
  The commands of the bridge, \<^verbatim>\<open>bridge/src/commands.rs\<close>, with the loading and saving of its settings in
  \<^verbatim>\<open>bridge/src/config.rs\<close>, over the disk.  The TOML library, the directory of the settings and the
  printing of a path are the parameter \<open>config_lib\<close>.  A relative path is taken from the root.
\<close>

section \<open>Settings on disk\<close>

record config_lib =
  cl_config_dir :: "string option"
  cl_render :: "bridge_config \<Rightarrow> string"
  cl_parse :: "string \<Rightarrow> bridge_config option"
  cl_debug :: "string \<Rightarrow> string"
  cl_ipv6 :: "string \<Rightarrow> u16 list option"

definition config_path_text :: "config_lib \<Rightarrow> string" where
  "config_path_text L = unwrap_or (cl_config_dir L) ''.'' @ ''/imsg-bridge/config.toml''"

definition config_path :: "config_lib \<Rightarrow> fpath" where
  "config_path L = join_text [] (config_path_text L)"

definition data_path :: "bridge_config \<Rightarrow> fpath" where
  "data_path config = join_text [] (bc_data_dir config)"

definition load_config :: "config_lib \<Rightarrow> ('z disk_scheme, string, bridge_config) act" where
  "load_config L d =
     (if fs_exists d (config_path L)
      then andthen (with_context ''read config'' (read_to_string (config_path L))) (\<lambda>s.
           of_result (case cl_parse L s of None \<Rightarrow> Inl ''parse config'' | Some c \<Rightarrow> Inr c)) d
      else (Inr (default_config (cl_config_dir L)), d))"

definition save_config :: "config_lib \<Rightarrow> bridge_config \<Rightarrow> ('z disk_scheme, string, unit) act" where
  "save_config L config =
     andthen (create_dir_all (data_path config)) (\<lambda>_.
     andthen (create_dir_all (butlast (config_path L))) (\<lambda>_.
     write_file (config_path L) (cl_render L config)))"

text \<open>\<^verbatim>\<open>Config::load().unwrap_or_default()\<close>.\<close>

definition load_or_default :: "config_lib \<Rightarrow> ('z disk_scheme, string, bridge_config) act" where
  "load_or_default L d =
     (case load_config L d of
        (Inl _, d') \<Rightarrow> (Inr (default_config (cl_config_dir L)), d')
      | (Inr c, d') \<Rightarrow> (Inr c, d'))"

section \<open>Commands\<close>

record init_result =
  ir_data_dir :: string
  ir_pairing_code :: string
  ir_enroll_port :: u16
  ir_mdns_advertise :: bool

text \<open>What a command meets: the time, a fresh UUID and the name of the host.\<close>

record moment =
  mo_now :: instant
  mo_uuid :: string
  mo_hostname :: "string option"

definition init :: "config_lib \<Rightarrow> 'c pki \<Rightarrow> moment \<Rightarrow> string \<Rightarrow> u16 \<Rightarrow> bool \<Rightarrow> ('z disk_scheme, string, init_result) act" where
  "init L K T bind port mdns =
     andthen (load_or_default L) (\<lambda>loaded.
       let config = init_config (mo_now T) (mo_uuid T) bind port mdns loaded in
       andthen (save_config L config) (\<lambda>_.
       andthen (init_certs K (mo_hostname T) (data_path config) bind) (\<lambda>_.
       ret \<lparr> ir_data_dir = bc_data_dir config, ir_pairing_code = unwrap_or (bc_pairing_code config) [],
             ir_enroll_port = bc_enroll_port config, ir_mdns_advertise = mdns \<rparr>)))"

text \<open>\<^verbatim>\<open>pair\<close> answers the status, which it prints or gives as JSON.\<close>

definition pair_command :: "config_lib \<Rightarrow> moment \<Rightarrow> bool \<Rightarrow> ('z disk_scheme, string, pairing_status) act" where
  "pair_command L T again =
     andthen (load_config L) (\<lambda>loaded.
       let config = (if again then snd (rotate_pairing_code (mo_now T) (mo_uuid T) loaded) else loaded) in
       andthen (if again then save_config L config else ret ()) (\<lambda>_.
       ret (pairing_status_of (mo_now T) (mo_hostname T) config)))"

definition import_client :: "config_lib \<Rightarrow> string \<Rightarrow> fpath \<Rightarrow> ('z disk_scheme, string, fpath) act" where
  "import_client L name cert =
     andthen (load_config L) (\<lambda>config.
     andthen (with_context ''read client cert'' (read_to_string cert)) (\<lambda>pem.
     import_client_cert (data_path config) name pem))"

text \<open>\<^verbatim>\<open>serve\<close> up to the server.\<close>

definition serve :: "config_lib \<Rightarrow> ('z disk_scheme, bind_error + string, bridge_config) act" where
  "serve L d =
     (case load_config L d of
        (Inl e, d') \<Rightarrow> (Inl (Inr e), d')
      | (Inr config, d') \<Rightarrow>
          (case validate_bind (cl_ipv6 L) config of
             Inl e \<Rightarrow> (Inl (Inl e), d') | Inr _ \<Rightarrow> (Inr config, d')))"

text \<open>\<^verbatim>\<open>status\<close>: an \<^verbatim>\<open>imsg\<close> that does not know the method is asked for a chat.  Launching it and a call of its
  RPC are the parameters \<open>spawn\<close> and \<open>call\<close>.\<close>

definition bridge_status ::
  "config_lib \<Rightarrow> (string \<Rightarrow> ('z disk_scheme, string, unit) act) \<Rightarrow>
     (string \<Rightarrow> json \<Rightarrow> ('z disk_scheme, string, json) act) \<Rightarrow> ('z disk_scheme, string, json) act" where
  "bridge_status L spawn call =
     andthen (load_or_default L) (\<lambda>config.
     andthen (spawn (bc_imsg_path config)) (\<lambda>_ d.
       case call ''status'' (mk_obj []) d of
         (Inr v, d') \<Rightarrow> (Inr v, d')
       | (Inl _, d') \<Rightarrow> call ''chats.list'' (chats_limit 1) d'))"

section \<open>Checks\<close>

text \<open>\<open>H\<close> is the host the programs are looked for on.\<close>

definition bridge_doctor :: "config_lib \<Rightarrow> host \<Rightarrow> instant \<Rightarrow> 'z disk_scheme \<Rightarrow> doctor_report" where
  "bridge_doctor L H now d =
     (let config = (case fst (load_or_default L d) of Inl _ \<Rightarrow> default_config (cl_config_dir L) | Inr c \<Rightarrow> c);
          dir = data_path config;
          r1 = push_check ''config'' (fs_exists d (config_path L)) (cl_debug L (config_path_text L)) no_checks;
          r2 = push_check ''ca'' (fs_exists d (dir @ [''ca.pem''])) ''ca.pem present'' r1;
          r3 = push_check ''server-tls''
                 (fs_exists d (dir @ [''server.pem'']) \<and> fs_exists d (dir @ [''server-key.pem'']))
                 ''server cert/key present'' r2;
          r4 = push_check ''pairing'' (pairing_code_valid now config) ''pairing code active'' r3;
          r5 = push_check ''bind'' (validate_bind (cl_ipv6 L) config = Inr ())
                 (bc_bind config @ '':'' @ show_int (uint (bc_port config))) r4
      in case resolve_steipete_imsg H (bc_imsg_path config) of
           Some p \<Rightarrow> push_check ''steipete-imsg'' True p r5
         | None \<Rightarrow> push_check ''steipete-imsg'' False INSTALL_CMD r5)"

end
