(* ===== verification/Commands_Contract.thy ===== *)
theory Commands_Contract
  imports Bridge_Commands Tls_Contract
begin

text \<open>
  What the commands promise: what is on disk after a command, and when a report says that all is well.
\<close>

section \<open>The settings file\<close>

lemma split_on_nonempty [simp]: "split_on sep s \<noteq> []"
  by (cases s) (auto split: list.splits)

lemma split_on_append: "split_on sep (s @ sep # t) = split_on sep s @ split_on sep t"
proof (induction s)
  case (Cons c s)
  then show ?case by (cases "split_on sep s") (auto split: list.splits)
qed simp

lemma config_path_last: "last (config_path L) = ''config.toml''" "config_path L \<noteq> []"
proof -
  have "split_on CHR ''/'' (config_path_text L)
      = split_on CHR ''/'' (unwrap_or (cl_config_dir L) ''.'') @ [''imsg-bridge'', ''config.toml'']"
    using split_on_append [of "CHR ''/''" _ "''imsg-bridge/config.toml''"] by (simp add: config_path_text_def)
  then show "last (config_path L) = ''config.toml''" "config_path L \<noteq> []"
    by (simp_all add: config_path_def join_text_def)
qed

lemma config_path_other: "f \<noteq> ''config.toml'' \<Longrightarrow> config_path L \<noteq> dir @ [f]"
  using config_path_last by (metis last_snoc)

lemma load_config_same: "snd (load_config L d) = d"
  by (auto simp: load_config_def andthen_apply with_context_def split: prod.splits sum.splits option.splits
      dest: arg_cong [where f = snd] simp: read_same)

lemma load_or_default_run:
  "load_or_default L d = (Inr (case fst (load_config L d) of Inl _ \<Rightarrow> default_config (cl_config_dir L) | Inr c \<Rightarrow> c), d)"
  using load_config_same [of L d] by (auto simp: load_or_default_def split: prod.splits sum.splits)

lemma load_written:
  assumes "node_at (dk_root d) (config_path L) = Some (Plain (cl_render L c))" "cl_parse L (cl_render L c) = Some c"
    "dk_denied d (ReadFile (config_path L)) = None"
  shows "load_config L d = (Inr c, d)"
  using exists_plain [OF assms(1)] read_plain [OF assms(1,3)] assms(2)
  by (simp add: load_config_def andthen_apply with_context_def)

text \<open>Saving, when it returns, leaves the text there.\<close>

lemma saved:
  assumes "save_config L c d = (Inr u, d')" "\<forall>q. node_at (dk_root d) (config_path L) \<noteq> Some (Link q)"
  shows "node_at (dk_root d') (config_path L) = Some (Plain (cl_render L c))" "dk_denied d' = dk_denied d"
    and "node_at (dk_root d') p = Some (Link q) \<Longrightarrow> node_at (dk_root d) p = Some (Link q)"
proof -
  obtain d1 d2 where made: "create_dir_all (data_path c) d = (Inr (), d1)"
      "create_dir_all (butlast (config_path L)) d1 = (Inr (), d2)"
      and wrote: "write_file (config_path L) (cl_render L c) d2 = (Inr (), d')"
    using assms(1) by (auto simp: save_config_def andthen_eq_Inr)
  have "\<forall>q. node_at (dk_root d2) (config_path L) \<noteq> Some (Link q)"
    using assms(2) made make_dirs_link [of "[]" "data_path c" d] make_dirs_link [of "[]" "butlast (config_path L)" d1]
    by (fastforce simp: create_dir_all_def)
  note w = write_ok [OF wrote this]
  show "node_at (dk_root d) p = Some (Link q)" if "node_at (dk_root d') p = Some (Link q)"
    using that wrote made write_no_link [of "config_path L" "cl_render L c" d2 p q]
      make_dirs_link [of "[]" "data_path c" d p q] make_dirs_link [of "[]" "butlast (config_path L)" d1 p q]
    by (simp add: create_dir_all_def)
  show "node_at (dk_root d') (config_path L) = Some (Plain (cl_render L c))" using w put_at_same by simp
  show "dk_denied d' = dk_denied d"
    using w(1) made create_dir_all_denied [of "data_path c" d] create_dir_all_denied [of "butlast (config_path L)" d1] by simp
qed

definition cert_files :: "fpath \<Rightarrow> fpath set" where
  "cert_files dir = (\<lambda>f. dir @ [f]) ` {''ca.pem'', ''ca-key.pem'', ''server.pem'', ''server-key.pem''}"

lemma keeps_init_certs:
  "keeps (file_kept (config_path L) c (cert_files dir)) (init_certs K h dir b)"
proof -
  have "keeps (file_kept (config_path L) c (cert_files dir)) (create_certs K h dir b)"
    by (auto simp: create_certs_def cert_files_def config_path_other intro!: keeps_intros split: prod.splits)
  then have "keeps (file_kept (config_path L) c (cert_files dir))
      (\<lambda>d. if fs_exists d (dir @ [''ca.pem'']) then (Inr (), d) else create_certs K h dir b d)"
    by (auto simp: keeps_def)
  then show ?thesis by (auto simp: init_certs_def intro!: keeps_intros)
qed

lemma keeps_denied_init: "keeps (\<lambda>d. dk_denied d = D) (init_certs K h dir b)"
proof -
  have "keeps (\<lambda>d. dk_denied d = D) (create_certs K h dir b)"
    by (auto simp: create_certs_def intro!: keeps_intros split: prod.splits)
  then have "keeps (\<lambda>d. dk_denied d = D)
      (\<lambda>d. if fs_exists d (dir @ [''ca.pem'']) then (Inr (), d) else create_certs K h dir b d)"
    by (auto simp: keeps_def)
  then show ?thesis by (auto simp: init_certs_def intro!: keeps_intros)
qed

lemma init_config_valid:
  assumes "uuid \<noteq> []"
  shows "pairing_code_valid now (init_config now uuid bind port mdns c)"
    and "pairing_code_valid now c \<Longrightarrow> bc_pairing_code (init_config now uuid bind port mdns c) = bc_pairing_code c"
    and "bc_data_dir (init_config now uuid bind port mdns c) = bc_data_dir c"
  using assms
  by (auto simp: init_config_def Let_def rotate_pairing_code_def pairing_code_valid_def CODE_TTL_def split: option.splits)

lemma init_saved:
  assumes "init L K T bind port mdns d = (Inr r, d')"
    and "config = init_config (mo_now T) (mo_uuid T) bind port mdns
        (case fst (load_config L d) of Inl _ \<Rightarrow> default_config (cl_config_dir L) | Inr c \<Rightarrow> c)"
    and "mo_uuid T \<noteq> []" "cl_parse L (cl_render L config) = Some config"
    and "\<forall>p\<in>insert (config_path L) (cert_files (data_path config)). \<forall>q. node_at (dk_root d) p \<noteq> Some (Link q)"
    and "\<forall>f. dk_denied d (ReadFile f) = None"
  shows "fst (load_config L d') = Inr config" "pairing_code_valid (mo_now T) config"
    "bc_pairing_code config = Some (ir_pairing_code r)" "bc_bind config = bind" "bc_port config = port"
    "\<And>c. fst (load_config L d) = Inr c \<Longrightarrow> pairing_code_valid (mo_now T) c \<Longrightarrow>
       ir_pairing_code r = unwrap_or (bc_pairing_code c) []"
proof -
  obtain d1 u m where save: "save_config L config d = (Inr u, d1)"
      and certs: "init_certs K (mo_hostname T) (data_path config) bind d1 = (Inr m, d')"
      and r: "ir_pairing_code r = unwrap_or (bc_pairing_code config) []"
    using assms(1,2) by (auto simp: init_def load_or_default_run andthen_apply Let_def split: prod.splits sum.splits)
  note s = saved [OF save]
  have links: "\<forall>p\<in>cert_files (data_path config). \<forall>q. node_at (dk_root d1) p \<noteq> Some (Link q)"
    using s(3) assms(5) by blast
  have written: "node_at (dk_root d1) (config_path L) = Some (Plain (cl_render L config))" "dk_denied d1 = dk_denied d"
    using s(1,2) assms(5) by blast+
  then have "file_kept (config_path L) (cl_render L config) (cert_files (data_path config)) d1"
    using links by (simp add: file_kept_def)
  then have "node_at (dk_root d') (config_path L) = Some (Plain (cl_render L config))"
    using keepsE [OF keeps_init_certs _ certs] by (auto simp: file_kept_def)
  moreover have "dk_denied d' = dk_denied d"
    using keepsE [OF keeps_denied_init _ certs, of "dk_denied d"] written(2) by simp
  ultimately show "fst (load_config L d') = Inr config"
    using load_written [of d' L config] assms(4,6) by simp
  show valid: "pairing_code_valid (mo_now T) config"
    using init_config_valid(1) [OF assms(3)] assms(2) by simp
  show code: "bc_pairing_code config = Some (ir_pairing_code r)"
    using valid r by (auto simp: pairing_code_valid_def unwrap_or_def split: option.splits)
  show "bc_bind config = bind" "bc_port config = port"
    using assms(2) by (simp_all add: init_config_def Let_def rotate_pairing_code_def)
  show "ir_pairing_code r = unwrap_or (bc_pairing_code c) []"
    if "fst (load_config L d) = Inr c" "pairing_code_valid (mo_now T) c" for c
    using init_config_valid(2) [OF assms(3) that(2)] that(1) assms(2) r by simp
qed

text \<open>What \<open>init\<close> starts from.\<close>

definition settings_before :: "config_lib \<Rightarrow> 'z disk_scheme \<Rightarrow> bridge_config" where
  "settings_before L d = (case fst (load_config L d) of Inl _ \<Rightarrow> default_config (cl_config_dir L) | Inr c \<Rightarrow> c)"

definition next_port :: "u16 \<Rightarrow> u16" where
  "next_port port = (if port = 65535 then 65535 else port + 1)"

lemma max_u16: "- 1 = (65535 :: u16)"
  by code_simp

lemma code_checked: "pairing_code_valid now (c\<lparr>bc_bind := b, bc_port := p, bc_enroll_port := e, bc_mdns_advertise := m\<rparr>)
    = pairing_code_valid now c" "pairing_code_valid now c \<Longrightarrow> bc_pairing_code c \<noteq> None"
  by (auto simp: pairing_code_valid_def split: option.splits)

lemma init_config_fields:
  "bc_bind (init_config now uuid bind port mdns c) = bind" "bc_port (init_config now uuid bind port mdns c) = port"
  "bc_enroll_port (init_config now uuid bind port mdns c) = next_port port"
  "bc_mdns_advertise (init_config now uuid bind port mdns c) = mdns"
  "bc_enable_send (init_config now uuid bind port mdns c) = bc_enable_send c"
  "bc_imsg_path (init_config now uuid bind port mdns c) = bc_imsg_path c"
  "bc_ghostty_path (init_config now uuid bind port mdns c) = bc_ghostty_path c"
  "bc_data_dir (init_config now uuid bind port mdns c) = bc_data_dir c"
  by (simp_all add: init_config_def Let_def rotate_pairing_code_def u16_saturating_inc_def next_port_def max_u16)

lemma init_config_code:
  "(bc_pairing_code (init_config now uuid bind port mdns c), bc_pairing_code_expires_at (init_config now uuid bind port mdns c))
     = (if pairing_code_valid now c then (bc_pairing_code c, bc_pairing_code_expires_at c)
        else (Some (take 8 uuid), Some (now + CODE_TTL)))"
  using code_checked(2) [of now c] by (auto simp: init_config_def Let_def rotate_pairing_code_def code_checked(1))

lemma init_result:
  assumes "init L K T bind port mdns d = (Inr r, d')"
  shows "r = \<lparr> ir_data_dir = bc_data_dir (settings_before L d),
       ir_pairing_code = unwrap_or (bc_pairing_code (init_config (mo_now T) (mo_uuid T) bind port mdns (settings_before L d))) [],
       ir_enroll_port = next_port port, ir_mdns_advertise = mdns \<rparr>"
  using assms init_config_fields
  by (auto simp: init_def load_or_default_run andthen_apply Let_def settings_before_def split: prod.splits sum.splits)

text \<open>C37: what \<^verbatim>\<open>init\<close> returns is on disk.  A later load gives settings with the new address, the new port, the
  enrolment port after it (or 65535 itself) and the wish to be advertised as given, whose permission to send,
  data directory and paths of imsg and Ghostty are those that were there, or the defaults where they could not
  be read; the pairing code is valid: the old one with its end, if that was still valid, and otherwise a fresh
  one for fifteen minutes.  The result names that code, that port and that directory.\<close>

theorem init_is_saved:
  assumes "init L K T bind port mdns d = (Inr r, d')"
    and "config = init_config (mo_now T) (mo_uuid T) bind port mdns (settings_before L d)"
    and "mo_uuid T \<noteq> []" "cl_parse L (cl_render L config) = Some config"
    and "\<forall>p\<in>insert (config_path L) (cert_files (data_path config)). \<forall>q. node_at (dk_root d) p \<noteq> Some (Link q)"
    and "\<forall>f. dk_denied d (ReadFile f) = None"
  shows "\<exists>saved old. fst (load_config L d') = Inr saved
     \<and> old = (case fst (load_config L d) of Inl _ \<Rightarrow> default_config (cl_config_dir L) | Inr c \<Rightarrow> c)
     \<and> bc_bind saved = bind \<and> bc_port saved = port
     \<and> bc_enroll_port saved = (if port = 65535 then 65535 else port + 1) \<and> bc_mdns_advertise saved = mdns
     \<and> bc_enable_send saved = bc_enable_send old \<and> bc_data_dir saved = bc_data_dir old
     \<and> bc_imsg_path saved = bc_imsg_path old \<and> bc_ghostty_path saved = bc_ghostty_path old
     \<and> pairing_code_valid (mo_now T) saved
     \<and> (bc_pairing_code saved, bc_pairing_code_expires_at saved)
          = (if pairing_code_valid (mo_now T) old then (bc_pairing_code old, bc_pairing_code_expires_at old)
             else (Some (take 8 (mo_uuid T)), Some (mo_now T + CODE_TTL)))
     \<and> bc_pairing_code saved = Some (ir_pairing_code r) \<and> ir_enroll_port r = bc_enroll_port saved
     \<and> ir_data_dir r = bc_data_dir saved \<and> ir_mdns_advertise r = mdns"
proof (intro exI conjI)
  note s = init_saved [OF assms(1) assms(2) [unfolded settings_before_def] assms(3-6)]
  show "fst (load_config L d') = Inr config" "pairing_code_valid (mo_now T) config"
    "bc_pairing_code config = Some (ir_pairing_code r)" by (rule s)+
  show "(bc_pairing_code config, bc_pairing_code_expires_at config)
      = (if pairing_code_valid (mo_now T) (settings_before L d)
         then (bc_pairing_code (settings_before L d), bc_pairing_code_expires_at (settings_before L d))
         else (Some (take 8 (mo_uuid T)), Some (mo_now T + CODE_TTL)))"
    unfolding assms(2) by (rule init_config_code)
  show "settings_before L d = (case fst (load_config L d) of Inl _ \<Rightarrow> default_config (cl_config_dir L) | Inr c \<Rightarrow> c)"
    by (rule settings_before_def)
qed (simp_all add: assms(2) init_config_fields init_result [OF assms(1)] next_port_def)

definition demo_moment :: moment where
  "demo_moment = \<lparr> mo_now = 5, mo_uuid = ''0123456789abcdef0123456789abcdef'', mo_hostname = Some ''mac'' \<rparr>"

definition demo_saved :: bridge_config where
  "demo_saved = init_config 5 (mo_uuid demo_moment) ''10.0.0.2'' 18789 False (default_config (Some ''/home''))"

definition demo_lib :: config_lib where
  "demo_lib = \<lparr> cl_config_dir = Some ''/home'', cl_render = (\<lambda>_. ''toml''), cl_parse = (\<lambda>_. Some demo_saved),
     cl_debug = (\<lambda>s. s), cl_ipv6 = (\<lambda>_. None) \<rparr>"

theorem init_is_saved_witness:
  "\<exists>r d'. init demo_lib demo_pki demo_moment ''10.0.0.2'' 18789 False demo_disk = (Inr r, d')
     \<and> (\<exists>saved. fst (load_config demo_lib d') = Inr saved \<and> bc_bind saved = ''10.0.0.2'' \<and> bc_enroll_port saved = 18790
          \<and> \<not> bc_enable_send saved \<and> bc_pairing_code saved = Some (ir_pairing_code r))"
proof -
  let ?run = "init demo_lib demo_pki demo_moment ''10.0.0.2'' 18789 False demo_disk"
  obtain x d' where run: "?run = (x, d')" by fastforce
  have "case fst ?run of Inr _ \<Rightarrow> True | Inl _ \<Rightarrow> False" by code_simp
  then obtain r where "?run = (Inr r, d')" using run by (cases x) auto
  moreover have "fst (load_config demo_lib demo_disk) = Inr (default_config (Some ''/home''))" by code_simp
  moreover have "config_path demo_lib = [''home'', ''imsg-bridge'', ''config.toml'']"
    and "data_path demo_saved = [''home'', ''imsg-bridge'']" by code_simp+
  ultimately have "?run = (Inr r, d') \<and> fst (load_config demo_lib demo_disk) = Inr (default_config (Some ''/home''))
      \<and> (\<forall>p\<in>insert (config_path demo_lib) (cert_files (data_path demo_saved)). \<forall>q. node_at (dk_root demo_disk) p \<noteq> Some (Link q))"
    by (simp add: demo_disk_def cert_files_def)
  moreover have "mo_uuid demo_moment \<noteq> []" "cl_parse demo_lib (cl_render demo_lib demo_saved) = Some demo_saved"
      "\<forall>f. dk_denied demo_disk (ReadFile f) = None" "\<not> bc_enable_send (default_config (Some ''/home''))"
    by (simp_all add: demo_moment_def demo_lib_def demo_disk_def default_config_def)
  moreover have "demo_saved = init_config (mo_now demo_moment) (mo_uuid demo_moment) ''10.0.0.2'' 18789 False
      (default_config (Some ''/home''))"
    by (simp add: demo_saved_def demo_moment_def)
  ultimately show ?thesis
    using init_is_saved [of demo_lib demo_pki demo_moment "''10.0.0.2''" 18789 False demo_disk r d' demo_saved]
    by (auto simp: settings_before_def)
qed

text \<open>settings that cannot be read are replaced: when the file does not parse, \<^verbatim>\<open>init\<close> starts over from the
  defaults and writes them in its place, so that sending is off again and the data directory is the default one
  whatever the file said.\<close>

theorem unreadable_settings_replaced:
  assumes "init L K T bind port mdns d = (Inr r, d')" "fst (load_config L d) = Inl e"
    and "config = init_config (mo_now T) (mo_uuid T) bind port mdns (default_config (cl_config_dir L))"
    and "\<forall>p\<in>insert (config_path L) (cert_files (data_path config)). \<forall>q. node_at (dk_root d) p \<noteq> Some (Link q)"
  shows "node_at (dk_root d') (config_path L) = Some (Plain (cl_render L config)) \<and> \<not> bc_enable_send config
     \<and> bc_data_dir config = unwrap_or (cl_config_dir L) ''.'' @ ''/imsg-bridge''"
proof -
  obtain d1 u m where save: "save_config L config d = (Inr u, d1)"
      and certs: "init_certs K (mo_hostname T) (data_path config) bind d1 = (Inr m, d')"
    using assms(1-3) by (auto simp: init_def load_or_default_run andthen_apply Let_def split: prod.splits sum.splits)
  note s = saved [OF save]
  have "file_kept (config_path L) (cl_render L config) (cert_files (data_path config)) d1"
    using s(1,3) assms(4) by (fastforce simp: file_kept_def)
  then have "node_at (dk_root d') (config_path L) = Some (Plain (cl_render L config))"
    using keepsE [OF keeps_init_certs _ certs] by (auto simp: file_kept_def)
  then show ?thesis using assms(3) by (simp add: init_config_def Let_def rotate_pairing_code_def default_config_def)
qed

definition demo_broken_disk :: disk where
  "demo_broken_disk = \<lparr> dk_root = Dir [(''home'', Dir [(''imsg-bridge'', Dir [(''config.toml'', Plain ''enable_send = tru'')])])],
     dk_denied = (\<lambda>_. None) \<rparr>"

theorem unreadable_settings_replaced_witness:
  "\<exists>r d'. init (demo_lib\<lparr>cl_parse := \<lambda>_. None\<rparr>) demo_pki demo_moment ''10.0.0.2'' 18789 False demo_broken_disk = (Inr r, d')
     \<and> node_at (dk_root d') [''home'', ''imsg-bridge'', ''config.toml''] = Some (Plain ''toml'')"
proof -
  let ?L = "demo_lib\<lparr>cl_parse := \<lambda>_. None\<rparr>"
  let ?run = "init ?L demo_pki demo_moment ''10.0.0.2'' 18789 False demo_broken_disk"
  obtain x d' where run: "?run = (x, d')" by fastforce
  have "case fst ?run of Inr _ \<Rightarrow> True | Inl _ \<Rightarrow> False" by code_simp
  then obtain r where "?run = (Inr r, d')" using run by (cases x) auto
  moreover have "fst (load_config ?L demo_broken_disk) = Inl ''parse config''" by code_simp
  moreover have "config_path ?L = [''home'', ''imsg-bridge'', ''config.toml'']"
    and "data_path demo_saved = [''home'', ''imsg-bridge'']" by code_simp+
  ultimately show ?thesis
    using unreadable_settings_replaced [of ?L demo_pki demo_moment "''10.0.0.2''" 18789 False demo_broken_disk r d'
      "''parse config''" demo_saved]
    by (auto simp: demo_saved_def demo_moment_def demo_lib_def demo_broken_disk_def cert_files_def)
qed

end
