(* ===== verification/Daemon.thy ===== *)
theory Daemon
  imports Server_Safe Session_Loop "HOL-Library.Sublist"
begin

text \<open>
  The whole daemon: \<^verbatim>\<open>run_daemon\<close> of \<^verbatim>\<open>sync/src/commands.rs\<close> starts it, and from then on the session and the
  handlers of the clients work on one state beside each other.  Their work is split into the operations by
  which the code reaches the state; between any two of them another task may run, and a task may stop after
  any of them, as one does whose future is dropped.  A client that subscribed reads the broadcast channel
  from its own position.
\<close>

section \<open>The start\<close>

text \<open>\<open>dbs\<close> are the databases on the disk; a missing one is created.\<close>

definition run_daemon ::
  "'u url_lib \<Rightarrow> (json \<Rightarrow> string) \<Rightarrow> (f64 \<Rightarrow> string) \<Rightarrow> (byte list \<Rightarrow> byte list) \<Rightarrow>
     store_ctx \<Rightarrow> 'w \<Rightarrow> (string \<rightharpoonup> cache) \<Rightarrow> cache_error + ('u, 'w) daemon" where
  "run_daemon lib json_text real_text sha256 ctx w dbs =
     (let link = boot_with lib ctx w in
      case open_cache json_text real_text sha256 (unwrap_or (dbs (ln_cache_path link)) empty_cache) of
        (Inl e, _) \<Rightarrow> Inl e
      | (Inr _, db) \<Rightarrow> Inr \<lparr> dm_link = link, dm_cache = db, dm_events = [] \<rparr>)"

section \<open>The work of its tasks\<close>

text \<open>
  The operations on the shared state, beside the deliveries whose outcome a task holds: \<^verbatim>\<open>apply_domain_message\<close>
  returns the message as it was stored, and the task that called it announces what it returned, with the
  \<^verbatim>\<open>client_id\<close> of a request added, at any later moment or never.
\<close>

inductive work ::
  "('u, 'w) env \<Rightarrow> ('u, 'w) daemon \<times> applied set \<Rightarrow> ('u, 'w) daemon \<times> applied set \<Rightarrow> bool"
  for E :: "('u, 'w) env" where
  link: "work E (d, F) (d\<lparr>dm_link := l\<rparr>, F)"
| meta: "work E (d, F) (change_cache (set_meta k v) d, F)"
| chat: "work E (d, F) (snd (on_cache (upsert_domain_chat (ev_sha256 E) c) d), F)"
| message: "work E (d, F) (snd (on_cache (upsert_domain_message (ev_sha256 E) m) d), F)"
| delivers: "on_cache (apply_domain_message (ev_sha256 E) m) d = (r, d') \<Longrightarrow> work E (d, F) (d', {a. r = Inr a} \<union> F)"
| names: "work E (d, F) (snd (on_cache (apply_contact_book book) d), F)"
| marks: "work E (d, F) (snd (on_cache (mark_read n) d), F)"
| tells_link: "work E (d, F) (emit_sync_link view d, F)"
| tells_chats: "work E (d, F) (send_event (sync_chats_event reason cs) d, F)"
| announces: "a \<in> F \<Longrightarrow> row_id v = row_id (ap_message a) \<Longrightarrow>
    work E (d, F) (send_event (sync_message_event (a\<lparr>ap_message := v\<rparr>)) d, F)"

inductive_cases workE: "work E (d, F) (d', F')"

text \<open>What other tasks do while one waits: work, whose outcomes they keep to themselves.\<close>

definition by_work :: "('u, 'w) env \<Rightarrow> (('u, 'w) daemon \<Rightarrow> ('u, 'w) daemon) \<Rightarrow> bool" where
  "by_work E f \<longleftrightarrow> (\<forall>d. sound d \<longrightarrow> (\<exists>F. (work E)\<^sup>*\<^sup>* (d, {}) (f d, F)))"

text \<open>The schedules a session may run under.\<close>

definition among_tasks ::
  "('u, 'w) env \<Rightarrow> (('u, 'w) attempt \<times> (('u, 'w) daemon \<Rightarrow> ('u, 'w) daemon)) list \<Rightarrow> bool" where
  "among_tasks E attempts \<longleftrightarrow>
     (\<forall>(a, f)\<in>set attempts. by_work E f \<and> (\<forall>g. Meanwhile g \<in> set (at_events a) \<longrightarrow> by_work E g))"

section \<open>Its clients\<close>

text \<open>A connection with the position of its receiver in the broadcast, and the position at which it subscribed.\<close>

record listener =
  li_client :: client
  li_from :: nat
  li_next :: nat

definition new_listener :: "('u, 'w) daemon \<Rightarrow> listener" where
  "new_listener d =
     \<lparr> li_client = new_client_state, li_from = length (dm_events d), li_next = length (dm_events d) \<rparr>"

text \<open>A receiver starts at the end of what was sent when its client subscribes.\<close>

definition listener_acts ::
  "('u, 'w) env \<Rightarrow> (string \<Rightarrow> json option) \<Rightarrow> client_event \<Rightarrow> ('u, 'w) daemon \<times> listener \<Rightarrow>
     ('u, 'w) daemon \<times> listener" where
  "listener_acts E parse ev dl =
     (case dl of (d, l) \<Rightarrow>
        case client_step E parse ev (d, li_client l) of (d', c) \<Rightarrow>
          (d', if cl_streaming (li_client l) then l\<lparr>li_client := c\<rparr>
               else l\<lparr>li_client := c, li_from := length (dm_events d), li_next := length (dm_events d)\<rparr>))"

definition listener_hears ::
  "('u, 'w) env \<Rightarrow> (string \<Rightarrow> json option) \<Rightarrow> ('u, 'w) daemon \<Rightarrow> listener \<Rightarrow> listener" where
  "listener_hears E parse d l =
     l\<lparr> li_client := snd (client_step E parse (EventIn (dm_events d ! li_next l)) (d, li_client l)),
        li_next := Suc (li_next l) \<rparr>"

text \<open>A receiver that fell behind goes on at a later position, and its client is told so.\<close>

definition listener_lags ::
  "('u, 'w) env \<Rightarrow> (string \<Rightarrow> json option) \<Rightarrow> ('u, 'w) daemon \<Rightarrow> nat \<Rightarrow> listener \<Rightarrow> listener" where
  "listener_lags E parse d n l =
     l\<lparr> li_client := snd (client_step E parse LaggedBehind (d, li_client l)), li_next := n \<rparr>"

definition listening :: "listener \<Rightarrow> bool" where
  "listening l \<longleftrightarrow> cl_streaming (li_client l) \<and> \<not> cl_closed (li_client l)"

text \<open>What a client does by itself, and its handlers for it.\<close>

fun own_event :: "client_event \<Rightarrow> bool" where
  "own_event (Line _) = True"
| "own_event EndOfInput = True"
| "own_event (TaskRuns _ _) = True"
| "own_event _ = False"

text \<open>Its steps: an operation of any task, the run of a session with what the others do meanwhile, and what a client
  does or hears.\<close>

inductive daemon_step ::
  "('u, 'w) env \<Rightarrow> (string \<Rightarrow> json option) \<Rightarrow> ('u, 'w) daemon \<times> applied set \<times> listener list \<Rightarrow>
     ('u, 'w) daemon \<times> applied set \<times> listener list \<Rightarrow> bool"
  for E :: "('u, 'w) env" and parse :: "string \<Rightarrow> json option" where
  works: "work E (d, F) (d', F') \<Longrightarrow> daemon_step E parse (d, F, ls) (d', F', ls)"
| session: "run_generation E creds gen attempts retry d = (delays, d') \<Longrightarrow> among_tasks E attempts \<Longrightarrow>
    daemon_step E parse (d, F, ls) (d', F, ls)"
| accepts: "daemon_step E parse (d, F, ls) (d, F, ls @ [new_listener d])"
| acts: "k < length ls \<Longrightarrow> own_event ev \<Longrightarrow> listener_acts E parse ev (d, ls ! k) = (d', l) \<Longrightarrow>
    daemon_step E parse (d, F, ls) (d', F, ls[k := l])"
| hears: "k < length ls \<Longrightarrow> listening (ls ! k) \<Longrightarrow> li_next (ls ! k) < length (dm_events d) \<Longrightarrow>
    daemon_step E parse (d, F, ls) (d, F, ls[k := listener_hears E parse d (ls ! k)])"
| lags: "k < length ls \<Longrightarrow> listening (ls ! k) \<Longrightarrow> li_next (ls ! k) \<le> n \<Longrightarrow> n \<le> length (dm_events d) \<Longrightarrow>
    daemon_step E parse (d, F, ls) (d, F, ls[k := listener_lags E parse d n (ls ! k)])"

inductive_cases daemon_stepE: "daemon_step E parse (d, F, ls) (d', F', ls')"

section \<open>What was sent\<close>

text \<open>Only events are sent, every message that was announced and every message of \<open>ids\<close> is in the cache, and the
  cache could be opened again.\<close>

definition published :: "i64 set \<Rightarrow> ('u, 'w) daemon \<Rightarrow> bool" where
  "published ids d \<longleftrightarrow>
     list_all is_event (dm_events d) \<and> holds (\<Union> (announced ` set (dm_events d)) \<union> ids) (dm_cache d)"

lemma published_sound: "published ids d \<Longrightarrow> sound d"
  by (simp add: published_def sound_def holds_def)

lemma published_mono: "published ids d \<Longrightarrow> ids' \<subseteq> ids \<Longrightarrow> published ids' d"
  by (auto simp: published_def elim: holds_mono)

lemma keeps_published: "(\<And>ids. keeps (holds ids) m) \<Longrightarrow> keeps (published ids) (on_cache m)"
  by (fastforce simp: keeps_def published_def on_cache_def split: prod.splits)

text \<open>A delivery that succeeds adds the message it returns.\<close>

lemma published_delivery:
  assumes "published ids d" "on_cache (apply_domain_message sha256 m) d = (r, d')"
  shows "published (ids \<union> {row_id (ap_message a) | a. r = Inr a}) d'"
proof -
  obtain q db where run: "apply_domain_message sha256 m (dm_cache d) = (q, db)" by fastforce
  then have r: "r = map_sum CacheFailure id q" "d' = d\<lparr>dm_cache := db\<rparr>" using assms(2) by (simp_all add: on_cache_def)
  show ?thesis
    using holds_apply_domain_message [OF assms(1) [unfolded published_def, THEN conjunct2] run] assms(1) r
    by (cases q) (auto simp: published_def insert_commute Un_commute Un_left_commute elim: holds_mono)
qed

lemma keeps_published_delivery: "keeps (published ids) (on_cache (apply_domain_message sha256 m))"
proof (rule keepsI)
  fix d :: "('u, 'w) daemon"
  assume d: "published ids d"
  obtain r d' where run: "on_cache (apply_domain_message sha256 m) d = (r, d')" by fastforce
  from published_mono [OF published_delivery [OF d run] Un_upper1]
  show "published ids (snd (on_cache (apply_domain_message sha256 m) d))" using run by simp
qed

lemma holds_set_meta [simp]: "holds ids (set_meta k v db) = holds ids db"
  using cache_ok_set_meta [of k v db] by (simp add: holds_def plain_cache_def set_meta_def)

lemma holds_announced: "holds ids db \<Longrightarrow> ids' \<subseteq> message_ids db \<Longrightarrow> holds (ids' \<union> ids) db"
  by (simp add: holds_def)

interpretation published: daemon_fact E "published ids" for E :: "('u, 'w) env" and ids :: "i64 set"
  by unfold_locales
     (auto simp: published_def change_cache_def send_event_def holds_set_meta Un_assoc intro: holds_cache_ok holds_announced
       intro!: keeps_published keeps_published_delivery
         holds_upsert_domain_chat holds_upsert_domain_message holds_apply_contact_book holds_mark_read)

text \<open>Events are only ever added to what was sent.\<close>

definition extends :: "envelope list \<Rightarrow> ('u, 'w) daemon \<Rightarrow> bool" where
  "extends sent d \<longleftrightarrow> sound d \<and> prefix sent (dm_events d)"

lemma keeps_extends: "keeps cache_ok m \<Longrightarrow> keeps (extends sent) (on_cache m)"
  by (auto simp: keeps_def extends_def on_cache_def sound_def split: prod.splits)

interpretation history: daemon_fact E "extends sent" for E :: "('u, 'w) env" and sent :: "envelope list"
  by unfold_locales
     (auto simp: extends_def sound_def change_cache_def send_event_def prefix_def
       intro!: keeps_extends cache_ok_ops)

section \<open>What all tasks keep\<close>

text \<open>The messages of the deliveries that are still to be announced.\<close>

definition flight :: "applied set \<Rightarrow> i64 set" where
  "flight F = (\<lambda>a. row_id (ap_message a)) ` F"

lemma flight_simps [simp]: "flight {} = {}" "flight (F \<union> G) = flight F \<union> flight G"
  by (auto simp: flight_def)

lemmas rtranclp_induct3 =
  rtranclp_induct [of r "(x1, x2, x3)" "(y1, y2, y3)", split_format (complete), consumes 1, case_names refl step]
  for r x1 x2 x3 y1 y2 y3

context daemon_invariant
begin

lemma kept_client_step: "I d \<Longrightarrow> client_step E parse ev (d, c) = (d', c') \<Longrightarrow> I d'"
  by (auto intro: keepsE [OF kept_dispatch] simp: client_step_def finish_task_def Let_def
      split: if_splits client_event.splits option.splits bool.splits envelope.splits prod.splits sum.splits)

lemma kept_listener_acts: "I d \<Longrightarrow> listener_acts E parse ev (d, l) = (d', l') \<Longrightarrow> I d'"
  by (auto simp: listener_acts_def intro: kept_client_step split: prod.splits)

end

context daemon_fact
begin

lemma is_invariant: "daemon_invariant E I"
  by unfold_locales

lemma kept_work:
  assumes "work E (d, F) (d', F')" "published (ids \<union> flight F) d" "I d"
  shows "published (ids \<union> flight F') d' \<and> I d'"
  using assms(1)
proof (rule workE)
  fix m r
  assume run: "on_cache (apply_domain_message (ev_sha256 E) m) d = (r, d')" and F': "F' = {a. r = Inr a} \<union> F"
  have "flight {a. r = Inr a} = {row_id (ap_message a) | a. r = Inr a}" by (auto simp: flight_def)
  then have "published (ids \<union> flight F') d'"
    using published_delivery [OF assms(2) run] F' by (simp add: Un_ac)
  then show ?thesis using keepsE [OF delivery assms(3) run] by simp
next
  fix a v
  let ?ev = "sync_message_event (a\<lparr>ap_message := v\<rparr>)"
  assume F: "F = F'" "a \<in> F'" and d': "d' = send_event ?ev d" and v: "row_id v = row_id (ap_message a)"
  have "row_id (ap_message a) \<in> flight F" using F by (simp add: flight_def)
  then have "row_id (ap_message a) \<in> message_ids (dm_cache d)"
    using assms(2) unfolding published_def holds_def by blast
  then have "announced ?ev \<subseteq> message_ids (dm_cache d)" using v by simp
  then show ?thesis using event [OF assms(3)] published.event [OF assms(2)] d' F(1) by simp
qed (use assms(2,3) in \<open>auto intro: any_link any_meta link_told chats_told published.any_link published.any_meta
    published.link_told published.chats_told keepsD [OF stored_chat] keepsD [OF stored_message] keepsD [OF named]
    keepsD [OF chat_read] keepsD [OF published.stored_chat] keepsD [OF published.stored_message]
    keepsD [OF published.named] keepsD [OF published.chat_read]\<close>)

lemma kept_works:
  "(work E)\<^sup>*\<^sup>* (d, F) (d', F') \<Longrightarrow> published (ids \<union> flight F) d \<Longrightarrow> I d \<Longrightarrow> published (ids \<union> flight F') d' \<and> I d'"
  by (induction rule: rtranclp_induct2) (auto dest: kept_work)

lemma kept_by_work: "by_work E f \<Longrightarrow> I d \<and> published ids d \<Longrightarrow> I (f d) \<and> published ids (f d)"
  using kept_works [of d "{}" "f d" _ ids] published_sound [of ids d] by (auto simp: by_work_def intro: published_mono)

lemma kept_session:
  assumes "run_generation E creds gen attempts retry d = (delays, d')" "among_tasks E attempts"
    and "published ids d" "I d"
  shows "published ids d' \<and> I d'"
proof -
  have both: "daemon_invariant E (\<lambda>d. I d \<and> published ids d)"
    by (rule daemon_fact.is_invariant [OF daemon_fact_both [OF daemon_fact_axioms published.daemon_fact_axioms]])
  have "list_all (\<lambda>(a, f). gentle (\<lambda>d. I d \<and> published ids d) (at_events a)
      \<and> (\<forall>d. I d \<and> published ids d \<longrightarrow> I (f d) \<and> published ids (f d))) attempts"
    using assms(2) kept_by_work by (fastforce simp: list_all_iff gentle_def among_tasks_def)
  from daemon_invariant.kept_run_generation [OF both _ this assms(1)] show ?thesis using assms(3,4) by blast
qed

lemma kept_daemon_step:
  assumes "daemon_step E parse (d, F, ls) (d', F', ls')" "published (flight F) d" "I d"
  shows "published (flight F') d' \<and> I d'"
  using assms(1)
proof (rule daemon_stepE)
  assume "work E (d, F) (d', F')"
  from kept_work [OF this, of "{}"] show ?thesis using assms(2,3) by simp
next
  fix creds gen attempts retry delays
  assume "run_generation E creds gen attempts retry d = (delays, d')" "among_tasks E attempts" "F' = F"
  then show ?thesis using kept_session assms(2,3) by blast
qed (use assms(2,3) kept_listener_acts published.kept_listener_acts in blast)+

lemma kept_daemon_run:
  "(daemon_step E parse)\<^sup>*\<^sup>* (d, F, ls) (d', F', ls') \<Longrightarrow> published (flight F) d \<Longrightarrow> I d \<Longrightarrow>
     published (flight F') d' \<and> I d'"
  by (induction rule: rtranclp_induct3) (auto dest: kept_daemon_step)

end

end
