(* ===== verification/Daemon_Contract.thy ===== *)
theory Daemon_Contract
  imports Daemon Server_Contract
begin

text \<open>
  What holds of the whole daemon, however its tasks and its clients interleave.
\<close>

section \<open>What a subscriber is told\<close>

definition event_lines :: "listener \<Rightarrow> envelope list" where
  "event_lines l = filter is_event (cl_out (li_client l))"

text \<open>The lines that tell what was sent from one position to another: each event at its turn, or the notice of a
  gap with some chats.\<close>

inductive told :: "envelope list \<Rightarrow> nat \<Rightarrow> nat \<Rightarrow> envelope list \<Rightarrow> bool" for sent :: "envelope list" where
  nothing: "told sent p p []"
| event: "told sent p q evs \<Longrightarrow> q < length sent \<Longrightarrow> told sent p (Suc q) (evs @ [sent ! q])"
| gap: "told sent p q evs \<Longrightarrow> q \<le> r \<Longrightarrow> r \<le> length sent \<Longrightarrow> told sent p r (evs @ [lagged_event cs])"

lemma told_bounds: "told sent p q evs \<Longrightarrow> p \<le> q"
  by (induction rule: told.induct) auto

lemma told_prefix: "told sent p q evs \<Longrightarrow> prefix sent sent' \<Longrightarrow> told sent' p q evs"
proof (induction rule: told.induct)
  case (event p q evs)
  then have "sent' ! q = sent ! q" "q < length sent'" by (auto simp: prefix_def nth_append)
  then show ?case using told.event [of sent' p q evs] event by simp
next
  case (gap p q evs r cs)
  then show ?case using told.gap [of sent' p q evs r cs] prefix_length_le [of sent sent'] by simp
qed (rule told.nothing)

text \<open>Without a notice of a gap it is what was sent, in its order and without a hole.\<close>

lemma told_exactly:
  "told sent p q evs \<Longrightarrow> p \<le> length sent \<Longrightarrow> (\<forall>cs. lagged_event cs \<notin> set evs) \<Longrightarrow>
     evs = take (q - p) (drop p sent)"
proof (induction rule: told.induct)
  case (event p q evs)
  then have "evs = take (q - p) (drop p sent)" by simp
  moreover have "p \<le> q" using event told_bounds by blast
  ultimately show ?case
    using event by (simp add: Suc_diff_le take_Suc_conv_app_nth)
qed auto

text \<open>What one step of a client writes.\<close>

lemma answer_snapshot_events:
  "filter is_event (cl_out (answer_snapshot E i d c)) = filter is_event (cl_out c)"
  by (simp add: answer_snapshot_def close_client_def write_env_def ok_res_def split: sum.splits)

lemma start_request_events:
  "filter is_event (cl_out (start_request E parse line d c)) = filter is_event (cl_out c)
     \<and> cl_streaming (start_request E parse line d c) = cl_streaming c"
  using answer_snapshot_events [of E _ d c]
  by (auto simp: start_request_def Let_def close_client_def write_env_def error_res_def answer_snapshot_def
      split: option.splits envelope.splits sum.splits)

lemma finish_task_events:
  "finish_task E fr n (d, c) = (d', c') \<Longrightarrow>
     filter is_event (cl_out c') = filter is_event (cl_out c) \<and> cl_streaming c' = cl_streaming c"
  by (auto simp: finish_task_def Let_def task_reply_def write_env_def ok_res_def error_res_def
      split: if_splits prod.splits option.splits sum.splits failure.splits cache_error.splits)

lemma own_event_lines:
  assumes "own_event ev" "client_step E parse ev (d, c) = (d', c')"
  shows "filter is_event (cl_out c') = filter is_event (cl_out c)" "cl_streaming c \<Longrightarrow> cl_streaming c'"
  using assms start_request_events [of E parse _ d c] answer_snapshot_events [of E _ d "c\<lparr>cl_streaming := True\<rparr>"]
    finish_task_events [of E _ _ d c]
  by (cases ev; auto simp: client_step_def close_client_def answer_snapshot_def write_env_def
      split: if_splits option.splits bool.splits envelope.splits sum.splits)+

text \<open>Where a client stands: it was told what was sent since it subscribed, up to its receiver's position.\<close>

definition listener_ok :: "envelope list \<Rightarrow> listener \<Rightarrow> bool" where
  "listener_ok sent l \<longleftrightarrow>
     told sent (li_from l) (li_next l) (event_lines l) \<and> li_next l \<le> length sent
     \<and> (cl_streaming (li_client l) \<or> event_lines l = [])"

lemma listener_ok_prefix: "listener_ok sent l \<Longrightarrow> prefix sent sent' \<Longrightarrow> listener_ok sent' l"
  using told_prefix prefix_length_le by (fastforce simp: listener_ok_def)

lemma listener_ok_new: "listener_ok (dm_events d) (new_listener d)"
  by (simp add: listener_ok_def new_listener_def event_lines_def new_client_state_def told.nothing)

lemma listener_ok_acts:
  assumes "published ids d" "listener_ok (dm_events d) l" "own_event ev" "listener_acts E parse ev (d, l) = (d', l')"
  shows "listener_ok (dm_events d') l' \<and> prefix (dm_events d) (dm_events d')"
proof -
  obtain d1 c where step: "client_step E parse ev (d, li_client l) = (d1, c)" by fastforce
  have "extends (dm_events d) d" using published_sound [OF assms(1)] by (simp add: extends_def)
  from history.kept_client_step [OF this step] have p: "prefix (dm_events d) (dm_events d1)" by (simp add: extends_def)
  note written = own_event_lines [OF assms(3) step]
  have "listener_ok (dm_events d) l'" "d' = d1"
    using assms(2,4) written step
    by (auto simp: listener_acts_def listener_ok_def event_lines_def told.nothing split: if_splits)
  then show ?thesis using p listener_ok_prefix by blast
qed

lemma listener_ok_hears:
  assumes "published ids d" "listener_ok (dm_events d) l" "listening l" "li_next l < length (dm_events d)"
  shows "listener_ok (dm_events d) (listener_hears E parse d l)"
proof -
  have "is_event (dm_events d ! li_next l)" using assms(1,4) by (simp add: published_def list_all_length)
  then have "event_lines (listener_hears E parse d l) = event_lines l @ [dm_events d ! li_next l]"
    using assms(3) by (simp add: listener_hears_def client_step_def listening_def event_lines_def write_env_def Let_def)
  then show ?thesis
    using assms told.event [of "dm_events d" "li_from l" "li_next l" "event_lines l"]
    by (simp add: listener_ok_def) (simp add: listener_hears_def client_step_def listening_def write_env_def Let_def)
qed

lemma listener_ok_lags:
  assumes "published ids d" "listener_ok (dm_events d) l" "listening l" "li_next l \<le> n" "n \<le> length (dm_events d)"
  shows "listener_ok (dm_events d) (listener_lags E parse d n l)"
proof -
  obtain cs where cs: "list_chats 50 (dm_cache d) = Inr cs"
    using list_chats_Inr published_sound [OF assms(1)] by (auto simp: sound_def)
  then have "event_lines (listener_lags E parse d n l) = event_lines l @ [lagged_event cs]"
    using assms(3)
    by (simp add: listener_lags_def client_step_def listening_def event_lines_def write_env_def lagged_event_def
        sync_chats_event_def Let_def)
  then show ?thesis
    using assms cs told.gap [of "dm_events d" "li_from l" "li_next l" "event_lines l" n cs]
    by (simp add: listener_ok_def) (simp add: listener_lags_def client_step_def listening_def write_env_def Let_def)
qed

section \<open>The daemon's invariant\<close>

definition serving_ok :: "('u, 'w) daemon \<Rightarrow> applied set \<Rightarrow> listener list \<Rightarrow> bool" where
  "serving_ok d F ls \<longleftrightarrow> published (flight F) d \<and> list_all (listener_ok (dm_events d)) ls"

lemma daemon_step_extends:
  "daemon_step E parse (d, F, ls) (d', F', ls') \<Longrightarrow> published (flight F) d \<Longrightarrow>
     published (flight F') d' \<and> prefix (dm_events d) (dm_events d')"
  using history.kept_daemon_step [of E parse d F ls d' F' ls' "dm_events d"] published_sound [of "flight F" d]
  by (simp add: extends_def)

lemma list_all_update: "list_all P xs \<Longrightarrow> P x \<Longrightarrow> list_all P (xs[k := x])"
  by (auto simp: list_all_iff dest: set_update_subset_insert [THEN subsetD])

lemma serving_ok_step:
  assumes "daemon_step E parse (d, F, ls) (d', F', ls')" "serving_ok d F ls"
  shows "serving_ok d' F' ls'"
proof -
  have pub: "published (flight F) d" and ls: "list_all (listener_ok (dm_events d)) ls"
    using assms(2) by (simp_all add: serving_ok_def)
  note step = daemon_step_extends [OF assms(1) pub]
  have ls': "list_all (listener_ok (dm_events d')) ls" using ls listener_ok_prefix step by (auto simp: list_all_iff)
  have at: "listener_ok (dm_events d) (ls ! k)" if "k < length ls" for k using ls that by (simp add: list_all_length)
  from assms(1) have "list_all (listener_ok (dm_events d')) ls'"
  proof (rule daemon_stepE)
    fix k ev l
    assume "ls' = ls[k := l]" "k < length ls" "own_event ev" "listener_acts E parse ev (d, ls ! k) = (d', l)"
    then show ?thesis using list_all_update [OF ls'] listener_ok_acts [OF pub at] by blast
  next
    fix k
    assume "d' = d" "ls' = ls[k := listener_hears E parse d (ls ! k)]" "k < length ls" "listening (ls ! k)"
      "li_next (ls ! k) < length (dm_events d)"
    then show ?thesis using list_all_update [OF ls'] listener_ok_hears [OF pub at] by blast
  next
    fix k n
    assume "d' = d" "ls' = ls[k := listener_lags E parse d n (ls ! k)]" "k < length ls" "listening (ls ! k)"
      "li_next (ls ! k) \<le> n" "n \<le> length (dm_events d)"
    then show ?thesis using list_all_update [OF ls'] listener_ok_lags [OF pub at] by blast
  qed (use ls' listener_ok_new in \<open>simp_all\<close>)
  then show ?thesis using step by (simp add: serving_ok_def)
qed

lemma serving_ok_run:
  "(daemon_step E parse)\<^sup>*\<^sup>* (d, F, ls) (d', F', ls') \<Longrightarrow> serving_ok d F ls \<Longrightarrow> serving_ok d' F' ls'"
  by (induction rule: rtranclp_induct3) (auto intro: serving_ok_step)

section \<open>The tasks\<close>

text \<open>The states that work leads to, with what its deliveries returned.\<close>

definition worked :: "('u, 'w) env \<Rightarrow> ('u, 'w) daemon \<Rightarrow> ('u, 'w) daemon \<Rightarrow> bool" where
  "worked E d0 d \<longleftrightarrow> sound d \<and> (\<exists>F. (work E)\<^sup>*\<^sup>* (d0, {}) (d, F))"

lemma sound_work: "work E (d, F) (d', F') \<Longrightarrow> sound d \<Longrightarrow> sound d'"
  by (erule workE)
     (auto intro: safe.any_link safe.any_meta safe.link_told keepsD [OF safe.stored_chat] keepsD [OF safe.stored_message]
        keepsE [OF safe.delivery] keepsD [OF safe.named] keepsD [OF safe.chat_read])

lemma worked_step: "worked E d0 d \<Longrightarrow> (\<And>F. \<exists>F'. work E (d, F) (d', F')) \<Longrightarrow> worked E d0 d'"
  unfolding worked_def by (meson sound_work rtranclp.rtrancl_into_rtrancl)

lemma keeps_worked: "(\<And>d F. work E (d, F) (snd (m d), F)) \<Longrightarrow> keeps (worked E d0) m"
  using worked_step by (intro keepsI) blast

lemma worked_sound: "worked E d0 d \<Longrightarrow> cache_ok (dm_cache d)"
  by (simp add: worked_def sound_def)

interpretation tasks: daemon_invariant E "worked E d0" for E :: "('u, 'w) env" and d0 :: "('u, 'w) daemon"
proof
  fix d d' :: "('u, 'w) daemon" and m a v
  assume d: "worked E d0 d" and run: "on_cache (apply_domain_message (ev_sha256 E) m) d = (Inr a, d')"
    and v: "row_id v = row_id (ap_message a)"
  from d obtain F where F: "(work E)\<^sup>*\<^sup>* (d0, {}) (d, F)" and s: "sound d" by (auto simp: worked_def)
  note delivered = work.delivers [OF run, of F]
  have "work E (d', {b. Inr a = (Inr b :: failure + applied)} \<union> F)
      (send_event (sync_message_event (a\<lparr>ap_message := v\<rparr>)) d', {b. Inr a = (Inr b :: failure + applied)} \<union> F)"
    by (rule work.announces [OF _ v]) simp
  from rtranclp.rtrancl_into_rtrancl [OF rtranclp.rtrancl_into_rtrancl [OF F delivered] this]
  show "worked E d0 (send_event (sync_message_event (a\<lparr>ap_message := v\<rparr>)) d')"
    using sound_work [OF delivered s] by (auto simp: worked_def)
next
  fix m
  show "keeps (worked E d0) (on_cache (apply_domain_message (ev_sha256 E) m))"
  proof (rule keepsI)
    fix d :: "('u, 'w) daemon"
    assume d: "worked E d0 d"
    obtain r d' where "on_cache (apply_domain_message (ev_sha256 E) m) d = (r, d')" by fastforce
    then show "worked E d0 (snd (on_cache (apply_domain_message (ev_sha256 E) m) d))"
      using worked_step [OF d exI, OF work.delivers] by simp
  qed
qed (auto simp: worked_sound intro!: keeps_worked intro: worked_step [OF _ exI] work.intros)

lemma work_beside:
  assumes "work E (d, F) (d', F')"
  shows "work E (d, G \<union> F) (d', G \<union> F')"
  using assms
proof (rule workE)
  fix m r
  assume "on_cache (apply_domain_message (ev_sha256 E) m) d = (r, d')" and F': "F' = {a. r = Inr a} \<union> F"
  then show ?thesis using work.delivers [of E m d r d' "G \<union> F"] by (simp add: Un_left_commute)
qed (auto intro: work.intros)

lemma works_beside: "(work E)\<^sup>*\<^sup>* (d, F) (d', F') \<Longrightarrow> (work E)\<^sup>*\<^sup>* (d, G \<union> F) (d', G \<union> F')"
  by (induction rule: rtranclp_induct2) (auto intro: work_beside rtranclp.rtrancl_into_rtrancl)

lemma sound_works: "(work E)\<^sup>*\<^sup>* (d, F) (d', F') \<Longrightarrow> sound d \<Longrightarrow> sound d'"
  by (induction rule: rtranclp_induct2) (auto intro: sound_work)

lemma worked_by_work: "by_work E f \<Longrightarrow> worked E d0 d \<Longrightarrow> worked E d0 (f d)"
proof -
  assume "by_work E f" "worked E d0 d"
  then obtain F G where s: "sound d" and 1: "(work E)\<^sup>*\<^sup>* (d0, {}) (d, F)" and 2: "(work E)\<^sup>*\<^sup>* (d, {}) (f d, G)"
    by (auto simp: worked_def by_work_def)
  from rtranclp_trans [OF 1 works_beside [OF 2, of F, simplified]] show ?thesis
    using sound_works [OF 2 s] by (auto simp: worked_def)
qed

section \<open>Starting\<close>

lemma holds_open_cache:
  assumes "holds ids db" "open_cache json_text real_text sha256 db = (r, db')"
  shows "holds ids db' \<and> (r = Inr () \<or> r = Inl NoReturn)"
proof -
  have db: "cache_ok db" "plain_cache db" using assms(1) by (simp_all add: holds_def)
  have identities: "messages (rebuild_identities s) = messages s" for s
    using fold_insert_guid_tables by (simp add: rebuild_identities_def)
  have "keeps (holds ids) (writes rebuild_identities)"
    using cache_ok_rebuild_identities holds_same_messages [OF _ _ identities] holds_cache_ok by (intro keeps_writes) blast
  moreover have "keeps (holds ids) (repair_orphan_chats sha256)"
    unfolding repair_orphan_chats_def split_def
    by (intro keeps_intros sound_case_guid holds_upsert_domain_chat)
  ultimately have "keeps (holds ids) (andthen (writes rebuild_identities) (\<lambda>_.
      andthen (repair_orphan_chats sha256) (\<lambda>_. repair_phone_sender_names)))"
    by (intro keeps_andthen holds_repair_phone_sender_names)
  from keepsD [OF this assms(1)] have "holds ids db'"
    using assms(2) repair_message_projections_plain [OF db] by (simp add: open_cache_def andthen_apply)
  then show ?thesis using open_cache_ok [OF db assms(2)] by simp
qed

text \<open>Opening stops only in the search for an id, once the greatest one is taken.\<close>

definition stops_full :: "(cache, cache_error, 'a) act \<Rightarrow> bool" where
  "stops_full m \<longleftrightarrow> (\<forall>db e db'. cache_ok db \<longrightarrow> m db = (Inl e, db') \<longrightarrow> i64_max \<in> snd ` set (identities db'))"

lemma stops_full_simps [simp]: "stops_full (ret x)" "stops_full (writes f)" "stops_full (reads g)"
  by (simp_all add: stops_full_def ret_def writes_def reads_def)

lemma stops_full_never: "fails_in {} cache_ok m \<Longrightarrow> stops_full m"
  by (fastforce simp: stops_full_def fails_in_def)

lemma stops_full_andthen:
  "keeps cache_ok m \<Longrightarrow> stops_full m \<Longrightarrow> (\<And>x. stops_full (f x)) \<Longrightarrow> stops_full (andthen m f)"
  unfolding stops_full_def andthen_apply by (auto split: prod.splits sum.splits dest: keepsE)

lemma stops_full_for_each:
  "(\<And>x. keeps cache_ok (f x)) \<Longrightarrow> (\<And>x. stops_full (f x)) \<Longrightarrow> stops_full (for_each xs f)"
  by (induction xs) (auto intro!: stops_full_andthen)

lemma stops_full_upsert_domain_chat: "stops_full (upsert_domain_chat sha256 c)"
proof -
  have "stops_full (id_for_guid sha256 g)" for g
    by (auto simp: stops_full_def cache_ok_def id_stuck_def elim!: id_for_guid_cases)
  then show ?thesis
    unfolding upsert_domain_chat_def
    by (intro stops_full_andthen cache_ok_id_for_guid)
       (auto intro!: keepsI stops_full_never fails_upsert_chat simp: cache_ok_upsert_chat)
qed

lemma stops_full_open_cache:
  assumes "cache_ok db" "plain_cache db" "open_cache json_text real_text sha256 db = (Inl e, db')"
  shows "i64_max \<in> snd ` set (identities db')"
proof -
  have "stops_full (case stub of Inl (_ :: domain_error) \<Rightarrow> ret () | Inr c \<Rightarrow> andthen (upsert_domain_chat sha256 c) (\<lambda>_. ret ()))"
    "keeps cache_ok (case stub of Inl (_ :: domain_error) \<Rightarrow> ret () | Inr c \<Rightarrow> andthen (upsert_domain_chat sha256 c) (\<lambda>_. ret ()))"
    for stub by (cases stub; auto intro!: stops_full_andthen keeps_intros cache_ok_upsert_domain_chat stops_full_upsert_domain_chat)+
  then have "stops_full (repair_orphan_chats sha256)"
    unfolding repair_orphan_chats_def split_def by (auto intro!: stops_full_andthen stops_full_for_each keeps_reads)
  then have "stops_full (andthen (writes rebuild_identities) (\<lambda>_.
      andthen (repair_orphan_chats sha256) (\<lambda>_. repair_phone_sender_names)))"
    by (auto intro!: stops_full_andthen keeps_writes cache_ok_rebuild_identities cache_ok_repair_orphan_chats
        stops_full_never [OF repair_phone_sender_names_ok(2)])
  then show ?thesis
    using assms(1,3) repair_message_projections_plain [OF assms(1,2)]
    by (auto simp: stops_full_def open_cache_def andthen_apply [of "repair_message_projections _ _"])
qed

lemma holds_empty: "holds {} empty_cache"
  using cache_ok_empty by (simp add: holds_def plain_cache_def) (simp add: empty_cache_def)

lemma run_daemon_starts:
  fixes lib :: "'u url_lib" and w :: 'w
  assumes "\<forall>p db. dbs p = Some db \<longrightarrow> holds {} db"
  shows "case run_daemon lib json_text real_text sha256 ctx w dbs of
     Inl e \<Rightarrow> e = NoReturn | Inr d \<Rightarrow> serving_ok d {} []"
proof -
  let ?db = "unwrap_or (dbs (ln_cache_path (boot_with lib ctx w :: ('u, 'w) link))) empty_cache"
  have "holds {} ?db" using assms holds_empty by (cases "dbs (ln_cache_path (boot_with lib ctx w :: ('u, 'w) link))") auto
  then show ?thesis
    using holds_open_cache [of "{}" ?db json_text real_text sha256]
    by (auto simp: run_daemon_def Let_def serving_ok_def published_def split: prod.splits sum.splits)
qed

lemma run_daemon_published:
  "\<forall>p db. dbs p = Some db \<longrightarrow> holds {} db \<Longrightarrow> run_daemon lib json_text real_text sha256 ctx w dbs = Inr d0 \<Longrightarrow>
     serving_ok d0 {} [] \<and> published (flight {}) d0"
  using run_daemon_starts [of dbs lib json_text real_text sha256 ctx w] by (simp add: serving_ok_def)

section \<open>The properties\<close>

text \<open>C2: for a daemon that starts on a new database or on one of the kind it leaves, whatever its session, handlers and
  clients do, in whatever order their operations on its state come and wherever a task is stopped: its cache is
  sound and every message it announced is in the cache.  A later start on the database it leaves opens it, finds
  it sound and still has every message that was announced, unless the greatest id is taken, where the search
  for a free one does not return.\<close>

theorem daemon_announces_what_it_stored:
  assumes "\<forall>p db. dbs p = Some db \<longrightarrow> holds {} db"
    and "run_daemon lib json_text real_text sha256 ctx w dbs = Inr d0"
    and "(daemon_step E parse)\<^sup>*\<^sup>* (d0, {}, []) (d, F, ls)"
  shows "cache_ok (dm_cache d) \<and> holds {} (dm_cache d) \<and> (\<forall>ev\<in>set (dm_events d). announced ev \<subseteq> message_ids (dm_cache d))
     \<and> (case run_daemon lib json_text real_text sha256 ctx' w' (\<lambda>_. Some (dm_cache d)) of
          Inr d1 \<Rightarrow> cache_ok (dm_cache d1) \<and> (\<forall>ev\<in>set (dm_events d). announced ev \<subseteq> message_ids (dm_cache d1))
        | Inl e \<Rightarrow> e = NoReturn
            \<and> i64_max \<in> snd ` set (identities (snd (open_cache json_text real_text sha256 (dm_cache d)))))"
proof -
  have "serving_ok d0 {} []" using run_daemon_published [OF assms(1,2)] ..
  from serving_ok_run [OF assms(3) this] have "published (flight F) d" by (simp add: serving_ok_def)
  then have h: "holds (\<Union> (announced ` set (dm_events d))) (dm_cache d)" by (auto simp: published_def elim: holds_mono)
  then have ok: "cache_ok (dm_cache d)" "plain_cache (dm_cache d)" by (simp_all add: holds_def)
  obtain r db where run: "open_cache json_text real_text sha256 (dm_cache d) = (r, db)" by fastforce
  have "case run_daemon lib json_text real_text sha256 ctx' w' (\<lambda>_. Some (dm_cache d)) of
      Inr d1 \<Rightarrow> r = Inr () \<and> dm_cache d1 = db | Inl e \<Rightarrow> r = Inl e"
    using run by (cases r) (simp_all add: run_daemon_def Let_def)
  then show ?thesis
    using h ok holds_open_cache [OF h run] stops_full_open_cache [OF ok, of json_text real_text sha256] run
    by (auto simp: holds_def UN_subset_iff simp del: domIff split: sum.splits)
qed

text \<open>C6: in every run of such a daemon a subscriber misses nothing unnoticed: the event lines it got are what the
  daemon sent since it subscribed, up to its receiver's position, in their order, with a notice at every
  gap; without such a notice they are exactly that part of what was sent.\<close>

theorem subscriber_misses_nothing:
  assumes "\<forall>p db. dbs p = Some db \<longrightarrow> holds {} db"
    and "run_daemon lib json_text real_text sha256 ctx w dbs = Inr d0"
    and "(daemon_step E parse)\<^sup>*\<^sup>* (d0, {}, []) (d, F, ls)" "l \<in> set ls"
  shows "told (dm_events d) (li_from l) (li_next l) (event_lines l) \<and> li_next l \<le> length (dm_events d)
     \<and> ((\<forall>cs. lagged_event cs \<notin> set (event_lines l)) \<longrightarrow>
          event_lines l = take (li_next l - li_from l) (drop (li_from l) (dm_events d)))"
proof -
  have "serving_ok d0 {} []" using run_daemon_published [OF assms(1,2)] ..
  from serving_ok_run [OF assms(3) this] have "listener_ok (dm_events d) l"
    using assms(4) by (simp add: serving_ok_def list_all_iff)
  then have t: "told (dm_events d) (li_from l) (li_next l) (event_lines l)" "li_next l \<le> length (dm_events d)"
    by (simp_all add: listener_ok_def)
  then have "li_from l \<le> length (dm_events d)" using told_bounds by (meson le_trans)
  then show ?thesis using t told_exactly [OF t(1)] by blast
qed

text \<open>C38: every handler, and every session however long and whatever the other tasks do beside it, is a
  sequence of the operations that the daemon's steps interleave.\<close>

theorem tasks_are_made_of_work:
  assumes "sound d" "run_generation E creds gen attempts retry d = (delays, d')" "among_tasks E attempts"
  shows "(\<exists>F. (work E)\<^sup>*\<^sup>* (d, {}) (d', F))
     \<and> (\<exists>F. (work E)\<^sup>*\<^sup>* (d, {}) (snd (dispatch E fr method params d), F))"
proof -
  have start: "worked E d d" using assms(1) by (auto simp: worked_def)
  have "list_all (\<lambda>(a, f). gentle (worked E d) (at_events a) \<and> (\<forall>s. worked E d s \<longrightarrow> worked E d (f s))) attempts"
    using assms(3) worked_by_work by (fastforce simp: list_all_iff gentle_def among_tasks_def)
  from tasks.kept_run_generation [OF start this assms(2)] have "worked E d d'" .
  moreover have "worked E d (snd (dispatch E fr method params d))" by (rule keepsD [OF tasks.kept_dispatch start])
  ultimately show ?thesis by (simp add: worked_def)
qed

section \<open>A run\<close>

lemma works_run: "(work E)\<^sup>*\<^sup>* (d, F) (d', F') \<Longrightarrow> (daemon_step E parse)\<^sup>*\<^sup>* (d, F, ls) (d', F', ls)"
  by (induction rule: rtranclp_induct2) (auto intro: rtranclp.rtrancl_into_rtrancl daemon_step.works)

lemma demo_run_daemon:
  "run_daemon demo_lib (\<lambda>_. []) (\<lambda>_. []) demo_sha256 (demo_store (File (demo_file None)) (Entry ''hunter2'')) 0
     Map.empty = Inr demo_daemon"
proof -
  have "open_cache (\<lambda>_. []) (\<lambda>_. []) demo_sha256 empty_cache = (Inr (), empty_cache)" by code_simp
  then show ?thesis by (simp add: run_daemon_def demo_daemon_def Let_def)
qed

definition demo_live :: "(string, nat) daemon" where
  "demo_live = snd (apply_live demo_env (cr_public (demo_creds ''hunter2'')) demo_message demo_daemon)"

lemma demo_live_events: "length (dm_events demo_live) = 1"
  unfolding demo_live_def by code_simp

lemma demo_live_run: "\<exists>F. (daemon_step demo_env parse)\<^sup>*\<^sup>* (demo_daemon, {}, ls) (demo_live, F, ls)"
proof -
  have "worked demo_env demo_daemon demo_daemon" using demo_sound by (auto simp: worked_def)
  from keepsD [OF tasks.kept_apply_live this] show ?thesis
    unfolding demo_live_def worked_def using works_run by blast
qed

theorem daemon_announces_what_it_stored_witness:
  "\<exists>ev. dm_events demo_live = [ev] \<and> announced ev \<subseteq> message_ids (dm_cache demo_live)"
proof -
  have new: "\<forall>p db. Map.empty p = Some db \<longrightarrow> holds {} db" by simp
  obtain F where run: "(daemon_step demo_env (\<lambda>_. None))\<^sup>*\<^sup>* (demo_daemon, {}, []) (demo_live, F, [])"
    using demo_live_run by blast
  from daemon_announces_what_it_stored [OF new demo_run_daemon run, THEN conjunct2, THEN conjunct2, THEN conjunct1]
  have "\<forall>ev\<in>set (dm_events demo_live). announced ev \<subseteq> message_ids (dm_cache demo_live)" .
  then show ?thesis using demo_live_events by (auto simp: length_Suc_conv)
qed

definition demo_subscribe :: "string \<Rightarrow> json option" where
  "demo_subscribe _ = Some (envelope_to_json (Req ''1'' ''events.subscribe'' JNull))"

lemma demo_subscribed:
  assumes "listener_acts demo_env demo_subscribe (Line ''events'') (demo_daemon, new_listener demo_daemon) = (d, l)"
  shows "d = demo_daemon \<and> cl_streaming (li_client l) \<and> \<not> cl_closed (li_client l) \<and> li_from l = 0 \<and> li_next l = 0"
proof -
  have "trim ''events'' = ''events''" by code_simp
  moreover have "parse_line demo_subscribe line = Some (Req ''1'' ''events.subscribe'' JNull)" for line
    by (simp add: parse_line_def demo_subscribe_def envelope_of_json_def json_simps)
  moreover have "dm_events demo_daemon = []" by (simp add: demo_daemon_def)
  ultimately show ?thesis
    using assms snapshot_Inr [OF demo_sound, of demo_env]
    by (auto simp: listener_acts_def client_step_def new_listener_def new_client_state_def subscribe_requested_def
        answer_snapshot_def write_env_def)
qed

theorem subscriber_misses_nothing_witness:
  "\<exists>F l. (daemon_step demo_env demo_subscribe)\<^sup>*\<^sup>* (demo_daemon, {}, []) (demo_live, F, [l]) \<and> listening l
     \<and> told (dm_events demo_live) 0 1 (event_lines l)"
proof -
  let ?l0 = "new_listener demo_daemon"
  obtain d1 l1 where act: "listener_acts demo_env demo_subscribe (Line ''events'') (demo_daemon, ?l0) = (d1, l1)" by fastforce
  have l1: "d1 = demo_daemon" "listening l1" "li_from l1 = 0" "li_next l1 = 0"
    using act demo_subscribed by (simp_all add: listening_def)
  let ?l2 = "listener_hears demo_env demo_subscribe demo_live l1"
  have 1: "daemon_step demo_env demo_subscribe (demo_daemon, {}, []) (demo_daemon, {}, [?l0])"
    using daemon_step.accepts [of demo_env demo_subscribe demo_daemon "{}" "[]"] by simp
  have 2: "daemon_step demo_env demo_subscribe (demo_daemon, {}, [?l0]) (demo_daemon, {}, [l1])"
    using daemon_step.acts [of 0 "[?l0]" "Line ''events''" demo_env demo_subscribe demo_daemon d1 l1 "{}"] act l1(1) by simp
  obtain F where live: "(daemon_step demo_env demo_subscribe)\<^sup>*\<^sup>* (demo_daemon, {}, [l1]) (demo_live, F, [l1])"
    using demo_live_run by blast
  have 3: "daemon_step demo_env demo_subscribe (demo_live, F, [l1]) (demo_live, F, [?l2])"
    using daemon_step.hears [of 0 "[l1]" demo_live demo_env demo_subscribe F] l1 demo_live_events by simp
  note rtranclp_trans [OF converse_rtranclp_into_rtranclp [OF 1 r_into_rtranclp [of "daemon_step demo_env demo_subscribe", OF 2]]
      live]
  from rtranclp.rtrancl_into_rtrancl [OF this 3]
  have run: "(daemon_step demo_env demo_subscribe)\<^sup>*\<^sup>* (demo_daemon, {}, []) (demo_live, F, [?l2])" .
  have "\<forall>p db. Map.empty p = Some db \<longrightarrow> holds {} db" by simp
  from subscriber_misses_nothing [OF this demo_run_daemon run, of ?l2]
  have "told (dm_events demo_live) 0 1 (event_lines ?l2)" using l1 by (simp add: listener_hears_def)
  moreover have "listening ?l2"
    using l1(2) by (simp add: listener_hears_def client_step_def listening_def write_env_def Let_def)
  ultimately show ?thesis using run by blast
qed

theorem tasks_are_made_of_work_witness:
  "\<exists>F. (work demo_env)\<^sup>*\<^sup>* (demo_daemon, {}) (snd (run_generation demo_env (demo_creds ''hunter2'') 0 [(demo_attempt, \<lambda>d. d)]
     \<lparr> rb_failures = 0, rb_entropy = 1 \<rparr> demo_daemon), F)"
proof -
  let ?run = "run_generation demo_env (demo_creds ''hunter2'') 0 [(demo_attempt, \<lambda>d. d)]
     \<lparr> rb_failures = 0, rb_entropy = 1 \<rparr> demo_daemon"
  have "among_tasks demo_env [(demo_attempt, \<lambda>d. d)]" by (auto simp: among_tasks_def by_work_def demo_attempt_def)
  with demo_sound show ?thesis
    using tasks_are_made_of_work [of demo_daemon demo_env "demo_creds ''hunter2''" 0 "[(demo_attempt, \<lambda>d. d)]" _
        "fst ?run" "snd ?run"] by simp
qed

end
