(* ===== verification/Doc_Types.thy ===== *)
theory Doc_Types
  imports Daemon
begin

text \<open>
  The types of the documents the daemon stores and of the results it answers with.  The desktop reads their
  members by name; a row id is a text there, because a number of that size would lose digits.
\<close>

datatype json_type =
    TStr
  | TBool
  | TInt
  | TOpt json_type
  | TList json_type
  | TObj "(string \<times> json_type) list"

fun has_type :: "json_type \<Rightarrow> json \<Rightarrow> bool" where
  "has_type TStr v \<longleftrightarrow> as_str v \<noteq> None"
| "has_type TBool v \<longleftrightarrow> as_bool v \<noteq> None"
| "has_type TInt v \<longleftrightarrow> as_i64 v \<noteq> None"
| "has_type (TOpt t) v \<longleftrightarrow> is_null v \<or> has_type t v"
| "has_type (TList t) v \<longleftrightarrow> (case as_array v of None \<Rightarrow> False | Some xs \<Rightarrow> list_all (has_type t) xs)"
| "has_type (TObj fs) v \<longleftrightarrow> is_object v \<and> list_all (\<lambda>ft. has_type (snd ft) (json_at v (fst ft))) fs"

definition attachment_type :: json_type where
  "attachment_type = TObj [(''guid'', TStr), (''mime'', TOpt TStr), (''name'', TOpt TStr)]"

definition message_type :: json_type where
  "message_type = TObj
     [(''id'', TStr), (''guid'', TStr), (''text'', TStr), (''is_from_me'', TBool),
      (''attachments'', TList attachment_type), (''chat_id'', TOpt TStr), (''created_at'', TOpt TStr),
      (''sender'', TOpt TStr), (''sender_name'', TOpt TStr)]"

definition chat_type :: json_type where
  "chat_type = TObj
     [(''id'', TStr), (''guid'', TStr), (''name'', TStr), (''contact_name'', TStr), (''identifier'', TStr),
      (''participants'', TList TStr), (''unread_count'', TInt), (''is_group'', TBool),
      (''display_name'', TOpt TStr), (''last_message_at'', TOpt TStr)]"

lemmas type_defs = attachment_type_def message_type_def chat_type_def

lemma has_type_Str [simp]: "has_type TStr (JStr s)" "has_type (TOpt TStr) (JStr s)" "has_type (TOpt t) JNull"
  by (simp_all add: is_null_def)

lemma has_type_of_opt_str [simp]: "has_type (TOpt TStr) (of_opt_str v)"
  by (cases v) (simp_all add: of_opt_str_def is_null_def)

lemma has_type_of_i64 [simp]: "in_i64 n \<Longrightarrow> has_type TInt (of_i64 n)"
  by simp

text \<open>An object keeps its type when a member is replaced by one of the member's type.\<close>

lemma has_type_put:
  assumes "has_type (TObj fs) v" "json_put v k x = Some v'" "\<And>t. (k, t) \<in> set fs \<Longrightarrow> has_type t x"
  shows "has_type (TObj fs) v'"
proof -
  obtain ob where "v = JObj ob" using assms(1) by (auto elim: is_objectE)
  with assms show ?thesis
    by (fastforce simp: json_put_def list_all_iff is_object_def json_at_def json_get_def)
qed

lemma has_type_cong:
  "has_type (TObj fs) v \<Longrightarrow> is_object w \<Longrightarrow> (\<And>k t. (k, t) \<in> set fs \<Longrightarrow> json_at w k = json_at v k \<or> has_type t (json_at w k)) \<Longrightarrow>
     has_type (TObj fs) w"
  by (fastforce simp: list_all_iff)

section \<open>Typed documents\<close>

lemma attachment_typed: "has_type attachment_type (attachment_to_json a)"
  by (simp add: attachment_type_def attachment_to_json_def json_simps del: has_type.simps(4))

lemma message_doc_typed: "has_type message_type (message_to_cache_json m n k)"
  by (auto simp: message_type_def message_to_cache_json_def json_simps list_all_iff attachment_typed
      simp del: has_type.simps(4))

lemma uint_u32: "uint (ucast (n :: u32) :: u64) \<le> i64_max"
proof -
  have "uint (ucast n :: u64) = uint n" by (simp add: uint_up_ucast is_up)
  then show ?thesis using uint_lt2p [of n] by (simp add: i64_max_def)
qed

lemma chat_doc_typed: "has_type chat_type (chat_to_cache_json c n)"
  by (auto simp: chat_type_def chat_to_cache_json_def json_simps list_all_iff Let_def uint_u32 simp del: has_type.simps(4))

lemma stringify_id_at:
  "json_at (JObj (stringify_id k ob)) k' = json_at (JObj ob) k'
     \<or> k' = k \<and> (\<exists>s. json_at (JObj (stringify_id k ob)) k' = JStr s)"
  by (auto simp: stringify_id_def split: option.splits sum.splits)

lemma stringify_typed:
  assumes "has_type (TObj fs) v" "\<And>t. (''id'', t) \<in> set fs \<Longrightarrow> t = TStr" "\<And>t. (''chat_id'', t) \<in> set fs \<Longrightarrow> t = TOpt TStr"
  shows "has_type (TObj fs) (stringify_row_ids v)"
proof (rule has_type_cong [OF assms(1)])
  fix k t
  assume k: "(k, t) \<in> set fs"
  obtain ob where v: "v = JObj ob" using assms(1) by (auto elim: is_objectE)
  show "json_at (stringify_row_ids v) k = json_at v k \<or> has_type t (json_at (stringify_row_ids v) k)"
    using stringify_id_at [of "''id''" ob k] stringify_id_at [of "''chat_id''" "stringify_id ''id'' ob" k]
      assms(2) [of t] assms(3) [of t] k
    by (auto simp: v stringify_row_ids_def simp del: json_at_JObj)
qed (use assms(1) in simp)

lemma stringify_message_typed: "has_type message_type v \<Longrightarrow> has_type message_type (stringify_row_ids v)"
  unfolding message_type_def by (rule stringify_typed) auto

lemma stringify_chat_typed: "has_type chat_type v \<Longrightarrow> has_type chat_type (stringify_row_ids v)"
  unfolding chat_type_def by (rule stringify_typed) auto

text \<open>A merge takes every member from one of two typed documents; only an optional one can be left out.\<close>

lemma merge_typed:
  assumes "has_type message_type doc" "json_wf doc" "\<And>v. old = Some v \<Longrightarrow> has_type message_type v"
  shows "has_type message_type (merge_message old doc)"
proof -
  obtain ob where doc: "doc = JObj ob" using assms(1) by (auto simp: message_type_def elim: is_objectE)
  show ?thesis unfolding message_type_def
  proof (rule has_type_cong [OF assms(1) [unfolded message_type_def]])
    show "is_object (merge_message old doc)" by (simp add: doc merge_message_def is_object_def)
    fix k t
    assume k: "(k, t) \<in> set [(''id'', TStr), (''guid'', TStr), (''text'', TStr), (''is_from_me'', TBool),
      (''attachments'', TList attachment_type), (''chat_id'', TOpt TStr), (''created_at'', TOpt TStr),
      (''sender'', TOpt TStr), (''sender_name'', TOpt TStr)]"
    have old: "has_type t (json_at v k)" if "old = Some v" for v
      using assms(3) [OF that] k by (auto simp: message_type_def simp del: has_type.simps(4))
    have new: "has_type t (json_at doc k)" using assms(1) k by (auto simp: message_type_def simp del: has_type.simps(4))
    consider "json_at (merge_message old doc) k = json_at doc k"
      | v where "old = Some v" "json_at (merge_message old doc) k = json_at v k"
      | "old = None" "json_at (merge_message old doc) k = JNull"
      using merge_message_at [OF assms(2), of old k] by (cases old) (auto simp: doc is_object_def)
    then show "json_at (merge_message old doc) k = json_at doc k \<or> has_type t (json_at (merge_message old doc) k)"
    proof cases
      case 3
      show ?thesis
      proof (cases "t = TOpt TStr")
        case False
        then have "json_at doc k \<noteq> JNull" "\<not> merge_skips k (json_at doc k) []"
          using new k by (auto simp: merge_skips_def is_null_def)
        then have "json_get (merge_message None doc) k = Some (json_at doc k)"
          using merge_message_get [of ob None k] assms(2)
          by (auto simp: doc stored_members_def json_at_def json_get_def split: option.splits)
        then show ?thesis using 3(1) by (simp add: json_at_def)
      qed (use 3 in simp)
    qed (use old in auto)
  qed
qed

section \<open>A typed cache\<close>

definition typed_messages :: "(i64 \<times> msg_row) list \<Rightarrow> bool" where
  "typed_messages tbl \<longleftrightarrow> list_all (\<lambda>kv. \<forall>v\<in>set_option (mr_raw (snd kv)). has_type message_type v) tbl"

definition typed_chats :: "(i64 \<times> chat_row) list \<Rightarrow> bool" where
  "typed_chats tbl \<longleftrightarrow> list_all (\<lambda>kv. \<forall>v\<in>set_option (cr_raw (snd kv)). has_type chat_type v) tbl"

definition typed_cache :: "cache \<Rightarrow> bool" where
  "typed_cache db \<longleftrightarrow> cache_ok db \<and> typed_messages (messages db) \<and> typed_chats (chats db)"

lemma list_all_kv_insert: "list_all P tbl \<Longrightarrow> P (k, v) \<Longrightarrow> list_all P (kv_insert k v tbl)"
  by (induction tbl) auto

lemma typed_message_insert:
  "typed_messages tbl \<Longrightarrow> (\<And>v. mr_raw row = Some v \<Longrightarrow> has_type message_type v) \<Longrightarrow> typed_messages (kv_insert n row tbl)"
  unfolding typed_messages_def by (intro list_all_kv_insert) auto

lemma typed_chat_insert:
  "typed_chats tbl \<Longrightarrow> (\<And>v. cr_raw row = Some v \<Longrightarrow> has_type chat_type v) \<Longrightarrow> typed_chats (kv_insert n row tbl)"
  unfolding typed_chats_def by (intro list_all_kv_insert) auto

lemma stored_message_typed: "typed_messages (messages db) \<Longrightarrow> stored_message db n = Some v \<Longrightarrow> has_type message_type v"
  by (cases "map_of (messages db) n")
     (force simp: stored_message_def typed_messages_def list_all_iff dest: map_of_SomeD)+

lemma stored_chat_typed: "typed_chats (chats db) \<Longrightarrow> stored_chat db n = Some c \<Longrightarrow> has_type chat_type c"
  by (cases "map_of (chats db) n") (force simp: stored_chat_def typed_chats_def list_all_iff dest: map_of_SomeD)+

lemma keeps_typed:
  "keeps cache_ok m \<Longrightarrow>
   (\<And>db. typed_cache db \<Longrightarrow> typed_messages (messages (snd (m db))) \<and> typed_chats (chats (snd (m db)))) \<Longrightarrow>
     keeps typed_cache m"
  by (auto simp: keeps_def typed_cache_def)

lemma keeps_typed_same:
  "keeps cache_ok m \<Longrightarrow> (\<And>db. messages (snd (m db)) = messages db \<and> chats (snd (m db)) = chats db) \<Longrightarrow> keeps typed_cache m"
  by (rule keeps_typed) (auto simp: typed_cache_def)

lemma typed_id_for_guid: "keeps typed_cache (id_for_guid sha256 g)"
  using id_for_guid_tables by (intro keeps_typed_same cache_ok_id_for_guid) (metis prod.collapse)

subsection \<open>Chats\<close>

lemma put_chat_typed:
  "has_type chat_type c \<Longrightarrow> json_put c k x = Some c' \<Longrightarrow>
     k \<in> {''name'', ''contact_name''} \<and> has_type TStr x
     \<or> k \<in> {''display_name'', ''last_message_at''} \<and> has_type (TOpt TStr) x \<or> k = ''unread_count'' \<and> has_type TInt x \<Longrightarrow>
     has_type chat_type c'"
  unfolding chat_type_def by (erule has_type_put) auto

lemma chat_members_typed:
  "has_type chat_type c \<Longrightarrow> has_type TStr (json_at c ''name'') \<and> has_type TStr (json_at c ''contact_name'')
     \<and> has_type (TOpt TStr) (json_at c ''display_name'')"
  by (simp add: chat_type_def)

lemma keep_person_name_typed:
  assumes "has_type chat_type old" "has_type chat_type c" "keep_person_name old c = Some c'"
  shows "has_type chat_type c'"
  using assms(2,3) chat_members_typed [OF assms(1)]
  by (auto simp: keep_person_name_def bind_eq_Some_conv simp del: has_type.simps
      split: if_splits intro: put_chat_typed [OF put_chat_typed [OF put_chat_typed [OF assms(2)]]]
        put_chat_typed [OF put_chat_typed [OF assms(2)]])

lemma set_unread_typed:
  assumes "has_type chat_type c" "in_i64 n"
  shows "has_type chat_type (json_set_unread c n)"
proof -
  have "is_object c" using assms(1) by (simp add: chat_type_def)
  then obtain ob where "c = JObj ob" by (rule is_objectE)
  then show ?thesis
    using put_chat_typed [OF assms(1), of "''unread_count''" "of_i64 n"] assms(2)
    by (simp add: json_set_unread_def json_put_def)
qed

lemma upsert_chat_typed:
  assumes "typed_cache db" "has_type chat_type c"
  shows "typed_chats (chats (snd (upsert_chat c db)))"
proof -
  have db: "cache_ok db" "typed_chats (chats db)" using assms(1) by (simp_all add: typed_cache_def)
  have unread: "in_i64 (cr_unread_count row)" if "map_of (chats db) n = Some row" for n row
    using cache_ok_chat [OF db(1) that] unread_of_in_i64 by metis
  have kept: "has_type chat_type c'" if "stored_chat db (row_id c) = Some old" "keep_person_name old c = Some c'" for old c'
    using keep_person_name_typed [OF stored_chat_typed [OF db(2) that(1)] assms(2) that(2)] .
  have store: "typed_chats (chats (store_chat (row_id c) c' db))" if "has_type chat_type c'" for c'
    using that unread set_unread_typed [OF that] db(2)
    by (auto simp: store_chat_def new_chat_row_def conflict_chat_row_def intro!: typed_chat_insert split: option.splits)
  show ?thesis
    using kept store assms(2) db(2)
    by (auto simp: upsert_chat_def Let_def stored_chat_def split: option.splits)
qed

lemma typed_upsert_chat: "has_type chat_type c \<Longrightarrow> json_wf c \<Longrightarrow> keeps typed_cache (upsert_chat c)"
proof (rule keeps_typed)
  assume c: "has_type chat_type c" "json_wf c"
  then have "is_object c" by (simp add: chat_type_def)
  then show "keeps cache_ok (upsert_chat c)" using cache_ok_upsert_chat c(2) by (intro keepsI) simp
  show "typed_messages (messages (snd (upsert_chat c db))) \<and> typed_chats (chats (snd (upsert_chat c db)))"
    if "typed_cache db" for db
    using that upsert_chat_typed [OF that c(1)] upsert_chat_messages by (simp add: typed_cache_def)
qed

lemma typed_upsert_domain_chat: "keeps typed_cache (upsert_domain_chat sha256 c)"
  unfolding upsert_domain_chat_def
  by (intro keeps_intros typed_id_for_guid typed_upsert_chat chat_doc_typed json_wf_chat_to_cache_json)

lemma mark_read_typed:
  assumes "typed_cache db"
  shows "typed_chats (chats (snd (mark_read n db)))
    \<and> (\<forall>c. fst (mark_read n db) = Inr (Some c) \<longrightarrow> has_type chat_type c)"
proof -
  have db: "cache_ok db" "typed_chats (chats db)" using assms by (simp_all add: typed_cache_def)
  show ?thesis
    using db(1)
  proof (rule mark_read_runs [where n = n])
    fix c c' row
    assume run: "mark_read n db = (Inr (Some (stringify_row_ids c')),
         db\<lparr>chats := kv_insert n (row\<lparr>cr_unread_count := 0, cr_raw := Some c'\<rparr>) (chats db)\<rparr>)"
      and "stored_chat db n = Some c" and put: "json_put c ''unread_count'' (of_i64 0) = Some c'"
    then have "has_type chat_type c" using stored_chat_typed [OF db(2)] by blast
    then have "has_type chat_type c'"
      by (rule put_chat_typed [OF _ put]) (simp add: in_i64_def i64_max_def i64_min_def)
    then show ?thesis using db(2) stringify_chat_typed by (auto simp: run intro: typed_chat_insert)
  qed (use db in simp)
qed

lemma typed_mark_read: "keeps typed_cache (mark_read n)"
  using mark_read_typed mark_read_messages
  by (intro keeps_typed keeps_cache_mark_read) (simp add: typed_cache_def)

subsection \<open>Messages\<close>

lemma merged_at_typed:
  "typed_cache db \<Longrightarrow> has_type message_type doc \<Longrightarrow> json_wf doc \<Longrightarrow> has_type message_type (merged_at db doc)"
  unfolding merged_at_def typed_cache_def by (intro merge_typed) (auto dest: stored_message_typed)

lemma typed_with_message:
  "typed_cache db \<Longrightarrow> has_type message_type v \<Longrightarrow> typed_messages (messages (with_message v db))"
  by (auto simp: typed_cache_def with_message_def message_row_def intro: typed_message_insert)

lemma typed_upsert_domain_message: "keeps typed_cache (upsert_domain_message sha256 msg)"
proof -
  have "keeps typed_cache (upsert_message (message_to_cache_json msg n k))" for n k
  proof (rule keeps_typed)
    show "keeps cache_ok (upsert_message (message_to_cache_json msg n k))"
      by (intro keepsI) (simp add: upsert_message_apply cache_ok_with_message merged_at_ok)
    fix db
    assume db: "typed_cache db"
    then have "cache_ok db" by (simp add: typed_cache_def)
    then show "typed_messages (messages (snd (upsert_message (message_to_cache_json msg n k) db)))
        \<and> typed_chats (chats (snd (upsert_message (message_to_cache_json msg n k) db)))"
      using typed_with_message [OF db merged_at_typed [OF db message_doc_typed]] db
      by (simp add: upsert_message_apply typed_cache_def with_message_def)
  qed
  then show ?thesis unfolding upsert_domain_message_def by (intro keeps_intros typed_id_for_guid)
qed

lemma put_sender_typed:
  "has_type message_type v \<Longrightarrow> json_put v ''sender_name'' (JStr name) = Some v' \<Longrightarrow> has_type message_type v'"
  unfolding message_type_def by (erule has_type_put) auto

lemma name_from_chat_typed:
  assumes "has_type message_type j" "name_from_chat k j db = Some doc"
  shows "has_type message_type doc"
proof -
  have "name_from_chat k j db = Some j
      \<or> (\<exists>name. name_from_chat k j db = json_put j ''sender_name'' (JStr name))"
    by (auto simp: name_from_chat_def split: option.splits)
  then show ?thesis using assms put_sender_typed by auto
qed

lemma live_chat_typed:
  assumes "has_type chat_type c" "live_chat is_new merged c = Some (u, c')" "in_i64 u"
  shows "has_type chat_type c'"
proof -
  let ?ts = "later_timestamp (as_str (json_at c ''last_message_at'')) (as_str (json_at merged ''created_at''))"
  obtain c1 where c1: "(case ?ts of None \<Rightarrow> Some c | Some ts \<Rightarrow> json_put c ''last_message_at'' (JStr ts)) = Some c1"
      "json_put c1 ''unread_count'' (of_i64 u) = Some c'"
    using assms(2) unfolding live_chat_def bind_eq_Some_conv Let_def map_option_eq_Some by blast
  have "has_type chat_type c1"
  proof (cases ?ts)
    case None
    then show ?thesis using c1(1) assms(1) by (simp only: option.case option.inject)
  next
    case (Some ts)
    then have "json_put c ''last_message_at'' (JStr ts) = Some c1" using c1(1) by (simp only: option.case)
    from put_chat_typed [OF assms(1) this] show ?thesis by simp
  qed
  from put_chat_typed [OF this c1(2)] show ?thesis using assms(3) by simp
qed

text \<open>What a delivery stores and reports.\<close>

definition typed_applied :: "applied \<Rightarrow> bool" where
  "typed_applied a \<longleftrightarrow> has_type message_type (ap_message a)
     \<and> (case ap_chat a of ChatUpdated c \<Rightarrow> has_type chat_type c | ChatUnknown _ \<Rightarrow> True)"

lemma apply_live_typed:
  assumes db: "typed_cache db" and doc: "has_type message_type doc" "json_wf doc"
    and run: "apply_live_message doc db = (r, db')"
  shows "typed_messages (messages db') \<and> typed_chats (chats db') \<and> (\<forall>a. r = Inr a \<longrightarrow> typed_applied a)"
proof -
  have ok: "cache_ok db" "typed_chats (chats db)" using db by (simp_all add: typed_cache_def)
  have m: "has_type message_type (merged_at db doc)" using merged_at_typed [OF db doc] .
  note stored = typed_with_message [OF db m]
  have same: "chats (with_message v db) = chats db" for v by (simp add: with_message_def)
  show ?thesis
    using ok(1) doc(2)
  proof (cases rule: apply_live_message_runs)
    case unknown
    then show ?thesis using run stored same ok(2) stringify_message_typed [OF m] by (auto simp: typed_applied_def)
  next
    case (known c u c' row)
    have c': "has_type chat_type c'"
      using live_chat_typed [OF stored_chat_typed [OF ok(2) known(1)] known(7) known(4)] .
    then have "typed_chats (kv_insert (chat_id_of (merged_at db doc)) (live_chat_row u c' row) (chats db))"
      using ok(2) by (intro typed_chat_insert) (auto simp: live_chat_row_def)
    then show ?thesis
      using run stored stringify_message_typed [OF m] stringify_chat_typed [OF c'] known(11)
      by (auto simp: typed_applied_def)
  qed
qed

lemma deliver_typed:
  assumes "typed_cache db" "deliver sha256 msg k n db = (r, db')"
  shows "typed_cache db' \<and> (\<forall>a. r = Inr a \<longrightarrow> typed_applied a)"
proof -
  have ok: "cache_ok db" using assms(1) by (simp add: typed_cache_def)
  obtain doc where doc: "name_from_chat k (message_to_cache_json msg n k) db = Some doc" "json_wf doc" "is_object doc"
      "deliver sha256 msg k n db = apply_live_message doc db"
    by (rule deliver_runs [OF ok, of k msg n sha256]) blast
  have "has_type message_type doc" using name_from_chat_typed [OF message_doc_typed doc(1)] .
  moreover have "cache_ok db'" using cache_ok_apply_live [OF ok doc(2,3)] assms(2) doc(4) by simp
  ultimately show ?thesis
    using apply_live_typed [OF assms(1) _ doc(2), of r db'] assms(2) doc(4) by (simp add: typed_cache_def)
qed

lemma typed_ensure_chat: "keeps typed_cache (ensure_chat sha256 msg k)"
  unfolding ensure_chat_def by (intro keeps_intros typed_upsert_domain_chat)

lemma apply_domain_message_typed:
  assumes "typed_cache db" "apply_domain_message sha256 msg db = (r, db')"
  shows "typed_cache db' \<and> (\<forall>a. r = Inr a \<longrightarrow> typed_applied a)"
proof -
  obtain r1 db1 where 1: "id_for_guid sha256 (chat_guid_str (m_chat msg)) db = (r1, db1)" by fastforce
  have t1: "typed_cache db1" using keepsE [OF typed_id_for_guid assms(1) 1] .
  show ?thesis
  proof (cases r1)
    case (Inr k)
    obtain r2 db2 where 2: "ensure_chat sha256 msg k db1 = (r2, db2)" by fastforce
    have t2: "typed_cache db2" using keepsE [OF typed_ensure_chat t1 2] .
    show ?thesis
    proof (cases r2)
      case (Inr u)
      obtain r3 db3 where 3: "id_for_guid sha256 (message_guid_str (m_guid msg)) db2 = (r3, db3)" by fastforce
      have t3: "typed_cache db3" using keepsE [OF typed_id_for_guid t2 3] .
      then show ?thesis
        using assms(2) 1 2 3 \<open>r1 = Inr k\<close> Inr deliver_typed [OF t3]
        by (cases r3) (auto simp: apply_domain_message_steps andthen_apply)
    qed (use assms(2) 1 2 t2 Inr in \<open>auto simp: apply_domain_message_steps andthen_apply\<close>)
  qed (use assms(2) 1 t1 in \<open>auto simp: apply_domain_message_steps andthen_apply\<close>)
qed

subsection \<open>Renaming\<close>

lemma list_chats_typed:
  assumes "typed_cache db" "list_chats n db = Inr cs" "c \<in> set cs"
  shows "has_type chat_type c"
proof -
  have ok: "cache_ok db" "typed_chats (chats db)" using assms(1) by (simp_all add: typed_cache_def)
  obtain r where r: "r \<in> snd ` set (chats db)" "c = stringify_row_ids (the (cr_raw r))"
    using assms list_chats_ok [OF ok(1), of n]
      set_sql_limit [of n "order_desc (\<lambda>r. sql_of (cr_last_message_at r)) (map snd (chats db))"] by fastforce
  then obtain v where "cr_raw r = Some v" using cache_ok_rows(1) [OF ok(1)] by (fastforce simp: chat_row_ok_def split: option.splits)
  moreover from this have "has_type chat_type v" using ok(2) r(1) by (force simp: typed_chats_def list_all_iff)
  ultimately show ?thesis using r(2) stringify_chat_typed by simp
qed

lemma typed_rename_chat:
  assumes "has_type chat_type c" "json_wf c"
  shows "keeps typed_cache (rename_chat book c)"
proof (cases "rename_chat book c = ret 0")
  case True
  then show ?thesis by (simp only: keeps_ret)
next
  case False
  have c: "is_object c" using assms(1) by (simp add: chat_type_def)
  obtain name where l: "book_lookup book (unwrap_or (as_str (json_at c ''identifier'')) []) = Some name"
    using False by (cases "book_lookup book (unwrap_or (as_str (json_at c ''identifier'')) [])") (auto simp: rename_chat_def)
  have name: "rename_chat book c =
      (case Option.bind (json_put c ''name'' (JStr name)) (\<lambda>c1. json_put c1 ''contact_name'' (JStr name)) of
         None \<Rightarrow> raise Panic | Some c' \<Rightarrow> andthen (upsert_chat c') (\<lambda>_. ret 1))"
    using False by (simp add: rename_chat_def Let_def l split: if_splits)
  obtain c1 where c1: "json_put c ''name'' (JStr name) = Some c1" "is_object c1" "json_wf c1"
    by (rule json_put_objectE [OF c assms(2), of "JStr name" "''name''"]) (simp, blast)
  obtain c2 where c2: "json_put c1 ''contact_name'' (JStr name) = Some c2" "is_object c2" "json_wf c2"
    by (rule json_put_objectE [OF c1(2,3), of "JStr name" "''contact_name''"]) (simp, blast)
  have "has_type chat_type c2" using put_chat_typed [OF put_chat_typed [OF assms(1) c1(1)] c2(1)] by simp
  then have "keeps typed_cache (andthen (upsert_chat c2) (\<lambda>_. ret (1 :: u32)))"
    using c2(3) by (intro keeps_intros typed_upsert_chat)
  then show ?thesis by (simp add: name c1(1) c2(1))
qed

lemma typed_rename_chats:
  "(\<And>c. c \<in> set cs \<Longrightarrow> has_type chat_type c \<and> json_wf c) \<Longrightarrow> keeps typed_cache (rename_chats book cs n)"
  by (induction cs arbitrary: n) (auto intro!: keeps_intros typed_rename_chat)

lemma typed_repair_sender_name:
  assumes "message_row_ok (fst kv) (snd kv)" "\<And>v. mr_raw (snd kv) = Some v \<Longrightarrow> has_type message_type v"
  shows "keeps typed_cache (repair_sender_name titles kv)"
proof (rule keeps_typed)
  show "keeps cache_ok (repair_sender_name titles kv)" using repair_sender_name_ok(1) [OF assms(1)] .
  obtain v where v: "mr_raw (snd kv) = Some v" using assms(1) by (auto simp: message_row_ok_def split: option.splits)
  fix db
  assume "typed_cache db"
  then show "typed_messages (messages (snd (repair_sender_name titles kv db)))
      \<and> typed_chats (chats (snd (repair_sender_name titles kv db)))"
    using put_sender_typed [OF assms(2) [OF v]] v
    by (auto simp: typed_cache_def repair_sender_name_def Let_def intro!: typed_message_insert split: option.splits)
qed

lemma typed_repair_phone_sender_names: "keeps typed_cache repair_phone_sender_names"
proof (rule keepsI)
  fix db
  assume t: "typed_cache db"
  then have ok: "cache_ok db" by (simp add: typed_cache_def)
  obtain cs where cs: "list_chats 500 db = Inr cs" using list_chats_Inr [OF ok] by blast
  have "keeps typed_cache (repair_sender_name (chat_titles cs) kv)" if "kv \<in> set (messages db)" for kv
    using t that cache_ok_rows(2) [OF ok]
    by (intro typed_repair_sender_name) (auto simp: typed_cache_def typed_messages_def list_all_iff)
  then have "keeps typed_cache (for_each (messages db) (repair_sender_name (chat_titles cs)))"
    using for_each_ok [of "messages db" typed_cache "repair_sender_name (chat_titles cs)" UNIV] by (simp add: fails_in_def)
  from keepsD [OF this t] show "typed_cache (snd (repair_phone_sender_names db))"
    by (simp add: repair_phone_sender_names_def andthen_apply cs)
qed

lemma typed_apply_contact_book: "keeps typed_cache (apply_contact_book book)"
proof (rule keepsI)
  fix db
  assume t: "typed_cache db"
  then have ok: "cache_ok db" by (simp add: typed_cache_def)
  obtain cs where cs: "list_chats 500 db = Inr cs" using list_chats_Inr [OF ok] by blast
  have "keeps typed_cache (andthen (rename_chats (fold seed_from_cache_chat cs book) cs 0) (\<lambda>n.
      andthen repair_phone_sender_names (\<lambda>_. ret n)))"
    using list_chats_typed [OF t cs] list_chats_docs [OF ok cs]
    by (intro keeps_intros typed_repair_phone_sender_names typed_rename_chats) blast
  from keepsD [OF this t] show "typed_cache (snd (apply_contact_book book db))"
    by (simp add: apply_contact_book_def andthen_apply cs)
qed

section \<open>The daemon's documents stay typed\<close>

definition typed :: "('u, 'w) daemon \<Rightarrow> bool" where
  "typed d \<longleftrightarrow> typed_cache (dm_cache d)"

lemma keeps_typed_on_cache: "keeps typed_cache m \<Longrightarrow> keeps typed (on_cache m)"
  by (auto simp: keeps_def typed_def on_cache_def split: prod.splits)

lemma typed_apply_domain_message: "keeps typed_cache (apply_domain_message sha256 msg)"
  using apply_domain_message_typed by (intro keepsI) (metis prod.collapse)

lemma typed_cache_set_meta [simp]: "typed_cache (set_meta k v db) = typed_cache db"
  using cache_ok_set_meta [of k v db] by (simp add: typed_cache_def set_meta_def)

interpretation typed: daemon_fact E typed for E :: "('u, 'w) env"
  by unfold_locales
     (auto simp: typed_def change_cache_def send_event_def typed_cache_def [THEN iffD1, THEN conjunct1]
       intro!: keeps_typed_on_cache typed_upsert_domain_chat typed_upsert_domain_message typed_apply_domain_message
         typed_apply_contact_book typed_mark_read)

end
