(* ===== verification/Reply_Types.thy ===== *)
theory Reply_Types
  imports Doc_Types Daemon_Contract
begin

text \<open>
  The types of the results that the handlers answer with.
\<close>

definition view_fields :: "(string \<times> json_type) list" where
  "view_fields =
     [(''server_url'', TOpt TStr), (''password_set'', TBool), (''session'', TStr), (''webhook_enabled'', TBool),
      (''webhook_port'', TInt), (''webhook_serve_url'', TStr), (''webhook_listening'', TBool),
      (''webhook_registered'', TBool), (''webhook_token_set'', TBool)]"

definition link_fields :: "(string \<times> json_type) list" where
  "link_fields =
     [(''bridge_connected'', TBool), (''database_ready'', TBool), (''last_error'', TStr), (''contacts'', TStr),
      (''connected'', TBool), (''protocol'', TStr)]"

text \<open>What the desktop may expect of the result of a method.\<close>

definition reply_type :: "string \<Rightarrow> json_type" where
  "reply_type method =
     (if method = ''status'' then TObj (view_fields @ link_fields)
      else if method = ''webhook.url'' then TObj [(''url'', TStr)]
      else if method = ''contacts.authorize'' then TObj [(''outcome'', TStr), (''names_visible'', TBool)]
      else if method = ''chats.mark_read'' then TObj [(''chat'', TOpt chat_type)]
      else if method = ''messages.send'' \<or> method = ''messages.send_attachment''
        then TObj [(''ok'', TBool), (''message'', message_type)]
      else if method = ''chats.list'' then TObj [(''chats'', TList chat_type)]
      else if method = ''messages.history'' \<or> method = ''messages.search''
        then TObj [(''messages'', TList message_type)]
      else TObj view_fields)"

lemma view_typed: "has_type (TObj view_fields) (to_status_fields view)"
proof -
  have "uint (ucast (pv_webhook_port view) :: u64) \<le> i64_max"
    using uint_lt2p [of "pv_webhook_port view"] by (simp add: uint_up_ucast is_up i64_max_def)
  then show ?thesis
    by (simp add: view_fields_def to_status_fields_def status_members_def json_simps del: has_type.simps(4))
qed

lemma insert_members_at:
  "json_at (insert_members kvs (JObj ob)) k = unwrap_or (map_of (rev kvs) k) (json_at (JObj ob) k)"
  by (simp add: insert_members_def map_of_fold_kv_insert map_add_def split: option.splits)

lemma insert_members_over:
  "is_object v \<Longrightarrow> json_at (insert_members kvs v) k = unwrap_or (map_of (rev kvs) k) (json_at v k)"
  by (erule is_objectE) (simp only: insert_members_at)

lemma insert_members_object [simp]: "is_object (insert_members kvs v) = is_object v"
  by (cases v) (auto simp: insert_members_def)

lemma insert_members_typed:
  assumes "has_type (TObj fs) v" "\<And>kv t. kv \<in> set kvs \<Longrightarrow> (fst kv, t) \<in> set fs \<Longrightarrow> has_type t (snd kv)"
  shows "has_type (TObj fs) (insert_members kvs v)"
proof (rule has_type_cong [OF assms(1)])
  fix k t
  assume k: "(k, t) \<in> set fs"
  obtain ob where v: "v = JObj ob" using assms(1) by (auto elim: is_objectE)
  show "json_at (insert_members kvs v) k = json_at v k \<or> has_type t (json_at (insert_members kvs v) k)"
  proof (cases "map_of (rev kvs) k")
    case (Some x)
    then have "(k, x) \<in> set kvs" using map_of_SomeD by fastforce
    then show ?thesis using assms(2) [of "(k, x)"] k Some by (simp add: v insert_members_at)
  qed (simp add: v insert_members_at)
qed (use assms(1) in simp)

lemma map_of_rev_distinct: "distinct (map fst xs) \<Longrightarrow> map_of (rev xs) = map_of xs"
  by (induction xs) (auto simp: map_add_def fun_eq_iff map_of_eq_None_iff [symmetric] split: option.splits)

lemma to_status_fields_object:
  obtains ob where "to_status_fields view = JObj ob" "kv_sorted ob"
  using json_wf_mk_obj [of "status_members view"]
  by (cases "to_status_fields view")
     (auto simp: to_status_fields_def mk_obj_def status_members_def list_all_iff of_opt_str_def split: option.splits)

section \<open>What an action answers\<close>

text \<open>The result of an action on a state of an invariant, when it has one.\<close>

definition answers :: "('s \<Rightarrow> bool) \<Rightarrow> ('a \<Rightarrow> bool) \<Rightarrow> ('s, 'e, 'a) act \<Rightarrow> bool" where
  "answers P Q m \<longleftrightarrow> (\<forall>s x. P s \<longrightarrow> fst (m s) = Inr x \<longrightarrow> Q x)"

lemma answersD: "answers P Q m \<Longrightarrow> P s \<Longrightarrow> m s = (Inr x, s') \<Longrightarrow> Q x"
  by (auto simp: answers_def)

lemma answers_ret: "Q x \<Longrightarrow> answers P Q (ret x)"
  and answers_raise: "answers P Q (raise e)"
  and answers_reads: "(\<And>s. P s \<Longrightarrow> Q (f s)) \<Longrightarrow> answers P Q (reads f)"
  by (simp_all add: answers_def)

lemma answers_andthen:
  assumes "answers P R m" "keeps P m" "\<And>x. R x \<Longrightarrow> answers P Q (f x)"
  shows "answers P Q (andthen m f)"
  unfolding answers_def
proof (intro allI impI)
  fix s y
  assume s: "P s" "fst (andthen m f s) = Inr y"
  then obtain x s' where m: "m s = (Inr x, s')" "fst (f x s') = Inr y"
    by (auto simp: andthen_apply split: prod.splits sum.splits)
  have "P s'" "R x" using keepsE [OF assms(2) s(1) m(1)] answersD [OF assms(1) s(1) m(1)] .
  then show "Q y" using assms(3) m(2) by (auto simp: answers_def)
qed

lemma answers_then: "keeps P m \<Longrightarrow> (\<And>x. answers P Q (f x)) \<Longrightarrow> answers P Q (andthen m f)"
  by (rule answers_andthen [where R = "\<lambda>_. True"]) (auto simp: answers_def)

lemma answers_if: "(b \<Longrightarrow> answers P Q m) \<Longrightarrow> (\<not> b \<Longrightarrow> answers P Q n) \<Longrightarrow> answers P Q (if b then m else n)"
  by simp

lemmas answers_intros = answers_ret answers_raise answers_then answers_if

lemma answers_on_cache:
  "(\<And>db x. typed_cache db \<Longrightarrow> fst (m db) = Inr x \<Longrightarrow> Q x) \<Longrightarrow> answers typed Q (on_cache m)"
  by (auto simp: answers_def typed_def on_cache_def map_sum_def split: prod.splits sum.splits)

section \<open>The handlers\<close>

lemma announce_typed: "answers typed (has_type (TObj view_fields)) (announce view)"
  unfolding announce_def by (intro answers_intros sound_intros view_typed)

lemma listed_chats_typed: "answers typed (list_all (has_type chat_type)) (read_cache (list_chats n))"
  unfolding read_cache_def list_all_iff by (intro answers_on_cache ballI) (simp add: list_chats_typed)

lemma stored_rows_typed:
  "typed_cache db \<Longrightarrow> r \<in> snd ` set (messages db) \<Longrightarrow> has_type message_type (the (mr_raw r))"
  using cache_ok_message_raw [of db r]
  by (force simp: typed_cache_def typed_messages_def list_all_iff)

lemma listed_messages_typed:
  "answers typed (list_all (has_type message_type)) (read_cache (list_messages c n before))"
  unfolding read_cache_def list_all_iff
proof (intro answers_on_cache ballI)
  fix db xs x
  assume db: "typed_cache db" and xs: "fst (list_messages c n before db, db) = Inr xs" "x \<in> set xs"
  then have ok: "cache_ok db" by (simp add: typed_cache_def)
  let ?rows = "newest_first (filter (\<lambda>r. mr_chat_id r = c \<and> created_before before r) (map snd (messages db)))"
  obtain r where "x = stringify_row_ids (the (mr_raw r))" "r \<in> set (sql_limit n ?rows)"
    using xs list_messages_ok [OF ok, of c n before] by auto
  moreover from this have "r \<in> snd ` set (messages db)" using set_sql_limit [of n ?rows] by (auto simp: newest_first_def)
  ultimately show "has_type message_type x" using stored_rows_typed [OF db] stringify_message_typed by simp
qed

lemma found_messages_typed:
  "answers typed (list_all (has_type message_type)) (read_cache (search_messages query n))"
  unfolding read_cache_def list_all_iff
proof (intro answers_on_cache ballI)
  fix db xs x
  assume db: "typed_cache db" and xs: "fst (search_messages query n db, db) = Inr xs" "x \<in> set xs"
  then have ok: "cache_ok db" by (simp add: typed_cache_def)
  let ?rows = "order_desc (\<lambda>r. sql_of (mr_created_at r)) (filter (search_hit query) (map snd (messages db)))"
  obtain r where "x = the (mr_raw r)" "r \<in> set (sql_limit n ?rows)"
    using xs search_messages_ok [OF ok, of query n] by auto
  moreover from this have "r \<in> snd ` set (messages db)" using set_sql_limit [of n ?rows] by (auto simp: order_desc_def)
  ultimately show "has_type message_type x" using stored_rows_typed [OF db] by simp
qed

lemma applied_typed: "answers typed typed_applied (on_cache (apply_domain_message sha256 m))"
  using apply_domain_message_typed by (intro answers_on_cache) (metis prod.collapse)

lemma read_chat_typed: "answers typed (\<lambda>c. has_type (TOpt chat_type) (unwrap_or c JNull)) (on_cache (mark_read n))"
  using mark_read_typed
  by (intro answers_on_cache) (metis has_type.simps(4) has_type_Str(3) option.exhaust unwrap_or_simps)

definition message_reply :: json_type where
  "message_reply = TObj [(''ok'', TBool), (''message'', message_type)]"

lemma sent_reply_typed: "has_type message_type (ap_message a) \<Longrightarrow> answers typed (has_type message_reply) (sent_reply a)"
  unfolding sent_reply_def message_reply_def
  by (intro answers_then answers_ret keeps_writes) (auto simp: typed_def send_event_def json_simps)

lemma echo_typed: "has_type message_type v \<Longrightarrow> has_type message_type (echo_client_id params v)"
  unfolding echo_client_id_def message_type_def
  by (auto split: option.splits simp del: has_type.simps intro!: insert_members_typed)

lemma status_typed: "answers typed (has_type (TObj (view_fields @ link_fields))) (do_status E)"
proof -
  have "has_type (TObj (view_fields @ link_fields)) (merge_view view (insert_members [(''connected'', JBool True),
      (''protocol'', JStr PROTOCOL_VERSION)] (link_snapshot db)))" for view db
  proof -
    let ?snap = "insert_members [(''connected'', JBool True), (''protocol'', JStr PROTOCOL_VERSION)] (link_snapshot db)"
    obtain ob where ob: "to_status_fields view = JObj ob" "kv_sorted ob" by (rule to_status_fields_object)
    obtain sn where sn: "?snap = JObj sn" by (auto simp: link_snapshot_def insert_members_def mk_obj_def)
    have at: "json_at (merge_view view ?snap) k = unwrap_or (json_get (to_status_fields view) k) (json_at ?snap k)" for k
      using map_of_rev_distinct [OF kv_sorted_distinct [OF ob(2)]]
      by (simp add: merge_view_def ob(1) sn insert_members_at)
    have "has_type t (json_at (merge_view view ?snap) k)" if k: "(k, t) \<in> set view_fields" for k t
    proof -
      have "json_get (to_status_fields view) k \<noteq> None"
        using k by (auto simp: view_fields_def to_status_fields_def status_members_def json_simps)
      then obtain x where x: "json_get (to_status_fields view) k = Some x" by blast
      have "json_at (merge_view view ?snap) k = json_at (to_status_fields view) k"
        by (simp only: at x unwrap_or_simps json_at_def [of "to_status_fields view"])
      then show ?thesis using view_typed [of view] k by (fastforce simp: list_all_iff simp del: has_type.simps(1-5))
    qed
    moreover have "has_type t (json_at (merge_view view ?snap) k)" if k: "(k, t) \<in> set link_fields" for k t
    proof -
      have "json_get (to_status_fields view) k = None"
        using k unfolding to_status_fields_def status_members_def json_get_mk_obj link_fields_def
        by simp (elim disjE; simp)
      moreover have "has_type t (json_at ?snap k)"
        using k unfolding link_snapshot_def insert_members_over [OF is_object_mk_obj] json_at_mk_obj link_fields_def
        by simp (elim disjE; simp)
      ultimately show ?thesis by (simp only: at unwrap_or_simps)
    qed
    moreover have "is_object (merge_view view ?snap)" by (simp add: sn merge_view_def)
    ultimately show ?thesis by (auto simp: list_all_iff simp del: has_type.simps(1-5))
  qed
  then show ?thesis unfolding do_status_def by (intro answers_reads)
qed

lemma link_methods_typed:
  "answers typed (has_type (TObj view_fields)) (do_config_set E params)"
  "answers typed (has_type (TObj view_fields)) (do_config_reconnect E)"
  "answers typed (has_type (TObj view_fields)) (do_webhook_set E fr params)"
  "answers typed (has_type (TObj view_fields)) (do_webhook_rotate E fr)"
  "answers typed (has_type (TObj view_fields)) (do_webhook_register E fr)"
  unfolding method_defs Let_def
  by (intro answers_intros announce_typed keeps_intros sound_intros; simp)+

lemma url_typed: "answers typed (has_type (TObj [(''url'', TStr)])) (do_webhook_url E fr)"
  unfolding method_defs by (intro answers_intros sound_intros) (simp add: json_simps)

lemma authorize_typed:
  "answers typed (has_type (TObj [(''outcome'', TStr), (''names_visible'', TBool)])) (do_contacts_authorize E)"
  unfolding method_defs Let_def by (intro answers_intros sound_intros; simp add: json_simps)

lemma chat_methods_typed:
  "answers typed (has_type (TObj [(''chat'', TOpt chat_type)])) (do_mark_read E params)"
  "answers typed (has_type (TObj [(''chats'', TList chat_type)])) (do_chats_list params)"
proof -
  have reply: "answers typed (has_type (TObj [(''chat'', TOpt chat_type)]))
      (andthen (reads (\<lambda>d. guid_for_chat_id n (dm_cache d))) (\<lambda>guid.
       andthen (case guid of
           None \<Rightarrow> ret ()
         | Some g \<Rightarrow> (case chat_guid_parse g of
             Inl _ \<Rightarrow> ret ()
           | Inr cg \<Rightarrow> ignore_err (on_uplink (uplink_mark_read (ev_lib E) (ev_net E) cg)))) (\<lambda>_.
       ret (mk_obj [(''chat'', unwrap_or c JNull)]))))"
    if "has_type (TOpt chat_type) (unwrap_or c JNull)" for c n
    using that by (intro answers_then answers_ret keeps_intros sound_intros) (simp add: json_simps)
  show "answers typed (has_type (TObj [(''chat'', TOpt chat_type)])) (do_mark_read E params)"
    unfolding do_mark_read_def
    by (rule answers_then [OF _ answers_andthen [OF read_chat_typed _ reply]]) (intro sound_intros | assumption)+
  show "answers typed (has_type (TObj [(''chats'', TList chat_type)])) (do_chats_list params)"
    unfolding do_chats_list_def
    by (intro answers_andthen [OF listed_chats_typed] answers_ret sound_intros) (simp add: json_simps)
qed

lemma message_methods_typed:
  "answers typed (has_type (TObj [(''messages'', TList message_type)])) (do_history params)"
  "answers typed (has_type (TObj [(''messages'', TList message_type)])) (do_search params)"
  unfolding do_history_def do_search_def Let_def
  by (intro answers_then answers_andthen [OF listed_messages_typed] answers_andthen [OF found_messages_typed]
      answers_ret sound_intros; simp add: json_simps)+

lemma send_methods_typed:
  "answers typed (has_type message_reply) (do_send E fr params)"
  "answers typed (has_type message_reply) (do_send_attachment E fr params)"
proof -
  have reply: "answers typed (has_type message_reply) (sent_reply a)"
    "answers typed (has_type message_reply) (sent_reply (a\<lparr>ap_message := echo_client_id params (ap_message a)\<rparr>))"
    if "typed_applied a" for a
    using that by (auto simp: typed_applied_def intro!: sent_reply_typed echo_typed)
  show "answers typed (has_type message_reply) (do_send E fr params)"
    unfolding do_send_def
    by (rule answers_then [OF _ answers_then [OF _ answers_then [OF _ answers_then [OF _ answers_then [OF _
          answers_andthen [OF applied_typed _ reply(2)]]]]]])
       (intro keeps_intros sound_intros keeps_typed_on_cache typed_apply_domain_message | assumption)+
  show "answers typed (has_type message_reply) (do_send_attachment E fr params)"
    unfolding do_send_attachment_def
    by (rule answers_then [OF _ answers_then [OF _ answers_then [OF _ answers_then [OF _ answers_then [OF _ answers_then [OF _
          answers_andthen [OF applied_typed _ reply(1)]]]]]]])
       (intro keeps_intros sound_intros keeps_typed_on_cache typed_apply_domain_message | assumption)+
qed

lemma reply_types:
  "reply_type ''status'' = TObj (view_fields @ link_fields)"
  "reply_type ''config.set'' = TObj view_fields"
  "reply_type ''config.reconnect'' = TObj view_fields"
  "reply_type ''webhook.set'' = TObj view_fields"
  "reply_type ''webhook.url'' = TObj [(''url'', TStr)]"
  "reply_type ''webhook.rotate'' = TObj view_fields"
  "reply_type ''webhook.register'' = TObj view_fields"
  "reply_type ''contacts.authorize'' = TObj [(''outcome'', TStr), (''names_visible'', TBool)]"
  "reply_type ''chats.mark_read'' = TObj [(''chat'', TOpt chat_type)]"
  "reply_type ''messages.send'' = message_reply"
  "reply_type ''messages.send_attachment'' = message_reply"
  "reply_type ''chats.list'' = TObj [(''chats'', TList chat_type)]"
  "reply_type ''messages.history'' = TObj [(''messages'', TList message_type)]"
  "reply_type ''messages.search'' = TObj [(''messages'', TList message_type)]"
  by (simp_all add: reply_type_def message_reply_def)

lemmas methods_typed = status_typed link_methods_typed url_typed authorize_typed chat_methods_typed
  message_methods_typed send_methods_typed

lemma dispatch_typed: "answers typed (has_type (reply_type method)) (dispatch E fr method params)"
  unfolding dispatch_def
  by (intro answers_if answers_raise; hypsubst; simp only: reply_types methods_typed)

section \<open>From the start\<close>

lemma typed_empty: "typed_cache empty_cache"
  using cache_ok_empty by (simp add: typed_cache_def typed_messages_def typed_chats_def) (simp add: empty_cache_def)

lemma typed_open_cache:
  assumes "typed_cache db" "plain_cache db" "open_cache json_text real_text sha256 db = (r, db')"
  shows "typed_cache db'"
proof -
  have db: "cache_ok db" using assms(1) by (simp add: typed_cache_def)
  have same: "messages (rebuild_identities s) = messages s" "chats (rebuild_identities s) = chats s" for s
    using fold_insert_guid_tables by (simp_all add: rebuild_identities_def)
  have "keeps typed_cache (writes rebuild_identities)"
    using cache_ok_rebuild_identities by (intro keeps_writes) (simp add: typed_cache_def same)
  moreover have "keeps typed_cache (repair_orphan_chats sha256)"
    unfolding repair_orphan_chats_def split_def by (intro keeps_intros sound_case_guid typed_upsert_domain_chat)
  ultimately have "keeps typed_cache (andthen (writes rebuild_identities) (\<lambda>_.
      andthen (repair_orphan_chats sha256) (\<lambda>_. repair_phone_sender_names)))"
    by (intro keeps_andthen typed_repair_phone_sender_names)
  from keepsD [OF this assms(1)] show ?thesis
    using assms(3) repair_message_projections_plain [OF db assms(2)] by (simp add: open_cache_def andthen_apply)
qed

lemma typed_run_daemon:
  fixes lib :: "'u url_lib" and w :: 'w
  assumes "\<forall>p db. dbs p = Some db \<longrightarrow> typed_cache db \<and> plain_cache db"
    "run_daemon lib json_text real_text sha256 ctx w dbs = Inr d"
  shows "typed d"
proof -
  let ?db = "unwrap_or (dbs (ln_cache_path (boot_with lib ctx w :: ('u, 'w) link))) empty_cache"
  have "typed_cache ?db \<and> plain_cache ?db"
    using assms(1) typed_empty holds_empty
    by (cases "dbs (ln_cache_path (boot_with lib ctx w :: ('u, 'w) link))") (auto simp: holds_def)
  then show ?thesis
    using assms(2) typed_open_cache [of ?db json_text real_text sha256]
    by (auto simp: run_daemon_def Let_def typed_def split: prod.splits sum.splits)
qed

section \<open>The property\<close>

text \<open>C12: for a daemon that starts on a new database or on one with typed documents, whatever it has been through
  since: each method that succeeds answers with a document of its own type.  Ids and texts are texts, flags are
  booleans, counts are integers of 64 bits, and every chat and message in it has all members of its type.\<close>

theorem replies_are_typed:
  assumes "\<forall>p db. dbs p = Some db \<longrightarrow> typed_cache db \<and> plain_cache db"
    and "run_daemon lib json_text real_text sha256 ctx w dbs = Inr d0"
    and "(daemon_step E parse)\<^sup>*\<^sup>* (d0, {}, []) (d, F, ls)"
    and "dispatch E fr method params d = (Inr v, d')"
  shows "has_type (reply_type method) v"
proof -
  have "\<forall>p db. dbs p = Some db \<longrightarrow> holds {} db" using assms(1) by (simp add: typed_cache_def holds_def)
  from run_daemon_published [OF this assms(2)] have "typed d"
    using typed.kept_daemon_run [OF assms(3) _ typed_run_daemon [OF assms(1,2)]] by simp
  then show ?thesis using assms(4) by (rule answersD [OF dispatch_typed])
qed

abbreviation demo_listing :: "failure + json" where
  "demo_listing \<equiv> fst (dispatch demo_env \<lparr> fr_now = [], fr_temp = [], fr_token = [] \<rparr> ''chats.list'' JNull demo_live)"

lemma demo_listing_Inr: "case demo_listing of Inl _ \<Rightarrow> False | Inr v \<Rightarrow> as_array (json_at v ''chats'') \<noteq> Some []"
  unfolding demo_live_def by code_simp

theorem replies_are_typed_witness:
  "\<exists>v. demo_listing = Inr v \<and> has_type (TObj [(''chats'', TList chat_type)]) v \<and> as_array (json_at v ''chats'') \<noteq> Some []"
proof -
  obtain v d where v: "dispatch demo_env \<lparr> fr_now = [], fr_temp = [], fr_token = [] \<rparr> ''chats.list'' JNull demo_live = (Inr v, d)"
    "as_array (json_at v ''chats'') \<noteq> Some []"
    using demo_listing_Inr by (auto split: sum.splits simp: prod_eq_iff)
  have new: "\<forall>p db. Map.empty p = Some db \<longrightarrow> typed_cache db \<and> plain_cache db" by simp
  obtain F where "(daemon_step demo_env (\<lambda>_. None))\<^sup>*\<^sup>* (demo_daemon, {}, []) (demo_live, F, [])"
    using demo_live_run by blast
  from replies_are_typed [OF new demo_run_daemon this v(1)] have "has_type (reply_type ''chats.list'') v" .
  then show ?thesis
    using v by (simp only: reply_types fst_conv sum.inject) blast
qed

end
