(* ===== verification/Sync_Commands.thy ===== *)
theory Sync_Commands
  imports Store_Contract Cache_Contract Proto Report
begin

text \<open>
  The commands of the sync daemon, \<^verbatim>\<open>sync/src/commands.rs\<close>, and the nudge of a running daemon in
  \<^verbatim>\<open>sync/src/link/mod.rs\<close>.  The databases on disk are a map from paths; the socket is a parameter.
\<close>

section \<open>Status\<close>

record sync_status =
  ss_cache_path :: string
  ss_bridge_url :: string
  ss_chats :: i64
  ss_messages :: i64

text \<open>\<^verbatim>\<open>load(...).unwrap_or(Empty)\<close>: where the cache is, and the server.\<close>

definition status_source :: "'u url_lib \<Rightarrow> store_ctx \<Rightarrow> (string \<times> string) \<times> store_ctx" where
  "status_source lib s =
     (case load lib s of
        (Inr (Ready creds), s') \<Rightarrow>
          ((pc_cache_path (cr_public creds), server_url_str lib (pc_server (cr_public creds))), s')
      | (_, s') \<Rightarrow> ((sc_cache_path s', []), s'))"

definition status ::
  "'u url_lib \<Rightarrow> (json \<Rightarrow> string) \<Rightarrow> (f64 \<Rightarrow> string) \<Rightarrow> (byte list \<Rightarrow> byte list) \<Rightarrow>
     store_ctx \<Rightarrow> (string \<rightharpoonup> cache) \<Rightarrow> (cache_error + sync_status) \<times> store_ctx \<times> (string \<rightharpoonup> cache)" where
  "status lib json_text real_text sha256 s dbs =
     (case status_source lib s of ((cache_path, url), s') \<Rightarrow>
        case dbs cache_path of
          None \<Rightarrow> (Inr \<lparr> ss_cache_path = cache_path, ss_bridge_url = url, ss_chats = 0, ss_messages = 0 \<rparr>, s', dbs)
        | Some db \<Rightarrow>
            (case open_cache json_text real_text sha256 db of
               (Inl e, db') \<Rightarrow> (Inl e, s', dbs(cache_path \<mapsto> db'))
             | (Inr _, db') \<Rightarrow>
                 (Inr \<lparr> ss_cache_path = cache_path, ss_bridge_url = url, ss_chats = chat_count db',
                    ss_messages = message_count db' \<rparr>, s', dbs(cache_path \<mapsto> db'))))"

section \<open>Doctor\<close>

definition check_url :: "'u url_lib \<Rightarrow> message_text + 'u server_url option \<Rightarrow> doctor_report \<Rightarrow> doctor_report" where
  "check_url lib found r = (case found of
     Inr (Some url) \<Rightarrow> push_check ''server-url'' True (server_url_str lib url) r
   | Inr None \<Rightarrow> push_check ''server-url'' False ''not set'' r
   | Inl e \<Rightarrow> push_check ''server-url'' False e r)"

definition check_password :: "message_text + bool \<Rightarrow> doctor_report \<Rightarrow> doctor_report" where
  "check_password found r = (case found of
     Inr True \<Rightarrow> push_check ''password'' True ''set'' r
   | Inr False \<Rightarrow> push_check ''password'' False ''not set'' r
   | Inl e \<Rightarrow> push_check ''password'' False e r)"

definition sync_doctor :: "'u url_lib \<Rightarrow> store_ctx \<Rightarrow> doctor_report" where
  "sync_doctor lib s =
     check_password (fst (password_set s))
       (check_url lib (fst (peek_server_url lib s))
         (push_check ''config'' (sc_config s \<noteq> NoFile) ''config.toml'' no_checks))"

section \<open>Talking to a running daemon\<close>

text \<open>\<open>parse\<close> and \<open>to_line\<close> are serde's; \<open>ask\<close> connects, writes the line and reads the first line back.\<close>

definition request_envelope :: "string \<Rightarrow> json \<Rightarrow> envelope" where
  "request_envelope method params = Req ''1'' method params"

definition request ::
  "(string \<Rightarrow> message_text + json) \<Rightarrow> (envelope \<Rightarrow> message_text + string) \<Rightarrow>
     (string \<Rightarrow> ('w, message_text, string option) act) \<Rightarrow> string \<Rightarrow> string \<Rightarrow> ('w, message_text, string) act" where
  "request parse to_line ask method params =
     andthen (of_result (parse params)) (\<lambda>p.
     andthen (of_result (to_line (request_envelope method p))) (\<lambda>line.
     andthen (ask (line @ [CHR 0x0A])) (\<lambda>answer.
     case answer of Some l \<Rightarrow> ret l | None \<Rightarrow> raise ''no response'')))"

text \<open>How a connection ends: no daemon, refused, another error, or the stream with what setting the
  timeouts and writing the line give.  The answer is read and dropped.\<close>

datatype connection =
    NotFound
  | ConnectionRefused
  | ConnectFailed message_text
  | Connected "message_text option"

definition nudge_envelope :: envelope where
  "nudge_envelope = Req ''1'' ''config.reconnect'' (mk_obj [])"

definition nudge_running :: "(string \<Rightarrow> connection) \<Rightarrow> (envelope \<Rightarrow> message_text + string) \<Rightarrow> message_text + bool" where
  "nudge_running connect to_line =
     (case to_line nudge_envelope of
        Inl e \<Rightarrow>
          (case connect [] of
             NotFound \<Rightarrow> Inr False | ConnectionRefused \<Rightarrow> Inr False
           | ConnectFailed _ \<Rightarrow> Inl ''nudge unix socket'' | Connected _ \<Rightarrow> Inl e)
      | Inr line \<Rightarrow>
          (case connect (line @ [CHR 0x0A]) of
             NotFound \<Rightarrow> Inr False | ConnectionRefused \<Rightarrow> Inr False
           | ConnectFailed _ \<Rightarrow> Inl ''nudge unix socket''
           | Connected (Some e) \<Rightarrow> Inl e
           | Connected None \<Rightarrow> Inr True))"

text \<open>the doctor of the daemon is exact: with no password left in the file, it finds everything in order
  just when the daemon would load a server and its password.\<close>

theorem sync_doctor_exact:
  assumes "\<forall>f. sc_config s = File f \<longrightarrow> nonblank (fi_password f) = None"
  shows "dr_ok (sync_doctor lib s) \<longleftrightarrow> (\<exists>creds. fst (load lib s) = Inr (Ready creds))"
proof (cases "sc_config s")
  case (File f)
  show ?thesis
  proof (cases "nonblank (fi_server_url f)")
    case (Some raw)
    then show ?thesis using File assms
      by (auto simp: sync_doctor_def check_url_def check_password_def password_set_def peek_server_url_def load_def
          read_config_def migrate_password_def provision_from_file_def andthen_apply secret_load_def
          split: sum.splits option.splits bool.splits)
  qed (use File assms in \<open>auto simp: sync_doctor_def check_url_def check_password_def password_set_def
      peek_server_url_def load_def read_config_def migrate_password_def provision_from_file_def andthen_apply
      split: sum.splits bool.splits\<close>)
qed (auto simp: sync_doctor_def check_url_def check_password_def peek_server_url_def load_def read_config_def
    andthen_apply split: sum.splits bool.splits)

theorem sync_doctor_exact_witness:
  "dr_ok (sync_doctor demo_lib (demo_store (File (demo_file None)) (Entry ''hunter2'')))"
proof -
  let ?s = "demo_store (File (demo_file None)) (Entry ''hunter2'')"
  have "fst (load demo_lib ?s) = Inr (Ready (demo_creds ''hunter2''))" by code_simp
  then show ?thesis using sync_doctor_exact [of ?s demo_lib]
    by (simp add: demo_store_def demo_file_def nonblank_def)
qed

end
