(* ===== verification/Setup_Pair.thy ===== *)
theory Setup_Pair
  imports Tls Report Store
begin

text \<open>
  Pairing on the client's side: \<^verbatim>\<open>setup/src/paths.rs\<close>, \<^verbatim>\<open>setup/src/enroll.rs\<close> and \<^verbatim>\<open>setup/src/doctor.rs\<close>, over the disk.
  The keys, the request and the TOML reader are parameters.  The settings file written here is the one the
  daemon loads, so the theory also says how the daemon reads a file of the disk.
\<close>

section \<open>Paths\<close>

text \<open>What the system says: the two directories of the user, the name of the host, the user id.\<close>

record user_dirs =
  ud_data_local_dir :: "string option"
  ud_config_dir :: "string option"
  ud_hostname :: "string option"
  ud_uid :: nat

definition state_dir :: "user_dirs \<Rightarrow> string" where
  "state_dir U = unwrap_or (ud_data_local_dir U) ''.'' @ ''/omarchy-imessage''"

definition sync_config_path :: "user_dirs \<Rightarrow> string" where
  "sync_config_path U = unwrap_or (ud_config_dir U) ''.'' @ ''/imsg-sync/config.toml''"

definition on_disk :: "string \<Rightarrow> fpath" where
  "on_disk p = join_text [] p"

definition ensure_state_dir :: "user_dirs \<Rightarrow> ('z disk_scheme, string, unit) act" where
  "ensure_state_dir U =
     andthen (with_context ''create state dir'' (create_dir_all (on_disk (state_dir U)))) (\<lambda>_.
     with_context ''create config dir'' (create_dir_all (butlast (on_disk (sync_config_path U)))))"

definition setup_socket_path :: "user_dirs \<Rightarrow> string" where
  "setup_socket_path U = ''/run/user/'' @ show_int (int (ud_uid U)) @ ''/imsg-sync.sock''"

definition default_client_name :: "user_dirs \<Rightarrow> string" where
  "default_client_name U = unwrap_or (ud_hostname U) ''omarchy-client''"

section \<open>Pairing\<close>

record pair_http =
  ph_success :: bool
  ph_status :: string
  ph_json :: "json option"

text \<open>A fresh key, the CSR for a key and a name, the client with or without verification, and a POST.\<close>

record 'w pair_net =
  pn_new_key :: "string + string"
  pn_csr :: "string \<Rightarrow> string \<Rightarrow> string + string"
  pn_client :: "bool \<Rightarrow> string option"
  pn_post :: "bool \<Rightarrow> string \<Rightarrow> json \<Rightarrow> ('w, string, pair_http) act"

record pair_result =
  pr_client_name :: string
  pr_config_path :: string
  pr_bridge_url :: string

definition str_member :: "json \<Rightarrow> string \<Rightarrow> string option" where
  "str_member v k = Option.bind (json_get v k) as_str"

definition enroll_url :: "string \<Rightarrow> u16 \<Rightarrow> string" where
  "enroll_url host port = ''https://'' @ host @ '':'' @ show_int (uint port) @ ''/v1/pair/enroll''"

text \<open>The three members of an answer, when it has them.\<close>

definition enroll_answer :: "json \<Rightarrow> (string \<times> string \<times> string) option" where
  "enroll_answer v =
     (case (str_member v ''ca_pem'', str_member v ''client_cert_pem'', str_member v ''bridge_url'') of
        (Some ca, Some cert, Some url) \<Rightarrow> Some (ca, cert, url) | _ \<Rightarrow> None)"

definition request_enrolment ::
  "'z disk_scheme pair_net \<Rightarrow> bool \<Rightarrow> string \<Rightarrow> json \<Rightarrow> ('z disk_scheme, string, string \<times> string \<times> string) act" where
  "request_enrolment N insecure url body =
     andthen (with_context ''enroll request'' (pn_post N insecure url body)) (\<lambda>resp.
       if \<not> ph_success resp
       then raise (''pairing failed: ''
         @ unwrap_or (Option.bind (ph_json resp) (\<lambda>v. str_member v ''error'')) (''HTTP '' @ ph_status resp))
       else of_result (case Option.bind (ph_json resp) enroll_answer of
           None \<Rightarrow> Inl ''parse enroll response'' | Some a \<Rightarrow> Inr a))"

text \<open>The settings: six quoted values and two numbers.\<close>

definition quoted_line :: "string \<Rightarrow> string \<Rightarrow> string" where
  "quoted_line k v = k @ '' = '' @ [CHR 0x22] @ v @ [CHR 0x22, CHR 0x0A]"

definition pair_config :: "user_dirs \<Rightarrow> string \<Rightarrow> string" where
  "pair_config U bridge_url =
     quoted_line ''bridge_url'' bridge_url
     @ quoted_line ''ca_cert_path'' (state_dir U @ ''/ca.pem'')
     @ quoted_line ''client_cert_path'' (state_dir U @ ''/client.pem'')
     @ quoted_line ''client_key_path'' (state_dir U @ ''/client-key.pem'')
     @ quoted_line ''cache_path'' (state_dir U @ ''/cache.db'')
     @ quoted_line ''socket_path'' (setup_socket_path U)
     @ ''prefetch_chats = 20'' @ [CHR 0x0A] @ ''prefetch_messages = 50'' @ [CHR 0x0A]"

definition write_pairing :: "user_dirs \<Rightarrow> string \<Rightarrow> string \<times> string \<times> string \<Rightarrow> ('z disk_scheme, string, unit) act" where
  "write_pairing U key a =
     (case a of (ca, cert, url) \<Rightarrow>
        andthen (write_file (on_disk (state_dir U) @ [''ca.pem'']) ca) (\<lambda>_.
        andthen (write_file (on_disk (state_dir U) @ [''client.pem'']) cert) (\<lambda>_.
        andthen (write_file (on_disk (state_dir U) @ [''client-key.pem'']) key) (\<lambda>_.
        write_file (on_disk (sync_config_path U)) (pair_config U url)))))"

definition pair ::
  "user_dirs \<Rightarrow> 'z disk_scheme pair_net \<Rightarrow> string \<Rightarrow> string \<Rightarrow> u16 \<Rightarrow> string option \<Rightarrow> bool \<Rightarrow>
     ('z disk_scheme, string, pair_result) act" where
  "pair U N code host port name insecure =
     (let client_name = unwrap_or name (default_client_name U) in
      andthen (ensure_state_dir U) (\<lambda>_.
      andthen (of_result (pn_new_key N)) (\<lambda>key.
      andthen (of_result (pn_csr N key client_name)) (\<lambda>csr.
      andthen (of_result (case pn_client N insecure of None \<Rightarrow> Inr () | Some e \<Rightarrow> Inl e)) (\<lambda>_.
      andthen (request_enrolment N insecure (enroll_url host port)
        (mk_obj [(''pairing_code'', JStr (trim code)), (''client_name'', JStr client_name), (''csr_pem'', JStr csr)])) (\<lambda>a.
      andthen (write_pairing U key a) (\<lambda>_.
      ret \<lparr> pr_client_name = client_name, pr_config_path = sync_config_path U, pr_bridge_url = snd (snd a) \<rparr>)))))))"

section \<open>The daemon's reading of a file\<close>

text \<open>A value of a TOML table, as far as the settings have them.\<close>

datatype toml = TStr string | TInt int | TBool bool

type_synonym toml_table = "(string \<times> toml) list"

definition str_entry :: "toml_table \<Rightarrow> string \<Rightarrow> string option option" where
  "str_entry t k = (case map_of t k of None \<Rightarrow> Some None | Some (TStr s) \<Rightarrow> Some (Some s) | _ \<Rightarrow> None)"

definition nat_entry :: "int \<Rightarrow> toml_table \<Rightarrow> string \<Rightarrow> int option option" where
  "nat_entry limit t k = (case map_of t k of
     None \<Rightarrow> Some None | Some (TInt n) \<Rightarrow> if 0 \<le> n \<and> n < limit then Some (Some n) else None | _ \<Rightarrow> None)"

definition bool_entry :: "toml_table \<Rightarrow> string \<Rightarrow> bool option" where
  "bool_entry t k = (case map_of t k of None \<Rightarrow> Some False | Some (TBool b) \<Rightarrow> Some b | _ \<Rightarrow> None)"

text \<open>\<^verbatim>\<open>FileIn\<close> from a table: a member of another type is an error, unknown keys are passed over.\<close>

definition file_in_of_table :: "toml_table \<Rightarrow> file_in option" where
  "file_in_of_table t =
     (case (str_entry t ''server_url'', str_entry t ''password'', str_entry t ''cache_path'',
            str_entry t ''socket_path'', nat_entry (2 ^ 32) t ''prefetch_chats'',
            nat_entry (2 ^ 32) t ''prefetch_messages'', bool_entry t ''webhook_enabled'',
            nat_entry (2 ^ 16) t ''webhook_port'', str_entry t ''webhook_serve_url'') of
        (Some url, Some pw, Some cp, Some sp, Some pc, Some pm, Some we, Some wp, Some wu) \<Rightarrow>
          Some \<lparr> fi_server_url = url, fi_password = pw, fi_cache_path = cp, fi_socket_path = sp,
                 fi_prefetch_chats = map_option of_int pc, fi_prefetch_messages = map_option of_int pm,
                 fi_webhook_enabled = we, fi_webhook_port = map_option of_int wp, fi_webhook_serve_url = wu \<rparr>
      | _ \<Rightarrow> None)"

definition config_cell_of :: "(string \<Rightarrow> string + toml_table) \<Rightarrow> fpath \<Rightarrow> 'z disk_scheme \<Rightarrow> config_cell" where
  "config_cell_of parse_toml p d =
     (if \<not> fs_exists d p then NoFile
      else (case fst (read_to_string p d) of
          Inl _ \<Rightarrow> Unreadable
        | Inr s \<Rightarrow>
            (case parse_toml s of
               Inl _ \<Rightarrow> Unparsable
             | Inr t \<Rightarrow>
                 (case file_in_of_table t of None \<Rightarrow> Unparsable | Some f \<Rightarrow> File f))))"

section \<open>Doctor\<close>

text \<open>An unreadable or unparsable file is an error of the command.\<close>

definition setup_doctor :: "(string \<Rightarrow> string + toml_table) \<Rightarrow> user_dirs \<Rightarrow> 'z disk_scheme \<Rightarrow> string + doctor_report" where
  "setup_doctor parse_toml U d =
     (let dir = on_disk (state_dir U);
          p = on_disk (sync_config_path U);
          r1 = push_check ''config'' (fs_exists d p) (sync_config_path U) no_checks;
          r2 = push_check ''ca'' (fs_exists d (dir @ [''ca.pem''])) ''ca.pem present'' r1;
          r3 = push_check ''client-cert'' (fs_exists d (dir @ [''client.pem''])) ''client.pem present'' r2;
          r4 = push_check ''client-key'' (fs_exists d (dir @ [''client-key.pem''])) ''client-key.pem present'' r3
      in if fs_exists d p
         then (case fst (read_to_string p d) of
             Inl e \<Rightarrow> Inl e
           | Inr s \<Rightarrow>
               (case parse_toml s of
                  Inl e \<Rightarrow> Inl e
                | Inr t \<Rightarrow>
                    (case map_of t ''bridge_url'' of
                       Some (TStr url) \<Rightarrow> Inr (push_check ''bridge-url'' (url \<noteq> []) url r4)
                     | _ \<Rightarrow> Inr r4)))
         else Inr r4)"

section \<open>The bridge's end of the request\<close>

text \<open>The derived reading of a request and writing of a reply, with the statuses of the handler.\<close>

definition enroll_request_of_json :: "json \<Rightarrow> enroll_request option" where
  "enroll_request_of_json v =
     (case (str_member v ''pairing_code'', str_member v ''client_name'', str_member v ''csr_pem'') of
        (Some code, Some name, Some csr) \<Rightarrow>
          Some \<lparr> er_pairing_code = code, er_client_name = name, er_csr_pem = csr \<rparr>
      | _ \<Rightarrow> None)"

definition enroll_reply_http :: "enroll_reply \<Rightarrow> pair_http" where
  "enroll_reply_http reply = (case reply of
     Refused st e \<Rightarrow> \<lparr> ph_success = False, ph_status = show_int (int st), ph_json = Some (mk_obj [(''error'', JStr e)]) \<rparr>
   | Enrolled r \<Rightarrow> \<lparr> ph_success = True, ph_status = ''200 OK'',
       ph_json = Some (mk_obj [(''ca_pem'', JStr (en_ca_pem r)), (''client_cert_pem'', JStr (en_client_cert_pem r)),
         (''bridge_url'', JStr (en_bridge_url r)), (''bridge_host'', JStr (en_bridge_host r)),
         (''bridge_port'', JNum (NPos (ucast (en_bridge_port r))))]) \<rparr>)"

text \<open>A body that is not a request is answered before the handler.\<close>

definition bridge_http :: "(enroll_request \<Rightarrow> enroll_reply) \<Rightarrow> json \<Rightarrow> pair_http" where
  "bridge_http handler body =
     (case enroll_request_of_json body of
        None \<Rightarrow> \<lparr> ph_success = False, ph_status = ''422 Unprocessable Entity'', ph_json = None \<rparr>
      | Some req \<Rightarrow> enroll_reply_http (handler req))"

end
