(* ===== verification/Polling.thy ===== *)
theory Polling
  imports Main
begin

text \<open>
  Loops of the form \<^verbatim>\<open>while Instant::now() < deadline\<close>: a round gives a result or the state of the next round,
  and past the deadline the state gives the result.  Not returning is the value \<^verbatim>\<open>None\<close>.
\<close>

locale deadline_loop =
  fixes now :: "'s \<Rightarrow> int"
    and round :: "'s \<Rightarrow> 'r + 's"
    and late :: "'s \<Rightarrow> 'r"
    and loop :: "int \<Rightarrow> 's \<Rightarrow> 'r option"
  assumes unroll: "loop deadline s =
    (if now s < deadline then (case round s of Inl r \<Rightarrow> Some r | Inr s' \<Rightarrow> loop deadline s')
     else Some (late s))"
begin

text \<open>The loop returns when every round takes time, and what holds of the first state and survives a round
  holds of the state that gave the result.\<close>

lemma ends:
  assumes clock: "\<And>s s'. now s < deadline \<Longrightarrow> round s = Inr s' \<Longrightarrow> now s < now s'"
    and start: "I s"
    and step: "\<And>s s'. I s \<Longrightarrow> now s < deadline \<Longrightarrow> round s = Inr s' \<Longrightarrow> I s'"
  obtains (found) r s' where "loop deadline s = Some r" "I s'" "round s' = Inl r"
  | (expired) s' where "loop deadline s = Some (late s')" "I s'" "deadline \<le> now s'"
proof -
  have "(\<exists>r s'. loop deadline s = Some r \<and> I s' \<and> round s' = Inl r)
     \<or> (\<exists>s'. loop deadline s = Some (late s') \<and> I s' \<and> deadline \<le> now s')"
    using start
  proof (induction "nat (deadline - now s)" arbitrary: s rule: less_induct)
    case less
    show ?case
    proof (cases "now s < deadline")
      case before: True
      show ?thesis
      proof (cases "round s")
        case (Inl r)
        then show ?thesis using before less.prems unroll [of deadline s] by auto
      next
        case (Inr s')
        have "nat (deadline - now s') < nat (deadline - now s)" using clock [OF before Inr] before by simp
        from less.hyps [OF this step [OF less.prems before Inr]] show ?thesis
          using before Inr unroll [of deadline s] by simp
      qed
    next
      case False
      then show ?thesis using less.prems unroll [of deadline s] by auto
    qed
  qed
  then show ?thesis using found expired by blast
qed

end

end
