(* ===== verification/Setup_Steps.thy ===== *)
theory Setup_Steps
  imports Bridge_Commands Polling
begin

text \<open>
  The steps of the setup, \<^verbatim>\<open>setup/src/step.rs\<close>: their names, the address a step accepts, and the wait for the
  enrolment endpoint.  The system is a parameter: the resolver, \<^verbatim>\<open>lsof\<close>, a connection, the clock.
\<close>

section \<open>Names\<close>

datatype step_id = Detect | Brew | Certs | Service | Enroll

definition step_from_str :: "string \<Rightarrow> string + step_id" where
  "step_from_str s =
     (if s = ''detect'' then Inr Detect
      else if s = ''brew'' then Inr Brew
      else if s = ''certs'' then Inr Certs
      else if s = ''service'' then Inr Service
      else if s = ''enroll'' then Inr Enroll
      else Inl (''unknown setup step: '' @ s))"

fun step_as_str :: "step_id \<Rightarrow> string" where
  "step_as_str Detect = ''detect''"
| "step_as_str Brew = ''brew''"
| "step_as_str Certs = ''certs''"
| "step_as_str Service = ''service''"
| "step_as_str Enroll = ''enroll''"

text \<open>The names are exactly the ones that are read.\<close>

lemma step_names: "step_from_str s = Inr i \<longleftrightarrow> s = step_as_str i"
  by (cases i) (auto simp: step_from_str_def)

definition refuse_wildcard_bind :: "(string \<Rightarrow> u16 list option) \<Rightarrow> string \<Rightarrow> string + unit" where
  "refuse_wildcard_bind parse_v6 bind =
     (case parse_ip parse_v6 bind of
        None \<Rightarrow> Inl (''invalid bind address: '' @ bind)
      | Some ip \<Rightarrow>
          if is_unspecified ip then Inl ''refusing to bind to unspecified address (0.0.0.0)'' else Inr ())"

section \<open>Waiting\<close>

record 'w wait_env =
  we_resolve :: "string \<Rightarrow> ('w, string, string list) act"
  we_lsof :: "string \<Rightarrow> u16 \<Rightarrow> ('w, string, bool) act"
  we_connect :: "string \<Rightarrow> ('w, string, unit) act"
  we_now :: "'w \<Rightarrow> instant"
  we_sleep :: "int \<Rightarrow> 'w \<Rightarrow> 'w"

fun lsof_any :: "'w wait_env \<Rightarrow> u16 \<Rightarrow> string list \<Rightarrow> 'w \<Rightarrow> bool \<times> 'w" where
  "lsof_any E port [] w = (False, w)"
| "lsof_any E port (bin # bins) w =
     (case we_lsof E bin port w of
        (r, w1) \<Rightarrow> if r = Inr True then (True, w1) else lsof_any E port bins w1)"

definition lsof_listening :: "'w wait_env \<Rightarrow> u16 \<Rightarrow> 'w \<Rightarrow> bool \<times> 'w" where
  "lsof_listening E port = lsof_any E port [''/usr/sbin/lsof'', ''/usr/bin/lsof'', ''lsof'']"

definition WAIT_PAUSE :: int where "WAIT_PAUSE = 400 * 1000000"

text \<open>\<open>wait_loop\<close> is \<^verbatim>\<open>while Instant::now() < deadline\<close>; not returning is the value \<^verbatim>\<open>None\<close>.\<close>

partial_function (option) wait_loop ::
  "'w wait_env \<Rightarrow> string \<Rightarrow> u16 \<Rightarrow> string \<Rightarrow> instant \<Rightarrow> string option \<Rightarrow> 'w \<Rightarrow> ((string + unit) \<times> 'w) option" where
  "wait_loop E addr port target deadline last_err w =
     (if we_now E w < deadline
      then (case lsof_listening E port w of
          (listening, w1) \<Rightarrow>
            if listening then Some (Inr (), w1)
            else (case we_connect E addr w1 of
                (Inr _, w2) \<Rightarrow> Some (Inr (), w2)
              | (Inl e, w2) \<Rightarrow>
                  wait_loop E addr port target deadline (Some e) (we_sleep E WAIT_PAUSE w2)))
      else Some (Inl (''enroll did not listen on '' @ target @ '': '' @ unwrap_or last_err ''timeout''), w))"

definition wait_enroll :: "'w wait_env \<Rightarrow> string \<Rightarrow> u16 \<Rightarrow> int \<Rightarrow> 'w \<Rightarrow> ((string + unit) \<times> 'w) option" where
  "wait_enroll E bind port timeout w =
     (let target = bind @ '':'' @ show_int (uint port) in
      case we_resolve E target w of
        (Inl e, w1) \<Rightarrow> Some (Inl (''resolve '' @ target @ '': '' @ e), w1)
      | (Inr [], w1) \<Rightarrow> Some (Inl (''no addresses for '' @ target), w1)
      | (Inr (addr # _), w1) \<Rightarrow> wait_loop E addr port target (we_now E w1 + timeout) None w1)"

section \<open>The wait ends\<close>

text \<open>The clock of a system: nothing turns it back, and a pause takes its time.\<close>

definition wait_clock :: "'w wait_env \<Rightarrow> bool" where
  "wait_clock E \<longleftrightarrow>
     (\<forall>b p w. we_now E w \<le> we_now E (snd (we_lsof E b p w)))
     \<and> (\<forall>a w. we_now E w \<le> we_now E (snd (we_connect E a w)))
     \<and> (\<forall>n w. we_now E w + n \<le> we_now E (we_sleep E n w))"

text \<open>Something listened: \<^verbatim>\<open>lsof\<close> said so or a connection came about.\<close>

definition heard :: "'w wait_env \<Rightarrow> u16 \<Rightarrow> string \<Rightarrow> bool" where
  "heard E port addr \<longleftrightarrow>
     (\<exists>bin w. fst (we_lsof E bin port w) = Inr True) \<or> (\<exists>w. fst (we_connect E addr w) = Inr ())"

lemma lsof_any_clock:
  assumes "wait_clock E"
  shows "we_now E w \<le> we_now E (snd (lsof_any E port bins w))"
proof (induction bins arbitrary: w)
  case (Cons bin bins)
  have "we_now E w \<le> we_now E (snd (we_lsof E bin port w))" using assms by (simp add: wait_clock_def)
  then show ?case using Cons.IH by (auto split: prod.splits intro: order_trans)
qed simp

lemma lsof_any_heard: "fst (lsof_any E port bins w) \<Longrightarrow> heard E port addr"
proof (induction bins arbitrary: w)
  case (Cons bin bins)
  show ?case
  proof (cases "fst (we_lsof E bin port w) = Inr True")
    case True
    then show ?thesis unfolding heard_def by blast
  next
    case False
    then have "fst (lsof_any E port bins (snd (we_lsof E bin port w)))" using Cons.prems by (auto split: prod.splits)
    then show ?thesis by (rule Cons.IH)
  qed
qed simp

text \<open>One round; the state is the last error and the world.\<close>

definition wait_round ::
  "'w wait_env \<Rightarrow> string \<Rightarrow> u16 \<Rightarrow> string option \<times> 'w \<Rightarrow> ((string + unit) \<times> 'w) + (string option \<times> 'w)" where
  "wait_round E addr port s =
     (case lsof_listening E port (snd s) of
        (listening, w1) \<Rightarrow>
          if listening then Inl (Inr (), w1)
          else (case we_connect E addr w1 of
              (Inr _, w2) \<Rightarrow> Inl (Inr (), w2)
            | (Inl e, w2) \<Rightarrow> Inr (Some e, we_sleep E WAIT_PAUSE w2)))"

interpretation wait: deadline_loop "\<lambda>s. we_now E (snd s)" "wait_round E addr port"
  "\<lambda>(err, w). (Inl (''enroll did not listen on '' @ target @ '': '' @ unwrap_or err ''timeout''), w)"
  "\<lambda>deadline s. wait_loop E addr port target deadline (fst s) (snd s)" for E addr port target
proof (unfold_locales, goal_cases)
  case (1 deadline s)
  show ?case
    by (subst wait_loop.simps) (auto simp: wait_round_def split: prod.splits sum.splits)
qed

lemma wait_round_found: "wait_round E addr port s = Inl (r, w) \<Longrightarrow> r = Inr () \<and> heard E port addr"
  using lsof_any_heard [of E port _ "snd s" addr]
  by (auto simp: wait_round_def lsof_listening_def heard_def split: prod.splits sum.splits if_splits) (metis fst_conv)+

lemma wait_round_clock:
  assumes "wait_clock E" "wait_round E addr port s = Inr s'"
  shows "we_now E (snd s) < we_now E (snd s')"
proof -
  obtain b w1 where l: "lsof_listening E port (snd s) = (b, w1)" by fastforce
  obtain c w2 where c: "we_connect E addr w1 = (c, w2)" by fastforce
  have "we_now E (snd s) \<le> we_now E w1" using lsof_any_clock [OF assms(1)] l by (metis lsof_listening_def snd_conv)
  moreover have "we_now E w1 \<le> we_now E w2" using assms(1) c by (metis wait_clock_def snd_conv)
  moreover have "we_now E w2 + WAIT_PAUSE \<le> we_now E (we_sleep E WAIT_PAUSE w2)" using assms(1) by (simp add: wait_clock_def)
  moreover have "snd s' = we_sleep E WAIT_PAUSE w2"
    using assms(2) l c by (auto simp: wait_round_def split: if_splits sum.splits)
  ultimately show ?thesis by (simp add: WAIT_PAUSE_def)
qed

lemma wait_loop_ends:
  assumes "wait_clock E"
  shows "\<exists>r w'. wait_loop E addr port target deadline last_err w = Some (r, w')
     \<and> (r = Inr () \<longrightarrow> heard E port addr) \<and> (\<forall>e. r = Inl e \<longrightarrow> deadline \<le> we_now E w')"
proof (rule wait.ends [where E = E and addr = addr and port = port and target = target and deadline = deadline
      and s = "(last_err, w)" and I = "\<lambda>_. True"])
  fix rw s'
  assume r: "wait_loop E addr port target deadline (fst (last_err, w)) (snd (last_err, w)) = Some rw"
    "wait_round E addr port s' = Inl rw"
  obtain r w' where "rw = (r, w')" by fastforce
  then show ?thesis using r wait_round_found [of E addr port s' r w'] by auto
next
  fix s'
  assume r: "wait_loop E addr port target deadline (fst (last_err, w)) (snd (last_err, w))
      = Some ((\<lambda>(err, w). (Inl (''enroll did not listen on '' @ target @ '': '' @ unwrap_or err ''timeout''), w)) s')"
    "deadline \<le> we_now E (snd s')"
  obtain err w' where "s' = (err, w')" by fastforce
  then show ?thesis using r by auto
qed (use wait_round_clock [OF assms] in auto)

text \<open>C31: the wait for the enrolment endpoint always ends, as long as the clock runs: with success only when
  something was heard on the port, and with a failure only when the name did not resolve or the time is up.\<close>

theorem wait_enroll_ends:
  assumes "wait_clock E"
  shows "\<exists>r w'. wait_enroll E bind port timeout w = Some (r, w')
     \<and> (r = Inr () \<longrightarrow> (\<exists>addr. heard E port addr))
     \<and> (\<forall>e addr rest w1. r = Inl e \<longrightarrow> we_resolve E (bind @ '':'' @ show_int (uint port)) w = (Inr (addr # rest), w1) \<longrightarrow>
          we_now E w1 + timeout \<le> we_now E w')"
proof -
  let ?target = "bind @ '':'' @ show_int (uint port)"
  obtain r w1 where res: "we_resolve E ?target w = (r, w1)" by fastforce
  show ?thesis
  proof (cases r)
    case (Inr addrs)
    show ?thesis
    proof (cases addrs)
      case (Cons addr rest)
      obtain r' w' where "wait_loop E addr port ?target (we_now E w1 + timeout) None w1 = Some (r', w')"
          "r' = Inr () \<longrightarrow> heard E port addr" "\<forall>e. r' = Inl e \<longrightarrow> we_now E w1 + timeout \<le> we_now E w'"
        using wait_loop_ends [OF assms] by blast
      then show ?thesis using res Inr Cons by (auto simp: wait_enroll_def)
    qed (use res Inr in \<open>simp add: wait_enroll_def\<close>)
  qed (use res in \<open>simp add: wait_enroll_def\<close>)
qed

text \<open>A Mac whose endpoint comes up after two seconds; the world is the time.\<close>

definition demo_wait :: "int wait_env" where
  "demo_wait = \<lparr> we_resolve = (\<lambda>t. ret [t]), we_lsof = (\<lambda>_ _. raise ''not found''),
     we_connect = (\<lambda>_ w. (if w < 2000000000 then Inl ''refused'' else Inr (), w)), we_now = (\<lambda>w. w),
     we_sleep = (\<lambda>n w. w + n) \<rparr>"

theorem wait_enroll_ends_witness:
  "\<exists>r w'. wait_enroll demo_wait ''10.0.0.2'' 18790 (90 * 1000000000) 0 = Some (r, w')
     \<and> (r = Inr () \<longrightarrow> (\<exists>addr. heard demo_wait 18790 addr))"
  using wait_enroll_ends [of demo_wait "''10.0.0.2''" 18790 "90 * 1000000000" 0]
  by (auto simp: wait_clock_def demo_wait_def)

end
