(* ===== verification/Setup_Contract.thy ===== *)
theory Setup_Contract
  imports Setup_Pair Setup_Steps Commands_Contract
begin

text \<open>
  What the setup promises: the pairing of the two ends, what a refused pairing leaves behind, and what
  becomes of the daemon's settings.
\<close>

section \<open>Both ends of a pairing\<close>

text \<open>Writing the files of a pairing: none of their paths may be a link.\<close>

definition pairing_files :: "user_dirs \<Rightarrow> fpath set" where
  "pairing_files U = insert (on_disk (sync_config_path U))
     ((\<lambda>f. on_disk (state_dir U) @ [f]) ` {''ca.pem'', ''client.pem'', ''client-key.pem''})"

lemma sync_config_last: "last (on_disk (sync_config_path U)) = ''config.toml''" "on_disk (sync_config_path U) \<noteq> []"
proof -
  have "split_on CHR ''/'' (sync_config_path U)
      = split_on CHR ''/'' (unwrap_or (ud_config_dir U) ''.'') @ [''imsg-sync'', ''config.toml'']"
    using split_on_append [of "CHR ''/''" _ "''imsg-sync/config.toml''"] by (simp add: sync_config_path_def)
  then show "last (on_disk (sync_config_path U)) = ''config.toml''" "on_disk (sync_config_path U) \<noteq> []"
    by (simp_all add: on_disk_def join_text_def)
qed

lemma sync_config_other: "f \<noteq> ''config.toml'' \<Longrightarrow> dir @ [f] \<noteq> on_disk (sync_config_path U)"
  using sync_config_last by (metis last_snoc)

text \<open>One write: its file is there, no link appears, and another file stays.\<close>

lemma one_write:
  assumes "write_file p s d = (Inr u, d')" "\<forall>q. node_at (dk_root d) p \<noteq> Some (Link q)"
  shows "node_at (dk_root d') p = Some (Plain s)"
    and "node_at (dk_root d) x = Some (Plain c) \<Longrightarrow> x \<noteq> p \<Longrightarrow> node_at (dk_root d') x = Some (Plain c)"
    and "node_at (dk_root d) x \<noteq> Some (Link q) \<Longrightarrow> node_at (dk_root d') x \<noteq> Some (Link q)"
proof -
  show "node_at (dk_root d') p = Some (Plain s)" using write_ok [OF assms] put_at_same by simp
  show "node_at (dk_root d) x = Some (Plain c) \<Longrightarrow> x \<noteq> p \<Longrightarrow> node_at (dk_root d') x = Some (Plain c)"
    using write_keeps [of d x c p s] assms by simp
  show "node_at (dk_root d) x \<noteq> Some (Link q) \<Longrightarrow> node_at (dk_root d') x \<noteq> Some (Link q)"
    using write_no_link [of p s d x q] assms(1) by auto
qed

lemma write_pairing_runs:
  assumes "write_pairing U key (ca, cert, url) d = (Inr u, d')"
    and "\<forall>p\<in>pairing_files U. \<forall>q. node_at (dk_root d) p \<noteq> Some (Link q)"
  shows "node_at (dk_root d') (on_disk (state_dir U) @ [''ca.pem'']) = Some (Plain ca)"
    and "node_at (dk_root d') (on_disk (state_dir U) @ [''client.pem'']) = Some (Plain cert)"
    and "node_at (dk_root d') (on_disk (state_dir U) @ [''client-key.pem'']) = Some (Plain key)"
    and "node_at (dk_root d') (on_disk (sync_config_path U)) = Some (Plain (pair_config U url))"
proof -
  let ?ca = "on_disk (state_dir U) @ [''ca.pem'']" and ?cert = "on_disk (state_dir U) @ [''client.pem'']"
    and ?key = "on_disk (state_dir U) @ [''client-key.pem'']" and ?conf = "on_disk (sync_config_path U)"
  have other: "?ca \<noteq> ?conf" "?cert \<noteq> ?conf" "?key \<noteq> ?conf"
    by (rule sync_config_other, simp)+
  obtain d1 d2 d3 where w: "write_file ?ca ca d = (Inr (), d1)" "write_file ?cert cert d1 = (Inr (), d2)"
      "write_file ?key key d2 = (Inr (), d3)" "write_file ?conf (pair_config U url) d3 = (Inr u, d')"
    using assms(1) by (auto simp: write_pairing_def andthen_eq_Inr)
  have l: "\<forall>q. node_at (dk_root d) ?ca \<noteq> Some (Link q)" "\<forall>q. node_at (dk_root d) ?cert \<noteq> Some (Link q)"
      "\<forall>q. node_at (dk_root d) ?key \<noteq> Some (Link q)" "\<forall>q. node_at (dk_root d) ?conf \<noteq> Some (Link q)"
    using assms(2) by (auto simp: pairing_files_def)
  note w1 = one_write [OF w(1) l(1)]
  have l1: "\<forall>q. node_at (dk_root d1) ?cert \<noteq> Some (Link q)" "\<forall>q. node_at (dk_root d1) ?key \<noteq> Some (Link q)"
      "\<forall>q. node_at (dk_root d1) ?conf \<noteq> Some (Link q)" using w1(3) l by blast+
  note w2 = one_write [OF w(2) l1(1)]
  have l2: "\<forall>q. node_at (dk_root d2) ?key \<noteq> Some (Link q)" "\<forall>q. node_at (dk_root d2) ?conf \<noteq> Some (Link q)"
    using w2(3) l1 by blast+
  note w3 = one_write [OF w(3) l2(1)]
  have l3: "\<forall>q. node_at (dk_root d3) ?conf \<noteq> Some (Link q)" using w3(3) l2 by blast
  note w4 = one_write [OF w(4) l3]
  show "node_at (dk_root d') ?conf = Some (Plain (pair_config U url))" by (rule w4(1))
  show "node_at (dk_root d') ?key = Some (Plain key)" by (rule w4(2) [OF w3(1) other(3)])
  show "node_at (dk_root d') ?cert = Some (Plain cert)"
    by (rule w4(2) [OF w3(2) other(2)]) (use w2(1) in simp_all)
  have "node_at (dk_root d2) ?ca = Some (Plain ca)" by (rule w2(2)) (use w1(1) in simp_all)
  then show "node_at (dk_root d') ?ca = Some (Plain ca)" by (intro w4(2) [OF w3(2) other(1)]) simp_all
qed

lemma ensure_state_dir_grows: "grows (dk_root d) (dk_root (snd (ensure_state_dir U d)))"
proof -
  obtain r1 d1 where 1: "create_dir_all (on_disk (state_dir U)) d = (r1, d1)" by fastforce
  obtain r2 d2 where 2: "create_dir_all (butlast (on_disk (sync_config_path U))) d1 = (r2, d2)" by fastforce
  have "grows (dk_root d) (dk_root d1)" "grows (dk_root d1) (dk_root d2)"
    using create_dir_all_grows [of d "on_disk (state_dir U)"] 1
      create_dir_all_grows [of d1 "butlast (on_disk (sync_config_path U))"] 2 by simp_all
  then show ?thesis using 1 2 grows_trans
    by (cases r1; cases r2) (auto simp: ensure_state_dir_def with_context_def andthen_apply)
qed

lemma ensure_state_dir_link:
  assumes "node_at (dk_root (snd (ensure_state_dir U d))) p = Some (Link q)"
  shows "node_at (dk_root d) p = Some (Link q)"
proof -
  obtain r1 d1 where 1: "create_dir_all (on_disk (state_dir U)) d = (r1, d1)" by fastforce
  obtain r2 d2 where 2: "create_dir_all (butlast (on_disk (sync_config_path U))) d1 = (r2, d2)" by fastforce
  show ?thesis
    using assms 1 2 make_dirs_link [of "[]" "on_disk (state_dir U)" d p q]
      make_dirs_link [of "[]" "butlast (on_disk (sync_config_path U))" d1 p q]
    by (cases r1; cases r2) (auto simp: ensure_state_dir_def with_context_def andthen_apply create_dir_all_def)
qed

text \<open>A pairing over a network that answers without touching the disk.\<close>

definition pair_body :: "string \<Rightarrow> string \<Rightarrow> string \<Rightarrow> json" where
  "pair_body code name csr =
     mk_obj [(''pairing_code'', JStr (trim code)), (''client_name'', JStr name), (''csr_pem'', JStr csr)]"

lemma pair_runs:
  assumes "pair U N code host port name insecure d = (Inr res, d')"
    and "\<And>url body s. pn_post N insecure url body s = (post url body, s)"
    and "\<forall>p\<in>pairing_files U. \<forall>q. node_at (dk_root d) p \<noteq> Some (Link q)"
  obtains key csr resp ca cert url where "pn_new_key N = Inr key"
    "pn_csr N key (unwrap_or name (default_client_name U)) = Inr csr"
    "post (enroll_url host port) (pair_body code (unwrap_or name (default_client_name U)) csr) = Inr resp"
    "ph_success resp" "Option.bind (ph_json resp) enroll_answer = Some (ca, cert, url)" "pr_bridge_url res = url"
    "node_at (dk_root d') (on_disk (state_dir U) @ [''ca.pem'']) = Some (Plain ca)"
    "node_at (dk_root d') (on_disk (state_dir U) @ [''client.pem'']) = Some (Plain cert)"
    "node_at (dk_root d') (on_disk (state_dir U) @ [''client-key.pem'']) = Some (Plain key)"
    "node_at (dk_root d') (on_disk (sync_config_path U)) = Some (Plain (pair_config U url))"
proof -
  obtain d1 key csr a resp u where run: "ensure_state_dir U d = (Inr (), d1)" "pn_new_key N = Inr key"
      "pn_csr N key (unwrap_or name (default_client_name U)) = Inr csr"
      "post (enroll_url host port) (pair_body code (unwrap_or name (default_client_name U)) csr) = Inr resp"
      "ph_success resp" "Option.bind (ph_json resp) enroll_answer = Some a"
      "write_pairing U key a d1 = (Inr u, d')" "pr_bridge_url res = snd (snd a)"
    using assms(1,2)
    by (auto simp: pair_def Let_def andthen_eq_Inr request_enrolment_def pair_body_def split: if_splits option.splits)
  obtain ca cert url where a: "a = (ca, cert, url)" by (cases a)
  have "\<forall>p\<in>pairing_files U. \<forall>q. node_at (dk_root d1) p \<noteq> Some (Link q)"
    using assms(3) ensure_state_dir_link [of U d] run(1) by auto
  note w = write_pairing_runs [OF run(7) [unfolded a] this]
  show ?thesis by (rule that [of key csr resp ca cert url]) (use run a w in auto)
qed

section \<open>The two ends together\<close>

lemma pair_body_read:
  "enroll_request_of_json (pair_body code name csr) =
     Some \<lparr> er_pairing_code = trim code, er_client_name = name, er_csr_pem = csr \<rparr>"
  by (simp add: enroll_request_of_json_def pair_body_def str_member_def json_simps)

lemma enroll_reply_read:
  assumes "ph_success (enroll_reply_http reply)"
    "Option.bind (ph_json (enroll_reply_http reply)) enroll_answer = Some (ca, cert, url)"
  obtains r where "reply = Enrolled r" "ca = en_ca_pem r" "cert = en_client_cert_pem r" "url = en_bridge_url r"
  using assms by (cases reply) (auto simp: enroll_reply_http_def enroll_answer_def str_member_def json_simps)

text \<open>C10: a pairing that succeeds leaves both ends in agreement.  The client makes a key, and what reaches the bridge is
  the request for it with the client's name and the code; the bridge enrols it and signs that request with its own
  authority.  On the client's disk are then that certificate, the key it belongs to and the authority, which is the one
  that a server loaded from the bridge's disk checks its clients against.\<close>

theorem pairing_ends_agree:
  fixes W :: "disk enroll_world"
  assumes "pair U N code host port name insecure d = (Inr res, d')"
    and "W = enroll_on_disk K now cfg_disk h dir"
    and "\<forall>url body s. pn_post N insecure url body s =
      (if url = ''https://'' @ host @ '':'' @ show_int (uint port) @ ''/v1/pair/enroll''
       then Inr (bridge_http (\<lambda>req. fst (enroll_handler W config peer req m bd)) body) else Inl ''no bridge here'', s)"
    and "\<forall>p\<in>pairing_files U. \<forall>q. node_at (dk_root d) p \<noteq> Some (Link q)"
    and "\<forall>n q. node_at (dk_root bd) (client_file dir n) \<noteq> Some (Link q)"
    and "node_at (dk_root bd) (dir @ [''ca.pem'']) = Some (Plain ca)"
    and "client_name = unwrap_or name (default_client_name U)"
  shows "\<exists>key csr r m' bd' ca_key. pn_new_key N = Inr key \<and> pn_csr N key client_name = Inr csr
     \<and> enroll_handler W config peer \<lparr> er_pairing_code = trim code, er_client_name = client_name, er_csr_pem = csr \<rparr> m bd
         = (Enrolled r, m', bd')
     \<and> read_to_string (dir @ [''ca-key.pem'']) bd = (Inr ca_key, bd)
     \<and> pk_signed_by K ca ca_key csr = Inr (en_client_cert_pem r)
     \<and> node_at (dk_root d') (on_disk (state_dir U) @ [''ca.pem'']) = Some (Plain ca)
     \<and> node_at (dk_root d') (on_disk (state_dir U) @ [''client.pem'']) = Some (Plain (en_client_cert_pem r))
     \<and> node_at (dk_root d') (on_disk (state_dir U) @ [''client-key.pem'']) = Some (Plain key)
     \<and> pr_bridge_url res = en_bridge_url r
     \<and> (\<forall>t. fst (load_server_config K dir bd') = Inr t \<longrightarrow>
          (\<exists>roots. sc_client_roots (tm_server_config t) = Some roots \<and> pk_certs K ca = map Inr roots))"
proof -
  let ?reply = "\<lambda>req. fst (enroll_handler W config peer req m bd)"
  let ?post = "\<lambda>url body. if url = enroll_url host port then Inr (bridge_http ?reply body) else Inl ''no bridge here''"
  obtain key csr resp ca' pem url where run: "pn_new_key N = Inr key" "pn_csr N key client_name = Inr csr"
      "?post (enroll_url host port) (pair_body code client_name csr) = Inr resp"
      "ph_success resp" "Option.bind (ph_json resp) enroll_answer = Some (ca', pem, url)" "pr_bridge_url res = url"
      "node_at (dk_root d') (on_disk (state_dir U) @ [''ca.pem'']) = Some (Plain ca')"
      "node_at (dk_root d') (on_disk (state_dir U) @ [''client.pem'']) = Some (Plain pem)"
      "node_at (dk_root d') (on_disk (state_dir U) @ [''client-key.pem'']) = Some (Plain key)"
    using pair_runs [OF assms(1), where post = ?post] assms(3,4,7) unfolding enroll_url_def by metis
  let ?req = "\<lparr> er_pairing_code = trim code, er_client_name = client_name, er_csr_pem = csr \<rparr>"
  have resp: "resp = enroll_reply_http (?reply ?req)"
    using run(3) by (simp add: bridge_http_def pair_body_read)
  obtain r where r: "?reply ?req = Enrolled r" "ca' = en_ca_pem r" "pem = en_client_cert_pem r" "url = en_bridge_url r"
    using enroll_reply_read run(4,5) unfolding resp by blast
  obtain m' bd' where handled: "enroll_handler W config peer ?req m bd = (Enrolled r, m', bd')"
    using r(1) by (metis prod.collapse)
  note authority = enrolled_by_authority [OF handled [unfolded assms(2)] assms(5,6)]
  from authority(3) obtain ca_key where "read_to_string (dir @ [''ca-key.pem'']) bd = (Inr ca_key, bd)"
      "pk_signed_by K ca ca_key csr = Inr (en_client_cert_pem r)" by auto
  then show ?thesis
    using handled r run authority(1,4)
    by (intro exI [of _ key] exI [of _ csr] exI [of _ r] exI [of _ m'] exI [of _ bd'] exI [of _ ca_key]) simp
qed

text \<open>A client and a bridge on two disks.\<close>

definition demo_user :: user_dirs where
  "demo_user = \<lparr> ud_data_local_dir = Some ''/s'', ud_config_dir = Some ''/c'', ud_hostname = Some ''my laptop!'',
     ud_uid = 1000 \<rparr>"

definition demo_home :: disk where
  "demo_home = \<lparr> dk_root = Dir [], dk_denied = (\<lambda>_. None) \<rparr>"

definition demo_bridge_end :: "disk enroll_world" where
  "demo_bridge_end = enroll_on_disk demo_pki 5 (Inl ''no file'') None demo_dir"

definition demo_net :: "disk pair_net" where
  "demo_net = \<lparr> pn_new_key = Inr ''key'', pn_csr = (\<lambda>_ _. Inr ''csr''), pn_client = (\<lambda>_. None),
     pn_post = (\<lambda>_ url body s.
       (if url = ''https://mac:18790/v1/pair/enroll''
        then Inr (bridge_http (\<lambda>req. fst (enroll_handler demo_bridge_end demo_config ''peer'' req Map.empty demo_started)) body)
        else Inl ''no bridge here'', s)) \<rparr>"

lemma no_links_empty: "node_at (Dir []) p \<noteq> Some (Link q)"
  by (cases p) simp_all

theorem pairing_ends_agree_witness:
  "\<exists>res d' pem. pair demo_user demo_net '' 01234567'' ''mac'' 18790 None False demo_home = (Inr res, d')
     \<and> node_at (dk_root d') [''s'', ''omarchy-imessage'', ''client.pem''] = Some (Plain pem)
     \<and> node_at (dk_root d') [''s'', ''omarchy-imessage'', ''client-key.pem''] = Some (Plain ''key'')
     \<and> pk_signed_by demo_pki ''ca cert'' ''ca key'' ''csr'' = Inr pem"
proof -
  let ?run = "pair demo_user demo_net '' 01234567'' ''mac'' 18790 None False demo_home"
  have "case fst ?run of Inr _ \<Rightarrow> True | Inl _ \<Rightarrow> False" by code_simp
  then obtain res d' where run: "?run = (Inr res, d')" by (cases ?run) (auto split: sum.splits)
  have no_link: "\<forall>p\<in>pairing_files demo_user. \<forall>q. node_at (dk_root demo_home) p \<noteq> Some (Link q)"
    by (simp add: demo_home_def no_links_empty)
  have facts: "node_at (dk_root demo_started) (demo_dir @ [''ca.pem'']) = Some (Plain ''ca cert'')"
    "node_at (dk_root demo_started) (demo_dir @ [''clients'']) = Some (Dir [])"
    "node_at (dk_root demo_started) (demo_dir @ [''ca-key.pem'']) = Some (Plain ''ca key'')"
    "on_disk (state_dir demo_user) = [''s'', ''omarchy-imessage'']"
    "''https://'' @ ''mac'' @ '':'' @ show_int (uint (18790 :: u16)) @ ''/v1/pair/enroll'' = ''https://mac:18790/v1/pair/enroll''"
    "dk_denied demo_started (ReadFile (demo_dir @ [''ca-key.pem''])) = None"
    by code_simp+
  have links: "\<forall>n q. node_at (dk_root demo_started) (client_file demo_dir n) \<noteq> Some (Link q)"
    using facts(2) node_at_snoc [of "dk_root demo_started" "demo_dir @ [''clients'']"] by auto
  have "\<forall>url body s. pn_post demo_net False url body s =
      (if url = ''https://'' @ ''mac'' @ '':'' @ show_int (uint (18790 :: u16)) @ ''/v1/pair/enroll''
       then Inr (bridge_http (\<lambda>req. fst (enroll_handler demo_bridge_end demo_config ''peer'' req Map.empty demo_started)) body)
       else Inl ''no bridge here'', s)"
    unfolding facts(5) by (simp add: demo_net_def)
  from pairing_ends_agree [OF run demo_bridge_end_def this no_link links facts(1) refl] show ?thesis
    using run facts(4) read_plain [OF facts(3,6)] by (auto simp: demo_net_def)
qed

section \<open>What a refused pairing leaves behind\<close>

text \<open>a pairing that the bridge refuses, or that does not reach it, fails with the bridge's own text or the
  status, and changes no conf: only missing directories are made.\<close>

theorem refused_pairing_writes_nothing:
  assumes "\<forall>body s. pn_post N insecure (enroll_url host port) body s = (answer, s)"
    and "\<forall>resp. answer = Inr resp \<longrightarrow> \<not> ph_success resp"
    and "pair U N code host port name insecure d = (r, d')"
  shows "grows (dk_root d) (dk_root d')
     \<and> (\<exists>e. r = Inl e \<and> (pn_new_key N = Inr key \<longrightarrow> pn_csr N key (unwrap_or name (default_client_name U)) = Inr csr \<longrightarrow>
          pn_client N insecure = None \<longrightarrow> fst (ensure_state_dir U d) = Inr () \<longrightarrow>
          e = (case answer of Inl _ \<Rightarrow> ''enroll request''
               | Inr resp \<Rightarrow> ''pairing failed: '' @ unwrap_or (Option.bind (ph_json resp) (\<lambda>v. str_member v ''error''))
                   (''HTTP '' @ ph_status resp))))"
proof -
  obtain r1 d1 where ens: "ensure_state_dir U d = (r1, d1)" by fastforce
  have grow: "grows (dk_root d) (dk_root d1)" using ensure_state_dir_grows [of d U] ens by simp
  show ?thesis
    using assms ens grow
    by (cases r1; cases "pn_new_key N"; cases "pn_csr N (projr (pn_new_key N)) (unwrap_or name (default_client_name U))";
        cases "pn_client N insecure"; cases answer)
       (auto simp: pair_def Let_def andthen_apply request_enrolment_def with_context_def)
qed

definition demo_refusal :: "disk pair_net" where
  "demo_refusal = demo_net\<lparr> pn_post := (\<lambda>_ _ _ s. (Inr (enroll_reply_http (Refused 429 ''too many pairing attempts'')), s)) \<rparr>"

theorem refused_pairing_writes_nothing_witness:
  "\<exists>d'. pair demo_user demo_refusal ''00000000'' ''mac'' 18790 None False demo_home
       = (Inl ''pairing failed: too many pairing attempts'', d')
     \<and> grows (dk_root demo_home) (dk_root d')"
proof -
  let ?answer = "Inr (enroll_reply_http (Refused 429 ''too many pairing attempts'')) :: string + pair_http"
  obtain r d' where run: "pair demo_user demo_refusal ''00000000'' ''mac'' 18790 None False demo_home = (r, d')"
    by fastforce
  have "fst (ensure_state_dir demo_user demo_home) = Inr ()" by code_simp
  then show ?thesis
    using refused_pairing_writes_nothing [of demo_refusal False "''mac''" 18790 ?answer demo_user "''00000000''" None
        demo_home r d' "''key''" "''csr''"] run
    by (auto simp: demo_refusal_def demo_net_def enroll_reply_http_def str_member_def json_simps)
qed

section \<open>What becomes of the daemon's settings\<close>

text \<open>The table a TOML reader gives for the conf: its eight keys, the values as they are written.\<close>

definition pair_table :: "user_dirs \<Rightarrow> string \<Rightarrow> toml_table" where
  "pair_table U url =
     [(''bridge_url'', TStr url), (''ca_cert_path'', TStr (state_dir U @ ''/ca.pem'')),
      (''client_cert_path'', TStr (state_dir U @ ''/client.pem'')),
      (''client_key_path'', TStr (state_dir U @ ''/client-key.pem'')),
      (''cache_path'', TStr (state_dir U @ ''/cache.db'')), (''socket_path'', TStr (setup_socket_path U)),
      (''prefetch_chats'', TInt 20), (''prefetch_messages'', TInt 50)]"

lemma pair_table_file:
  "\<exists>f. file_in_of_table (pair_table U url) = Some f \<and> fi_server_url f = None \<and> fi_password f = None
     \<and> \<not> fi_webhook_enabled f \<and> fi_webhook_port f = None \<and> fi_webhook_serve_url f = None"
  by (simp add: file_in_of_table_def pair_table_def str_entry_def nat_entry_def bool_entry_def)

lemma load_no_server:
  assumes "sc_config ctx = File f" "fi_server_url f = None" "fi_password f = None"
  shows "load lib ctx = (Inr Empty, ctx)"
  using assms by (simp add: load_def andthen_apply read_config_def migrate_password_def nonblank_def
      opt_filter_def provision_from_file_def ret_def)

text \<open>C30: a pairing that succeeds takes the daemon's settings away: it replaces the one settings file, with a
  \<^verbatim>\<open>bridge_url\<close> that the daemon does not read and without a server, so whatever was configured before, the daemon
  starts unconfigured and its webhook is off.\<close>

theorem pairing_forgets_server:
  assumes "pair U N code host port name insecure d = (Inr res, d')"
    and "\<And>url body s. pn_post N insecure url body s = (post url body, s)"
    and "\<forall>p\<in>pairing_files U. \<forall>q. node_at (dk_root d) p \<noteq> Some (Link q)"
    and "parse_toml (pair_config U (pr_bridge_url res)) = Inr (pair_table U (pr_bridge_url res))"
    and "dk_denied d' (ReadFile (on_disk (sync_config_path U))) = None"
    and "sc_config ctx = config_cell_of parse_toml (on_disk (sync_config_path U)) d'"
  shows "load lib ctx = (Inr Empty, ctx)
     \<and> (\<exists>f. sc_config ctx = File f \<and> fi_server_url f = None \<and> \<not> fi_webhook_enabled f)"
proof -
  have conf: "node_at (dk_root d') (on_disk (sync_config_path U)) = Some (Plain (pair_config U (pr_bridge_url res)))"
    using pair_runs [OF assms(1,2,3)] by metis
  obtain f where f: "file_in_of_table (pair_table U (pr_bridge_url res)) = Some f" "fi_server_url f = None"
      "fi_password f = None" "\<not> fi_webhook_enabled f" using pair_table_file by blast
  have "sc_config ctx = File f"
    using assms(4,6) f(1) exists_plain [OF conf] read_plain [OF conf assms(5)] by (simp add: config_cell_of_def)
  then show ?thesis using f load_no_server by blast
qed

theorem pairing_forgets_server_witness:
  "\<exists>res d'. pair demo_user demo_net '' 01234567'' ''mac'' 18790 None False demo_home = (Inr res, d')
     \<and> (\<forall>(lib :: string url_lib) ctx.
          sc_config ctx = config_cell_of (\<lambda>s. if s = pair_config demo_user (pr_bridge_url res)
             then Inr (pair_table demo_user (pr_bridge_url res)) else Inl ''not TOML'')
             (on_disk (sync_config_path demo_user)) d'
          \<longrightarrow> load lib ctx = (Inr Empty, ctx))"
proof -
  let ?run = "pair demo_user demo_net '' 01234567'' ''mac'' 18790 None False demo_home"
  have "case fst ?run of Inr _ \<Rightarrow> True | Inl _ \<Rightarrow> False" by code_simp
  then obtain res d' where run: "?run = (Inr res, d')" by (cases ?run) (auto split: sum.splits)
  have "dk_denied (snd ?run) (ReadFile (on_disk (sync_config_path demo_user))) = None" by code_simp
  then have open_conf: "dk_denied d' (ReadFile (on_disk (sync_config_path demo_user))) = None" using run by simp
  have post: "pn_post demo_net False url body s =
      (if url = ''https://mac:18790/v1/pair/enroll''
       then Inr (bridge_http (\<lambda>req. fst (enroll_handler demo_bridge_end demo_config ''peer'' req Map.empty demo_started)) body)
       else Inl ''no bridge here'', s)" for url body s
    by (simp add: demo_net_def)
  show ?thesis
    using run pairing_forgets_server [OF run post _ _ open_conf, of "\<lambda>s. if s = pair_config demo_user (pr_bridge_url res)
        then Inr (pair_table demo_user (pr_bridge_url res)) else Inl ''not TOML''"]
    by (auto simp: demo_home_def no_links_empty)
qed

end
