(* ===== verification/Setup_Push.thy ===== *)
theory Setup_Push
  imports Setup_Pair Bridge_Commands
begin

text \<open>
  Setting up the other machine over ssh, \<^verbatim>\<open>setup/src/push.rs\<close>: the command lines and the order they run in.  A
  command line is a list of words; running one is a parameter of the model.
\<close>

section \<open>Command lines\<close>

definition DEFAULT_PLUGIN_REPO :: string where
  "DEFAULT_PLUGIN_REPO = ''https://github.com/PanicIsReal/omarchy-imessage.git''"

definition DEFAULT_LINUX_ASSET :: string where
  "DEFAULT_LINUX_ASSET = ''https://github.com/PanicIsReal/imsg/releases/latest/download/imsg-linux-x86_64.tar.gz''"

record push_spec =
  pq_ssh :: string
  pq_code :: string
  pq_bind :: string
  pq_enroll_port :: u16
  pq_bin :: "string option"
  pq_plugin_repo :: string

record push_step =
  pt_id :: string
  pt_ok :: bool
  pt_detail :: string

record push_result =
  pu_ok :: bool
  pu_ssh :: string
  pu_client_name :: "string option"
  pu_detail :: string
  pu_steps :: "push_step list"

type_synonym argv = "string list"

definition remote_argv :: "string \<Rightarrow> string list \<Rightarrow> argv" where
  "remote_argv ssh remote = [''ssh'', ssh] @ remote"

definition install_remote_bin_argv :: "push_spec \<Rightarrow> argv list" where
  "install_remote_bin_argv spec = (case pq_bin spec of
     Some bin \<Rightarrow>
       [[''scp'', bin, pq_ssh spec @ '':.local/bin/imsg''],
        remote_argv (pq_ssh spec) [''chmod'', ''+x'', ''.local/bin/imsg'']]
   | None \<Rightarrow>
       [remote_argv (pq_ssh spec) [''mkdir'', ''-p'', ''.local/bin''],
        remote_argv (pq_ssh spec) [''curl'', ''-fsSL'', ''-o'', ''/tmp/imsg-linux-x86_64.tar.gz'', DEFAULT_LINUX_ASSET],
        remote_argv (pq_ssh spec) [''tar'', ''-xzf'', ''/tmp/imsg-linux-x86_64.tar.gz'', ''-C'', ''/tmp''],
        remote_argv (pq_ssh spec) [''install'', ''-Dm755'', ''/tmp/imsg'', ''.local/bin/imsg'']])"

definition pair_remote_argv :: "push_spec \<Rightarrow> argv" where
  "pair_remote_argv spec =
     remote_argv (pq_ssh spec)
       [''.local/bin/imsg'', ''setup'', ''pair'', pq_code spec, ''--host'', pq_bind spec,
        ''--enroll-port'', show_int (uint (pq_enroll_port spec)), ''--insecure'']"

definition service_remote_argv :: "push_spec \<Rightarrow> argv" where
  "service_remote_argv spec = remote_argv (pq_ssh spec) [''.local/bin/imsg'', ''install'']"

definition plugin_remote_argv :: "push_spec \<Rightarrow> argv" where
  "plugin_remote_argv spec =
     remote_argv (pq_ssh spec) [''omarchy'', ''plugin'', ''add'', pq_plugin_repo spec, ''--enable'']"

section \<open>Running them\<close>

text \<open>What a command that was started came to; the texts are decoded already.\<close>

record outcome =
  oc_success :: bool
  oc_stdout :: string
  oc_stderr :: string

type_synonym 'w runner = "argv \<Rightarrow> ('w, string, outcome) act"

fun join_words :: "argv \<Rightarrow> string" where
  "join_words [] = []"
| "join_words [w] = w"
| "join_words (w # ws) = w @ '' '' @ join_words ws"

definition run_line :: "'w runner \<Rightarrow> argv \<Rightarrow> ('w, string, string) act" where
  "run_line run argv =
     andthen (with_context (''spawn '' @ hd argv) (run argv)) (\<lambda>out.
       let stdout = trim (oc_stdout out); stderr = trim (oc_stderr out) in
       if \<not> oc_success out
       then raise (join_words argv @ '' failed: '' @ (if stderr = [] then stdout else stderr))
       else ret (if stdout = [] then stderr else stdout))"

text \<open>\<^verbatim>\<open>let _ =\<close>: an action whose result is not looked at.\<close>

definition ignoring :: "('w, string, 'a) act \<Rightarrow> ('w, string, unit) act" where
  "ignoring m w = (Inr (), snd (m w))"

definition push_plugin :: "'w runner \<Rightarrow> push_spec \<Rightarrow> ('w, string, push_step) act" where
  "push_plugin run spec w =
     (case run_line run (plugin_remote_argv spec) w of
        (Inr out, w1) \<Rightarrow>
          (Inr \<lparr> pt_id = ''ssh-plugin'', pt_ok = True,
                 pt_detail = (if out = [] then ''omarchy plugin enabled'' else out) \<rparr>, w1)
      | (Inl e, w1) \<Rightarrow>
          (case run_line run (remote_argv (pq_ssh spec) [''which'', ''omarchy'']) w1 of
             (r, w2) \<Rightarrow>
               (Inr (case r of
                  Inr _ \<Rightarrow> \<lparr> pt_id = ''ssh-plugin'', pt_ok = False, pt_detail = e \<rparr>
                | Inl _ \<Rightarrow> \<lparr> pt_id = ''ssh-plugin'', pt_ok = True, pt_detail = ''omarchy not installed; skipped'' \<rparr>), w2)))"

definition push :: "(string \<Rightarrow> json option) \<Rightarrow> 'w runner \<Rightarrow> push_spec \<Rightarrow> ('w, string, push_result) act" where
  "push parse run spec =
     (if trim (pq_code spec) = [] then raise ''pairing code is required''
      else if trim (pq_bind spec) = [] then raise ''Mac bind/host is required''
      else
        andthen (ignoring (run (remote_argv (pq_ssh spec) [''mkdir'', ''-p'', ''.local/bin'']))) (\<lambda>_.
        andthen (for_each (install_remote_bin_argv spec) (\<lambda>line. andthen (run_line run line) (\<lambda>_. ret ()))) (\<lambda>_.
        andthen (run_line run (pair_remote_argv spec)) (\<lambda>pair_out.
        let client_name = Option.bind (parse pair_out) (\<lambda>v. str_member v ''client_name'') in
        andthen (run_line run (service_remote_argv spec)) (\<lambda>_.
        andthen (push_plugin run spec) (\<lambda>plugin.
        if \<not> pt_ok plugin then raise (pt_detail plugin)
        else ret \<lparr> pu_ok = True, pu_ssh = pq_ssh spec, pu_client_name = client_name,
               pu_detail = ''paired; '' @ pt_detail plugin,
               pu_steps =
                 [\<lparr> pt_id = ''ssh-bin'', pt_ok = True, pt_detail = ''linux imsg installed'' \<rparr>,
                  \<lparr> pt_id = ''ssh-pair'', pt_ok = True, pt_detail = unwrap_or client_name ''paired'' \<rparr>,
                  \<lparr> pt_id = ''ssh-service'', pt_ok = True, pt_detail = ''imsg install'' \<rparr>,
                  plugin] \<rparr>))))))"

section \<open>The command\<close>

text \<open>\<^verbatim>\<open>imsg setup push\<close>: what is not given comes from the bridge's settings, when they can be read.\<close>

record push_args =
  pa_ssh :: string
  pa_code :: "string option"
  pa_bind :: "string option"
  pa_bin :: "string option"
  pa_plugin_repo :: "string option"
  pa_enroll_port :: "u16 option"

definition push_spec_of :: "bridge_config option \<Rightarrow> push_args \<Rightarrow> string + push_spec" where
  "push_spec_of config a =
     (case or_else (pa_code a) (Option.bind config bc_pairing_code) of
        None \<Rightarrow> Inl ''pairing code missing; finish Mac setup first''
      | Some code \<Rightarrow>
          (case or_else (pa_bind a) (map_option bc_bind config) of
             None \<Rightarrow> Inl ''Mac bind missing; finish Mac setup first''
           | Some b \<Rightarrow>
               Inr \<lparr> pq_ssh = pa_ssh a, pq_code = code, pq_bind = b,
                     pq_enroll_port = unwrap_or (or_else (pa_enroll_port a) (map_option bc_enroll_port config)) 18790,
                     pq_bin = pa_bin a, pq_plugin_repo = unwrap_or (pa_plugin_repo a) DEFAULT_PLUGIN_REPO \<rparr>))"

definition push_command ::
  "(string \<Rightarrow> json option) \<Rightarrow> 'w runner \<Rightarrow> (bridge_config option) \<Rightarrow> push_args \<Rightarrow> ('w, string, push_result) act" where
  "push_command parse run config a = andthen (of_result (push_spec_of config a)) (push parse run)"

text \<open>What \<^verbatim>\<open>imsg setup pair\<close> writes to the terminal, without and with \<^verbatim>\<open>--json\<close>.\<close>

definition pair_human_text :: "(string \<Rightarrow> string) \<Rightarrow> string \<Rightarrow> u16 \<Rightarrow> pair_result \<Rightarrow> string" where
  "pair_human_text quoted host port res =
     ''Enrolling with '' @ enroll_url host port @ '' ...'' @ [CHR 0x0A]
     @ ''Paired successfully as '' @ [CHR 0x27] @ pr_client_name res @ [CHR 0x27, CHR 0x0A]
     @ ''Config: '' @ quoted (pr_config_path res) @ [CHR 0x0A]
     @ ''Bridge: '' @ pr_bridge_url res @ [CHR 0x0A]
     @ ''Next: imsg sync run'' @ [CHR 0x0A]"

section \<open>The order of the commands\<close>

text \<open>A runner that writes down every command and whether it succeeded.\<close>

type_synonym run_log = "(argv \<times> bool) list"

definition logged :: "'w runner \<Rightarrow> (run_log \<times> 'w) runner" where
  "logged run argv s =
     (case run argv (snd s) of
        (r, w) \<Rightarrow> (r, fst s @ [(argv, case r of Inr out \<Rightarrow> oc_success out | Inl _ \<Rightarrow> False)], w))"

abbreviation succeeded :: "argv list \<Rightarrow> run_log" where
  "succeeded ls \<equiv> map (\<lambda>l. (l, True)) ls"

text \<open>An action that runs the given commands in order and stops at the first that fails.\<close>

definition runs_all :: "argv list \<Rightarrow> (run_log \<times> 'w, string, 'a) act \<Rightarrow> bool" where
  "runs_all ls m \<longleftrightarrow>
     (\<forall>lg w x lg' w'. m (lg, w) = (Inr x, lg', w') \<longrightarrow> lg' = lg @ succeeded ls)
     \<and> (\<forall>lg w e lg' w'. m (lg, w) = (Inl e, lg', w') \<longrightarrow>
          (\<exists>k<length ls. lg' = lg @ succeeded (take k ls) @ [(ls ! k, False)]))"

lemma runs_all_Inr: "runs_all ls m \<Longrightarrow> m (lg, w) = (Inr x, lg', w') \<Longrightarrow> lg' = lg @ succeeded ls"
  unfolding runs_all_def by blast

lemma runs_all_Inl:
  "runs_all ls m \<Longrightarrow> m (lg, w) = (Inl e, lg', w') \<Longrightarrow>
     \<exists>k<length ls. lg' = lg @ succeeded (take k ls) @ [(ls ! k, False)]"
  unfolding runs_all_def by blast

lemma runs_allI:
  assumes "\<And>lg w x lg' w'. m (lg, w) = (Inr x, lg', w') \<Longrightarrow> lg' = lg @ succeeded ls"
    and "\<And>lg w e lg' w'. m (lg, w) = (Inl e, lg', w') \<Longrightarrow>
      \<exists>k<length ls. lg' = lg @ succeeded (take k ls) @ [(ls ! k, False)]"
  shows "runs_all ls m"
  using assms unfolding runs_all_def by blast

lemma runs_all_ret: "runs_all [] (ret x)"
  by (rule runs_allI) simp_all

lemma run_line_logged:
  "run_line (logged run) l (lg, w) =
     (case run_line run l w of (r, w') \<Rightarrow> (r, lg @ [(l, \<not> isl r)], w'))"
  by (auto simp: run_line_def with_context_def andthen_apply logged_def Let_def split: prod.splits sum.splits)

lemma runs_all_line: "runs_all [l] (run_line (logged run) l)"
  by (auto simp: runs_all_def run_line_logged split: prod.splits sum.splits)

lemma runs_all_andthen:
  assumes m: "runs_all as m" and f: "\<And>x. runs_all bs (f x)"
  shows "runs_all (as @ bs) (andthen m f)"
proof (rule runs_allI)
  fix lg w x lg' w'
  assume "andthen m f (lg, w) = (Inr x, lg', w')"
  then obtain y lg1 w1 where run: "m (lg, w) = (Inr y, lg1, w1)" "f y (lg1, w1) = (Inr x, lg', w')"
    by (auto simp: andthen_eq_Inr)
  show "lg' = lg @ succeeded (as @ bs)"
    using runs_all_Inr [OF m run(1)] runs_all_Inr [OF f run(2)] by simp
next
  fix lg w e lg' w'
  assume run: "andthen m f (lg, w) = (Inl e, lg', w')"
  obtain r lg1 w1 where first: "m (lg, w) = (r, lg1, w1)" by (metis prod.collapse)
  show "\<exists>k<length (as @ bs). lg' = lg @ succeeded (take k (as @ bs)) @ [((as @ bs) ! k, False)]"
  proof (cases r)
    case (Inl e')
    then have "m (lg, w) = (Inl e, lg', w')" using run first by (simp add: andthen_apply)
    from runs_all_Inl [OF m this] obtain k where "k < length as" "lg' = lg @ succeeded (take k as) @ [(as ! k, False)]"
      by blast
    then show ?thesis by (intro exI [of _ k]) (simp add: nth_append)
  next
    case (Inr y)
    then have "f y (lg1, w1) = (Inl e, lg', w')" using run first by (simp add: andthen_apply)
    from runs_all_Inl [OF f this] obtain k where "k < length bs" "lg' = lg1 @ succeeded (take k bs) @ [(bs ! k, False)]"
      by blast
    moreover have "lg1 = lg @ succeeded as" using runs_all_Inr [OF m] first Inr by blast
    ultimately show ?thesis by (intro exI [of _ "length as + k"]) (simp add: nth_append)
  qed
qed

lemma runs_all_each: "runs_all ls (for_each ls (\<lambda>line. andthen (run_line (logged run) line) (\<lambda>_. ret ())))"
proof (induction ls)
  case (Cons l ls)
  have "runs_all ([l] @ []) (andthen (run_line (logged run) l) (\<lambda>_. ret ()))"
    by (rule runs_all_andthen [OF runs_all_line runs_all_ret])
  from runs_all_andthen [OF this Cons.IH] show ?case by (simp only: for_each.simps append_Cons append_Nil)
qed (simp only: for_each.simps runs_all_ret)

lemma push_plugin_logged:
  assumes "push_plugin (logged run) spec (lg, w) = (r, lg', w')"
  shows "(\<exists>s. r = Inr s \<and> pt_ok s \<and> lg' = lg @ [(plugin_remote_argv spec, True)])
    \<or> (\<exists>s b. r = Inr s \<and> (pt_ok s \<longleftrightarrow> \<not> b)
         \<and> lg' = lg @ [(plugin_remote_argv spec, False), (remote_argv (pq_ssh spec) [''which'', ''omarchy''], b)])"
  using assms by (auto simp: push_plugin_def run_line_logged split: prod.splits sum.splits)

text \<open>The part before the plugin, which all has to succeed.\<close>

definition push_stages :: "push_spec \<Rightarrow> argv list" where
  "push_stages spec = install_remote_bin_argv spec @ [pair_remote_argv spec] @ [service_remote_argv spec]"

definition push_required :: "'w runner \<Rightarrow> push_spec \<Rightarrow> ('w, string, string) act" where
  "push_required run spec =
     andthen (for_each (install_remote_bin_argv spec) (\<lambda>line. andthen (run_line run line) (\<lambda>_. ret ()))) (\<lambda>_.
     andthen (run_line run (pair_remote_argv spec)) (\<lambda>pair_out.
     andthen (run_line run (service_remote_argv spec)) (\<lambda>_. ret pair_out)))"

lemma push_required_all: "runs_all (push_stages spec) (push_required (logged run) spec)"
proof -
  have "runs_all ([service_remote_argv spec] @ []) (andthen (run_line (logged run) (service_remote_argv spec)) (\<lambda>_. ret out))"
    for out :: string
    by (rule runs_all_andthen [OF runs_all_line runs_all_ret])
  then have "runs_all ([pair_remote_argv spec] @ [service_remote_argv spec])
      (andthen (run_line (logged run) (pair_remote_argv spec)) (\<lambda>out.
       andthen (run_line (logged run) (service_remote_argv spec)) (\<lambda>_. ret out)))"
    by (intro runs_all_andthen [OF runs_all_line]) (simp only: append_Nil2)
  from runs_all_andthen [OF runs_all_each this] show ?thesis
    unfolding push_required_def push_stages_def .
qed

definition push_ending :: "push_spec \<Rightarrow> string option \<Rightarrow> push_step \<Rightarrow> string + push_result" where
  "push_ending spec client_name plugin =
     (if \<not> pt_ok plugin then Inl (pt_detail plugin)
      else Inr \<lparr> pu_ok = True, pu_ssh = pq_ssh spec, pu_client_name = client_name,
             pu_detail = ''paired; '' @ pt_detail plugin,
             pu_steps =
               [\<lparr> pt_id = ''ssh-bin'', pt_ok = True, pt_detail = ''linux imsg installed'' \<rparr>,
                \<lparr> pt_id = ''ssh-pair'', pt_ok = True, pt_detail = unwrap_or client_name ''paired'' \<rparr>,
                \<lparr> pt_id = ''ssh-service'', pt_ok = True, pt_detail = ''imsg install'' \<rparr>, plugin] \<rparr>)"

lemma push_split:
  assumes "trim (pq_code spec) \<noteq> []" "trim (pq_bind spec) \<noteq> []"
  shows "push parse run spec =
     andthen (ignoring (run (remote_argv (pq_ssh spec) [''mkdir'', ''-p'', ''.local/bin'']))) (\<lambda>_.
     andthen (push_required run spec) (\<lambda>pair_out.
     andthen (push_plugin run spec) (\<lambda>plugin.
     of_result (push_ending spec (Option.bind (parse pair_out) (\<lambda>v. str_member v ''client_name'')) plugin))))"
  using assms
  by (auto simp: push_def push_required_def push_ending_def andthen_def fun_eq_iff Let_def split: prod.splits sum.splits)

text \<open>the setup of the other machine runs its commands in one order and stops at the first that fails: the code is
  sent only to a machine on which every installing command succeeded, the service is set up only after a
  pairing that succeeded, and a result says that all of them did and that the plugin is there or
  \<^verbatim>\<open>omarchy\<close> is not.\<close>

theorem push_runs_in_order:
  assumes "push parse (logged run) spec ([], w) = (r, lg, w')"
  shows "case r of
      Inr res \<Rightarrow> \<exists>b. lg = (remote_argv (pq_ssh spec) [''mkdir'', ''-p'', ''.local/bin''], b) # succeeded (push_stages spec)
            @ [(plugin_remote_argv spec, True)]
          \<or> lg = (remote_argv (pq_ssh spec) [''mkdir'', ''-p'', ''.local/bin''], b) # succeeded (push_stages spec)
            @ [(plugin_remote_argv spec, False), (remote_argv (pq_ssh spec) [''which'', ''omarchy''], False)]
    | Inl e \<Rightarrow> lg = [] \<and> (trim (pq_code spec) = [] \<or> trim (pq_bind spec) = [])
        \<or> (\<exists>b. \<exists>k<length (push_stages spec).
            lg = (remote_argv (pq_ssh spec) [''mkdir'', ''-p'', ''.local/bin''], b)
              # succeeded (take k (push_stages spec)) @ [(push_stages spec ! k, False)])
        \<or> (\<exists>b. lg = (remote_argv (pq_ssh spec) [''mkdir'', ''-p'', ''.local/bin''], b) # succeeded (push_stages spec)
            @ [(plugin_remote_argv spec, False), (remote_argv (pq_ssh spec) [''which'', ''omarchy''], True)])"
proof (cases "trim (pq_code spec) = [] \<or> trim (pq_bind spec) = []")
  case True
  then show ?thesis using assms by (auto simp: push_def split: if_splits)
next
  case False
  let ?mkdir = "remote_argv (pq_ssh spec) [''mkdir'', ''-p'', ''.local/bin'']"
  obtain x w1 where "run ?mkdir w = (x, w1)" by fastforce
  then obtain b where dir: "ignoring (logged run ?mkdir) ([], w) = (Inr (), [(?mkdir, b)], w1)"
    by (simp add: ignoring_def logged_def)
  obtain q lg2 w2 where req: "push_required (logged run) spec ([(?mkdir, b)], w1) = (q, lg2, w2)"
    by (metis prod.collapse)
  note split = push_split [of spec parse "logged run"]
  show ?thesis
  proof (cases q)
    case (Inl e)
    then have ended: "r = Inl e" "lg = lg2" using assms split False dir req by simp_all
    obtain k where "k < length (push_stages spec)"
        "lg2 = [(?mkdir, b)] @ succeeded (take k (push_stages spec)) @ [(push_stages spec ! k, False)]"
      using runs_all_Inl [OF push_required_all req [unfolded Inl]] by blast
    then show ?thesis unfolding ended by (simp only: sum.case append_Cons append_Nil) blast
  next
    case (Inr out)
    then have lg2: "lg2 = (?mkdir, b) # succeeded (push_stages spec)"
      using runs_all_Inr [OF push_required_all req [unfolded Inr]] by simp
    obtain p lg3 w3 where plug: "push_plugin (logged run) spec (lg2, w2) = (p, lg3, w3)"
      by (metis prod.collapse)
    obtain s where s: "p = Inr s" "pt_ok s \<and> lg3 = lg2 @ [(plugin_remote_argv spec, True)]
        \<or> (\<exists>c. (pt_ok s \<longleftrightarrow> \<not> c) \<and> lg3 = lg2 @ [(plugin_remote_argv spec, False),
             (remote_argv (pq_ssh spec) [''which'', ''omarchy''], c)])"
      using push_plugin_logged [OF plug] by blast
    have "r = push_ending spec (Option.bind (parse out) (\<lambda>v. str_member v ''client_name'')) s" "lg = lg3"
      using assms split False dir req Inr plug s(1) by simp_all
    then show ?thesis using s(2) lg2 by (auto simp: push_ending_def)
  qed
qed

text \<open>A machine without \<^verbatim>\<open>omarchy\<close>.\<close>

definition demo_spec :: push_spec where
  "demo_spec = \<lparr> pq_ssh = ''desk'', pq_code = ''01234567'', pq_bind = ''100.64.1.2'', pq_enroll_port = 18790,
     pq_bin = Some ''/tmp/imsg'', pq_plugin_repo = DEFAULT_PLUGIN_REPO \<rparr>"

definition demo_paired :: pair_result where
  "demo_paired = \<lparr> pr_client_name = ''desk'', pr_config_path = ''/c/imsg-sync/config.toml'',
     pr_bridge_url = ''https://100.64.1.2:18789'' \<rparr>"

definition demo_runner :: "unit runner" where
  "demo_runner argv w =
     (Inr \<lparr> oc_success = ''omarchy'' \<notin> set argv,
            oc_stdout = (if ''pair'' \<in> set argv then pair_human_text id ''100.64.1.2'' 18790 demo_paired else []),
            oc_stderr = [] \<rparr>, w)"

theorem push_runs_in_order_witness:
  "\<exists>res lg. push (\<lambda>_. None) (logged demo_runner) demo_spec ([], ()) = (Inr res, lg, ())
     \<and> (\<exists>b. lg = (remote_argv ''desk'' [''mkdir'', ''-p'', ''.local/bin''], b) # succeeded (push_stages demo_spec)
          @ [(plugin_remote_argv demo_spec, False), (remote_argv ''desk'' [''which'', ''omarchy''], False)])"
proof -
  let ?run = "push (\<lambda>_. None) (logged demo_runner) demo_spec ([], ())"
  obtain r lg where run: "?run = (r, lg, ())" by (cases ?run) auto
  have "case fst ?run of Inr _ \<Rightarrow> True | Inl _ \<Rightarrow> False" by code_simp
  then obtain res where r: "r = Inr res" using run by (cases r) simp_all
  have "length (fst (snd ?run)) = 7" "length (push_stages demo_spec) = 4" and host: "pq_ssh demo_spec = ''desk''" by code_simp+
  then have size: "length lg = 7" "length (push_stages demo_spec) = 4" using run by simp_all
  have "\<exists>b. lg = (remote_argv ''desk'' [''mkdir'', ''-p'', ''.local/bin''], b) # succeeded (push_stages demo_spec)
        @ [(plugin_remote_argv demo_spec, False), (remote_argv ''desk'' [''which'', ''omarchy''], False)]"
    using push_runs_in_order [OF run] size unfolding r sum.case host by (elim exE disjE) auto
  then show ?thesis using run r by blast
qed

lemma run_line_ok:
  "run_line run l w = (Inr out, w') \<Longrightarrow>
     \<exists>oc. run l w = (Inr oc, w') \<and> oc_success oc
       \<and> out = (if trim (oc_stdout oc) = [] then trim (oc_stderr oc) else trim (oc_stdout oc))"
  by (auto simp: run_line_def with_context_def andthen_apply Let_def split: prod.splits sum.splits if_splits)

lemma trim_human_text: "starts_with (trim (pair_human_text quoted host port res)) ''Enrolling''"
  by (simp add: pair_human_text_def trim_def trim_start_by_def trim_end_by_def is_whitespace_def starts_with_def)

text \<open>the result of setting up the other machine never names the client: the pairing there is run without
  \<^verbatim>\<open>--json\<close>, so what it writes is not JSON, and the step reads \<^verbatim>\<open>paired\<close>.\<close>

theorem push_never_names_client:
  assumes "push parse run spec w = (Inr res, w')"
    and "\<forall>s. starts_with s ''Enrolling'' \<longrightarrow> parse s = None"
    and "\<forall>w1 out w2. run (pair_remote_argv spec) w1 = (Inr out, w2) \<longrightarrow> oc_success out \<longrightarrow>
      (\<exists>host port pr. oc_stdout out = pair_human_text quoted host port pr)"
  shows "pu_client_name res = None \<and> pt_detail (pu_steps res ! 1) = ''paired''"
proof -
  have given: "trim (pq_code spec) \<noteq> []" "trim (pq_bind spec) \<noteq> []"
    using assms(1) by (auto simp: push_def split: if_splits)
  obtain out w1 w2 plugin where required: "push_required run spec w1 = (Inr out, w2)"
      and ending: "push_ending spec (Option.bind (parse out) (\<lambda>v. str_member v ''client_name'')) plugin = Inr res"
    using assms(1) unfolding push_split [OF given] by (auto simp: andthen_eq_Inr)
  from required obtain w3 w4 where "run_line run (pair_remote_argv spec) w3 = (Inr out, w4)"
    by (auto simp: push_required_def andthen_eq_Inr)
  from run_line_ok [OF this] obtain oc where o: "run (pair_remote_argv spec) w3 = (Inr oc, w4)" "oc_success oc"
      "out = (if trim (oc_stdout oc) = [] then trim (oc_stderr oc) else trim (oc_stdout oc))" by blast
  then obtain host port pr where "oc_stdout oc = pair_human_text quoted host port pr" using assms(3) by blast
  then have "starts_with out ''Enrolling''" using trim_human_text [of quoted host port pr] o(3) by (auto simp: starts_with_def)
  then have "parse out = None" using assms(2) by blast
  then show ?thesis using ending by (auto simp: push_ending_def split: if_splits)
qed

theorem push_never_names_client_witness:
  "\<exists>res. push (\<lambda>s. if starts_with s ''Enrolling'' then None else Some JNull) demo_runner demo_spec () = (Inr res, ())
     \<and> pu_client_name res = None \<and> pt_detail (pu_steps res ! 1) = ''paired''"
proof -
  let ?parse = "\<lambda>s. if starts_with s ''Enrolling'' then None else Some JNull"
  obtain r where run: "push ?parse demo_runner demo_spec () = (r, ())"
    by (cases "push ?parse demo_runner demo_spec ()") auto
  have "case fst (push ?parse demo_runner demo_spec ()) of Inr _ \<Rightarrow> True | Inl _ \<Rightarrow> False" by code_simp
  then obtain res where "r = Inr res" using run by (cases r) simp_all
  moreover have "''pair'' \<in> set (pair_remote_argv demo_spec)" by code_simp
  ultimately show ?thesis
    using push_never_names_client [of ?parse demo_runner demo_spec "()" res "()" id] run
    by (auto simp: demo_runner_def)
qed

end
