(* ===== verification/Install.thy ===== *)
theory Install
  imports Setup_Push
begin

text \<open>
  The installer, \<^verbatim>\<open>cli/src/info.rs\<close> and \<^verbatim>\<open>cli/src/install.rs\<close>, over the disk.  A path keeps its text, and
  \<open>on_disk\<close> gives its place.  Other programs are a parameter, which may change the disk.
\<close>

section \<open>The machine\<close>

datatype role = Mac | Linux | Unknown

record machine = user_dirs +
  mc_os :: string
  mc_arch :: string
  mc_exe :: "string option"
  mc_home :: "string option"
  mc_cwd :: "string option"
  mc_omarchy_path :: "string option"

record config_paths =
  cp_bridge_config :: string
  cp_sync_config :: string
  cp_sync_state :: string
  cp_plugin_dir :: string

record platform_info =
  pf_os :: string
  pf_arch :: string
  pf_role :: role
  pf_hostname :: string
  pf_imsg_binary :: "string option"
  pf_config_paths :: config_paths

definition role_of_os :: "string \<Rightarrow> role" where
  "role_of_os os = (if os = ''macos'' then Mac else if os = ''linux'' then Linux else Unknown)"

definition detect :: "machine \<Rightarrow> platform_info" where
  "detect M =
     (let config_dir = unwrap_or (ud_config_dir M) ''.'' in
      \<lparr> pf_os = mc_os M, pf_arch = mc_arch M, pf_role = role_of_os (mc_os M),
        pf_hostname = unwrap_or (ud_hostname M) ''localhost'', pf_imsg_binary = mc_exe M,
        pf_config_paths =
          \<lparr> cp_bridge_config = config_dir @ ''/imsg-bridge/config.toml'',
            cp_sync_config = config_dir @ ''/imsg-sync/config.toml'',
            cp_sync_state = unwrap_or (ud_data_local_dir M) ''.'' @ ''/omarchy-imessage'',
            cp_plugin_dir = config_dir @ ''/omarchy/plugins/io.github.panic.imessage'' \<rparr> \<rparr>)"

definition imsg_path :: "machine \<Rightarrow> string + string" where
  "imsg_path M = (case mc_exe M of None \<Rightarrow> Inl ''resolve imsg binary path'' | Some p \<Rightarrow> Inr p)"

text \<open>What \<^verbatim>\<open>tailscale ip -4\<close> came to gives the address.\<close>

definition tailscale_ip_hint :: "outcome option \<Rightarrow> string option" where
  "tailscale_ip_hint output =
     (case output of
        None \<Rightarrow> None
      | Some out \<Rightarrow>
          if \<not> oc_success out then None
          else let ip = trim (oc_stdout out) in if starts_with ip ''100.'' then Some ip else None)"

section \<open>Other programs\<close>

text \<open>The environment that is added, and the command line; the result says whether it succeeded.\<close>

type_synonym 'w commands = "(string \<times> string) list \<Rightarrow> argv \<Rightarrow> ('w, string, bool) act"

definition home_dir :: "machine \<Rightarrow> ('w, string, string) act" where
  "home_dir M = of_result (case mc_home M of None \<Rightarrow> Inl ''home dir'' | Some h \<Rightarrow> Inr h)"

section \<open>The service of the Mac\<close>

definition text_lines :: "string list \<Rightarrow> string" where
  "text_lines ls = concat (map (\<lambda>l. l @ [CHR 0x0A]) ls)"

definition quoted_text :: "string \<Rightarrow> string" where
  "quoted_text s = [CHR 0x22] @ s @ [CHR 0x22]"

definition wrapper_text :: "string \<Rightarrow> string" where
  "wrapper_text imsg = text_lines [''#!/bin/bash'', ''exec '' @ quoted_text imsg @ '' bridge serve'']"

definition launchd_text :: "string \<Rightarrow> string" where
  "launchd_text wrapper = text_lines
     [''#!/bin/bash'',
      ''set -euo pipefail'',
      ''WRAPPER='' @ quoted_text wrapper,
      ''APP='' @ quoted_text ''/Applications/Ghostty.app'',
      ''PORT=18789'',
      '''',
      ''serve_up() {'',
      ''  /usr/sbin/lsof -nP -iTCP:'' @ quoted_text ''$PORT'' @ '' -sTCP:LISTEN >/dev/null 2>&1'',
      ''}'',
      '''',
      ''if ! serve_up; then'',
      ''  /usr/bin/open -na '' @ quoted_text ''$APP'' @ '' --args -e '' @ quoted_text ''$WRAPPER'',
      ''  sleep 3'',
      ''fi'',
      '''',
      ''if ! serve_up; then'',
      ''  sleep 30'',
      ''  exit 1'',
      ''fi'',
      '''',
      ''while serve_up; do'',
      ''  sleep 5'',
      ''done'']"

definition plist_text :: "string \<Rightarrow> string" where
  "plist_text launchd_sh = text_lines
     [''<?xml version='' @ quoted_text ''1.0'' @ '' encoding='' @ quoted_text ''UTF-8'' @ ''?>'',
      ''<!DOCTYPE plist PUBLIC '' @ quoted_text ''-//Apple//DTD PLIST 1.0//EN'' @ '' ''
        @ quoted_text ''http://www.apple.com/DTDs/PropertyList-1.0.dtd'' @ ''>'',
      ''<plist version='' @ quoted_text ''1.0'' @ ''>'',
      ''<dict>'',
      ''    <key>Label</key>'',
      ''    <string>com.panic.imsg-bridge</string>'',
      ''    <key>ProgramArguments</key>'',
      ''    <array>'',
      ''        <string>'' @ launchd_sh @ ''</string>'',
      ''    </array>'',
      ''    <key>RunAtLoad</key>'',
      ''    <true/>'',
      ''    <key>KeepAlive</key>'',
      ''    <true/>'',
      ''    <key>StandardOutPath</key>'',
      ''    <string>/tmp/imsg-bridge.out.log</string>'',
      ''    <key>StandardErrorPath</key>'',
      ''    <string>/tmp/imsg-bridge.err.log</string>'',
      ''</dict>'',
      ''</plist>'']"

definition plist_path :: "string \<Rightarrow> string" where
  "plist_path home = home @ ''/Library/LaunchAgents/com.panic.imsg-bridge.plist''"

definition install_mac_launchagent ::
  "machine \<Rightarrow> 'z disk_scheme commands \<Rightarrow> string \<Rightarrow> ('z disk_scheme, string, unit) act" where
  "install_mac_launchagent M C imsg =
     andthen (home_dir M) (\<lambda>home.
     let support = home @ ''/Library/Application Support/imsg-bridge'';
         wrapper = home @ ''/.local/libexec/imsg-bridge-serve'';
         launchd_sh = support @ ''/launchd.sh'';
         plist = plist_path home
     in
     andthen (create_dir_all (on_disk support)) (\<lambda>_.
     andthen (create_dir_all (butlast (on_disk wrapper))) (\<lambda>_.
     andthen (write_file (on_disk wrapper) (wrapper_text imsg)) (\<lambda>_.
     andthen (set_mode (on_disk wrapper)) (\<lambda>_.
     andthen (write_file (on_disk launchd_sh) (launchd_text wrapper)) (\<lambda>_.
     andthen (set_mode (on_disk launchd_sh)) (\<lambda>_.
     andthen (create_dir_all (butlast (on_disk plist))) (\<lambda>_.
     andthen (write_file (on_disk plist) (plist_text launchd_sh)) (\<lambda>_.
     andthen (with_context ''launchctl load'' (C [] [''launchctl'', ''load'', ''-w'', plist])) (\<lambda>loaded.
     if loaded then ret ()
     else andthen (with_context ''launchctl list'' (C [] [''launchctl'', ''list'', ''com.panic.imsg-bridge''])) (\<lambda>listed.
       if listed then ret ()
       else raise ''launchctl load failed and com.panic.imsg-bridge is not listed'')))))))))))"

definition uninstall_mac_launchagent ::
  "machine \<Rightarrow> 'z disk_scheme commands \<Rightarrow> ('z disk_scheme, string, unit) act" where
  "uninstall_mac_launchagent M C =
     andthen (home_dir M) (\<lambda>home.
     andthen (ignoring (C [] [''launchctl'', ''unload'', ''-w'', plist_path home])) (\<lambda>_.
     ignoring (remove_file (on_disk (plist_path home)))))"

section \<open>The service of Linux\<close>

definition unit_text :: "string \<Rightarrow> string" where
  "unit_text imsg = text_lines
     [''[Unit]'',
      ''Description=iMessage sync daemon for Omarchy'',
      ''After=network-online.target tailscaled.service'',
      ''Wants=network-online.target'',
      '''',
      ''[Service]'',
      ''Type=simple'',
      ''ExecStart='' @ imsg @ '' sync run'',
      ''Restart=on-failure'',
      ''RestartSec=5'',
      ''Environment=RUST_LOG=imsg_sync=info'',
      '''',
      ''[Install]'',
      ''WantedBy=default.target'']"

definition unit_path :: "string \<Rightarrow> string" where
  "unit_path home = home @ ''/.config/systemd/user/imsg-sync.service''"

definition install_linux_systemd ::
  "machine \<Rightarrow> 'z disk_scheme commands \<Rightarrow> string \<Rightarrow> ('z disk_scheme, string, unit) act" where
  "install_linux_systemd M C imsg =
     andthen (home_dir M) (\<lambda>home.
     andthen (create_dir_all (butlast (on_disk (unit_path home)))) (\<lambda>_.
     andthen (write_file (on_disk (unit_path home)) (unit_text imsg)) (\<lambda>_.
     andthen (with_context ''systemctl daemon-reload'' (C [] [''systemctl'', ''--user'', ''daemon-reload''])) (\<lambda>_.
     andthen (with_context ''systemctl enable imsg-sync''
       (C [] [''systemctl'', ''--user'', ''enable'', ''--now'', ''imsg-sync.service''])) (\<lambda>_.
     ret ())))))"

definition uninstall_linux_systemd ::
  "machine \<Rightarrow> 'z disk_scheme commands \<Rightarrow> ('z disk_scheme, string, unit) act" where
  "uninstall_linux_systemd M C =
     andthen (ignoring (C [] [''systemctl'', ''--user'', ''disable'', ''--now'', ''imsg-sync.service''])) (\<lambda>_.
     andthen (home_dir M) (\<lambda>home.
     andthen (ignoring (remove_file (on_disk (unit_path home)))) (\<lambda>_.
     ignoring (C [] [''systemctl'', ''--user'', ''daemon-reload'']))))"

section \<open>The plugin\<close>

definition default_plugin_path :: "machine \<Rightarrow> 'z disk_scheme \<Rightarrow> string option" where
  "default_plugin_path M d =
     (case mc_cwd M of
        None \<Rightarrow> None
      | Some cwd \<Rightarrow>
          if fs_exists d (on_disk (cwd @ ''/plugin/manifest.json'')) then Some (cwd @ ''/plugin'') else None)"

text \<open>\<open>copy_dir\<close> is \<^verbatim>\<open>copy_dir_recursive\<close>, and \<open>copy_entries\<close> its loop.  The fuel is the depth of the
  recursion; \<^verbatim>\<open>None\<close> is a recursion that goes deeper.\<close>

fun copy_dir :: "nat \<Rightarrow> fpath \<Rightarrow> fpath \<Rightarrow> 'z disk_scheme \<Rightarrow> ((string + unit) \<times> 'z disk_scheme) option"
  and copy_entries ::
    "nat \<Rightarrow> fpath \<Rightarrow> fpath \<Rightarrow> string list \<Rightarrow> 'z disk_scheme \<Rightarrow> ((string + unit) \<times> 'z disk_scheme) option"
where
  "copy_dir 0 src dest d = None"
| "copy_dir (Suc k) src dest d =
     (case andthen (create_dir_all dest) (\<lambda>_. read_dir src) d of
        (Inl e, d1) \<Rightarrow> Some (Inl e, d1)
      | (Inr names, d1) \<Rightarrow> copy_entries k src dest names d1)"
| "copy_entries k src dest [] d = Some (Inr (), d)"
| "copy_entries k src dest (n # names) d =
     (if dir_at (dk_root d) (src @ [n])
      then (case copy_dir k (src @ [n]) (dest @ [n]) d of
          Some (Inr _, d1) \<Rightarrow> copy_entries k src dest names d1
        | r \<Rightarrow> r)
      else (case copy_file (src @ [n]) (dest @ [n]) d of
          (Inr _, d1) \<Rightarrow> copy_entries k src dest names d1
        | (Inl e, d1) \<Rightarrow> Some (Inl e, d1)))"

definition clear_plugin :: "string \<Rightarrow> ('z disk_scheme, string, unit) act" where
  "clear_plugin dest d = (if fs_exists d (on_disk dest) then remove_dir_all (on_disk dest) d else (Inr (), d))"

text \<open>The link to the binary, and the desktop told about the plugin.\<close>

definition link_binary :: "machine \<Rightarrow> ('z disk_scheme, string, unit) act" where
  "link_binary M =
     andthen (home_dir M) (\<lambda>home.
     andthen (create_dir_all (on_disk (home @ ''/.local/bin''))) (\<lambda>_.
     let link = on_disk (home @ ''/.local/bin/imsg'');
         target = on_disk (case imsg_path M of Inl _ \<Rightarrow> ''imsg'' | Inr p \<Rightarrow> p)
     in
     andthen (\<lambda>d. if fs_exists d link then ignoring (remove_file link) d else (Inr (), d)) (\<lambda>_.
     ignoring (make_link target link))))"

definition announce_plugin :: "machine \<Rightarrow> 'w commands \<Rightarrow> ('w, string, unit) act" where
  "announce_plugin M C =
     (let env = [(''OMARCHY_PATH'', unwrap_or (mc_omarchy_path M) ''/usr/share/omarchy'')] in
      andthen (ignoring (C env [''omarchy'', ''plugin'', ''enable'', ''io.github.panic.imessage'', ''right''])) (\<lambda>_.
      ignoring (C env [''omarchy-shell'', ''shell'', ''rescanPlugins''])))"

definition install_plugin ::
  "nat \<Rightarrow> machine \<Rightarrow> 'z disk_scheme commands \<Rightarrow> string \<Rightarrow> 'z disk_scheme \<Rightarrow> ((string + unit) \<times> 'z disk_scheme) option" where
  "install_plugin fuel M C src d =
     (let dest = cp_plugin_dir (pf_config_paths (detect M)) in
      case clear_plugin dest d of
        (Inl e, d1) \<Rightarrow> Some (Inl e, d1)
      | (Inr _, d1) \<Rightarrow>
          (case copy_dir fuel (on_disk src) (on_disk dest) d1 of
             Some (Inr _, d2) \<Rightarrow> Some (andthen (link_binary M) (\<lambda>_. announce_plugin M C) d2)
           | r \<Rightarrow> r))"

section \<open>Commands\<close>

record install_result =
  in_role :: role
  in_service :: string
  in_plugin_installed :: bool

definition apply_install ::
  "nat \<Rightarrow> machine \<Rightarrow> 'z disk_scheme commands \<Rightarrow> string option \<Rightarrow> 'z disk_scheme \<Rightarrow>
     ((string + install_result) \<times> 'z disk_scheme) option" where
  "apply_install fuel M C plugin d =
     (let platform = detect M in
      case imsg_path M of
        Inl e \<Rightarrow> Some (Inl e, d)
      | Inr imsg \<Rightarrow>
          (case pf_role platform of
             Mac \<Rightarrow> Some (andthen (install_mac_launchagent M C imsg) (\<lambda>_.
               ret \<lparr> in_role = Mac, in_service = ''launchagent: com.panic.imsg-bridge'', in_plugin_installed = False \<rparr>) d)
           | Linux \<Rightarrow>
               (case install_linux_systemd M C imsg d of
                  (Inl e, d1) \<Rightarrow> Some (Inl e, d1)
                | (Inr _, d1) \<Rightarrow>
                    (case or_else plugin (default_plugin_path M d1) of
                       None \<Rightarrow> Some (Inr \<lparr> in_role = Linux, in_service = ''systemd: imsg-sync.service'',
                                          in_plugin_installed = False \<rparr>, d1)
                     | Some src \<Rightarrow>
                         (case install_plugin fuel M C src d1 of
                            None \<Rightarrow> None
                          | Some (Inl e, d2) \<Rightarrow> Some (Inl e, d2)
                          | Some (Inr _, d2) \<Rightarrow>
                              Some (Inr \<lparr> in_role = Linux, in_service = ''systemd: imsg-sync.service'',
                                          in_plugin_installed = True \<rparr>, d2))))
           | Unknown \<Rightarrow> Some (Inl (''unsupported platform: '' @ pf_os platform), d)))"

definition purge_data :: "config_paths \<Rightarrow> ('z disk_scheme, string, unit) act" where
  "purge_data paths =
     andthen (ignoring (remove_dir_all (butlast (on_disk (cp_bridge_config paths))))) (\<lambda>_.
     andthen (ignoring (remove_dir_all (on_disk (cp_sync_state paths)))) (\<lambda>_.
     ignoring (remove_dir_all (butlast (on_disk (cp_sync_config paths))))))"

definition uninstall :: "machine \<Rightarrow> 'z disk_scheme commands \<Rightarrow> bool \<Rightarrow> ('z disk_scheme, string, unit) act" where
  "uninstall M C purge =
     (let platform = detect M; paths = pf_config_paths platform in
      andthen (case pf_role platform of
          Mac \<Rightarrow> uninstall_mac_launchagent M C
        | Linux \<Rightarrow>
            andthen (uninstall_linux_systemd M C) (\<lambda>_ d.
              if fs_exists d (on_disk (cp_plugin_dir paths)) then remove_dir_all (on_disk (cp_plugin_dir paths)) d
              else (Inr (), d))
        | Unknown \<Rightarrow> raise ''unsupported platform'') (\<lambda>_.
      if purge then purge_data paths else ret ()))"

text \<open>Where the daemon keeps its cache, \<^verbatim>\<open>sync/src/link/store.rs\<close>: the directory of state comes first.\<close>

definition daemon_cache_path :: "string option \<Rightarrow> machine \<Rightarrow> string" where
  "daemon_cache_path state_home M =
     unwrap_or (or_else state_home (ud_data_local_dir M)) ''.'' @ ''/omarchy-imessage/cache.db''"

end
