(* ===== verification/Install_Contract.thy ===== *)
theory Install_Contract
  imports Install Commands_Contract
begin

text \<open>
  What the installer promises: the plugin is replaced by an exact copy of its source.  And where it fails: a
  plugin installed over itself is lost, and so is a program that runs from the place of the link.
\<close>

section \<open>Copying a tree\<close>

text \<open>A tree of directories and files, with one entry for each name.\<close>

fun plain_tree :: "node \<Rightarrow> bool" and plain_entries :: "(string \<times> node) list \<Rightarrow> bool" where
  "plain_tree (Plain s) \<longleftrightarrow> True"
| "plain_tree (Link q) \<longleftrightarrow> False"
| "plain_tree (Dir es) \<longleftrightarrow> distinct (map fst es) \<and> plain_entries es"
| "plain_entries [] \<longleftrightarrow> True"
| "plain_entries ((n, t) # es) \<longleftrightarrow> plain_tree t \<and> plain_entries es"

fun depth :: "node \<Rightarrow> nat" and depths :: "(string \<times> node) list \<Rightarrow> nat" where
  "depth (Plain s) = 0"
| "depth (Link q) = 0"
| "depth (Dir es) = Suc (depths es)"
| "depths [] = 0"
| "depths ((n, t) # es) = max (depth t) (depths es)"

lemma put_at_put_at: "put_at (p @ q) x (put_at p y t) = put_at p (put_at q x y) t"
proof (induction p y t rule: put_at.induct)
  case (2 n p y es)
  have "AList.update n u (AList.update n v es) = AList.update n u es" for u v
    by (induction es) auto
  then show ?case using 2 by (simp add: update_lookup)
qed simp_all

lemma put_new_entry:
  assumes "n \<notin> fst ` set es"
  shows "put_at (p @ [n]) x (put_at p (Dir es) t) = put_at p (Dir (es @ [(n, x)])) t"
proof -
  have "AList.update n x es = es @ [(n, x)]" using assms by (induction es) auto
  then show ?thesis by (simp add: put_at_put_at)
qed

lemma make_dirs_new:
  assumes "dir_at (dk_root d) (base @ p)" "node_at (dk_root d) (base @ p @ [n]) = None"
    "dk_denied d (MakeDir (base @ p @ [n])) = None"
  shows "make_dirs base (p @ [n]) d = (Inr (), d\<lparr>dk_root := put_at (base @ p @ [n]) (Dir []) (dk_root d)\<rparr>)"
  using assms
proof (induction p arbitrary: base)
  case (Cons m p)
  then have "dir_at (dk_root d) (base @ [m])" using dir_at_parent [of _ "base @ [m]" p] by simp
  then obtain es where "node_at (dk_root d) (base @ [m]) = Some (Dir es)" by (auto simp: dir_at_iff)
  then show ?case using Cons.IH [of "base @ [m]"] Cons.prems by simp
qed simp

lemma create_dir_new:
  assumes "dir_at (dk_root d) p" "node_at (dk_root d) (p @ [n]) = None" "dk_denied d (MakeDir (p @ [n])) = None"
  shows "create_dir_all (p @ [n]) d = (Inr (), d\<lparr>dk_root := put_at (p @ [n]) (Dir []) (dk_root d)\<rparr>)"
  using make_dirs_new [of d "[]" p n] assms by (simp add: create_dir_all_def)

lemma plain_entriesD: "plain_entries es \<Longrightarrow> (n, t) \<in> set es \<Longrightarrow> plain_tree t"
  and depths_ge: "(n, t) \<in> set es \<Longrightarrow> depth t \<le> depths es"
  by (induction es) auto

text \<open>The state of a copy: the source, the directory the copy goes to, and what is copied already.\<close>

definition copying :: "fpath \<Rightarrow> fpath \<Rightarrow> node \<Rightarrow> (string \<times> node) list \<Rightarrow> (string \<times> node) list \<Rightarrow> 'z disk_scheme \<Rightarrow> bool" where
  "copying src dest r copied rest d \<longleftrightarrow>
     dk_root d = put_at dest (Dir copied) r \<and> dir_at r (butlast dest) \<and> dest \<noteq> [] \<and> src \<parallel> dest
     \<and> node_at r src = Some (Dir (copied @ rest)) \<and> distinct (map fst (copied @ rest))
     \<and> plain_entries rest \<and> dk_denied d = (\<lambda>_. None)"

lemma copying_entry:
  assumes "copying src dest r copied ((n, t) # rest) d"
  shows "node_at (dk_root d) (src @ [n]) = Some t" "node_at (dk_root d) (dest @ [n]) = None"
    "dir_at (dk_root d) dest" "plain_tree t" "(src @ [n]) \<parallel> (dest @ [n])"
    "copying src dest r (copied @ [(n, t)]) rest (d\<lparr>dk_root := put_at (dest @ [n]) t (dk_root d)\<rparr>)"
proof -
  have root: "dk_root d = put_at dest (Dir copied) r" and par: "src \<parallel> dest" and new: "n \<notin> fst ` set copied"
      and at: "node_at r src = Some (Dir (copied @ (n, t) # rest))"
    using assms by (auto simp: copying_def)
  have here: "node_at (dk_root d) dest = Some (Dir copied)"
    using assms put_at_same [of r dest] by (simp add: copying_def)
  then show "dir_at (dk_root d) dest" by (simp add: dir_at_iff)
  have "map_of copied n = None" using new by (simp add: map_of_eq_None_iff)
  then show "node_at (dk_root d) (dest @ [n]) = None" using here by (simp add: node_at_append)
  have "node_at (dk_root d) src = Some (Dir (copied @ (n, t) # rest))"
    using at put_at_parallel [of dest src] par root by (simp add: parallel_commute)
  then show "node_at (dk_root d) (src @ [n]) = Some t"
    using \<open>map_of copied n = None\<close> by (simp add: node_at_append map_add_def)
  show "plain_tree t" using assms by (simp add: copying_def)
  show "(src @ [n]) \<parallel> (dest @ [n])" using par parallel_append by blast
  show "copying src dest r (copied @ [(n, t)]) rest (d\<lparr>dk_root := put_at (dest @ [n]) t (dk_root d)\<rparr>)"
    using assms new root put_new_entry [of n copied dest t r] by (simp add: copying_def)
qed

lemma copy_tree:
  fixes d :: "'z disk_scheme"
  shows "\<lbrakk>node_at (dk_root d) src = Some (Dir es); plain_tree (Dir es); depth (Dir es) \<le> k; dk_denied d = (\<lambda>_. None);
    src \<parallel> (base @ [n]); dir_at (dk_root d) base; node_at (dk_root d) (base @ [n]) = None\<rbrakk>
   \<Longrightarrow> copy_dir k src (base @ [n]) d = Some (Inr (), d\<lparr>dk_root := put_at (base @ [n]) (Dir es) (dk_root d)\<rparr>)"
proof (induction k arbitrary: d src es base n)
  case (Suc k)
  let ?dest = "base @ [n]"
  have entries: "copy_entries k src ?dest (map fst rest) d' = Some (Inr (), d'\<lparr>dk_root := put_at ?dest (Dir (copied @ rest)) r\<rparr>)"
    if "copying src ?dest r copied rest d'" "depths rest \<le> k" for d' :: "'z disk_scheme" and r copied rest
    using that
  proof (induction rest arbitrary: copied d')
    case (Cons e rest)
    obtain m t where e: "e = (m, t)" by (cases e)
    note c = copying_entry [OF Cons.prems(1) [unfolded e]]
    let ?d1 = "d'\<lparr>dk_root := put_at (?dest @ [m]) t (dk_root d')\<rparr>"
    have denied: "dk_denied d' = (\<lambda>_. None)" using Cons.prems(1) by (simp add: copying_def)
    have next': "copy_entries k src ?dest (map fst rest) ?d1
        = Some (Inr (), ?d1\<lparr>dk_root := put_at ?dest (Dir ((copied @ [(m, t)]) @ rest)) r\<rparr>)"
      by (rule Cons.IH [OF c(6)]) (use Cons.prems(2) e in simp)
    show ?case
    proof (cases t)
      case (Plain s)
      have "copy_file (src @ [m]) (?dest @ [m]) d' = (Inr (), ?d1)"
        using read_plain [of d' "src @ [m]" s] write_plain [of d' "?dest @ [m]" s s] c(1-3) denied Plain
        by (simp add: copy_file_def butlast_append)
      then show ?thesis using next' c(1) e Plain by (simp add: dir_at_def)
    next
      case (Dir sub)
      have "copy_dir k (src @ [m]) (?dest @ [m]) d' = Some (Inr (), ?d1)"
        using Suc.IH [of d' "src @ [m]" sub ?dest m] c denied Dir Cons.prems(2) e by simp
      then show ?thesis using next' c(1) e Dir by (simp add: dir_at_def)
    next
      case (Link q)
      then show ?thesis using c(4) by simp
    qed
  qed (simp add: copying_def)
  let ?d0 = "d\<lparr>dk_root := put_at ?dest (Dir []) (dk_root d)\<rparr>"
  have made: "create_dir_all ?dest d = (Inr (), ?d0)" using Suc.prems by (simp add: create_dir_new)
  have "node_at (dk_root ?d0) src = Some (Dir es)"
    using Suc.prems(1,5) put_at_parallel [of ?dest src] by (simp add: parallel_commute)
  then have listed: "read_dir src ?d0 = (Inr (map fst es), ?d0)"
    using Suc.prems(2,4) by (simp add: read_dir_def andthen_apply follow_def final_path_plain permitted_def distinct_remdups_id)
  have "copying src ?dest (dk_root d) [] es ?d0" using Suc.prems by (simp add: copying_def)
  from entries [OF this] show ?case using Suc.prems(3) made listed by (simp add: andthen_apply)
qed simp

section \<open>The plugin\<close>

lemma plugin_dir_snoc: "\<exists>base. on_disk (cp_plugin_dir (pf_config_paths (detect M))) = base @ [''io.github.panic.imessage'']"
proof -
  let ?c = "unwrap_or (ud_config_dir M) ''.''"
  have "split_on CHR ''/'' (?c @ ''/omarchy/plugins/io.github.panic.imessage'')
      = split_on CHR ''/'' ?c @ [''omarchy'', ''plugins'', ''io.github.panic.imessage'']"
    using split_on_append [of "CHR ''/''" ?c "''omarchy/plugins/io.github.panic.imessage''"] by simp
  then show ?thesis by (simp add: on_disk_def join_text_def detect_def Let_def)
qed

text \<open>After the old plugin is cleared: its place is free, and the places beside it are as they were.\<close>

lemma cleared:
  fixes d :: "'z disk_scheme"
  assumes "dest = base @ [n]" "dir_at (dk_root d) base" "on_disk p = dest"
    "node_at (dk_root d) dest = None \<or> dir_at (dk_root d) dest" "dk_denied d = (\<lambda>_. None)"
  obtains d1 where "clear_plugin p d = (Inr (), d1)" "node_at (dk_root d1) dest = None"
    "dir_at (dk_root d1) base" "dk_denied d1 = (\<lambda>_. None)" "\<And>q. q \<parallel> dest \<Longrightarrow> node_at (dk_root d1) q = node_at (dk_root d) q"
proof (cases "node_at (dk_root d) dest = None")
  case True
  then show ?thesis using assms missing_plain [OF True] by (intro that [of d]) (simp_all add: clear_plugin_def)
next
  case False
  then have there: "dir_at (dk_root d) dest" using assms(4) by auto
  then obtain es where es: "node_at (dk_root d) dest = Some (Dir es)" by (auto simp: dir_at_iff)
  then have "fs_exists d dest" by (simp add: fs_exists_def final_path_plain)
  let ?d1 = "d\<lparr>dk_root := cut_at dest (dk_root d)\<rparr>"
  have "clear_plugin p d = (Inr (), ?d1)"
    using assms(3,5) es \<open>fs_exists d dest\<close> by (simp add: clear_plugin_def remove_dir_all_def andthen_apply permitted_def)
  moreover have "node_at (dk_root ?d1) dest = None" using cut_at_gone [of dest "dk_root d" "[]"] assms(1) by simp
  moreover have "dir_at (dk_root ?d1) base" using assms(1,2) cut_at_keeps_parent by simp
  moreover have "\<And>q. q \<parallel> dest \<Longrightarrow> node_at (dk_root ?d1) q = node_at (dk_root d) q"
    using cut_at_parallel by (simp add: parallel_commute)
  ultimately show ?thesis using assms(5) by (intro that [of ?d1]) simp_all
qed

lemma install_plugin_copies:
  assumes "dest = on_disk (cp_plugin_dir (pf_config_paths (detect M)))"
    and "node_at (dk_root d) (on_disk src) = Some (Dir es)" "plain_tree (Dir es)" "depth (Dir es) \<le> fuel"
    and "on_disk src \<parallel> dest" "dir_at (dk_root d) (butlast dest)"
    and "node_at (dk_root d) dest = None \<or> dir_at (dk_root d) dest" "dk_denied d = (\<lambda>_. None)"
  obtains d2 where "install_plugin fuel M C src d = Some (andthen (link_binary M) (\<lambda>_. announce_plugin M C) d2)"
    "node_at (dk_root d2) dest = Some (Dir es)" "dk_denied d2 = (\<lambda>_. None)"
    "\<And>q. q \<parallel> dest \<Longrightarrow> node_at (dk_root d2) q = node_at (dk_root d) q"
proof -
  obtain base n where dest: "dest = base @ [n]" using plugin_dir_snoc assms(1) by metis
  obtain d1 where d1: "clear_plugin (cp_plugin_dir (pf_config_paths (detect M))) d = (Inr (), d1)"
      "node_at (dk_root d1) dest = None" "dir_at (dk_root d1) base" "dk_denied d1 = (\<lambda>_. None)"
      "\<And>q. q \<parallel> dest \<Longrightarrow> node_at (dk_root d1) q = node_at (dk_root d) q"
    using cleared [OF dest] assms dest by (metis butlast_snoc)
  let ?d2 = "d1\<lparr>dk_root := put_at dest (Dir es) (dk_root d1)\<rparr>"
  have "copy_dir fuel (on_disk src) dest d1 = Some (Inr (), ?d2)"
    using copy_tree [of d1 "on_disk src" es fuel base n] assms(2-5) d1 dest by simp
  moreover have "node_at (dk_root ?d2) dest = Some (Dir es)" using put_at_same [of "dk_root d1" dest] d1(3) dest by simp
  moreover have "node_at (dk_root ?d2) q = node_at (dk_root d) q" if "q \<parallel> dest" for q
    using that d1(5) put_at_parallel [of dest q] by (simp add: parallel_commute)
  ultimately show ?thesis
    using d1(1,4) assms(1) by (intro that [of ?d2]) (simp_all add: install_plugin_def Let_def)
qed

text \<open>C28: installing a plugin ends, with any fuel from the depth of its source, and replaces the old one by an exact
  copy: every directory and file of the source and nothing else, and beside it nothing has changed when the
  link to the binary is made.  Its conditions: the source is a directory without links, apart from the destination, which
  is a directory or absent in one that exists, and the system refuses nothing.\<close>

theorem plugin_is_replaced:
  assumes "dest = on_disk (cp_plugin_dir (pf_config_paths (detect M)))"
    and "node_at (dk_root d) (on_disk src) = Some (Dir es)" "plain_tree (Dir es)" "depth (Dir es) \<le> fuel"
    and "on_disk src \<parallel> dest" "dir_at (dk_root d) (butlast dest)"
    and "node_at (dk_root d) dest = None \<or> dir_at (dk_root d) dest" "dk_denied d = (\<lambda>_. None)"
  shows "\<exists>d2. install_plugin fuel M C src d = Some (andthen (link_binary M) (\<lambda>_. announce_plugin M C) d2)
     \<and> node_at (dk_root d2) dest = Some (Dir es)
     \<and> (\<forall>q. q \<parallel> dest \<longrightarrow> node_at (dk_root d2) q = node_at (dk_root d) q)"
  using install_plugin_copies [OF assms] by metis

definition demo_machine :: machine where
  "demo_machine = \<lparr> ud_data_local_dir = Some ''/h/.local/share'', ud_config_dir = Some ''/h/.config'', ud_hostname = None,
     ud_uid = 1000, mc_os = ''linux'', mc_arch = ''x86_64'', mc_exe = Some ''/h/.local/bin/imsg'', mc_home = Some ''/h'',
     mc_cwd = Some ''/h'', mc_omarchy_path = None \<rparr>"

definition demo_plugin :: "(string \<times> node) list" where
  "demo_plugin = [(''manifest.json'', Plain ''{}''), (''ui'', Dir [(''Panel.qml'', Plain ''Item {}'')])]"

definition demo_plugin_disk :: disk where
  "demo_plugin_disk = \<lparr> dk_root = Dir [(''h'', Dir
       [(''plugin'', Dir demo_plugin),
        (''.local'', Dir [(''bin'', Dir [(''imsg'', Plain ''ELF'')])]),
        (''.config'', Dir [(''omarchy'', Dir [(''plugins'', Dir
           [(''io.github.panic.imessage'', Dir [(''old.qml'', Plain ''old'')])])])])])],
     dk_denied = (\<lambda>_. None) \<rparr>"

definition demo_commands :: "disk commands" where
  "demo_commands env argv d = (Inr True, d)"

abbreviation demo_dest :: fpath where
  "demo_dest \<equiv> [''h'', ''.config'', ''omarchy'', ''plugins'', ''io.github.panic.imessage'']"

lemma demo_plugin_facts:
  "on_disk (cp_plugin_dir (pf_config_paths (detect demo_machine))) = demo_dest"
  "on_disk ''/h/plugin'' = [''h'', ''plugin'']" "on_disk ''/h/.local/bin/imsg'' = [''h'', ''.local'', ''bin'', ''imsg'']"
  "node_at (dk_root demo_plugin_disk) [''h'', ''plugin''] = Some (Dir demo_plugin)"
  "plain_tree (Dir demo_plugin)" "depth (Dir demo_plugin) = 2"
  "dir_at (dk_root demo_plugin_disk) (butlast demo_dest)" "dir_at (dk_root demo_plugin_disk) demo_dest"
  by code_simp+

theorem plugin_is_replaced_witness:
  "\<exists>d2. install_plugin 5 demo_machine demo_commands ''/h/plugin'' demo_plugin_disk
       = Some (andthen (link_binary demo_machine) (\<lambda>_. announce_plugin demo_machine demo_commands) d2)
     \<and> node_at (dk_root d2) demo_dest = Some (Dir demo_plugin)"
  using plugin_is_replaced [OF demo_plugin_facts(1) [symmetric], of demo_plugin_disk "''/h/plugin''" demo_plugin 5 demo_commands]
    demo_plugin_facts
  by (auto simp: demo_plugin_disk_def)

section \<open>The link to the program\<close>

definition leaves_disk :: "'w commands \<Rightarrow> bool" where
  "leaves_disk C \<longleftrightarrow> (\<forall>env argv w. snd (C env argv w) = w)"

lemma announce_quiet: "leaves_disk C \<Longrightarrow> announce_plugin M C w = (Inr (), w)"
  by (simp add: leaves_disk_def announce_plugin_def Let_def ignoring_def andthen_apply)

lemma self_link: "node_at t p = Some (Link p) \<Longrightarrow> final_path k t p = None"
  by (induction k) simp_all

lemma bin_path: "on_disk (home @ ''/.local/bin/imsg'') = on_disk (home @ ''/.local/bin'') @ [''imsg'']"
proof -
  have "split_on CHR ''/'' (home @ ''/.local/bin/imsg'') = split_on CHR ''/'' (home @ ''/.local/bin'') @ [''imsg'']"
    using split_on_append [of "CHR ''/''" "home @ ''/.local/bin''" "''imsg''"] by simp
  moreover have "starts_with (home @ ''/.local/bin/imsg'') ''/'' = starts_with (home @ ''/.local/bin'') ''/''"
    by (cases home) (simp_all add: starts_with_def)
  ultimately show ?thesis by (simp add: on_disk_def join_text_def)
qed

lemma link_over_itself:
  assumes "mc_home M = Some home" "mc_exe M = Some (home @ ''/.local/bin/imsg'')"
    and "link = on_disk (home @ ''/.local/bin/imsg'')"
    and "node_at (dk_root d) link = Some (Plain b)" "dk_denied d = (\<lambda>_. None)"
  obtains d' where "link_binary M d = (Inr (), d')" "node_at (dk_root d') link = Some (Link link)"
proof -
  let ?bin = "on_disk (home @ ''/.local/bin'')"
  have link: "link = ?bin @ [''imsg'']" using assms(3) bin_path by simp
  then have dir: "dir_at (dk_root d) ?bin" using assms(4) by (auto simp: node_at_snoc dir_at_iff)
  let ?d1 = "d\<lparr>dk_root := cut_at link (dk_root d)\<rparr>"
  let ?d2 = "?d1\<lparr>dk_root := put_at link (Link link) (dk_root ?d1)\<rparr>"
  have gone: "node_at (dk_root ?d1) link = None" using cut_at_gone [of link _ "[]"] link by simp
  have dir1: "dir_at (dk_root ?d1) ?bin" using cut_at_keeps_parent [OF dir] link by simp
  have "remove_file link d = (Inr (), ?d1)"
    using assms(4,5) by (simp add: remove_file_def andthen_apply permitted_def)
  moreover have "make_link link link ?d1 = (Inr (), ?d2)"
    using gone dir1 assms(5) link by (simp add: make_link_def andthen_apply permitted_def)
  moreover have "fs_exists d link" using exists_plain assms(4) by blast
  ultimately have "link_binary M d = (Inr (), ?d2)"
    using assms(1-3) create_dir_all_there [OF dir]
    by (simp add: link_binary_def home_dir_def imsg_path_def Let_def andthen_apply ignoring_def)
  moreover have "node_at (dk_root ?d2) link = Some (Link link)"
    using put_at_same [of "dk_root ?d1" link] dir1 link by simp
  ultimately show ?thesis by (rule that)
qed

text \<open>C29: an installer that runs from \<^verbatim>\<open>~/.local/bin/imsg\<close>, which is where the setup of the other machine puts it, destroys
  itself: installing a plugin removes the binary and puts a link to itself in its place, reports success, and
  no program is there any more.\<close>

theorem install_breaks_own_binary:
  assumes "dest = on_disk (cp_plugin_dir (pf_config_paths (detect M)))"
    and "node_at (dk_root d) (on_disk src) = Some (Dir es)" "plain_tree (Dir es)" "depth (Dir es) \<le> fuel"
    and "on_disk src \<parallel> dest" "dir_at (dk_root d) (butlast dest)"
    and "node_at (dk_root d) dest = None \<or> dir_at (dk_root d) dest" "dk_denied d = (\<lambda>_. None)"
    and "mc_home M = Some home" "mc_exe M = Some (home @ ''/.local/bin/imsg'')"
    and "link = on_disk (home @ ''/.local/bin/imsg'')" "link \<parallel> dest"
    and "node_at (dk_root d) link = Some (Plain b)" "leaves_disk C"
  shows "\<exists>d'. install_plugin fuel M C src d = Some (Inr (), d')
     \<and> node_at (dk_root d') link = Some (Link link) \<and> \<not> fs_exists d' link"
proof -
  obtain d2 where d2: "install_plugin fuel M C src d = Some (andthen (link_binary M) (\<lambda>_. announce_plugin M C) d2)"
      "dk_denied d2 = (\<lambda>_. None)" "node_at (dk_root d2) link = Some (Plain b)"
    using install_plugin_copies [OF assms(1-8)] assms(12,13) by metis
  obtain d3 where d3: "link_binary M d2 = (Inr (), d3)" "node_at (dk_root d3) link = Some (Link link)"
    using link_over_itself [OF assms(9-11) d2(3,2)] by blast
  have "\<not> fs_exists d3 link" using self_link [OF d3(2)] by (simp add: fs_exists_def)
  then show ?thesis using d2(1) d3 announce_quiet [OF assms(14)] by simp
qed

theorem install_breaks_own_binary_witness:
  "\<exists>d'. install_plugin 5 demo_machine demo_commands ''/h/plugin'' demo_plugin_disk = Some (Inr (), d')
     \<and> \<not> fs_exists d' [''h'', ''.local'', ''bin'', ''imsg'']"
proof -
  have "node_at (dk_root demo_plugin_disk) [''h'', ''.local'', ''bin'', ''imsg''] = Some (Plain ''ELF'')"
    "leaves_disk demo_commands" "dk_denied demo_plugin_disk = (\<lambda>_. None)"
    "mc_home demo_machine = Some ''/h''" "mc_exe demo_machine = Some (''/h'' @ ''/.local/bin/imsg'')"
    by (simp_all add: demo_plugin_disk_def demo_commands_def leaves_disk_def demo_machine_def)
  then show ?thesis
    using install_breaks_own_binary [OF demo_plugin_facts(1) [symmetric], of demo_plugin_disk "''/h/plugin''" demo_plugin 5
        "''/h''" "[''h'', ''.local'', ''bin'', ''imsg'']" "''ELF''" demo_commands] demo_plugin_facts
    by auto
qed

section \<open>A plugin over itself\<close>

text \<open>a plugin that is installed from the directory it is installed to is lost: the old copy is cleared before the
  source is read, and an empty directory is reported as an installed plugin.\<close>

theorem plugin_over_itself_is_lost:
  assumes "dest = on_disk (cp_plugin_dir (pf_config_paths (detect M)))" "on_disk src = dest"
    and "dir_at (dk_root d) (butlast dest)" "dir_at (dk_root d) dest" "dk_denied d = (\<lambda>_. None)"
  shows "\<exists>d2. install_plugin (Suc fuel) M C src d = Some (andthen (link_binary M) (\<lambda>_. announce_plugin M C) d2)
     \<and> node_at (dk_root d2) dest = Some (Dir [])"
proof -
  obtain base n where dest: "dest = base @ [n]" using plugin_dir_snoc assms(1) by metis
  obtain d1 where d1: "clear_plugin (cp_plugin_dir (pf_config_paths (detect M))) d = (Inr (), d1)"
      "node_at (dk_root d1) dest = None" "dir_at (dk_root d1) base" "dk_denied d1 = (\<lambda>_. None)"
    using cleared [OF dest] assms dest by (metis butlast_snoc)
  let ?d2 = "d1\<lparr>dk_root := put_at dest (Dir []) (dk_root d1)\<rparr>"
  have there: "node_at (dk_root ?d2) dest = Some (Dir [])" using put_at_same [of "dk_root d1" dest] d1(3) dest by simp
  have "create_dir_all dest d1 = (Inr (), ?d2)" using d1 dest by (simp add: create_dir_new)
  moreover have "read_dir dest ?d2 = (Inr [], ?d2)"
    using there d1(4) by (simp add: read_dir_def andthen_apply follow_def final_path_plain permitted_def)
  ultimately have "copy_dir (Suc fuel) (on_disk src) dest d1 = Some (Inr (), ?d2)"
    using assms(2) by (simp add: andthen_apply)
  then show ?thesis using d1(1) assms(1) there by (intro exI [of _ ?d2]) (simp add: install_plugin_def Let_def)
qed

theorem plugin_over_itself_is_lost_witness:
  "\<exists>d2. install_plugin 5 demo_machine demo_commands ''/h/.config/omarchy/plugins/io.github.panic.imessage'' demo_plugin_disk
       = Some (andthen (link_binary demo_machine) (\<lambda>_. announce_plugin demo_machine demo_commands) d2)
     \<and> node_at (dk_root d2) demo_dest = Some (Dir [])"
proof -
  have "on_disk ''/h/.config/omarchy/plugins/io.github.panic.imessage'' = demo_dest" by code_simp
  moreover have "Suc 4 = 5" "dk_denied demo_plugin_disk = (\<lambda>_. None)" by (simp_all add: demo_plugin_disk_def)
  ultimately show ?thesis
    using plugin_over_itself_is_lost [OF demo_plugin_facts(1) [symmetric], of _ demo_plugin_disk 4 demo_commands] demo_plugin_facts
    by metis
qed

section \<open>What a purge leaves\<close>

lemma keeps_remove_dir: "p \<parallel> q \<Longrightarrow> keeps (\<lambda>d. node_at (dk_root d) q = x) (remove_dir_all p)"
  by (auto simp: keeps_def remove_dir_all_def andthen_apply permitted_def cut_at_parallel
      split: option.splits node.splits)

lemma keeps_remove_file: "p \<parallel> q \<Longrightarrow> keeps (\<lambda>d. node_at (dk_root d) q = x) (remove_file p)"
  by (auto simp: keeps_def remove_file_def andthen_apply permitted_def cut_at_parallel
      split: option.splits node.splits)

lemma keeps_ignoring: "keeps P m \<Longrightarrow> keeps P (ignoring m)"
  by (simp add: keeps_def ignoring_def)

lemma keeps_commands: "leaves_disk C \<Longrightarrow> keeps P (C env argv)"
  by (simp add: keeps_def leaves_disk_def)

lemma home_known: "mc_home M = Some home \<Longrightarrow> andthen (home_dir M) f = f home"
  by (simp add: home_dir_def andthen_apply fun_eq_iff)

definition uninstall_paths :: "machine \<Rightarrow> string \<Rightarrow> fpath set" where
  "uninstall_paths M home =
     (let paths = pf_config_paths (detect M) in
      {on_disk (unit_path home), on_disk (cp_plugin_dir paths), butlast (on_disk (cp_bridge_config paths)),
       on_disk (cp_sync_state paths), butlast (on_disk (cp_sync_config paths))})"

text \<open>a purge leaves the messages: the daemon keeps its cache below the directory of state, the uninstaller
  removes the one below the directory of data.\<close>

theorem purge_leaves_cache:
  assumes "role_of_os (mc_os M) = Linux" "mc_home M = Some home" "leaves_disk C"
    and "cache = on_disk (daemon_cache_path state_home M)" "\<forall>p\<in>uninstall_paths M home. p \<parallel> cache"
    and "node_at (dk_root d) cache = Some (Plain db)" "uninstall M C True d = (r, d')"
  shows "node_at (dk_root d') cache = Some (Plain db)"
proof -
  let ?P = "\<lambda>d. node_at (dk_root d) cache = Some (Plain db)"
  let ?paths = "pf_config_paths (detect M)"
  note apart = assms(5) [unfolded uninstall_paths_def Let_def]
  have dirs: "keeps ?P (remove_dir_all p)" if "p \<in> uninstall_paths M home" for p
    using keeps_remove_dir assms(5) that by blast
  have unit: "keeps ?P (uninstall_linux_systemd M C)"
    using apart assms(2)
    by (auto simp: uninstall_linux_systemd_def home_known [OF assms(2)]
        intro!: keeps_intros keeps_ignoring keeps_commands [OF assms(3)] keeps_remove_file)
  have plugin: "keeps ?P (\<lambda>d. if fs_exists d (on_disk (cp_plugin_dir ?paths))
      then remove_dir_all (on_disk (cp_plugin_dir ?paths)) d else (Inr (), d))"
    using keepsD [OF dirs] by (auto simp: keeps_def uninstall_paths_def Let_def)
  have purge: "keeps ?P (purge_data ?paths)"
    by (auto simp: purge_data_def uninstall_paths_def Let_def intro!: keeps_intros keeps_ignoring dirs)
  have "pf_role (detect M) = Linux" using assms(1) by (simp add: detect_def Let_def)
  then have whole: "uninstall M C True =
      andthen (andthen (uninstall_linux_systemd M C) (\<lambda>_ d.
        if fs_exists d (on_disk (cp_plugin_dir ?paths)) then remove_dir_all (on_disk (cp_plugin_dir ?paths)) d
        else (Inr (), d))) (\<lambda>_. purge_data ?paths)"
    by (simp add: uninstall_def Let_def)
  have "keeps ?P (uninstall M C True)"
    unfolding whole by (intro keeps_andthen unit plugin purge)
  from keepsE [OF this assms(6,7)] show ?thesis .
qed

definition demo_cache_disk :: disk where
  "demo_cache_disk = \<lparr> dk_root = Dir [(''h'', Dir [(''.local'', Dir [(''state'', Dir
     [(''omarchy-imessage'', Dir [(''cache.db'', Plain ''messages'')])])])])], dk_denied = (\<lambda>_. None) \<rparr>"

theorem purge_leaves_cache_witness:
  "\<exists>r d'. uninstall demo_machine demo_commands True demo_cache_disk = (r, d')
     \<and> node_at (dk_root d') [''h'', ''.local'', ''state'', ''omarchy-imessage'', ''cache.db''] = Some (Plain ''messages'')"
proof -
  obtain r d' where run: "uninstall demo_machine demo_commands True demo_cache_disk = (r, d')" by fastforce
  have cache: "on_disk (daemon_cache_path (Some ''/h/.local/state'') demo_machine)
      = [''h'', ''.local'', ''state'', ''omarchy-imessage'', ''cache.db'']" by code_simp
  have "uninstall_paths demo_machine ''/h'' = {[''h'', ''.config'', ''systemd'', ''user'', ''imsg-sync.service''], demo_dest,
      [''h'', ''.config'', ''imsg-bridge''], [''h'', ''.local'', ''share'', ''omarchy-imessage''], [''h'', ''.config'', ''imsg-sync'']}"
    by code_simp
  then have apart: "\<forall>p\<in>uninstall_paths demo_machine ''/h''. p \<parallel> [''h'', ''.local'', ''state'', ''omarchy-imessage'', ''cache.db'']"
    by simp
  have "role_of_os (mc_os demo_machine) = Linux" "mc_home demo_machine = Some ''/h''" "leaves_disk demo_commands"
    by (simp_all add: demo_machine_def role_of_os_def leaves_disk_def demo_commands_def)
  from purge_leaves_cache [OF this cache [symmetric] apart _ run] run show ?thesis
    by (simp add: demo_cache_disk_def)
qed

end
