(* ===== verification/Cli.thy ===== *)
theory Cli
  imports Install Setup_Steps Sync_Commands
begin

text \<open>
  The commands of \<^verbatim>\<open>imsg\<close> that put the others together: a step of the setup, \<^verbatim>\<open>cli/src/setup_step.rs\<close>, the
  wizard and the connection, \<^verbatim>\<open>cli/src/setup_cmd.rs\<close>, and the doctor, \<^verbatim>\<open>cli/src/main.rs\<close>.
\<close>

section \<open>A step of the setup\<close>

text \<open>What a step meets: the machine, the libraries, the moment, other programs, the host before and after a
  run of \<^verbatim>\<open>brew\<close>, the clock of the wait, and the fuel of the installer.\<close>

record 'w step_env =
  se_machine :: machine
  se_lib :: config_lib
  se_moment :: moment
  se_run :: "'w runner"
  se_commands :: "'w commands"
  se_hosts :: "host \<times> host"
  se_wait :: "'w wait_env"
  se_fuel :: nat

datatype step_report =
    Detected string string role string "string option" bool string
  | BrewReady string
  | CertsReady string string "instant option" u16 string
  | ServiceReady string
  | EnrollReady string u16 "string option" "instant option" string string

definition run_tailscale :: "'w step_env \<Rightarrow> ('w, string, string option) act" where
  "run_tailscale S w =
     (case se_run S [''tailscale'', ''ip'', ''-4''] w of
        (Inl _, w1) \<Rightarrow> (Inr (tailscale_ip_hint None), w1)
      | (Inr out, w1) \<Rightarrow> (Inr (tailscale_ip_hint (Some out)), w1))"

text \<open>\<^verbatim>\<open>Config::load().ok()\<close>.\<close>

definition load_ok :: "config_lib \<Rightarrow> ('z disk_scheme, string, bridge_config option) act" where
  "load_ok L d = (case load_config L d of (Inl _, d1) \<Rightarrow> (Inr None, d1) | (Inr c, d1) \<Rightarrow> (Inr (Some c), d1))"

definition detect_step :: "'z disk_scheme step_env \<Rightarrow> ('z disk_scheme, string, step_report) act" where
  "detect_step S =
     (let platform = detect (se_machine S); system = pf_os platform @ ''/'' @ pf_arch platform in
      andthen (run_tailscale S) (\<lambda>bind.
      reads (\<lambda>d.
        Detected (pf_os platform) (pf_arch platform) (pf_role platform) (pf_hostname platform) bind
          (fs_exists d (on_disk ''/Applications/Ghostty.app''))
          (case bind of Some ip \<Rightarrow> system @ '' '' @ [CHR 0xB7] @ '' tailscale '' @ ip | None \<Rightarrow> system))))"

definition brew_step :: "'w step_env \<Rightarrow> ('w, string, step_report) act" where
  "brew_step S =
     of_result (map_sum id BrewReady (ensure_steipete_imsg (fst (se_hosts S)) (snd (se_hosts S)) ''imsg''))"

text \<open>The address: the one given, else Tailscale's, else the saved one when it is no wildcard.\<close>

definition certs_bind :: "'z disk_scheme step_env \<Rightarrow> string option \<Rightarrow> ('z disk_scheme, string, string) act" where
  "certs_bind S given =
     andthen (case given of Some b \<Rightarrow> ret (Some b) | None \<Rightarrow> run_tailscale S) (\<lambda>hint.
     andthen (case hint of
         Some b \<Rightarrow> ret (Some b)
       | None \<Rightarrow> andthen (load_ok (se_lib S)) (\<lambda>c. ret
           (opt_filter (\<lambda>b. refuse_wildcard_bind (cl_ipv6 (se_lib S)) b = Inr ()) (map_option bc_bind c)))) (\<lambda>bind.
     case bind of None \<Rightarrow> raise ''no Tailscale or LAN bind; pass --bind <ip>'' | Some b \<Rightarrow> ret b))"

definition certs_step ::
  "'z disk_scheme step_env \<Rightarrow> 'c pki \<Rightarrow> string option \<Rightarrow> bool \<Rightarrow> ('z disk_scheme, string, step_report) act" where
  "certs_step S K given mdns =
     andthen (certs_bind S given) (\<lambda>bind.
     andthen (of_result (refuse_wildcard_bind (cl_ipv6 (se_lib S)) bind)) (\<lambda>_.
     andthen (init (se_lib S) K (se_moment S) bind 18789 mdns) (\<lambda>result.
     andthen (load_ok (se_lib S)) (\<lambda>saved.
     ret (CertsReady bind (ir_pairing_code result) (Option.bind saved bc_pairing_code_expires_at) (ir_enroll_port result)
       (''certs ready, enroll '' @ show_int (uint (ir_enroll_port result))))))))"

definition service_step ::
  "'z disk_scheme step_env \<Rightarrow> 'z disk_scheme \<Rightarrow> ((string + step_report) \<times> 'z disk_scheme) option" where
  "service_step S d =
     map_option (apfst (map_sum id (\<lambda>r. ServiceReady (in_service r))))
       (apply_install (se_fuel S) (se_machine S) (se_commands S) None d)"

definition enroll_bind :: "'z disk_scheme step_env \<Rightarrow> string option \<Rightarrow> ('z disk_scheme, string, string \<times> u16) act" where
  "enroll_bind S given =
     andthen (case given of
         Some b \<Rightarrow> ret b
       | None \<Rightarrow> andthen (load_ok (se_lib S)) (\<lambda>c. ret (case c of None \<Rightarrow> ''127.0.0.1'' | Some c \<Rightarrow> bc_bind c))) (\<lambda>bind.
     andthen (load_ok (se_lib S)) (\<lambda>c.
     ret (bind, case c of None \<Rightarrow> 18790 | Some c \<Rightarrow> bc_enroll_port c)))"

definition enroll_step_of ::
  "'z disk_scheme step_env \<Rightarrow> string option \<Rightarrow> 'z disk_scheme \<Rightarrow> ((string + step_report) \<times> 'z disk_scheme) option" where
  "enroll_step_of S given d =
     (case enroll_bind S given d of
        (Inl e, d1) \<Rightarrow> Some (Inl e, d1)
      | (Inr (bind, port), d1) \<Rightarrow>
          (case wait_enroll (se_wait S) bind port (90 * 1000000000) d1 of
             None \<Rightarrow> None
           | Some (Inl e, d2) \<Rightarrow> Some (Inl e, d2)
           | Some (Inr _, d2) \<Rightarrow> Some (andthen (pair_command (se_lib S) (se_moment S) False) (\<lambda>status.
               ret (EnrollReady bind port (ps_code status) (ps_expires_at status) (ps_enroll_url status)
                 (''enroll listening on '' @ bind @ '':'' @ show_int (uint port)))) d2)))"

definition run_step ::
  "'z disk_scheme step_env \<Rightarrow> 'c pki \<Rightarrow> step_id \<Rightarrow> string option \<Rightarrow> bool \<Rightarrow> 'z disk_scheme \<Rightarrow>
     ((string + step_report) \<times> 'z disk_scheme) option" where
  "run_step S K i given mdns d = (case i of
     Detect \<Rightarrow> Some (detect_step S d)
   | Brew \<Rightarrow> Some (brew_step S d)
   | Certs \<Rightarrow> Some (certs_step S K given mdns d)
   | Service \<Rightarrow> service_step S d
   | Enroll \<Rightarrow> enroll_step_of S given d)"

text \<open>The command parses the name first.\<close>

definition step_command ::
  "'z disk_scheme step_env \<Rightarrow> 'c pki \<Rightarrow> string \<Rightarrow> string option \<Rightarrow> bool \<Rightarrow> 'z disk_scheme \<Rightarrow>
     ((string + step_report) \<times> 'z disk_scheme) option" where
  "step_command S K name given mdns d =
     (case step_from_str name of Inl e \<Rightarrow> Some (Inl e, d) | Inr i \<Rightarrow> run_step S K i given mdns d)"

section \<open>The connection to a server\<close>

text \<open>The nudge of a running daemon comes after the commit, and what it came to is not looked at.\<close>

definition setup_connect :: "'u url_lib \<Rightarrow> string \<Rightarrow> string \<Rightarrow> public_view store_op" where
  "setup_connect lib url password =
     andthen (of_result (settings_draft_from_input lib url (Some password))) (commit lib)"

section \<open>The wizard\<close>

datatype launch = Program fpath | Checkout fpath | NoTui

definition ancestors :: "fpath \<Rightarrow> fpath list" where
  "ancestors p = rev (prefixes p)"

definition tui_checkout :: "'z disk_scheme \<Rightarrow> fpath \<Rightarrow> bool" where
  "tui_checkout d dir \<longleftrightarrow> fs_exists d (dir @ [''tui'', ''package.json''])"

definition find_tui :: "fpath option \<Rightarrow> fpath option \<Rightarrow> fpath option \<Rightarrow> 'z disk_scheme \<Rightarrow> launch" where
  "find_tui exe imsg_tui cwd d =
     (case opt_filter (fs_is_file d) (map_option (\<lambda>e. butlast e @ [''imsg-tui'']) exe) of
        Some p \<Rightarrow> Program p
      | None \<Rightarrow>
          (case opt_filter (fs_is_file d) imsg_tui of
             Some p \<Rightarrow> Program p
           | None \<Rightarrow>
               (case or_else (Option.bind exe (\<lambda>e. find (tui_checkout d) (ancestors e))) (opt_filter (tui_checkout d) cwd) of
                  Some dir \<Rightarrow> Checkout (dir @ [''tui''])
                | None \<Rightarrow> NoTui)))"

text \<open>\<open>run\<close> starts a program in a directory, and says whether it succeeded.\<close>

definition launch_tui ::
  "(fpath option \<Rightarrow> argv \<Rightarrow> ('w, string, bool) act) \<Rightarrow> (fpath \<Rightarrow> string) \<Rightarrow> launch \<Rightarrow> ('w, string, unit) act" where
  "launch_tui run display l = (case l of
     Program p \<Rightarrow>
       andthen (with_context (''launch '' @ display p) (run None [display p])) (\<lambda>ok.
       if ok then ret () else raise ''setup TUI exited with error'')
   | Checkout dir \<Rightarrow> (\<lambda>w.
       case run (Some dir) [''npm'', ''run'', ''start'', ''--silent''] w of
         (Inl e, w1) \<Rightarrow> (Inl (''failed to launch TUI (is Node.js installed?): '' @ e), w1)
       | (Inr ok, w1) \<Rightarrow> if ok then (Inr (), w1) else (Inl ''setup TUI exited with error'', w1))
   | NoTui \<Rightarrow> raise ''Interactive setup needs imsg-tui next to this binary, IMSG_TUI, or a tui/ checkout.'')"

section \<open>The doctor of everything\<close>

record scoped_check =
  sk_scope :: string
  sk_check :: doctor_check

definition in_scope :: "string \<Rightarrow> doctor_report \<Rightarrow> scoped_check list" where
  "in_scope scope r = map (\<lambda>c. \<lparr> sk_scope = scope, sk_check = c \<rparr>) (dr_checks r)"

definition doctor_all ::
  "role \<Rightarrow> doctor_report \<Rightarrow> doctor_report \<Rightarrow> string + doctor_report \<Rightarrow> string + (bool \<times> scoped_check list)" where
  "doctor_all role bridge sync setup =
     (if role = Mac then Inr (dr_ok bridge, in_scope ''bridge'' bridge)
      else (case setup of
          Inl e \<Rightarrow> Inl e
        | Inr s \<Rightarrow> Inr (dr_ok sync \<and> dr_ok s, in_scope ''sync'' sync @ in_scope ''setup'' s)))"

text \<open>With \<^verbatim>\<open>--json\<close> the command succeeds whatever was found.\<close>

definition doctor_command :: "bool \<Rightarrow> string + (bool \<times> scoped_check list) \<Rightarrow> string + unit" where
  "doctor_command json found = (case found of
     Inl e \<Rightarrow> Inl e
   | Inr (ok, _) \<Rightarrow> if json \<or> ok then Inr () else Inl ''doctor found issues'')"

end
