(* ===== verification/Cli_Contract.thy ===== *)
theory Cli_Contract
  imports Cli Install_Contract Setup_Contract
begin

text \<open>
  What the composed commands promise: the address the certificates step saves, and what the doctor of
  everything says.
\<close>

section \<open>The certificates step\<close>

lemma load_ok_run: "load_ok L d = (Inr (case fst (load_config L d) of Inl _ \<Rightarrow> None | Inr c \<Rightarrow> Some c), d)"
  using load_config_same [of L d] by (auto simp: load_ok_def split: prod.splits sum.splits)

lemma certs_step_run:
  "certs_step S K (Some bind) mdns d =
     (case refuse_wildcard_bind (cl_ipv6 (se_lib S)) bind of
        Inl e \<Rightarrow> (Inl e, d)
      | Inr _ \<Rightarrow> (case init (se_lib S) K (se_moment S) bind 18789 mdns d of
          (Inl e, d1) \<Rightarrow> (Inl e, d1)
        | (Inr r, d1) \<Rightarrow> (Inr (CertsReady bind (ir_pairing_code r)
            (Option.bind (case fst (load_config (se_lib S) d1) of Inl _ \<Rightarrow> None | Inr c \<Rightarrow> Some c) bc_pairing_code_expires_at)
            (ir_enroll_port r) (''certs ready, enroll '' @ show_int (uint (ir_enroll_port r)))), d1)))"
  by (auto simp: certs_step_def certs_bind_def andthen_apply ret_def of_result_def load_ok_run split: sum.splits prod.splits)

lemma wildcard_refused:
  "(\<exists>u. refuse_wildcard_bind v6 bind = Inr u) \<longleftrightarrow> (\<exists>ip. parse_ip v6 bind = Some ip \<and> \<not> is_unspecified ip)"
  by (auto simp: refuse_wildcard_bind_def split: option.splits)

text \<open>C27: the certificates step with an address refuses it, before it touches the disk, just when it is no address or
  the unspecified one; for every other address it succeeds whenever \<^verbatim>\<open>init\<close> does, the settings then on disk are the
  ones with that address and the ports 18789 and 18790, and the pairing code it answers is the saved one.  The check of
  the address that \<^verbatim>\<open>serve\<close> makes next passes just when it is a loopback, Tailscale or private one, so a public
  address passes the setup and is refused at the start.  (That an IPv6 loopback passes this check too does
  not mean that a bridge can listen there, see \<open>Startup\<close>.)\<close>

theorem certs_step_and_serve:
  fixes S :: "'z disk_scheme step_env" and K :: "'c pki"
  assumes "config = init_config (mo_now (se_moment S)) (mo_uuid (se_moment S)) bind 18789 mdns (settings_before (se_lib S) d)"
    and "mo_uuid (se_moment S) \<noteq> []" "cl_parse (se_lib S) (cl_render (se_lib S) config) = Some config"
    and "\<forall>p\<in>insert (config_path (se_lib S)) (cert_files (data_path config)). \<forall>q. node_at (dk_root d) p \<noteq> Some (Link q)"
    and "\<forall>f. dk_denied d (ReadFile f) = None"
  defines "step \<equiv> certs_step S K (Some bind) mdns d"
    and "address \<equiv> parse_ip (cl_ipv6 (se_lib S)) bind"
  shows "((address = None \<or> map_option is_unspecified address = Some True) \<longrightarrow> (\<exists>e. step = (Inl e, d)))
     \<and> (\<forall>ip. address = Some ip \<longrightarrow> \<not> is_unspecified ip \<longrightarrow>
          ((\<exists>report. fst step = Inr report) \<longleftrightarrow> (\<exists>r. fst (init (se_lib S) K (se_moment S) bind 18789 mdns d) = Inr r))
          \<and> (\<forall>report d'. step = (Inr report, d') \<longrightarrow>
               (\<exists>saved code. fst (load_config (se_lib S) d') = Inr saved
                  \<and> bc_bind saved = bind \<and> bc_port saved = 18789 \<and> bc_enroll_port saved = 18790
                  \<and> bc_pairing_code saved = Some code \<and> pairing_code_valid (mo_now (se_moment S)) saved
                  \<and> report = CertsReady bind code (bc_pairing_code_expires_at saved) 18790 ''certs ready, enroll 18790''
                  \<and> (fst (serve (se_lib S) d') = Inr saved \<longleftrightarrow> is_loopback ip \<or> is_tailscale_or_private ip))))"
proof (intro conjI allI impI)
  assume "address = None \<or> map_option is_unspecified address = Some True"
  then show "\<exists>e. step = (Inl e, d)"
    using wildcard_refused [of "cl_ipv6 (se_lib S)" bind]
    by (auto simp: assms(6,7) certs_step_run split: sum.splits)
next
  fix ip assume ip: "address = Some ip" "\<not> is_unspecified ip"
  then obtain u where u: "refuse_wildcard_bind (cl_ipv6 (se_lib S)) bind = Inr u"
    using wildcard_refused [of "cl_ipv6 (se_lib S)" bind] by (auto simp: assms(7))
  show "(\<exists>report. fst step = Inr report) \<longleftrightarrow> (\<exists>r. fst (init (se_lib S) K (se_moment S) bind 18789 mdns d) = Inr r)"
    using u by (auto simp: assms(6) certs_step_run split: sum.splits prod.splits)
  fix report d' assume "step = (Inr report, d')"
  then obtain r where run: "init (se_lib S) K (se_moment S) bind 18789 mdns d = (Inr r, d')"
      and report: "report = CertsReady bind (ir_pairing_code r)
        (Option.bind (case fst (load_config (se_lib S) d') of Inl _ \<Rightarrow> None | Inr c \<Rightarrow> Some c) bc_pairing_code_expires_at)
        (ir_enroll_port r) (''certs ready, enroll '' @ show_int (uint (ir_enroll_port r)))"
    using u by (auto simp: assms(6) certs_step_run split: sum.splits prod.splits)
  note s = init_saved [OF run assms(1) [unfolded settings_before_def] assms(2-5)]
  have port: "ir_enroll_port r = 18790" "bc_enroll_port config = 18790"
    using init_result [OF run] assms(1) by (simp_all add: init_config_fields next_port_def)
  have "serve (se_lib S) d' = (case validate_bind (cl_ipv6 (se_lib S)) config of Inl e \<Rightarrow> Inl (Inl e) | Inr _ \<Rightarrow> Inr config, d')"
    using s(1) load_config_same [of "se_lib S" d'] by (auto simp: serve_def split: prod.splits sum.splits)
  then have "fst (serve (se_lib S) d') = Inr config \<longleftrightarrow> is_loopback ip \<or> is_tailscale_or_private ip"
    using ip s(4) assms(7) by (simp add: validate_bind_def)
  moreover have "''certs ready, enroll '' @ show_int (uint (18790 :: u16)) = ''certs ready, enroll 18790''" by code_simp
  ultimately show "\<exists>saved code. fst (load_config (se_lib S) d') = Inr saved
      \<and> bc_bind saved = bind \<and> bc_port saved = 18789 \<and> bc_enroll_port saved = 18790
      \<and> bc_pairing_code saved = Some code \<and> pairing_code_valid (mo_now (se_moment S)) saved
      \<and> report = CertsReady bind code (bc_pairing_code_expires_at saved) 18790 ''certs ready, enroll 18790''
      \<and> (fst (serve (se_lib S) d') = Inr saved \<longleftrightarrow> is_loopback ip \<or> is_tailscale_or_private ip)"
    using s(1-5) report port by (intro exI [of _ config] exI [of _ "ir_pairing_code r"]) simp
qed

text \<open>A public address on a fresh machine.\<close>

definition demo_public :: bridge_config where
  "demo_public = init_config 5 (mo_uuid demo_moment) ''8.8.8.8'' 18789 False (default_config (Some ''/home''))"

definition demo_step :: "disk step_env" where
  "demo_step = \<lparr> se_machine = demo_machine, se_lib = demo_lib\<lparr>cl_parse := (\<lambda>_. Some demo_public)\<rparr>, se_moment = demo_moment,
     se_run = (\<lambda>_ w. (Inl ''not found'', w)), se_commands = demo_commands,
     se_hosts = (\<lparr> ho_is_file = (\<lambda>_. False), ho_exists = (\<lambda>_. False), ho_path = None \<rparr>,
       \<lparr> ho_is_file = (\<lambda>_. False), ho_exists = (\<lambda>_. False), ho_path = None \<rparr>),
     se_wait = \<lparr> we_resolve = (\<lambda>_ w. (Inl ''no'', w)), we_lsof = (\<lambda>_ _ w. (Inr False, w)),
       we_connect = (\<lambda>_ w. (Inl ''no'', w)), we_now = (\<lambda>_. 0), we_sleep = (\<lambda>_ w. w) \<rparr>,
     se_fuel = 5 \<rparr>"

theorem certs_step_and_serve_witness:
  "\<exists>report d'. certs_step demo_step demo_pki (Some ''8.8.8.8'') False demo_disk = (Inr report, d')
     \<and> (\<exists>saved. fst (load_config (se_lib demo_step) d') = Inr saved \<and> bc_bind saved = ''8.8.8.8''
          \<and> fst (serve (se_lib demo_step) d') \<noteq> Inr saved)"
proof -
  let ?run = "certs_step demo_step demo_pki (Some ''8.8.8.8'') False demo_disk" and ?L = "se_lib demo_step"
  obtain x d' where run: "?run = (x, d')" by fastforce
  have "case fst ?run of Inr _ \<Rightarrow> True | Inl _ \<Rightarrow> False" by code_simp
  then obtain report where ran: "?run = (Inr report, d')" using run by (cases x) auto
  have "fst (load_config ?L demo_disk) = Inr (default_config (Some ''/home''))" by code_simp
  then have config: "demo_public = init_config (mo_now (se_moment demo_step)) (mo_uuid (se_moment demo_step)) ''8.8.8.8'' 18789 False
      (settings_before ?L demo_disk)"
    by (simp add: demo_public_def demo_step_def demo_moment_def settings_before_def)
  have links: "\<forall>p\<in>insert (config_path ?L) (cert_files (data_path demo_public)). \<forall>q. node_at (dk_root demo_disk) p \<noteq> Some (Link q)"
  proof -
    have "config_path ?L = [''home'', ''imsg-bridge'', ''config.toml'']" "data_path demo_public = [''home'', ''imsg-bridge'']"
      by code_simp+
    then show ?thesis by (simp add: demo_disk_def cert_files_def)
  qed
  have "map_option is_unspecified (parse_ip (cl_ipv6 ?L) ''8.8.8.8'') = Some False"
    "map_option is_loopback (parse_ip (cl_ipv6 ?L) ''8.8.8.8'') = Some False"
    "map_option is_tailscale_or_private (parse_ip (cl_ipv6 ?L) ''8.8.8.8'') = Some False" by code_simp+
  then obtain ip where ip: "parse_ip (cl_ipv6 ?L) ''8.8.8.8'' = Some ip" "\<not> is_unspecified ip" "\<not> is_loopback ip"
      "\<not> is_tailscale_or_private ip" by auto
  have base: "mo_uuid (se_moment demo_step) \<noteq> []" "cl_parse ?L (cl_render ?L demo_public) = Some demo_public"
      "\<forall>f. dk_denied demo_disk (ReadFile f) = None"
    by (simp_all add: demo_step_def demo_moment_def demo_lib_def demo_disk_def)
  show ?thesis
    using certs_step_and_serve [OF config base(1,2) links base(3), of demo_pki] ran ip by fastforce
qed

section \<open>The doctor\<close>

lemma bridge_doctor_sound: "report_sound (bridge_doctor L H now d)"
  by (simp add: bridge_doctor_def Let_def push_check_sound split: option.splits)

lemma setup_doctor_sound: "setup_doctor parse U d = Inr r \<Longrightarrow> report_sound r"
  by (auto simp: setup_doctor_def Let_def split: if_splits sum.splits option.splits toml.splits)

lemma sync_doctor_sound: "report_sound (sync_doctor lib s)"
  by (auto simp: sync_doctor_def check_url_def check_password_def Let_def split: sum.splits option.splits bool.splits)

lemma in_scope_ok: "(\<forall>c\<in>set (in_scope scope r). dc_ok (sk_check c)) \<longleftrightarrow> list_all dc_ok (dr_checks r)"
  by (simp add: in_scope_def list_all_iff)

text \<open>the doctor of everything is sound: it says that all is well just when every check it lists passed, which are
  those of the bridge on a Mac and those of the daemon and of the setup elsewhere, and without \<^verbatim>\<open>--json\<close> it
  fails just when it says otherwise; with it, it succeeds whatever it found.\<close>

theorem doctor_all_is_sound:
  assumes "doctor_all role (bridge_doctor L H now d) (sync_doctor lib s) (setup_doctor parse U d2) = Inr (ok, checks)"
  shows "(ok \<longleftrightarrow> (\<forall>c\<in>set checks. dc_ok (sk_check c)))
     \<and> (doctor_command False (Inr (ok, checks)) = Inr () \<longleftrightarrow> ok) \<and> doctor_command True (Inr (ok, checks)) = Inr ()
     \<and> {sk_scope c |c. c \<in> set checks} \<subseteq> (if role = Mac then {''bridge''} else {''sync'', ''setup''})"
proof (cases "role = Mac")
  case True
  then have r: "ok = dr_ok (bridge_doctor L H now d)" "checks = in_scope ''bridge'' (bridge_doctor L H now d)"
    using assms by (simp_all add: doctor_all_def)
  have "ok \<longleftrightarrow> (\<forall>c\<in>set checks. dc_ok (sk_check c))"
    using r bridge_doctor_sound [of L H now d] by (simp add: report_sound_def in_scope_ok)
  moreover have "{sk_scope c |c. c \<in> set checks} \<subseteq> {''bridge''}" using r(2) by (auto simp: in_scope_def)
  ultimately show ?thesis using True by (simp add: doctor_command_def)
next
  case False
  then obtain r where r: "setup_doctor parse U d2 = Inr r" "ok = (dr_ok (sync_doctor lib s) \<and> dr_ok r)"
      "checks = in_scope ''sync'' (sync_doctor lib s) @ in_scope ''setup'' r"
    using assms by (auto simp: doctor_all_def split: sum.splits)
  have "ok \<longleftrightarrow> (\<forall>c\<in>set checks. dc_ok (sk_check c))"
    using r(2,3) sync_doctor_sound [of lib s] setup_doctor_sound [OF r(1)]
    by (simp add: report_sound_def ball_Un in_scope_ok)
  moreover have "{sk_scope c |c. c \<in> set checks} \<subseteq> {''sync'', ''setup''}" using r(3) by (auto simp: in_scope_def)
  ultimately show ?thesis using False by (simp add: doctor_command_def)
qed

theorem doctor_all_is_sound_witness:
  "\<exists>ok checks. doctor_all Linux (bridge_doctor demo_lib (fst (se_hosts demo_step)) 5 demo_disk)
       (sync_doctor Store_Contract.demo_lib (demo_store (File (demo_file None)) (Entry ''hunter2'')))
       (setup_doctor (\<lambda>_. Inl ''not TOML'') demo_user demo_home) = Inr (ok, checks)
     \<and> (ok \<longleftrightarrow> (\<forall>c\<in>set checks. dc_ok (sk_check c))) \<and> \<not> ok"
proof -
  let ?b = "bridge_doctor demo_lib (fst (se_hosts demo_step)) 5 demo_disk"
    and ?s = "sync_doctor Store_Contract.demo_lib (demo_store (File (demo_file None)) (Entry ''hunter2''))"
    and ?u = "setup_doctor (\<lambda>_. Inl ''not TOML'') demo_user demo_home"
  have "case doctor_all Linux ?b ?s ?u of Inr (ok, _) \<Rightarrow> \<not> ok | Inl _ \<Rightarrow> False" by code_simp
  then obtain ok checks where run: "doctor_all Linux ?b ?s ?u = Inr (ok, checks)" "\<not> ok"
    by (auto split: sum.splits prod.splits)
  show ?thesis using doctor_all_is_sound [OF run(1)] run by blast
qed

end
