(* ===== verification/Discover.thy ===== *)
theory Discover
  imports Bridge Polling
begin

text \<open>
  Finding a bridge on the local network: the record it advertises, \<^verbatim>\<open>bridge/src/mdns_advertise.rs\<close>, and the
  browsing of the setup, \<^verbatim>\<open>setup/src/discover.rs\<close>.  The mDNS daemon between them is a parameter.
\<close>

section \<open>The record of a bridge\<close>

definition SERVICE_TYPE :: string where "SERVICE_TYPE = ''_imsg-bridge._tcp.local.''"

record service_info =
  si_service_type :: string
  si_instance :: string
  si_host :: string
  si_address :: string
  si_port :: u16
  si_properties :: "(string \<times> string) list"

definition advertised :: "string option \<Rightarrow> bridge_config \<Rightarrow> service_info" where
  "advertised hostname config =
     (let host = unwrap_or hostname ''imsg-bridge'' in
      \<lparr> si_service_type = SERVICE_TYPE,
        si_instance = host @ ''.'',
        si_host = (if CHR '':'' \<in> set (bc_bind config) then host @ ''.local.'' else host @ ''.local.''),
        si_address = bc_bind config,
        si_port = bc_port config,
        si_properties =
          [(''version'', ''1''), (''proto'', ''imsg-bridge/v1''),
           (''bridge_port'', show_int (uint (bc_port config))),
           (''enroll_port'', show_int (uint (bc_enroll_port config)))] \<rparr>)"

text \<open>What is registered, if the settings ask for it.\<close>

definition spawn_if_enabled :: "string option \<Rightarrow> bridge_config \<Rightarrow> service_info option" where
  "spawn_if_enabled hostname config =
     (if \<not> bc_mdns_advertise config then None else Some (advertised hostname config))"

section \<open>Browsing\<close>

record resolved_service =
  rs_fullname :: string
  rs_addresses :: "string list"
  rs_port :: u16
  rs_properties :: "(string \<times> string) list"

datatype service_event =
    SearchStarted
  | ServiceFound
  | ServiceResolved resolved_service
  | OtherEvent

record discovered_bridge =
  db_name :: string
  db_address :: string
  db_port :: u16
  db_bridge_port :: string
  db_enroll_port :: string

definition discovered :: "resolved_service \<Rightarrow> discovered_bridge" where
  "discovered info =
     \<lparr> db_name = rs_fullname info,
       db_address = (case rs_addresses info of [] \<Rightarrow> ''?'' | a # _ \<Rightarrow> a),
       db_port = rs_port info,
       db_bridge_port = unwrap_or (map_of (rs_properties info) ''bridge_port'') ''?'',
       db_enroll_port = unwrap_or (map_of (rs_properties info) ''enroll_port'') ''?'' \<rparr>"

definition browse_event :: "service_event option \<Rightarrow> discovered_bridge list \<Rightarrow> discovered_bridge list" where
  "browse_event e bridges =
     (case e of Some (ServiceResolved info) \<Rightarrow> bridges @ [discovered info] | _ \<Rightarrow> bridges)"

text \<open>The clock, and a receive that waits 500 ms at most; the loop may not end.\<close>

record 'w browse_env =
  be_now :: "'w \<Rightarrow> instant"
  be_recv :: "'w \<Rightarrow> service_event option \<times> 'w"

partial_function (option) browse_loop ::
  "'w browse_env \<Rightarrow> instant \<Rightarrow> discovered_bridge list \<Rightarrow> 'w \<Rightarrow> (discovered_bridge list \<times> 'w) option" where
  "browse_loop E deadline bridges w =
     (if be_now E w < deadline
      then (case be_recv E w of (e, w1) \<Rightarrow> browse_loop E deadline (browse_event e bridges) w1)
      else Some (bridges, w))"

definition browse :: "'w browse_env \<Rightarrow> u64 \<Rightarrow> 'w \<Rightarrow> (discovered_bridge list \<times> 'w) option" where
  "browse E timeout_secs w = browse_loop E (be_now E w + uint timeout_secs * 1000000000) [] w"

section \<open>From the bridge to the browser\<close>

text \<open>A network that hands the record over as it was registered.\<close>

definition carried :: "service_info \<Rightarrow> resolved_service" where
  "carried i = \<lparr> rs_fullname = si_instance i @ si_service_type i, rs_addresses = [si_address i], rs_port = si_port i,
     rs_properties = si_properties i \<rparr>"

lemma discovered_ports:
  "spawn_if_enabled h config = Some i \<Longrightarrow>
     db_address (discovered (carried i)) = bc_bind config \<and> db_port (discovered (carried i)) = bc_port config
     \<and> db_bridge_port (discovered (carried i)) = show_int (uint (bc_port config))
     \<and> db_enroll_port (discovered (carried i)) = show_int (uint (bc_enroll_port config))"
  by (auto simp: spawn_if_enabled_def advertised_def discovered_def carried_def Let_def unwrap_or_def split: if_splits)

text \<open>The loop ends when time goes on, with one entry for every event of a resolved service before that.\<close>

definition resolved_in :: "service_event option list \<Rightarrow> discovered_bridge list" where
  "resolved_in es = fold browse_event es []"

lemma fold_browse: "fold browse_event es bs = bs @ resolved_in es"
proof (induction es arbitrary: bs)
  case (Cons e es)
  have b: "browse_event e bs = bs @ browse_event e []" for bs
    by (auto simp: browse_event_def split: option.splits service_event.splits)
  show ?case using Cons.IH [of "browse_event e bs"] Cons.IH [of "browse_event e []"] b [of bs]
    by (simp add: resolved_in_def)
qed (simp add: resolved_in_def)

definition browse_round ::
  "'w browse_env \<Rightarrow> discovered_bridge list \<times> 'w \<Rightarrow> (discovered_bridge list \<times> 'w) + (discovered_bridge list \<times> 'w)" where
  "browse_round E s = (case be_recv E (snd s) of (e, w1) \<Rightarrow> Inr (browse_event e (fst s), w1))"

interpretation browsing: deadline_loop "\<lambda>s. be_now E (snd s)" "browse_round E" "\<lambda>s. s"
  "\<lambda>deadline s. browse_loop E deadline (fst s) (snd s)" for E
proof (unfold_locales, goal_cases)
  case (1 deadline s)
  show ?case by (subst browse_loop.simps) (auto simp: browse_round_def split: prod.splits)
qed

lemma browse_loop_ends:
  assumes "\<And>w. be_now E w + 1 \<le> be_now E (snd (be_recv E w))"
  shows "\<exists>es w'. browse_loop E deadline bs w = Some (bs @ resolved_in es, w') \<and> deadline \<le> be_now E w'"
proof (rule browsing.ends [where E = E and deadline = deadline and s = "(bs, w)"
      and I = "\<lambda>s. \<exists>es. fst s = bs @ resolved_in es"])
  show "be_now E (snd s) < be_now E (snd s')" if "browse_round E s = Inr s'" for s s'
    using that assms [of "snd s"] by (auto simp: browse_round_def split: prod.splits)
  show "\<exists>es. fst (bs, w) = bs @ resolved_in es" by (auto simp: resolved_in_def intro: exI [of _ "[]"])
  show "\<exists>es. fst s' = bs @ resolved_in es"
    if i: "\<exists>es. fst s = bs @ resolved_in es" and r: "browse_round E s = Inr s'" for s s'
  proof -
    from i obtain es where es: "fst s = bs @ resolved_in es" by blast
    obtain e w1 where "be_recv E (snd s) = (e, w1)" by fastforce
    then have "fst s' = browse_event e (bs @ resolved_in es)" using r es by (auto simp: browse_round_def)
    also have "\<dots> = fold browse_event (es @ [e]) bs" using fold_browse [of es bs] by simp
    also have "\<dots> = bs @ resolved_in (es @ [e])" by (rule fold_browse)
    finally show ?thesis by blast
  qed
next
  fix r s'
  assume "browse_round E s' = Inl r"
  then show ?thesis by (simp add: browse_round_def split: prod.splits)
next
  fix s'
  assume "browse_loop E deadline (fst (bs, w)) (snd (bs, w)) = Some s'" "\<exists>es. fst s' = bs @ resolved_in es"
    "deadline \<le> be_now E (snd s')"
  then show ?thesis by (metis fst_conv prod.collapse snd_conv)
qed

end
