(* ===== verification/Startup.thy ===== *)
theory Startup
  imports Bridge_Server Bridge_Commands Bridge_Contract Commands_Contract Discover Setup_Push
begin

text \<open>
  The start of the servers: the bridge up to its listeners (\<^verbatim>\<open>run\<close> in \<^verbatim>\<open>bridge/src/server.rs\<close> and
  \<^verbatim>\<open>run_enroll_server\<close> in \<^verbatim>\<open>bridge/src/pairing.rs\<close>), the socket of the daemon
  (\<^verbatim>\<open>serve\<close> in \<^verbatim>\<open>sync/src/socket_server.rs\<close>) and the listener of the webhook (\<^verbatim>\<open>sync/src/webhook.rs\<close>).
\<close>

section \<open>Socket addresses\<close>

definition parse_port :: "string \<Rightarrow> u16 option" where
  "parse_port s = (case parse_digits s of
     None \<Rightarrow> None | Some n \<Rightarrow> if n < 65536 then Some (of_int n) else None)"

text \<open>\<^verbatim>\<open>str::parse::<SocketAddr>\<close>: an IPv6 address stands in brackets; its scope is not modelled.\<close>

definition parse_socket_addr :: "(string \<Rightarrow> u16 list option) \<Rightarrow> string \<Rightarrow> (ip_addr \<times> u16) option" where
  "parse_socket_addr parse_v6 s =
     (let parts = split_on CHR '':'' s; port = last parts; host = take (length s - length port - 1) s in
      if length parts < 2 then None
      else (case parse_port port of
          None \<Rightarrow> None
        | Some n \<Rightarrow>
            (case parse_ipv4 host of
               Some ip \<Rightarrow> Some (ip, n)
             | None \<Rightarrow>
                 if 2 \<le> length host \<and> hd host = CHR ''['' \<and> last host = CHR '']''
                 then map_option (\<lambda>gs. (V6 gs, n)) (parse_v6 (butlast (tl host))) else None)))"

definition listen_addr :: "(string \<Rightarrow> u16 list option) \<Rightarrow> string \<Rightarrow> u16 \<Rightarrow> string + (ip_addr \<times> u16)" where
  "listen_addr parse_v6 bind port =
     (case parse_socket_addr parse_v6 (bind @ '':'' @ show_int (uint port)) of
        None \<Rightarrow> Inl ''invalid socket address syntax'' | Some a \<Rightarrow> Inr a)"

section \<open>The bridge\<close>

record 'c bridge_start =
  bs_addr :: "ip_addr \<times> u16"
  bs_tls :: "'c tls_material"
  bs_enroll_tls :: "'c server_config"
  bs_advertised :: "service_info option"
  bs_enroll_addr :: "string + (ip_addr \<times> u16)"

text \<open>Up to the start of the helper: the address and the certificates.  A failure of the enrolment server is
  only logged.\<close>

definition run_bridge ::
  "(string \<Rightarrow> u16 list option) \<Rightarrow> 'c pki \<Rightarrow> string option \<Rightarrow> bridge_config \<Rightarrow>
     ('z disk_scheme, bind_error + string, 'c bridge_start) act" where
  "run_bridge parse_v6 K hostname config d =
     (case validate_bind parse_v6 config of
        Inl e \<Rightarrow> (Inl (Inl e), d)
      | Inr _ \<Rightarrow>
          (case andthen (of_result (listen_addr parse_v6 (bc_bind config) (bc_port config))) (\<lambda>addr.
                andthen (load_server_config K (data_path config)) (\<lambda>tls.
                andthen (load_enroll_tls_config K (data_path config)) (\<lambda>enroll_tls.
                ret \<lparr> bs_addr = addr, bs_tls = tls, bs_enroll_tls = enroll_tls,
                      bs_advertised = spawn_if_enabled hostname config,
                      bs_enroll_addr = listen_addr parse_v6 (bc_bind config) (bc_enroll_port config) \<rparr>))) d of
             (Inl e, d1) \<Rightarrow> (Inl (Inr e), d1)
           | (Inr st, d1) \<Rightarrow> (Inr st, d1)))"

text \<open>The state the handlers share, from the first answers of the helper.\<close>

definition db_generation_of :: "json option \<Rightarrow> string" where
  "db_generation_of status =
     unwrap_or (Option.bind (Option.bind status (\<lambda>v. json_get v ''database''))
       (\<lambda>v. str_member v ''path'')) ''unknown''"

definition start_state :: "'w auth_env \<Rightarrow> bridge_config \<Rightarrow> json option \<Rightarrow> 'w \<Rightarrow> 'w app_state option" where
  "start_state A config status w =
     map_option (\<lambda>(contacts, w1).
       \<lparr> as_config = config, as_db_generation = db_generation_of status, as_events = [], as_contacts = contacts,
         as_gate = False, as_world = w1 \<rparr>) (initial_contacts_state A config w)"

section \<open>The daemon's socket\<close>

text \<open>A bound socket is a file; binding a path that is taken fails.\<close>

definition bind_socket :: "fpath \<Rightarrow> ('z disk_scheme, string, unit) act" where
  "bind_socket p =
     andthen (permitted (WriteFile p)) (\<lambda>_ d.
       if node_at (dk_root d) p \<noteq> None then (Inl ''Address already in use (os error 98)'', d)
       else if \<not> dir_at (dk_root d) (butlast p) then (Inl ENOENT, d)
       else (Inr (), d\<lparr>dk_root := put_at p (Plain []) (dk_root d)\<rparr>))"

definition serve_socket :: "fpath \<Rightarrow> ('z disk_scheme, string, unit) act" where
  "serve_socket p =
     andthen (create_dir_all (butlast p)) (\<lambda>_.
     andthen (ignoring (remove_file p)) (\<lambda>_.
     andthen (with_context ''bind unix socket'' (bind_socket p)) (\<lambda>_.
     set_mode p)))"

section \<open>The listener of the webhook\<close>

text \<open>\<open>listen\<close> gives the address that was bound, and \<open>ip_text\<close> the text of an address.\<close>

definition bind_local ::
  "(ip_addr \<times> u16 \<Rightarrow> string + (string + (ip_addr \<times> u16))) \<Rightarrow> (ip_addr \<Rightarrow> string) \<Rightarrow> u16 \<Rightarrow> string + (ip_addr \<times> u16)" where
  "bind_local listen ip_text port =
     (case listen (V4 127 0 0 1, port) of
        Inl _ \<Rightarrow> Inl ''bind webhook''
      | Inr (Inl _) \<Rightarrow> Inl ''webhook local addr''
      | Inr (Inr local) \<Rightarrow>
          if \<not> is_loopback (fst local) then Inl (''webhook refused non-loopback bind '' @ ip_text (fst local))
          else Inr local)"

section \<open>What a start needs\<close>

lemma split_on_single: "sep \<notin> set s \<Longrightarrow> split_on sep s = [s]"
  by (induction s) auto

lemma parse_show_port: "parse_port (show_int (uint (n :: u16))) = Some n"
  and port_no_colon: "CHR '':'' \<notin> set (show_int (uint (n :: u16)))"
proof -
  have n: "0 \<le> uint n" "uint n < 65536" using uint_lt2p [of n] by simp_all
  then show "parse_port (show_int (uint n)) = Some n" by (simp add: parse_port_def show_int_def)
  have "\<forall>c\<in>set (show_digits (uint n)). is_ascii_digit c"
    using show_digits_digits [OF n(1)] by (simp add: list_all_iff)
  moreover have "\<not> is_ascii_digit CHR '':''" by code_simp
  ultimately show "CHR '':'' \<notin> set (show_int (uint n))" using n by (auto simp: show_int_def)
qed

lemma listen_addr_run:
  "listen_addr parse_v6 b port =
     (case parse_ipv4 b of
        Some ip \<Rightarrow> Inr (ip, port)
      | None \<Rightarrow>
          if 2 \<le> length b \<and> hd b = CHR ''['' \<and> last b = CHR '']''
          then (case parse_v6 (butlast (tl b)) of None \<Rightarrow> Inl ''invalid socket address syntax'' | Some gs \<Rightarrow> Inr (V6 gs, port))
          else Inl ''invalid socket address syntax'')"
proof -
  have parts: "split_on CHR '':'' (b @ CHR '':'' # show_int (uint port)) = split_on CHR '':'' b @ [show_int (uint port)]"
    using split_on_append [of "CHR '':''" b] split_on_single [OF port_no_colon [of port]] by simp
  have "split_on CHR '':'' b \<noteq> []" by (induction b) (auto split: list.splits)
  then have "\<not> length (split_on CHR '':'' b @ [show_int (uint port)]) < 2" by (cases "split_on CHR '':'' b") simp_all
  then show ?thesis
    using parts by (auto simp: listen_addr_def parse_socket_addr_def Let_def parse_show_port split: option.splits)
qed

text \<open>a bridge that starts listens on the IPv4 address of its settings, which is a loopback, Tailscale or private
  one, with the certificates of its directory, and advertises itself only when asked to: the IPv6 loopback
  address passes the check of the settings, but no bridge starts with it.\<close>

theorem bridge_starts_on_local_ipv4:
  assumes "run_bridge parse_v6 K hostname config d = (Inr st, d')"
    and "\<forall>s gs. parse_v6 s = Some gs \<longrightarrow> hd s \<noteq> CHR ''[''"
  shows "\<exists>ip. parse_ipv4 (bc_bind config) = Some ip \<and> bs_addr st = (ip, bc_port config)
     \<and> bs_enroll_addr st = Inr (ip, bc_enroll_port config)
     \<and> \<not> is_unspecified ip \<and> (is_loopback ip \<or> is_tailscale_or_private ip)
     \<and> fst (load_server_config K (data_path config) d) = Inr (bs_tls st)
     \<and> (bs_advertised st = None \<longleftrightarrow> \<not> bc_mdns_advertise config)"
proof -
  obtain a d1 where ok: "validate_bind parse_v6 config = Inr ()"
      and addr: "listen_addr parse_v6 (bc_bind config) (bc_port config) = Inr a"
      and tls: "load_server_config K (data_path config) d = (Inr (bs_tls st), d1)"
      and st: "bs_addr st = a" "bs_advertised st = spawn_if_enabled hostname config"
        "bs_enroll_addr st = listen_addr parse_v6 (bc_bind config) (bc_enroll_port config)"
    using assms(1) by (auto simp: run_bridge_def andthen_eq_Inr split: sum.splits prod.splits)
  obtain ip where ip: "parse_ip parse_v6 (bc_bind config) = Some ip" "\<not> is_unspecified ip"
      "is_loopback ip \<or> is_tailscale_or_private ip"
    using ok by (auto simp: validate_bind_def split: option.splits if_splits)
  have "parse_ipv4 (bc_bind config) = Some ip"
  proof (cases "parse_ipv4 (bc_bind config)")
    case None
    then obtain gs where "parse_v6 (bc_bind config) = Some gs" using ip(1) by (auto simp: parse_ip_def)
    then have "hd (bc_bind config) \<noteq> CHR ''[''" using assms(2) by blast
    then show ?thesis using addr None by (simp add: listen_addr_run)
  next
    case (Some ip')
    then show ?thesis using ip(1) by (simp add: parse_ip_def)
  qed
  then show ?thesis using ip addr st tls by (auto simp: listen_addr_run spawn_if_enabled_def)
qed

theorem bridge_starts_on_local_ipv4_witness:
  "\<exists>st d'. run_bridge (\<lambda>_. None) demo_pki (Some ''mac'') demo_saved demo_started = (Inr st, d')
     \<and> bs_addr st = (V4 10 0 0 2, 18789)"
proof -
  let ?run = "run_bridge (\<lambda>_. None) demo_pki (Some ''mac'') demo_saved demo_started"
  have "case fst ?run of Inr _ \<Rightarrow> True | Inl _ \<Rightarrow> False" by code_simp
  then obtain st d' where run: "?run = (Inr st, d')" by (cases ?run) (auto split: sum.splits)
  have "parse_ipv4 (bc_bind demo_saved) = Some (V4 10 0 0 2)" "bc_port demo_saved = 18789" by code_simp+
  then show ?thesis using bridge_starts_on_local_ipv4 [OF run] run by auto
qed

text \<open>a second daemon takes the socket of the first, which goes on without it.\<close>

theorem socket_is_taken_over:
  assumes "node_at (dk_root d) p = Some (Plain [])" "p \<noteq> []" "dk_denied d = (\<lambda>_. None)"
  shows "\<exists>d'. serve_socket p d = (Inr (), d')"
proof -
  have snoc: "p = butlast p @ [last p]" using assms(2) by simp
  then have dir: "dir_at (dk_root d) (butlast p)" using assms(1) node_at_snoc [of "dk_root d" "butlast p" "last p"]
    by (auto simp: dir_at_iff)
  let ?d1 = "d\<lparr>dk_root := cut_at p (dk_root d)\<rparr>"
  let ?d2 = "?d1\<lparr>dk_root := put_at p (Plain []) (dk_root ?d1)\<rparr>"
  have "node_at (dk_root ?d1) p = None" using cut_at_gone [OF assms(2), of _ "[]"] by simp
  moreover have dir1: "dir_at (dk_root ?d1) (butlast p)"
    using cut_at_keeps_parent [OF dir, of "last p"] assms(2) by simp
  ultimately have "with_context ''bind unix socket'' (bind_socket p) ?d1 = (Inr (), ?d2)"
    using assms(3) by (simp add: bind_socket_def with_context_def andthen_apply permitted_def)
  moreover have "ignoring (remove_file p) d = (Inr (), ?d1)"
    using assms(1,3) by (simp add: ignoring_def remove_file_def andthen_apply permitted_def)
  moreover have "node_at (dk_root ?d2) p = Some (Plain [])" using put_at_same [of "dk_root ?d1" p] dir1 by simp
  then have "set_mode p ?d2 = (Inr (), ?d2)"
    using assms(3) by (simp add: set_mode_def andthen_apply permitted_def exists_plain)
  ultimately show ?thesis using create_dir_all_there [OF dir] by (simp add: serve_socket_def)
qed

theorem socket_is_taken_over_witness:
  "\<exists>d'. serve_socket [''sock''] \<lparr> dk_root = Dir [(''sock'', Plain [])], dk_denied = (\<lambda>_. None) \<rparr> = (Inr (), d')"
  by (rule socket_is_taken_over) simp_all

end
