(* ===== verification/Spec2Isabelle.thy ===== *)
theory Spec2Isabelle
  imports Cache_Contract Sync_Contract Store_Contract Session_Contract Server_Contract
    Loop_Contract Link_Contract Bridge_Contract Bridge_Server_Contract Tls_Contract Commands_Contract
    Daemon_Contract Reply_Types Sync_Commands Setup_Contract Setup_Push Install_Contract Cli_Contract Startup
begin

text \<open>
  A verification development of \<^verbatim>\<open>imsg\<close>, which brings a Mac's iMessage history to a Linux desktop.

  \<^bold>\<open>The program.\<close>  It has five crates.  \<^verbatim>\<open>proto\<close> is the envelope that both sockets speak.  \<^verbatim>\<open>sync\<close> is the daemon on
  Linux: it reads a BlueBubbles server over HTTP, by polling and through a webhook, keeps the messages in an SQLite
  cache, and serves it to the desktop over a Unix socket.  \<^verbatim>\<open>bridge\<close> is the server on the Mac: a websocket with
  client certificates in front of the program \<^verbatim>\<open>imsg\<close> of steipete, the pairing of new clients, and the
  authorisation of Contacts.  \<^verbatim>\<open>setup\<close> pairs a client with a bridge and sets up another machine over ssh.
  \<^verbatim>\<open>cli\<close> is the command \<^verbatim>\<open>imsg\<close> with its installer.

  \<^bold>\<open>Shared vocabulary.\<close>  \<^verbatim>\<open>Prelude\<close>: text (a \<^typ>\<open>string\<close> is a list of Unicode scalars up to U+00FF), words of the
  source's widths, and state-passing actions that fail with a value (\<^verbatim>\<open>andthen\<close>, \<^verbatim>\<open>ret\<close>, \<^verbatim>\<open>raise\<close>), with the
  collections \<^verbatim>\<open>act_simps\<close>, \<^verbatim>\<open>text_simps\<close> and \<^verbatim>\<open>keeps_intros\<close>; \<^verbatim>\<open>keeps P m\<close> says that an action keeps an
  invariant on every path, errors included.  \<^verbatim>\<open>Json\<close> is \<^verbatim>\<open>serde_json::Value\<close>, \<^verbatim>\<open>Float64\<close> binary64 as rationals with
  its rounding, \<^verbatim>\<open>Files\<close> the file system as a tree with links and refusals, \<^verbatim>\<open>Polling\<close> the loops that run to a
  deadline, \<^verbatim>\<open>Report\<close> the reports of the doctors.

  \<^bold>\<open>Theories and code.\<close>
  \<^item> \<^verbatim>\<open>proto\<close>: \<^verbatim>\<open>Proto\<close> (\<^verbatim>\<open>lib.rs\<close>, \<^verbatim>\<open>event.rs\<close>).
  \<^item> \<^verbatim>\<open>sync\<close>, data: \<^verbatim>\<open>Domain\<close>, \<^verbatim>\<open>Timestamp\<close> and \<^verbatim>\<open>Contact_Book\<close> (\<^verbatim>\<open>domain.rs\<close>), \<^verbatim>\<open>Config\<close> (\<^verbatim>\<open>config.rs\<close>).
  \<^item> \<^verbatim>\<open>sync\<close>, cache (\<^verbatim>\<open>cache.rs\<close>): \<^verbatim>\<open>Cache_Store\<close> the tables and the identity registry, \<^verbatim>\<open>Cache\<close> the writing
    operations with the invariant \<^verbatim>\<open>cache_ok\<close>, \<^verbatim>\<open>Cache_Query\<close> the reading ones, \<^verbatim>\<open>Cache_Repair\<close> opening a database,
    \<^verbatim>\<open>Cache_Live\<close> lemmas on the live path, \<^verbatim>\<open>Cache_Rows\<close> that no row is ever lost, \<^verbatim>\<open>Cache_Contract\<close> the properties.
  \<^item> \<^verbatim>\<open>sync\<close>, sources: \<^verbatim>\<open>Bb\<close> and \<^verbatim>\<open>Seen_Window\<close> (\<^verbatim>\<open>bb.rs\<close>, \<^verbatim>\<open>uplink.rs\<close>), \<^verbatim>\<open>Webhook\<close> (\<^verbatim>\<open>webhook.rs\<close>), \<^verbatim>\<open>Sync_Contract\<close>.
  \<^item> \<^verbatim>\<open>sync\<close>, settings: \<^verbatim>\<open>Store\<close> and \<^verbatim>\<open>Store_Contract\<close> (\<^verbatim>\<open>link/store.rs\<close>, \<^verbatim>\<open>link/secret.rs\<close>), \<^verbatim>\<open>Link\<close> and
    \<^verbatim>\<open>Link_Contract\<close> (\<^verbatim>\<open>link/mod.rs\<close>).
  \<^item> \<^verbatim>\<open>sync\<close>, session: \<^verbatim>\<open>Session\<close>, \<^verbatim>\<open>Session_Safe\<close> and \<^verbatim>\<open>Session_Contract\<close> (\<^verbatim>\<open>client.rs\<close>) are one generation after
    another on a schedule; \<^verbatim>\<open>Session_Loop\<close> and \<^verbatim>\<open>Loop_Contract\<close> are the loop of \<^verbatim>\<open>link/mod.rs\<close> beside the requests that
    wake it, as the step relation \<^verbatim>\<open>sys_step\<close>.
  \<^item> \<^verbatim>\<open>sync\<close>, socket: \<^verbatim>\<open>Socket_Server\<close>, \<^verbatim>\<open>Server_Safe\<close>, \<^verbatim>\<open>Server_Contract\<close> (\<^verbatim>\<open>socket_server.rs\<close>); \<^verbatim>\<open>Sync_Commands\<close>
    (\<^verbatim>\<open>commands.rs\<close>).
  \<^item> \<^verbatim>\<open>sync\<close>, the whole daemon: \<^verbatim>\<open>Daemon\<close> starts it (\<^verbatim>\<open>run_daemon\<close> of \<^verbatim>\<open>commands.rs\<close>) and runs its session, its handlers
    and its clients beside each other, as the step relation \<^verbatim>\<open>daemon_step\<close>; \<^verbatim>\<open>Daemon_Contract\<close> has what holds of every
    run, \<^verbatim>\<open>Doc_Types\<close> the types of the stored documents and \<^verbatim>\<open>Reply_Types\<close> those of the replies.
  \<^item> \<^verbatim>\<open>bridge\<close>: \<^verbatim>\<open>Bridge\<close> and \<^verbatim>\<open>Bridge_Contract\<close> (\<^verbatim>\<open>config.rs\<close>, \<^verbatim>\<open>pairing.rs\<close>, \<^verbatim>\<open>attachments.rs\<close>), \<^verbatim>\<open>Imsg_Rpc\<close>
    (\<^verbatim>\<open>imsg_rpc.rs\<close>), \<^verbatim>\<open>Contacts_Auth\<close> (\<^verbatim>\<open>contacts.rs\<close>, \<^verbatim>\<open>steipete.rs\<close>), \<^verbatim>\<open>Bridge_Server\<close> and
    \<^verbatim>\<open>Bridge_Server_Contract\<close> (\<^verbatim>\<open>server.rs\<close>), \<^verbatim>\<open>Tls\<close> and \<^verbatim>\<open>Tls_Contract\<close> (\<^verbatim>\<open>tls.rs\<close>), \<^verbatim>\<open>Bridge_Commands\<close> and
    \<^verbatim>\<open>Commands_Contract\<close> (\<^verbatim>\<open>commands.rs\<close>), \<^verbatim>\<open>Discover\<close> (\<^verbatim>\<open>mdns_advertise.rs\<close>, and \<^verbatim>\<open>discover.rs\<close> of the setup).
  \<^item> \<^verbatim>\<open>setup\<close>: \<^verbatim>\<open>Setup_Steps\<close> (\<^verbatim>\<open>step.rs\<close>), \<^verbatim>\<open>Setup_Pair\<close> (\<^verbatim>\<open>enroll.rs\<close>, \<^verbatim>\<open>paths.rs\<close>, \<^verbatim>\<open>doctor.rs\<close>), \<^verbatim>\<open>Setup_Push\<close>
    (\<^verbatim>\<open>push.rs\<close>), \<^verbatim>\<open>Setup_Contract\<close>.
  \<^item> \<^verbatim>\<open>cli\<close>: \<^verbatim>\<open>Install\<close> and \<^verbatim>\<open>Install_Contract\<close> (\<^verbatim>\<open>install.rs\<close>, \<^verbatim>\<open>info.rs\<close>), \<^verbatim>\<open>Cli\<close> and \<^verbatim>\<open>Cli_Contract\<close>
    (\<^verbatim>\<open>setup_step.rs\<close>, \<^verbatim>\<open>setup_cmd.rs\<close>, \<^verbatim>\<open>main.rs\<close>).
  \<^item> \<^verbatim>\<open>Startup\<close>: the start of the servers (\<^verbatim>\<open>run\<close> of \<^verbatim>\<open>bridge/src/server.rs\<close>, \<^verbatim>\<open>serve\<close> of \<^verbatim>\<open>sync/src/socket_server.rs\<close>,
    \<^verbatim>\<open>bind_local\<close> of \<^verbatim>\<open>sync/src/webhook.rs\<close>).

  \<^bold>\<open>State.\<close>  A struct is a record, an enum a datatype, an integer a word of its width where it can wrap.  A mutex or
  \<^verbatim>\<open>RwLock\<close> around data is that data; the parts of the daemon are the record \<^verbatim>\<open>daemon\<close> (cache, link, uplink,
  events).  A table of the database is a list ordered by its key, a transaction restores the state it began with.
  Requests that race are split at every shared write: \<^verbatim>\<open>sys_step\<close> for a reconnect, \<^verbatim>\<open>enroll_step\<close> for an enrolment,
  \<^verbatim>\<open>rpc_step\<close> for the calls of \<^verbatim>\<open>imsg\<close>.  The tasks of the daemon are split into the operations on its shared state
  (\<^verbatim>\<open>work\<close>): others may run between any two of them, and a task may end after any of them.  A task holds what
  \<^verbatim>\<open>apply_domain_message\<close> returned to it until it announces it, so a state of \<^verbatim>\<open>work\<close> and \<^verbatim>\<open>daemon_step\<close> is the daemon with
  these outcomes; no step asks whether an announced message is stored.  Beside the operations \<^verbatim>\<open>daemon_step\<close> has
  the session of the code in one step (\<^verbatim>\<open>run_generation\<close>, with the work of the others as its schedule) and the
  handlers of the clients.  An attempt to authorise Contacts is the loop \<^verbatim>\<open>auth_loop\<close> and, for what happened in it, the
  states it reaches (\<^verbatim>\<open>auth_next\<close>, \<^verbatim>\<open>auth_reaches\<close>); a call of \<^verbatim>\<open>imsg\<close> that is never answered is \<^verbatim>\<open>NoAnswer\<close>.

  \<^bold>\<open>Interfaces.\<close>  A client's use of a component is a locale with an interpretation on the code's own definitions:
  \<^verbatim>\<open>identity_registry\<close> (\<^verbatim>\<open>id_for_guid\<close>), \<^verbatim>\<open>seen_window\<close> (\<^verbatim>\<open>remember_message\<close> and \<^verbatim>\<open>dedupe_guid\<close>),
  \<^verbatim>\<open>secret_slot\<close> (the two entries of the keyring) and \<^verbatim>\<open>deadline_loop\<close> (the wait of the setup and the browsing).
  \<^verbatim>\<open>daemon_state\<close> is what the session and the handlers ask of the daemon's operations to keep a predicate of its
  state, \<^verbatim>\<open>daemon_invariant\<close> adds the announcements in the order in which the code makes them, after the delivery they
  announce, and \<^verbatim>\<open>daemon_fact\<close> allows them at any moment once the message is stored; it gives the former as a sublocale.  Interpretations of
  \<^verbatim>\<open>daemon_fact\<close> are a sound cache (\<^verbatim>\<open>safe\<close>), announced messages that are stored (\<^verbatim>\<open>published\<close>), a history that only
  grows (\<^verbatim>\<open>history\<close>) and typed documents (\<^verbatim>\<open>typed\<close>); the one of \<^verbatim>\<open>daemon_invariant\<close> is what single operations can
  reach (\<^verbatim>\<open>tasks\<close>), so that the code's session and handlers are made of \<^verbatim>\<open>work\<close>.

  \<^bold>\<open>What is shown.\<close>
  \<^item> Cache: every operation keeps the rows in step with their documents, ids and guids determine each other, a message
    counts once however often it is delivered, a merge loses nothing, a failed write changes nothing.
  \<^item> Session: a reconnect that is asked for is carried out, unless an older one overtakes it, a generation keeps the
    cache sound whatever the network does, a session that ended looks down.
  \<^item> Server: no handler panics on a sound cache, each request is answered at most once, no reply depends on a secret.
  \<^item> Daemon: in every run of all tasks together what is announced is stored, the database can be opened again, a
    subscriber misses nothing without being told, and each method answers with its own type of document.  Where the
    database cannot be opened again the reason is the id search that never ends.
  \<^item> Settings: what is committed is loaded, a plaintext password moves to the keyring, a token is kept.
  \<^item> Bridge: who gets a certificate and how often a code can be guessed one request after another (and that
    requests at once are not bounded), what passes to \<^verbatim>\<open>imsg\<close>, that an authorisation ends and says only what it saw,
    where a bridge that starts listens.
  \<^item> Setup and installer: both ends of a pairing agree, commands run in order, waits end, a plugin is copied exactly.
  \<^item> Errors of the code that came up: an id search that never ends, guesses that race, a failed first start that is
    final, a pairing that takes the settings of the daemon away, an installer that destroys its own program.

  \<^bold>\<open>Bounds and fuel.\<close>  The deadline loops are partial functions, so not returning is \<^verbatim>\<open>None\<close>, and that they return is a
  theorem.  \<^verbatim>\<open>id_loop\<close> has fuel, a round per unit; \<^verbatim>\<open>id_for_guid\<close> gives it two, and running out is the error
  \<^verbatim>\<open>NoReturn\<close>.  Two are enough: the second round proposes an id above all others, so it either ends or the search never
  does, with any fuel (\<^verbatim>\<open>id_for_guid_returns_iff\<close>).  \<^verbatim>\<open>AUTH_FUEL\<close> = 140 rounds of an authorisation are enough
  because a round takes at least its pause and the attempt its limit (\<^verbatim>\<open>contacts_attempt_ends\<close>); a wait inside a
  round that never ends is \<^verbatim>\<open>NoAnswer\<close>, which the timer around the attempt turns into \<^verbatim>\<open>TimedOut\<close>.
  The session settles within 8 steps.  \<^verbatim>\<open>copy_dir\<close> takes the depth of the tree as fuel, and that depth is enough.  Links
  are followed 40 times, as the system does.  A chat limit or a port read from JSON is a word of 64 bits before it
  is narrowed, as in the code.

  \<^bold>\<open>Parameters.\<close>  Code outside the repository: reqwest and the server behind it, serde_json's text layer, toml, the url
  crate, chrono's text of a date, SHA-256 and HMAC, rcgen and rustls, the keyring, mdns-sd, the IPv6 parser, other
  programs, the clock.  A hypothesis about one of them states what its documentation says, and each such theorem
  has a witness with a concrete instance.

  \<^bold>\<open>Not modelled.\<close>
  \<^item> A future that is dropped inside one operation on the shared state: an operation on the cache, which the code runs
    under its lock, is one step.  The theorems that speak of one handler or one generation take it as one step, or
    as the steps of \<^verbatim>\<open>sys_step\<close> and \<^verbatim>\<open>enroll_step\<close>; those on \<^verbatim>\<open>daemon_step\<close> take the operations one by one.
  \<^item> Failures of sqlx other than those of the statements themselves; a write of a file that fails half way (a write
    is refused as a whole here, and then changes nothing); links inside a path (only its end is followed).
  \<^item> \<^verbatim>\<open>serve\<close> of the bridge's commands is its definition up to the call of the server, whose start is in \<^verbatim>\<open>Startup\<close>.
    \<^verbatim>\<open>client_allowed\<close> is called nowhere in the source; what admits a client is the authority that signed it.
  \<^item> Characters above U+00FF, and the scope of an IPv6 address.
  \<^item> TLS itself, accepting connections, axum's routing.
  \<^item> The declarations of clap, logging and printing (\<^verbatim>\<open>main.rs\<close> of each crate, \<^verbatim>\<open>bridge_cmd.rs\<close>, \<^verbatim>\<open>sync_cmd.rs\<close>), and the
    parts in other languages: the wizard (\<^verbatim>\<open>tui\<close>), the plugin, the packaging.
\<close>

end
